(* ===== verification/Prelude.thy ===== *)
theory Prelude
  imports Main "HOL-Library.Word"
begin

text \<open>
  Shared vocabulary of the development: the machine integers of the Rust sources, the
  combinators of \<open>Result\<close> and \<open>Option\<close> that the sources use with the question-mark operator,
  big-endian byte encodings, and the generic facts the component theories rely on.

  \<^item> \<open>u8\<close> \<dots> \<open>u128\<close> are \<open>8 word\<close> \<dots> \<open>128 word\<close>; \<open>+\<close> wraps, \<open><\<close> compares unsigned values.
  \<^item> A \<open>Result<T, E>\<close> is \<open>'e + 't\<close>: \<open>Inl\<close> is \<open>Err\<close>, \<open>Inr\<close> is \<open>Ok\<close>.
  \<^item> A byte array is a list of \<open>u8\<close>; \<open>be_digits n v\<close> are the \<open>n\<close> big-endian bytes of \<open>v\<close> and
    \<open>be_value\<close> is the value of such a list.
  \<^item> The collection \<open>res\<close> holds the rules that unfold a successful chain of fallible steps.
\<close>

named_theorems res \<open>rules that decompose successful results\<close>

type_synonym u8 = "8 word"
type_synonym u16 = "16 word"
type_synonym u32 = "32 word"
type_synonym u64 = "64 word"
type_synonym u128 = "128 word"


section \<open>Results and options\<close>

text \<open>\<open>and_then m f\<close> is \<open>f(m?)\<close>: an error is returned at once.\<close>

definition and_then :: "'e + 'a \<Rightarrow> ('a \<Rightarrow> 'e + 'b) \<Rightarrow> 'e + 'b" where
  "and_then m f = (case m of Inl e \<Rightarrow> Inl e | Inr x \<Rightarrow> f x)"

definition map_err :: "('e \<Rightarrow> 'f) \<Rightarrow> 'e + 'a \<Rightarrow> 'f + 'a" where
  "map_err h m = (case m of Inl e \<Rightarrow> Inl (h e) | Inr x \<Rightarrow> Inr x)"

definition ok_or :: "'e \<Rightarrow> 'a option \<Rightarrow> 'e + 'a" where
  "ok_or e m = (case m of None \<Rightarrow> Inl e | Some x \<Rightarrow> Inr x)"

text \<open>\<open>Result::ok\<close> and \<open>Option::unwrap_or\<close>.\<close>

definition res_ok :: "'e + 'a \<Rightarrow> 'a option" where
  "res_ok m = (case m of Inl _ \<Rightarrow> None | Inr x \<Rightarrow> Some x)"

definition unwrap_or :: "'a \<Rightarrow> 'a option \<Rightarrow> 'a" where
  "unwrap_or d m = (case m of None \<Rightarrow> d | Some x \<Rightarrow> x)"

text \<open>\<open>bail_if c e\<close> is \<open>if c { return Err(e) }\<close>.\<close>

definition bail_if :: "bool \<Rightarrow> 'e \<Rightarrow> 'e + unit" where
  "bail_if c e = (if c then Inl e else Inr ())"

lemma and_then_simps [simp]:
  "and_then (Inl e) f = Inl e" "and_then (Inr x) f = f x"
  by (simp_all add: and_then_def)

lemma and_then_eq_Inr [res]: "and_then m f = Inr y \<longleftrightarrow> (\<exists>x. m = Inr x \<and> f x = Inr y)"
  by (cases m) auto

lemma and_then_eq_Inl: "and_then m f = Inl e \<longleftrightarrow> m = Inl e \<or> (\<exists>x. m = Inr x \<and> f x = Inl e)"
  by (cases m) auto

lemma and_then_cong [fundef_cong]:
  "m = m' \<Longrightarrow> (\<And>x. m' = Inr x \<Longrightarrow> f x = g x) \<Longrightarrow> and_then m f = and_then m' g"
  by (cases m') auto

lemma map_err_simps [simp]:
  "map_err h (Inl e) = Inl (h e)" "map_err h (Inr x) = Inr x"
  by (simp_all add: map_err_def)

lemma map_err_eq_Inr [simp]: "map_err h m = Inr y \<longleftrightarrow> m = Inr y"
  by (cases m) auto

lemma ok_or_simps [simp]: "ok_or e None = Inl e" "ok_or e (Some x) = Inr x"
  by (simp_all add: ok_or_def)

lemma ok_or_eq_Inr [simp]: "ok_or e m = Inr x \<longleftrightarrow> m = Some x"
  by (cases m) auto

lemma res_ok_simps [simp]: "res_ok (Inl e) = None" "res_ok (Inr x) = Some x"
  by (simp_all add: res_ok_def)

lemma res_ok_eq_Some [simp]: "res_ok m = Some x \<longleftrightarrow> m = Inr x"
  by (cases m) auto

lemma unwrap_or_simps [simp]: "unwrap_or d None = d" "unwrap_or d (Some x) = x"
  by (simp_all add: unwrap_or_def)

lemma bail_if_simps [simp]: "bail_if True e = Inl e" "bail_if False e = Inr ()"
  by (simp_all add: bail_if_def)

lemma bail_if_eq_Inr [simp]: "bail_if c e = Inr u \<longleftrightarrow> \<not> c"
  by (simp add: bail_if_def)

lemma bail_if_eq_Inl [simp]: "bail_if c e = Inl e' \<longleftrightarrow> c \<and> e' = e"
  by (auto simp: bail_if_def)


section \<open>Checked and saturating arithmetic\<close>

definition checked_add :: "'a::len word \<Rightarrow> 'a word \<Rightarrow> 'a word option" where
  "checked_add a b = (if unat a + unat b < 2 ^ LENGTH('a) then Some (a + b) else None)"

definition checked_sub :: "'a::len word \<Rightarrow> 'a word \<Rightarrow> 'a word option" where
  "checked_sub a b = (if b \<le> a then Some (a - b) else None)"

lemma checked_sub_Some [simp]: "checked_sub a b = Some c \<longleftrightarrow> b \<le> a \<and> c = a - b"
  by (auto simp: checked_sub_def)

lemma checked_add_unat: "checked_add a b = Some c \<Longrightarrow> unat c = unat a + unat b"
  by (auto simp: checked_add_def unat_word_ariths split: if_splits)

lemma unat_pow2:
  assumes "h < LENGTH('a::len)"
  shows "unat (2 ^ h :: 'a word) = 2 ^ h"
proof -
  have "(2 :: nat) ^ h < 2 ^ LENGTH('a)" using assms by (rule power_strict_increasing) simp
  then show ?thesis using unat_of_nat [of "2 ^ h", where 'a = 'a] by simp
qed

lemma unat_push_bit_1: "h < LENGTH('a::len) \<Longrightarrow> unat (push_bit h 1 :: 'a word) = 2 ^ h"
  by (simp add: push_bit_eq_mult unat_pow2)


text \<open>Widening casts (\<open>as u64\<close>) keep the value.\<close>

lemma unat_ucast_up: "LENGTH('a::len) \<le> LENGTH('b::len) \<Longrightarrow> unat (ucast (a :: 'a word) :: 'b word) = unat a"
  by (simp add: unsigned_ucast_eq take_bit_nat_eq_self less_le_trans [OF unsigned_less] power_increasing)

lemma ucast_up_inject:
  "LENGTH('a::len) \<le> LENGTH('b::len) \<Longrightarrow> (ucast (a :: 'a word) :: 'b word) = ucast b \<longleftrightarrow> a = b"
  by (metis unat_ucast_up word_unat_eq_iff)


section \<open>Big-endian bytes\<close>

fun be_digits :: "nat \<Rightarrow> nat \<Rightarrow> u8 list" where
  "be_digits 0 v = []"
| "be_digits (Suc n) v = be_digits n (v div 256) @ [of_nat (v mod 256)]"

definition be_value :: "u8 list \<Rightarrow> nat" where
  "be_value bs = foldl (\<lambda>acc b. acc * 256 + unat b) 0 bs"

lemma length_be_digits [simp]: "length (be_digits n v) = n"
  by (induction n arbitrary: v) auto

lemma be_value_Nil [simp]: "be_value [] = 0"
  by (simp add: be_value_def)

lemma be_value_snoc [simp]: "be_value (bs @ [b]) = be_value bs * 256 + unat b"
  by (simp add: be_value_def)

lemma be_value_append: "be_value (xs @ ys) = be_value xs * 256 ^ length ys + be_value ys"
proof (induction ys rule: rev_induct)
  case Nil
  show ?case by simp
next
  case (snoc y ys)
  have "be_value (xs @ ys @ [y]) = be_value (xs @ ys) * 256 + unat y"
    by (metis append_assoc be_value_snoc)
  then show ?case using snoc.IH by (simp add: algebra_simps)
qed

lemma be_value_Cons: "be_value (b # bs) = unat b * 256 ^ length bs + be_value bs"
  using be_value_append [of "[b]" bs] be_value_snoc [of "[]" b] by simp

lemma be_value_replicate0 [simp]: "be_value (replicate n 0) = 0"
  by (induction n) (simp_all add: be_value_Cons)

lemma unat_u8_less [simp]: "unat (b :: u8) < 256"
  using unsigned_less [of b, where 'a = nat] by simp

lemma be_value_less: "be_value bs < 256 ^ length bs"
proof (induction bs rule: rev_induct)
  case Nil
  show ?case by simp
next
  case (snoc b bs)
  have "be_value bs * 256 + unat b < (be_value bs + 1) * 256"
    using unat_u8_less [of b] by simp
  also have "\<dots> \<le> 256 ^ length bs * 256"
    using snoc.IH by (intro mult_right_mono) auto
  finally show ?case by (simp add: mult.commute)
qed

lemma unat_of_nat_u8: "v < 256 \<Longrightarrow> unat (of_nat v :: u8) = v"
  by (simp add: unat_of_nat)

lemma be_value_digits: "be_value (be_digits n v) = v mod 256 ^ n"
proof (induction n arbitrary: v)
  case 0
  show ?case by simp
next
  case (Suc n)
  have "be_value (be_digits (Suc n) v) = (v div 256) mod 256 ^ n * 256 + v mod 256"
    using Suc.IH by (simp add: unat_of_nat_u8)
  also have "\<dots> = v mod (256 * 256 ^ n)"
    by (simp add: mod_mult2_eq mult.commute)
  finally show ?case by simp
qed

lemma be_value_digits_id: "v < 256 ^ n \<Longrightarrow> be_value (be_digits n v) = v"
  by (simp add: be_value_digits)

lemma be_digits_value: "be_digits (length bs) (be_value bs) = bs"
proof (induction bs rule: rev_induct)
  case Nil
  show ?case by simp
next
  case (snoc b bs)
  have "(be_value bs * 256 + unat b) div 256 = be_value bs"
    and "(be_value bs * 256 + unat b) mod 256 = unat b"
    using unat_u8_less [of b] by (simp_all add: div_add1_eq)
  then show ?case using snoc.IH by simp
qed

lemma be_value_inj: "length xs = length ys \<Longrightarrow> be_value xs = be_value ys \<Longrightarrow> xs = ys"
  by (metis be_digits_value)

text \<open>The order of byte arrays in Rust is lexicographic; on arrays of one length it is the order
  of the values.\<close>

fun bytes_less :: "u8 list \<Rightarrow> u8 list \<Rightarrow> bool" where
  "bytes_less xs [] = False"
| "bytes_less [] (y # ys) = True"
| "bytes_less (x # xs) (y # ys) = (x < y \<or> (x = y \<and> bytes_less xs ys))"

lemma mult_add_less:
  fixes a b r s m :: nat
  assumes "a < b" "r < m"
  shows "a * m + r < b * m + s"
proof -
  have "a * m + r < (a + 1) * m" using assms(2) by simp
  also have "\<dots> \<le> b * m" using assms(1) by (intro mult_right_mono) auto
  finally show ?thesis by simp
qed

lemma bytes_less_value:
  "length xs = length ys \<Longrightarrow> bytes_less xs ys \<longleftrightarrow> be_value xs < be_value ys"
proof (induction xs ys rule: bytes_less.induct)
  case (3 x xs y ys)
  have len: "length xs = length ys" using "3.prems" by simp
  consider "unat x < unat y" | "unat y < unat x" | "x = y"
    by (metis linorder_neqE_nat word_unat_eq_iff)
  then show ?case
  proof cases
    case 1
    then show ?thesis using mult_add_less [OF 1 be_value_less [of xs], of "be_value ys"] len
      by (auto simp: be_value_Cons word_less_nat_alt)
  next
    case 2
    then show ?thesis using mult_add_less [OF 2 be_value_less [of ys], of "be_value xs"] len
      by (auto simp: be_value_Cons word_less_nat_alt)
  next
    case 3
    then show ?thesis using "3.IH" len by (simp add: be_value_Cons)
  qed
qed (auto dest: sym)


section \<open>Characters and bytes\<close>

text \<open>A Rust \<open>str\<close> is its UTF-8 bytes, one \<open>char\<close> per byte.\<close>

definition as_bytes_str :: "string \<Rightarrow> u8 list" where
  "as_bytes_str s = map of_char s"

lemma length_as_bytes_str [simp]: "length (as_bytes_str s) = length s"
  by (simp add: as_bytes_str_def)

lemma unat_of_char: "unat (of_char c :: u8) = of_char c"
proof -
  have "(of_char c :: u8) = of_nat (of_char c)" by (simp only: of_nat_of_char)
  moreover have "(of_char c :: nat) < 256"
    by (metis of_char_mod_256 mod_less_divisor zero_less_numeral)
  ultimately show ?thesis by (metis unat_of_nat_u8)
qed

lemma of_char_u8_inject [simp]: "(of_char c :: u8) = of_char d \<longleftrightarrow> c = d"
  by (metis unat_of_char of_char_eq_iff)

lemma as_bytes_str_inject [simp]: "as_bytes_str s = as_bytes_str t \<longleftrightarrow> s = t"
  unfolding as_bytes_str_def by (rule inj_map_eq_map) (auto simp: inj_def)


section \<open>Lists\<close>

text \<open>\<open>chunks n k xs\<close> are the first \<open>k\<close> consecutive pieces of length \<open>n\<close>.\<close>

fun chunks :: "nat \<Rightarrow> nat \<Rightarrow> 'a list \<Rightarrow> 'a list list" where
  "chunks n 0 xs = []"
| "chunks n (Suc k) xs = take n xs # chunks n k (drop n xs)"

lemma length_chunks [simp]: "length (chunks n k xs) = k"
  by (induction k arbitrary: xs) auto

lemma chunks_concat:
  "(\<And>p. p \<in> set ps \<Longrightarrow> length p = n) \<Longrightarrow> chunks n (length ps) (concat ps) = ps"
  by (induction ps) auto

text \<open>Fallible map, stopping at the first error (\<open>collect::<Result<Vec<_>>>\<close>).\<close>

fun try_map :: "('x \<Rightarrow> 'err + 'y) \<Rightarrow> 'x list \<Rightarrow> 'err + 'y list" where
  "try_map f [] = Inr []"
| "try_map f (x # xs) = and_then (f x) (\<lambda>y. and_then (try_map f xs) (\<lambda>ys. Inr (y # ys)))"

lemma try_map_map_Inr: "(\<And>x. x \<in> set xs \<Longrightarrow> f x = Inr (g x)) \<Longrightarrow> try_map f xs = Inr (map g xs)"
  by (induction xs) auto

lemma try_map_append:
  "try_map f (xs @ ys) = and_then (try_map f xs) (\<lambda>as. and_then (try_map f ys) (\<lambda>bs. Inr (as @ bs)))"
proof (induction xs)
  case (Cons x xs)
  then show ?case by (cases "f x"; cases "try_map f xs"; cases "try_map f ys") auto
next
  case Nil
  show ?case by (cases "try_map f ys") auto
qed

lemma try_map_InrD: "try_map f xs = Inr ys \<Longrightarrow> list_all2 (\<lambda>x y. f x = Inr y) xs ys"
  by (induction xs arbitrary: ys) (auto simp: and_then_eq_Inr)

lemma take_drop_concat:
  "\<forall>p \<in> set ps. length p = n \<Longrightarrow> i < length ps \<Longrightarrow> take n (drop (i * n) (concat ps)) = ps ! i"
proof (induction ps arbitrary: i)
  case (Cons p ps)
  then show ?case by (cases i) (simp_all add: drop_Cons')
qed simp

lemma try_map_nth:
  assumes "\<And>i. i < length ps \<Longrightarrow> f i = g (ps ! i)"
  shows "try_map f [0..<length ps] = try_map g ps"
proof -
  have "try_map f is = try_map g (map ((!) ps) is)" if "set is \<subseteq> {..<length ps}" for "is"
    using that assms by (induction "is") auto
  from this [of "[0..<length ps]"] show ?thesis by (simp add: map_nth atLeast0LessThan)
qed

lemma dropWhile_replicate_append:
  "replicate (length xs - length (dropWhile (\<lambda>c. c = z) xs)) z @ dropWhile (\<lambda>c. c = z) xs = xs"
proof (induction xs)
  case Nil
  show ?case by simp
next
  case (Cons x xs)
  then show ?case using length_dropWhile_le [of "\<lambda>c. c = z" xs]
    by (auto simp: Suc_diff_le)
qed

end
