(* ===== verification/Felt.thy ===== *)
theory Felt
  imports Prelude
begin

text \<open>
  Field elements on the wire: \<open>zkapi-types/src/felt.rs\<close> and the conversions of
  \<open>serialization.rs\<close>. A \<open>Felt252([u8; 32])\<close> is the 256-bit word whose big-endian bytes the
  array holds; \<open>felt_of_bytes\<close> and \<open>as_bytes\<close> are the two directions of that representation.
  Hex parsing is modelled down to the byte positions at which the code slices the padded
  string, since such a slice panics inside a multi-byte character.
\<close>

type_synonym felt = "256 word"

definition felt_of_bytes :: "u8 list \<Rightarrow> felt" where
  "felt_of_bytes bs = of_nat (be_value bs)"

definition as_bytes :: "felt \<Rightarrow> u8 list" where
  "as_bytes f = be_digits 32 (unat f)"

definition ZERO :: felt where
  "ZERO = felt_of_bytes (replicate 32 0)"

definition ONE :: felt where
  "ONE = felt_of_bytes ((replicate 32 0)[31 := 1])"

definition FIELD_MODULUS_HEX :: string where
  "FIELD_MODULUS_HEX = ''0x30644e72e131a029b85045b68181585d2833e84879b9709143e1f593f0000001''"


section \<open>Strings: prefixes, slices, hex digits\<close>

definition strip_prefix :: "'a list \<Rightarrow> 'a list \<Rightarrow> 'a list option" where
  "strip_prefix p s = (if take (length p) s = p then Some (drop (length p) s) else None)"

text \<open>Bytes \<open>10xxxxxx\<close> continue a UTF-8 sequence; a slice may not start or end at one.\<close>

definition continuation :: "char \<Rightarrow> bool" where
  "continuation c = ((of_char c :: nat) div 64 = 2)"

definition char_count :: "string \<Rightarrow> nat" where
  "char_count s = length (filter (\<lambda>c. \<not> continuation c) s)"

definition is_char_boundary :: "string \<Rightarrow> nat \<Rightarrow> bool" where
  "is_char_boundary s i = (i = 0 \<or> i = length s \<or> (i < length s \<and> \<not> continuation (s ! i)))"

text \<open>\<open>&s[a..b]\<close>; \<open>None\<close> is the panic.\<close>

definition str_slice :: "string \<Rightarrow> nat \<Rightarrow> nat \<Rightarrow> string option" where
  "str_slice s a b =
     (if a \<le> b \<and> is_char_boundary s a \<and> is_char_boundary s b then Some (take (b - a) (drop a s))
      else None)"

text \<open>\<open>format!("{:0>64}", s)\<close> pads to 64 characters, not bytes.\<close>

definition pad_left0 :: "nat \<Rightarrow> string \<Rightarrow> string" where
  "pad_left0 n s = replicate (n - char_count s) CHR ''0'' @ s"

definition hex_digit :: "char \<Rightarrow> nat option" where
  "hex_digit c = (let n = (of_char c :: nat) in
     if 48 \<le> n \<and> n \<le> 57 then Some (n - 48)
     else if 97 \<le> n \<and> n \<le> 102 then Some (n - 87)
     else if 65 \<le> n \<and> n \<le> 70 then Some (n - 55)
     else None)"

fun hex_value :: "nat \<Rightarrow> string \<Rightarrow> nat option" where
  "hex_value acc [] = Some acc"
| "hex_value acc (c # cs) = (case hex_digit c of None \<Rightarrow> None | Some d \<Rightarrow> hex_value (acc * 16 + d) cs)"

text \<open>\<open>u8::from_str_radix(s, 16)\<close>: an optional leading plus sign, at least one digit, no overflow.\<close>

definition from_str_radix16 :: "string \<Rightarrow> u8 option" where
  "from_str_radix16 s =
     (let digits = (case s of [] \<Rightarrow> [] | c # rest \<Rightarrow> if c = CHR ''+'' then rest else s) in
      if digits = [] then None
      else (case hex_value 0 digits of
              None \<Rightarrow> None
            | Some v \<Rightarrow> if v < 256 then Some (of_nat v) else None))"

definition hex_char :: "nat \<Rightarrow> char" where
  "hex_char n = ''0123456789abcdef'' ! n"

text \<open>\<open>format!("{:02x}", b)\<close>.\<close>

definition byte_hex :: "u8 \<Rightarrow> string" where
  "byte_hex b = [hex_char (unat b div 16), hex_char (unat b mod 16)]"


section \<open>The operations of \<open>Felt252\<close>\<close>

text \<open>The error messages of \<open>try_from_bytes_be\<close> and \<open>from_hex_checked\<close>; \<open>SlicePanic\<close> is the
  panic of a slice inside a character.\<close>

datatype felt_error = NotBelowModulus | HexTooLong | InvalidHex | SlicePanic

definition from_u64 :: "u64 \<Rightarrow> felt" where
  "from_u64 val = felt_of_bytes (replicate 24 0 @ be_digits 8 (unat val))"

definition from_u128 :: "u128 \<Rightarrow> felt" where
  "from_u128 val = felt_of_bytes (replicate 16 0 @ be_digits 16 (unat val))"

definition field_modulus_bytes :: "u8 list" where
  "field_modulus_bytes =
     (let hex = unwrap_or FIELD_MODULUS_HEX (strip_prefix ''0x'' FIELD_MODULUS_HEX) in
      map (\<lambda>i. the (from_str_radix16 (take 2 (drop (i * 2) hex)))) [0..<32])"

definition try_from_bytes_be :: "u8 list \<Rightarrow> felt_error + felt" where
  "try_from_bytes_be bytes =
     (if \<not> bytes_less bytes field_modulus_bytes then Inl NotBelowModulus
      else Inr (felt_of_bytes bytes))"

definition from_hex_checked :: "string \<Rightarrow> felt_error + felt" where
  "from_hex_checked s0 =
     (let s1 = unwrap_or s0 (strip_prefix ''0x'' s0);
          s = unwrap_or s1 (strip_prefix ''0X'' s1) in
      if length s > 64 then Inl HexTooLong
      else
        let padded = pad_left0 64 s in
        and_then
          (try_map (\<lambda>i. case str_slice padded (i * 2) (i * 2 + 2) of
                   None \<Rightarrow> Inl SlicePanic
                 | Some t \<Rightarrow> ok_or InvalidHex (from_str_radix16 t)) [0..<32])
          try_from_bytes_be)"

definition from_hex :: "string \<Rightarrow> felt_error + felt" where
  "from_hex s = from_hex_checked s"

definition to_hex :: "felt \<Rightarrow> string" where
  "to_hex f =
     (let hex = concat (map byte_hex (as_bytes f));
          trimmed = dropWhile (\<lambda>c. c = CHR ''0'') hex in
      if trimmed = [] then ''0x0'' else ''0x'' @ trimmed)"

definition is_zero :: "felt \<Rightarrow> bool" where
  "is_zero f = (as_bytes f = replicate 32 0)"

definition to_u64 :: "felt \<Rightarrow> u64 option" where
  "to_u64 f =
     (if take 24 (as_bytes f) \<noteq> replicate 24 0 then None
      else Some (of_nat (be_value (drop 24 (as_bytes f)))))"

definition to_u128 :: "felt \<Rightarrow> u128 option" where
  "to_u128 f =
     (if take 16 (as_bytes f) \<noteq> replicate 16 0 then None
      else Some (of_nat (be_value (drop 16 (as_bytes f)))))"


section \<open>\<open>serialization.rs\<close>\<close>

text \<open>A 20-byte address is the 160-bit word of its big-endian bytes.\<close>

type_synonym address = "160 word"

definition addr_bytes :: "address \<Rightarrow> u8 list" where
  "addr_bytes a = be_digits 20 (unat a)"

definition address_to_felt :: "address \<Rightarrow> felt" where
  "address_to_felt addr = felt_of_bytes (replicate 12 0 @ addr_bytes addr)"

definition felt_to_address :: "felt \<Rightarrow> address option" where
  "felt_to_address f =
     (if take 12 (as_bytes f) \<noteq> replicate 12 0 then None
      else Some (of_nat (be_value (drop 12 (as_bytes f)))))"

definition bool_to_felt :: "bool \<Rightarrow> felt" where
  "bool_to_felt b = (if b then ONE else ZERO)"

definition felt_to_bool :: "felt \<Rightarrow> bool option" where
  "felt_to_bool f = (if f = ZERO then Some False else if f = ONE then Some True else None)"


section \<open>Representation facts\<close>

lemma length_as_bytes [simp]: "length (as_bytes f) = 32"
  by (simp add: as_bytes_def)

lemma unat_felt_less: "unat (f :: felt) < 256 ^ 32"
  using unsigned_less [of f, where 'a = nat] by simp

lemma felt_of_as_bytes [simp]: "felt_of_bytes (as_bytes f) = f"
  by (simp add: felt_of_bytes_def as_bytes_def be_value_digits_id [OF unat_felt_less])

lemma be_value_as_bytes: "be_value (as_bytes f) = unat f"
  by (simp add: as_bytes_def be_value_digits_id [OF unat_felt_less])

lemma unat_felt_of_bytes: "length bs \<le> 32 \<Longrightarrow> unat (felt_of_bytes bs) = be_value bs"
proof -
  assume "length bs \<le> 32"
  then have "256 ^ length bs \<le> (256 :: nat) ^ 32" by (rule power_increasing) simp
  with be_value_less [of bs] have "be_value bs < 256 ^ 32" by (rule less_le_trans)
  then have "be_value bs < 2 ^ LENGTH(256)" by simp
  then show ?thesis by (simp only: felt_of_bytes_def unat_of_nat mod_less)
qed

lemma as_bytes_of_bytes [simp]: "length bs = 32 \<Longrightarrow> as_bytes (felt_of_bytes bs) = bs"
  by (simp add: as_bytes_def unat_felt_of_bytes) (metis be_digits_value)

lemma as_bytes_inject [simp]: "as_bytes f = as_bytes g \<longleftrightarrow> f = g"
  by (metis felt_of_as_bytes)

lemma ZERO_eq [simp]: "ZERO = 0"
  by (simp add: ZERO_def felt_of_bytes_def)

lemma ONE_eq [simp]: "ONE = 1"
proof -
  have "(replicate 32 0)[31 := 1] = replicate 31 0 @ [1 :: u8]"
    by (simp add: numeral_eq_Suc)
  then show ?thesis by (simp add: ONE_def felt_of_bytes_def)
qed

lemma is_zero_iff [simp]: "is_zero f \<longleftrightarrow> f = 0"
proof -
  have "as_bytes 0 = replicate 32 0"
    using as_bytes_of_bytes [of "replicate 32 0"] by (simp add: felt_of_bytes_def)
  then show ?thesis unfolding is_zero_def by (metis as_bytes_inject)
qed

lemma be_digits_drop:
  assumes "length bs = n + k" "take n bs = replicate n 0"
  shows "be_value (drop n bs) = be_value bs" "be_value bs < 256 ^ k"
proof -
  have "be_value bs = be_value (replicate n 0 @ drop n bs)"
    using assms(2) by (metis append_take_drop_id)
  then show eq: "be_value (drop n bs) = be_value bs" by (simp add: be_value_append)
  show "be_value bs < 256 ^ k"
    using be_value_less [of "drop n bs"] assms(1) eq by simp
qed

lemma take_bytes_zero_iff:
  assumes "n + k = 32"
  shows "take n (as_bytes f) = replicate n 0 \<longleftrightarrow> unat f < 256 ^ k"
proof
  assume "take n (as_bytes f) = replicate n 0"
  then show "unat f < 256 ^ k"
    using be_digits_drop(2) [of "as_bytes f" n k] assms by (simp add: be_value_as_bytes)
next
  assume small: "unat f < 256 ^ k"
  have "be_value (replicate n 0 @ be_digits k (unat f)) = unat f"
    using small by (simp add: be_value_append be_value_digits_id)
  then have "as_bytes f = replicate n 0 @ be_digits k (unat f)"
    using assms by (intro be_value_inj) (simp_all add: be_value_as_bytes)
  then show "take n (as_bytes f) = replicate n 0" by simp
qed

lemma unat_from_u64: "unat (from_u64 v) = unat v"
proof -
  have "unat v < 256 ^ 8" using unsigned_less [of v, where 'a = nat] by simp
  then show ?thesis by (simp add: from_u64_def unat_felt_of_bytes be_value_append be_value_digits_id)
qed

lemma unat_from_u128: "unat (from_u128 v) = unat v"
proof -
  have "unat v < 256 ^ 16" using unsigned_less [of v, where 'a = nat] by simp
  then show ?thesis by (simp add: from_u128_def unat_felt_of_bytes be_value_append be_value_digits_id)
qed

lemma unat_address_to_felt: "unat (address_to_felt a) = unat a"
proof -
  have "unat a < 256 ^ 20" using unsigned_less [of a, where 'a = nat] by simp
  then show ?thesis
    by (simp add: address_to_felt_def addr_bytes_def unat_felt_of_bytes be_value_append
        be_value_digits_id)
qed


section \<open>Codecs\<close>

text \<open>The interface shared by the encodings of this theory: decoding an encoded valid value gives it
  back. A canonical codec moreover decodes only what it encodes, so that equal encodings and equal
  values coincide in both directions.\<close>

locale codec =
  fixes enc :: "'a \<Rightarrow> 'b" and dec :: "'b \<Rightarrow> 'a option" and valid :: "'a \<Rightarrow> bool"
  assumes dec_enc: "valid x \<Longrightarrow> dec (enc x) = Some x"
begin

lemma enc_inject: "valid x \<Longrightarrow> valid y \<Longrightarrow> enc x = enc y \<longleftrightarrow> x = y"
  by (metis dec_enc option.inject)

lemma map_enc_inject:
  "list_all valid xs \<Longrightarrow> list_all valid ys \<Longrightarrow> map enc xs = map enc ys \<longleftrightarrow> xs = ys"
proof (induction xs arbitrary: ys)
  case (Cons x xs)
  then show ?case by (cases ys) (auto simp: enc_inject)
qed auto

end

locale canonical_codec = codec +
  assumes dec_canonical: "dec y = Some x \<Longrightarrow> valid x \<and> enc x = y"
begin

lemma dec_eq_Some: "dec y = Some x \<longleftrightarrow> valid x \<and> enc x = y"
  by (metis dec_enc dec_canonical)

lemma dec_eq_None: "dec y = None \<longleftrightarrow> (\<forall>x. valid x \<longrightarrow> enc x \<noteq> y)"
  by (metis dec_eq_Some not_None_eq)

end

text \<open>Decoding by value: the leading bytes must vanish and the rest is the number.\<close>

lemma padded_dec:
  assumes "n + k = 32" "2 ^ LENGTH('a::len) = (256 :: nat) ^ k"
  shows "(if take n (as_bytes f) \<noteq> replicate n 0 then None
          else Some (of_nat (be_value (drop n (as_bytes f))) :: 'a word)) = Some v
         \<longleftrightarrow> unat f = unat v"
proof -
  have small: "unat v < 256 ^ k" for v :: "'a word"
    using unsigned_less [of v, where 'a = nat] assms(2) by simp
  have eq: "unat (of_nat (unat f) :: 'a word) = unat f" if "unat f < 256 ^ k"
    using that assms(2) by (simp only: unat_of_nat mod_less)
  show ?thesis
    using take_bytes_zero_iff [OF assms(1), of f] be_digits_drop(1) [of "as_bytes f" n k] assms(1)
      small [of v] eq
    by (auto simp: be_value_as_bytes word_unat_eq_iff)
qed

lemma to_u64_eq_Some: "to_u64 f = Some v \<longleftrightarrow> unat f = unat v"
  unfolding to_u64_def by (rule padded_dec [where k = 8]) simp_all

lemma to_u128_eq_Some: "to_u128 f = Some v \<longleftrightarrow> unat f = unat v"
  unfolding to_u128_def by (rule padded_dec [where k = 16]) simp_all

lemma felt_to_address_eq_Some: "felt_to_address f = Some a \<longleftrightarrow> unat f = unat a"
  unfolding felt_to_address_def by (rule padded_dec [where k = 20]) simp_all

interpretation u64_codec: canonical_codec from_u64 to_u64 "\<lambda>_. True"
  by unfold_locales (simp_all add: to_u64_eq_Some unat_from_u64 word_unat_eq_iff)

interpretation u128_codec: canonical_codec from_u128 to_u128 "\<lambda>_. True"
  by unfold_locales (simp_all add: to_u128_eq_Some unat_from_u128 word_unat_eq_iff)

interpretation address_codec: canonical_codec address_to_felt felt_to_address "\<lambda>_. True"
  by unfold_locales (simp_all add: felt_to_address_eq_Some unat_address_to_felt word_unat_eq_iff)

interpretation bool_codec: canonical_codec bool_to_felt felt_to_bool "\<lambda>_. True"
  by unfold_locales (auto simp: bool_to_felt_def felt_to_bool_def split: if_splits)

lemmas felt_inject [simp] =
  u64_codec.enc_inject [OF TrueI TrueI] u128_codec.enc_inject [OF TrueI TrueI]
  address_codec.enc_inject [OF TrueI TrueI] bool_codec.enc_inject [OF TrueI TrueI]


section \<open>The modulus and canonical values\<close>

definition field_modulus :: nat where
  "field_modulus = 21888242871839275222246405745257275088548364400416034343698204186575808495617"

definition canonical :: "felt \<Rightarrow> bool" where
  "canonical f \<longleftrightarrow> unat f < field_modulus"

lemma field_modulus_bytes_eq:
  "field_modulus_bytes =
     [48, 100, 78, 114, 225, 49, 160, 41, 184, 80, 69, 182, 129, 129, 88, 93,
      40, 51, 232, 72, 121, 185, 112, 145, 67, 225, 245, 147, 240, 0, 0, 1]"
  by (simp add: field_modulus_bytes_def FIELD_MODULUS_HEX_def strip_prefix_def upt_rec
      from_str_radix16_def hex_digit_def Let_def)

lemma be_value_field_modulus: "be_value field_modulus_bytes = field_modulus"
  by (simp add: field_modulus_bytes_eq be_value_def field_modulus_def)

lemma length_field_modulus_bytes [simp]: "length field_modulus_bytes = 32"
  by (simp add: field_modulus_bytes_def Let_def)

lemma try_from_bytes_be_eq:
  "length bs = 32 \<Longrightarrow>
   try_from_bytes_be bs =
     (if be_value bs < field_modulus then Inr (felt_of_bytes bs) else Inl NotBelowModulus)"
  by (simp add: try_from_bytes_be_def bytes_less_value be_value_field_modulus)

lemma try_from_bytes_be_canonical:
  assumes "length bs = 32" "try_from_bytes_be bs = Inr f"
  shows "canonical f" "as_bytes f = bs"
  using assms by (auto simp: try_from_bytes_be_eq canonical_def unat_felt_of_bytes split: if_splits)

lemma canonical_small: "unat f < 256 ^ 31 \<Longrightarrow> canonical f"
  by (simp add: canonical_def field_modulus_def)


section \<open>Hex strings\<close>

lemma hex_char_facts:
  assumes "n < 16"
  shows "hex_digit (hex_char n) = Some n" "\<not> continuation (hex_char n)"
    "hex_char n \<noteq> CHR ''X''" "hex_char n \<noteq> CHR ''x''" "hex_char n \<noteq> CHR ''+''"
    "hex_char n = CHR ''0'' \<longleftrightarrow> n = 0"
proof -
  have "n \<in> set [0..<16]" using assms by simp
  then have all: "hex_digit (hex_char n) = Some n \<and> \<not> continuation (hex_char n)
      \<and> hex_char n \<noteq> CHR ''X'' \<and> hex_char n \<noteq> CHR ''x'' \<and> hex_char n \<noteq> CHR ''+''
      \<and> (hex_char n = CHR ''0'' \<longleftrightarrow> n = 0)"
    by (simp add: upt_rec del: set_upt, elim disjE)
      (simp_all add: hex_char_def hex_digit_def continuation_def)
  then show "hex_digit (hex_char n) = Some n" "\<not> continuation (hex_char n)"
    "hex_char n \<noteq> CHR ''X''" "hex_char n \<noteq> CHR ''x''" "hex_char n \<noteq> CHR ''+''"
    "hex_char n = CHR ''0'' \<longleftrightarrow> n = 0"
    by blast+
qed

lemma nibbles_less: "unat (b :: u8) div 16 < 16" "unat b mod 16 < 16"
  using unat_u8_less [of b] by (auto intro: less_mult_imp_div_less)

definition lower_hex :: "string \<Rightarrow> bool" where
  "lower_hex s \<longleftrightarrow> (\<forall>c \<in> set s. \<exists>n < 16. c = hex_char n)"

lemma lower_hex_no_continuation: "lower_hex s \<Longrightarrow> c \<in> set s \<Longrightarrow> \<not> continuation c"
  by (auto simp: lower_hex_def hex_char_facts)

lemma lower_hex_char_count: "lower_hex s \<Longrightarrow> char_count s = length s"
  by (simp add: char_count_def lower_hex_no_continuation)

lemma byte_hex_lower: "lower_hex (byte_hex b)"
  unfolding lower_hex_def byte_hex_def by simp (blast intro: nibbles_less)

lemma length_byte_hex [simp]: "length (byte_hex b) = 2"
  by (simp add: byte_hex_def)

lemma from_str_radix16_byte_hex: "from_str_radix16 (byte_hex b) = Some b"
  using nibbles_less [of b] by (simp add: from_str_radix16_def byte_hex_def hex_char_facts)

lemma str_slice_ascii:
  assumes "\<And>c. c \<in> set s \<Longrightarrow> \<not> continuation c" "a \<le> b" "b \<le> length s"
  shows "str_slice s a b = Some (take (b - a) (drop a s))"
proof -
  have "is_char_boundary s i" if "i \<le> length s" for i
    using that assms(1) [of "s ! i"] by (auto simp: is_char_boundary_def)
  then show ?thesis using assms(2,3) by (simp add: str_slice_def)
qed

lemma length_concat_byte_hex [simp]: "length (concat (map byte_hex bs)) = 2 * length bs"
  by (induction bs) auto

lemma take_drop_concat_byte_hex:
  "i < length bs \<Longrightarrow> take 2 (drop (i * 2) (concat (map byte_hex bs))) = byte_hex (bs ! i)"
proof (induction bs arbitrary: i)
  case Nil
  then show ?case by simp
next
  case (Cons b bs)
  then show ?case by (cases i) auto
qed

lemma concat_byte_hex_lower: "lower_hex (concat (map byte_hex bs))"
  using byte_hex_lower by (fastforce simp: lower_hex_def)

text \<open>Parsing a lower-case digit string that pads to the digits of \<open>f\<close>.\<close>

lemma from_hex_padded:
  assumes s: "lower_hex s" "length s \<le> 64"
    and pad: "replicate (64 - length s) CHR ''0'' @ s = concat (map byte_hex (as_bytes f))"
  shows "from_hex (''0x'' @ s) = try_from_bytes_be (as_bytes f)"
proof -
  let ?hex = "concat (map byte_hex (as_bytes f))"
  have noX: "strip_prefix ''0X'' s = None"
  proof (cases s)
    case (Cons c cs)
    then show ?thesis
      using s(1) by (cases cs) (auto simp: strip_prefix_def lower_hex_def dest: hex_char_facts(3))
  qed (simp add: strip_prefix_def)
  have slice: "(case str_slice ?hex (i * 2) (i * 2 + 2) of None \<Rightarrow> Inl SlicePanic
      | Some t \<Rightarrow> ok_or InvalidHex (from_str_radix16 t)) = Inr (as_bytes f ! i)" if "i < 32" for i
    using that lower_hex_no_continuation [OF concat_byte_hex_lower]
    by (subst str_slice_ascii) (auto simp: take_drop_concat_byte_hex from_str_radix16_byte_hex)
  have "try_map (\<lambda>i. case str_slice ?hex (i * 2) (i * 2 + 2) of None \<Rightarrow> Inl SlicePanic
      | Some t \<Rightarrow> ok_or InvalidHex (from_str_radix16 t)) [0..<32] = Inr (map ((!) (as_bytes f)) [0..<32])"
    by (rule try_map_map_Inr) (use slice in simp)
  moreover have "map ((!) (as_bytes f)) [0..<32] = as_bytes f"
    using map_nth [of "as_bytes f"] by simp
  ultimately show ?thesis
    using s pad noX
    by (simp add: from_hex_def from_hex_checked_def Let_def pad_left0_def lower_hex_char_count
        strip_prefix_def [of "''0x''"])
qed

lemma to_hex_digits:
  "\<exists>s. to_hex f = ''0x'' @ s \<and> lower_hex s \<and> length s \<le> 64
     \<and> replicate (64 - length s) CHR ''0'' @ s = concat (map byte_hex (as_bytes f))"
proof -
  let ?hex = "concat (map byte_hex (as_bytes f))"
  let ?t = "dropWhile (\<lambda>c. c = CHR ''0'') ?hex"
  have rep: "replicate (64 - length ?t) CHR ''0'' @ ?t = ?hex"
    using dropWhile_replicate_append [of ?hex "CHR ''0''"] by simp
  have low: "lower_hex ?t"
    using concat_byte_hex_lower [of "as_bytes f"] unfolding lower_hex_def
    by (blast dest: set_dropWhileD)
  have len: "length ?t \<le> 64"
    using length_dropWhile_le [of "\<lambda>c. c = CHR ''0''" ?hex] by simp
  show ?thesis
  proof (cases "?t = []")
    case True
    have "lower_hex ''0''" by (auto simp: lower_hex_def hex_char_def intro: exI [of _ 0])
    moreover have "?hex = replicate 63 CHR ''0'' @ ''0''"
      using rep True by (simp add: numeral_eq_Suc)
    ultimately show ?thesis using True by (simp add: to_hex_def)
  next
    case False
    then show ?thesis using rep low len by (auto simp: to_hex_def Let_def)
  qed
qed

lemma byte_hex_inject: "byte_hex b = byte_hex c \<longleftrightarrow> b = c"
  by (metis from_str_radix16_byte_hex option.inject)

lemma to_hex_inject [simp]: "to_hex f = to_hex g \<longleftrightarrow> f = g"
proof
  assume "to_hex f = to_hex g"
  then have hex: "concat (map byte_hex (as_bytes f)) = concat (map byte_hex (as_bytes g))"
    using to_hex_digits [of f] to_hex_digits [of g] by auto
  have "as_bytes f = as_bytes g"
  proof (rule nth_equalityI)
    fix i assume "i < length (as_bytes f)"
    then show "as_bytes f ! i = as_bytes g ! i"
      using hex take_drop_concat_byte_hex [of i "as_bytes f"] take_drop_concat_byte_hex [of i "as_bytes g"]
      by (simp add: byte_hex_inject)
  qed simp
  then show "f = g" by simp
qed simp

lemma from_hex_to_hex:
  "from_hex (to_hex f) = (if canonical f then Inr f else Inl NotBelowModulus)"
proof -
  have "from_hex (to_hex f) = try_from_bytes_be (as_bytes f)"
    using to_hex_digits [of f] from_hex_padded [of _ f] by auto
  then show ?thesis by (simp add: try_from_bytes_be_eq be_value_as_bytes canonical_def)
qed

interpretation hex_codec: codec to_hex "\<lambda>s. res_ok (from_hex s)" canonical
  by unfold_locales (simp add: from_hex_to_hex)


lemma from_hex_canonical: "from_hex s = Inr f \<Longrightarrow> canonical f"
  by (auto simp: from_hex_def from_hex_checked_def Let_def res try_from_bytes_be_canonical(1)
      dest!: try_map_InrD list_all2_lengthD split: if_splits)

definition ascii :: "string \<Rightarrow> bool" where
  "ascii s \<longleftrightarrow> (\<forall>c \<in> set s. (of_char c :: nat) < 128)"

lemma ascii_no_continuation: "ascii s \<Longrightarrow> c \<in> set s \<Longrightarrow> \<not> continuation c"
  by (auto simp: ascii_def continuation_def dest!: bspec)

lemma try_map_Inl: "try_map g xs = Inl e \<Longrightarrow> \<exists>x \<in> set xs. g x = Inl e"
  by (induction xs) (auto simp: and_then_eq_Inl)

lemma ascii_strip: "ascii s \<Longrightarrow> ascii (unwrap_or s (strip_prefix p s))"
  by (auto simp: ascii_def strip_prefix_def dest: in_set_dropD)

lemma ascii_pad_slice:
  assumes "ascii s" "length s \<le> 64" "i < 32"
  shows "str_slice (pad_left0 64 s) (i * 2) (i * 2 + 2) \<noteq> None"
proof -
  have asc: "ascii (pad_left0 64 s)"
    using assms(1) by (auto simp: ascii_def pad_left0_def)
  have "char_count s = length s"
    using ascii_no_continuation [OF assms(1)] by (simp add: char_count_def)
  then have "length (pad_left0 64 s) = 64"
    using assms(2) by (simp add: pad_left0_def)
  then show ?thesis
    using ascii_no_continuation [OF asc] assms(3) by (subst str_slice_ascii) auto
qed


text \<open>One two-byte slot of the padded string.\<close>

definition hex_slot :: "string \<Rightarrow> nat \<Rightarrow> felt_error + u8" where
  "hex_slot padded i =
     (case str_slice padded (i * 2) (i * 2 + 2) of
        None \<Rightarrow> Inl SlicePanic
      | Some t \<Rightarrow> ok_or InvalidHex (from_str_radix16 t))"

lemma from_hex_slots:
  "from_hex s0 =
     (let s1 = unwrap_or s0 (strip_prefix ''0x'' s0); s = unwrap_or s1 (strip_prefix ''0X'' s1) in
      if length s > 64 then Inl HexTooLong
      else and_then (try_map (hex_slot (pad_left0 64 s)) [0..<32]) try_from_bytes_be)"
  unfolding from_hex_def from_hex_checked_def hex_slot_def by (simp add: Let_def)

text \<open>Parsing digit pairs of either case.\<close>

lemma hex_slots_concat:
  assumes "\<forall>p \<in> set ps. length p = 2 \<and> (\<forall>c \<in> set p. \<not> continuation c)"
  shows "try_map (hex_slot (concat ps)) [0..<length ps] = try_map (\<lambda>p. ok_or InvalidHex (from_str_radix16 p)) ps"
proof (rule try_map_nth)
  fix i assume i: "i < length ps"
  have len: "length (concat ps) = length ps * 2" using assms by (induction ps) auto
  have "str_slice (concat ps) (i * 2) (i * 2 + 2) = Some (take 2 (drop (i * 2) (concat ps)))"
    using str_slice_ascii [of "concat ps" "i * 2" "i * 2 + 2"] assms i by (auto simp: len)
  also have "take 2 (drop (i * 2) (concat ps)) = ps ! i" using take_drop_concat [of ps 2 i] assms i by simp
  finally show "hex_slot (concat ps) i = ok_or InvalidHex (from_str_radix16 (ps ! i))" by (simp add: hex_slot_def)
qed

lemma from_hex_digit_pairs:
  assumes "\<forall>p \<in> set ps. length p = 2 \<and> (\<forall>c \<in> set p. \<not> continuation c)" "length ps \<le> 32"
    and "strip_prefix ''0X'' (concat ps) = None"
    and "try_map (\<lambda>p. ok_or InvalidHex (from_str_radix16 p)) ps = Inr bs"
  shows "from_hex (''0x'' @ concat ps) = try_from_bytes_be (replicate (32 - length ps) 0 @ bs)"
proof -
  let ?zs = "replicate (32 - length ps) ''00''"
  have len: "length (concat ps) = 2 * length ps" using assms(1) by (induction ps) auto
  have "filter (\<lambda>c. \<not> continuation c) (concat ps) = concat ps" using assms(1) by (auto simp: filter_id_conv)
  then have "pad_left0 64 (concat ps) = replicate (2 * (32 - length ps)) CHR ''0'' @ concat ps"
    by (simp add: pad_left0_def char_count_def len diff_mult_distrib2)
  also have "replicate (2 * n) CHR ''0'' = concat (replicate n ''00'')" for n by (induction n) auto
  finally have pad: "pad_left0 64 (concat ps) = concat (?zs @ ps)" by simp
  have zs: "try_map (\<lambda>p. ok_or InvalidHex (from_str_radix16 p)) (replicate n ''00'') = Inr (replicate n 0)" for n
    by (induction n) (simp_all add: from_str_radix16_def hex_digit_def)
  have "try_map (hex_slot (concat (?zs @ ps))) [0..<length (?zs @ ps)] = Inr (replicate (32 - length ps) 0 @ bs)"
    by (subst hex_slots_concat) (use assms zs in \<open>auto simp: try_map_append continuation_def\<close>)
  then show ?thesis
    using assms(2,3) len by (simp add: from_hex_slots strip_prefix_def [of "''0x''"] Let_def pad)
qed


section \<open>Properties\<close>

text \<open>Parsing and printing a field element agree: whatever \<open>from_hex\<close> accepts is below
  the BN254 modulus, and printing it with \<open>to_hex\<close> and parsing it again gives the same element.\<close>

lemma felt_hex_round_trip:
  assumes "from_hex s = Inr f"
  shows "canonical f \<and> from_hex (to_hex f) = Inr f"
  using from_hex_canonical [OF assms] by (simp add: from_hex_to_hex)

text \<open>On ASCII input \<open>from_hex\<close> returns a value or an error and never panics.\<close>

lemma from_hex_ascii_no_panic:
  assumes "ascii s"
  shows "from_hex s \<noteq> Inl SlicePanic"
proof
  assume panic: "from_hex s = Inl SlicePanic"
  define t where "t = (let s1 = unwrap_or s (strip_prefix ''0x'' s) in unwrap_or s1 (strip_prefix ''0X'' s1))"
  have asc: "ascii t" unfolding t_def using assms by (simp add: Let_def ascii_strip)
  have "length t \<le> 64" and "\<exists>i \<in> set [0..<32]. hex_slot (pad_left0 64 t) i = Inl SlicePanic"
    using panic
    by (auto simp: from_hex_slots t_def Let_def and_then_eq_Inl try_from_bytes_be_def
        dest!: try_map_Inl split: if_splits)
  then obtain i where len: "length t \<le> 64" and i: "i < 32"
    and slot: "hex_slot (pad_left0 64 t) i = Inl SlicePanic" by auto
  obtain w where "str_slice (pad_left0 64 t) (i * 2) (i * 2 + 2) = Some w"
    using ascii_pad_slice [OF asc len i] by blast
  then show False using slot
    by (cases "from_str_radix16 w") (simp_all only: hex_slot_def ok_or_simps and_then_simps, simp_all)
qed

text \<open>The parser stops at the first slot that fails.\<close>

lemma try_map_first_error:
  assumes "\<And>i. i < k \<Longrightarrow> \<exists>v. g i = Inr v" "g k = Inl e" "k < n"
  shows "try_map g [0..<n] = Inl e"
proof -
  have "try_map g [0..<k] = Inr (map (\<lambda>i. THE v. g i = Inr v) [0..<k])"
    by (rule try_map_map_Inr) (use assms(1) in fastforce)
  moreover have "[0..<n] = [0..<k] @ k # [Suc k..<n]"
    using assms(3) upt_add_eq_append [of 0 k "n - k"] upt_conv_Cons [of k n] by simp
  ultimately show ?thesis by (simp add: try_map_append assms(2))
qed

definition hex_string :: "string \<Rightarrow> bool" where
  "hex_string s \<longleftrightarrow> (\<forall>c \<in> set s. hex_digit c \<noteq> None)"

lemma hex_digit_facts:
  assumes "hex_digit c = Some v"
  shows "\<not> continuation c" "c \<noteq> CHR ''+''" "c \<noteq> CHR ''x''" "c \<noteq> CHR ''X''" "v < 16"
  using assms by (auto simp: hex_digit_def continuation_def Let_def split: if_splits)

lemma from_str_radix16_pair:
  assumes "hex_digit x \<noteq> None" "hex_digit d \<noteq> None"
  shows "from_str_radix16 [x, d] \<noteq> None"
proof -
  obtain v w where v: "hex_digit x = Some v" "hex_digit d = Some w" using assms by auto
  then have "v * 16 + w < 256" using hex_digit_facts(5) [OF v(1)] hex_digit_facts(5) [OF v(2)] by linarith
  then show ?thesis using v hex_digit_facts(2) [OF v(1)] by (simp add: from_str_radix16_def)
qed

text \<open>A slot before a multi-byte character is read when it holds two digits.\<close>

lemma hex_slot_digits:
  assumes "hex_string p" "i * 2 + 2 \<le> length p" "t = [] \<or> \<not> continuation (hd t)"
  shows "\<exists>v. hex_slot (p @ t) i = Inr v"
proof -
  have digit: "hex_digit (p ! j) \<noteq> None" if "j < length p" for j
    using assms(1) that by (auto simp: hex_string_def)
  then have "is_char_boundary (p @ t) j" if "j \<le> length p" for j
    using that assms(3) hex_digit_facts(1)
    by (auto simp: is_char_boundary_def nth_append hd_conv_nth)
  moreover have "take 2 (drop (i * 2) (p @ t)) = [p ! (i * 2), p ! (i * 2 + 1)]"
    using assms(2) by (intro nth_equalityI) (auto simp: nth_append less_Suc_eq numeral_2_eq_2)
  ultimately have "str_slice (p @ t) (i * 2) (i * 2 + 2) = Some [p ! (i * 2), p ! (i * 2 + 1)]"
    using assms(2) by (simp add: str_slice_def)
  then show ?thesis using from_str_radix16_pair [of "p ! (i * 2)" "p ! (i * 2 + 1)"] digit assms(2)
    by (auto simp: hex_slot_def)
qed

text \<open>The slot a multi-byte character falls into.\<close>

lemma hex_slot_multibyte:
  assumes "hex_string p" "192 \<le> (of_char l :: nat)" "cs \<noteq> []" "\<forall>c \<in> set cs. continuation c"
    and "b = [] \<or> \<not> continuation (hd b)"
  shows "hex_slot (p @ l # cs @ b) (length p div 2) =
    Inl (if odd (length p) \<or> 2 \<le> length cs then SlicePanic else InvalidHex)"
proof -
  let ?s = "p @ l # cs @ b"
  have inside: "\<not> is_char_boundary ?s (length p + 1 + j)" if "j < length cs" for j
    using that assms(4) by (simp add: is_char_boundary_def nth_append)
  have "\<not> continuation l" "hex_digit l = None" "l \<noteq> CHR ''+''"
    using assms(2) by (auto simp: continuation_def hex_digit_def Let_def div_nat_eqI)
  show ?thesis
  proof (cases "odd (length p)")
    case True
    then have "length p div 2 * 2 + 2 = length p + 1 + 0" by (auto elim!: oddE)
    then show ?thesis using inside [of 0] assms(3) True by (simp only: hex_slot_def str_slice_def) simp
  next
    case False
    then have k: "length p div 2 * 2 = length p" by simp
    show ?thesis
    proof (cases "2 \<le> length cs")
      case True
      then show ?thesis using inside [of 1] by (simp add: hex_slot_def str_slice_def k)
    next
      case one: False
      then obtain c where cs: "cs = [c]" using assms(3) by (cases cs) (auto simp: Suc_le_eq)
      have "is_char_boundary ?s (length p)" "is_char_boundary ?s (length p + 2)"
        using assms(5) \<open>\<not> continuation l\<close> by (auto simp: is_char_boundary_def nth_append cs hd_conv_nth)
      then have "str_slice ?s (length p div 2 * 2) (length p div 2 * 2 + 2) = Some [l, c]"
        by (simp add: str_slice_def k cs)
      moreover have "from_str_radix16 [l, c] = None"
        using \<open>hex_digit l = None\<close> \<open>l \<noteq> CHR ''+''\<close> by (simp add: from_str_radix16_def)
      ultimately show ?thesis using False one by (simp add: hex_slot_def)
    qed
  qed
qed

lemma from_hex_multibyte:
  assumes "hex_string a" "192 \<le> (of_char l :: nat)" "cs \<noteq> []" "\<forall>c \<in> set cs. continuation c"
    and "b = [] \<or> \<not> continuation (hd b)" "length (a @ l # cs @ b) \<le> 64"
  shows "and_then (try_map (hex_slot (pad_left0 64 (a @ l # cs @ b))) [0..<32]) try_from_bytes_be =
    Inl (if even (char_count b) \<or> 2 \<le> length cs then SlicePanic else InvalidHex)"
proof -
  let ?n = "64 - char_count (a @ l # cs @ b)"
  let ?p = "replicate ?n CHR ''0'' @ a"
  have "char_count a = length a"
    using assms(1) hex_digit_facts(1) unfolding char_count_def hex_string_def by (subst filter_True) auto
  moreover have "char_count cs = 0" using assms(4) by (simp add: char_count_def)
  moreover have "\<not> continuation l" using assms(2) by (auto simp: continuation_def div_nat_eqI)
  ultimately have count: "char_count (a @ l # cs @ b) = length a + 1 + char_count b"
    by (simp add: char_count_def)
  have "char_count b \<le> length b" by (simp add: char_count_def)
  moreover have "0 < length cs" "length a + 1 + length cs + length b \<le> 64" using assms(3,6) by simp_all
  ultimately have len: "length ?p + char_count b = 63" unfolding count length_append length_replicate by linarith
  then have parity: "odd (length ?p) \<longleftrightarrow> even (char_count b)" by presburger
  have p: "hex_string ?p" using assms(1) by (auto simp: hex_string_def hex_digit_def)
  have "\<exists>v. hex_slot (?p @ l # cs @ b) i = Inr v" if "i < length ?p div 2" for i
    using that by (intro hex_slot_digits p) (auto simp: \<open>\<not> continuation l\<close>)
  moreover note hex_slot_multibyte [OF p assms(2-5)]
  ultimately have "try_map (hex_slot (?p @ l # cs @ b)) [0..<32] =
      Inl (if odd (length ?p) \<or> 2 \<le> length cs then SlicePanic else InvalidHex)"
    using len by (intro try_map_first_error) auto
  then show ?thesis by (simp add: pad_left0_def parity del: length_append)
qed

text \<open>Reading a plus sign in the high position of a pair as a zero.\<close>

definition plus_to_zero :: "string \<Rightarrow> string" where
  "plus_to_zero q = (if hd q = CHR ''+'' then CHR ''0'' # tl q else q)"

definition plus_pair :: "string \<Rightarrow> bool" where
  "plus_pair q \<longleftrightarrow> length q = 2 \<and> (hd q = CHR ''+'' \<or> hex_digit (hd q) \<noteq> None) \<and> hex_digit (last q) \<noteq> None"

lemma plus_pair_cases:
  assumes "plus_pair q"
  obtains x d where "q = [x, d]" "x = CHR ''+'' \<or> hex_digit x \<noteq> None" "hex_digit d \<noteq> None"
  using assms by (auto simp: plus_pair_def length_Suc_conv numeral_2_eq_2)

lemma from_str_radix16_plus:
  assumes "plus_pair q"
  shows "plus_pair (plus_to_zero q)" "\<forall>c \<in> set q. \<not> continuation c" "hd (tl q) \<noteq> CHR ''X''"
    "\<exists>v. from_str_radix16 q = Some v \<and> from_str_radix16 (plus_to_zero q) = Some v"
proof -
  obtain x d where q: "q = [x, d]" "x = CHR ''+'' \<or> hex_digit x \<noteq> None" "hex_digit d \<noteq> None"
    using assms by (rule plus_pair_cases)
  then obtain w where w: "hex_digit d = Some w" by auto
  have zero: "hex_digit CHR ''0'' = Some 0" by (simp add: hex_digit_def)
  show "plus_pair (plus_to_zero q)" using q by (auto simp: plus_pair_def plus_to_zero_def zero)
  show "\<forall>c \<in> set q. \<not> continuation c" using q hex_digit_facts(1) by (auto simp: continuation_def)
  show "hd (tl q) \<noteq> CHR ''X''" using q w hex_digit_facts(4) by auto
  show "\<exists>v. from_str_radix16 q = Some v \<and> from_str_radix16 (plus_to_zero q) = Some v"
  proof (cases "x = CHR ''+''")
    case True
    then show ?thesis using w hex_digit_facts(5) [OF w]
      by (simp add: q(1) plus_to_zero_def from_str_radix16_def zero)
  next
    case False
    then show ?thesis using q from_str_radix16_pair [of x d] by (auto simp: plus_to_zero_def)
  qed
qed

lemma from_hex_plus_pairs:
  assumes "\<forall>q \<in> set qs. plus_pair q" "length qs \<le> 32"
  shows "from_hex (''0x'' @ concat qs) = from_hex (''0x'' @ concat (map plus_to_zero qs))"
proof -
  define v where "v q = (THE v. from_str_radix16 q = Some v)" for q
  have v: "from_str_radix16 q = Some (v q)" "from_str_radix16 (plus_to_zero q) = Some (v q)" if "plus_pair q" for q
    using from_str_radix16_plus(4) [OF that] by (auto simp: v_def)
  have read: "from_hex (''0x'' @ concat ps) = try_from_bytes_be (replicate (32 - length ps) 0 @ map u ps)"
    if "\<forall>q \<in> set ps. plus_pair q \<and> from_str_radix16 q = Some (u q)" "length ps \<le> 32" for ps u
  proof (rule from_hex_digit_pairs [OF _ that(2)])
    show "\<forall>p \<in> set ps. length p = 2 \<and> (\<forall>c \<in> set p. \<not> continuation c)"
      using that(1) from_str_radix16_plus(2) by (auto simp: plus_pair_def)
    show "strip_prefix ''0X'' (concat ps) = None"
      using that(1) from_str_radix16_plus(3) [of "hd ps"]
      by (cases ps) (auto simp: strip_prefix_def elim!: plus_pair_cases)
    show "try_map (\<lambda>p. ok_or InvalidHex (from_str_radix16 p)) ps = Inr (map u ps)"
      by (rule try_map_map_Inr) (use that(1) in auto)
  qed
  have "from_hex (''0x'' @ concat (map plus_to_zero qs)) =
      try_from_bytes_be (replicate (32 - length qs) 0 @ map (\<lambda>q. v q) qs)"
    using read [of "map plus_to_zero qs" "\<lambda>q. the (from_str_radix16 q)"] assms v from_str_radix16_plus(1)
    by (simp add: comp_def cong: map_cong)
  then show ?thesis using read [of qs v] assms v by simp
qed

text \<open>Claim C36. How lenient the parser is outside the hexadecimal digits. A string of at most 64 bytes with
  digits, then a character of several bytes (a lead byte of at least 192 and its continuation bytes), then
  anything that starts at a character, with or without the prefix 0x, is not simply rejected: parsing panics
  in a slice when the character has three or more bytes, or has two and an even number of characters follows
  it, and reports invalid hex only when it has two and an odd number follows. And a plus sign in the high
  position of any digit pairs is accepted and read as a zero.\<close>

theorem from_hex_multibyte_panics:
  assumes "hex_string a" "192 \<le> (of_char l :: nat)" "cs \<noteq> []" "\<forall>c \<in> set cs. continuation c"
    and "b = [] \<or> \<not> continuation (hd b)" "length (a @ l # cs @ b) \<le> 64"
    and "\<forall>q \<in> set qs. plus_pair q" "length qs \<le> 32"
  shows "from_hex (a @ l # cs @ b) = Inl (if even (char_count b) \<or> 2 \<le> length cs then SlicePanic else InvalidHex) \<and>
    from_hex (''0x'' @ a @ l # cs @ b) = from_hex (a @ l # cs @ b) \<and>
    from_hex (''0x'' @ concat qs) = from_hex (''0x'' @ concat (map plus_to_zero qs))"
proof -
  let ?s = "a @ l # cs @ b"
  have "strip_prefix ''0x'' ?s = None \<and> strip_prefix ''0X'' ?s = None"
    using assms(1-4) hex_digit_facts(3,4)
    by (cases a; cases "tl a"; cases cs) (auto simp: strip_prefix_def hex_string_def continuation_def)
  moreover have "strip_prefix ''0x'' (''0x'' @ t) = Some t" for t by (simp add: strip_prefix_def)
  moreover have "\<not> 64 < length ?s" using assms(6) by simp
  ultimately have "from_hex ?s = and_then (try_map (hex_slot (pad_left0 64 ?s)) [0..<32]) try_from_bytes_be"
    "from_hex (''0x'' @ ?s) = and_then (try_map (hex_slot (pad_left0 64 ?s)) [0..<32]) try_from_bytes_be"
    by (simp_all only: from_hex_slots Let_def unwrap_or_simps if_False)
  then show ?thesis using from_hex_multibyte [OF assms(1-6)] from_hex_plus_pairs [OF assms(7,8)] by simp
qed

theorem from_hex_multibyte_panics_witness:
  "from_hex (''ab'' @ [CHR 0xC3, CHR 0xA9] @ ''12'') = Inl SlicePanic \<and>
   from_hex (''ab'' @ [CHR 0xC3, CHR 0xA9] @ ''1'') = Inl InvalidHex \<and>
   from_hex ''0x+f1a'' = from_hex ''0x0f1a''"
proof -
  have digits: "hex_string ''ab''" "hex_string ''12''" "hex_string ''1''" "continuation CHR 0xA9" "\<not> continuation CHR ''1''"
    "\<not> continuation CHR ''2''" "\<forall>q \<in> set [''+f'', ''1a'']. plus_pair q"
    by (simp_all add: hex_string_def hex_digit_def continuation_def plus_pair_def)
  note panics = from_hex_multibyte_panics [where a = "''ab''" and l = "CHR 0xC3" and cs = "[CHR 0xA9]"
      and qs = "[''+f'', ''1a'']"]
  from panics [of "''12''"] panics [of "''1''"] digits show ?thesis
    by (simp add: char_count_def plus_to_zero_def)
qed

end
