(* ===== verification/Types.thy ===== *)
theory Types
  imports Felt
begin

text \<open>
  The shared protocol types of \<open>zkapi-types\<close>: constants and epoch roots (\<open>lib.rs\<close>), domain tags
  (\<open>domain.rs\<close>), notes (\<open>note.rs\<close>) and signatures (\<open>signature.rs\<close>).
\<close>

section \<open>Constants and epoch roots\<close>

definition PROTOCOL_VERSION :: u16 where "PROTOCOL_VERSION = 2"
definition MERKLE_DEPTH :: nat where "MERKLE_DEPTH = 32"
definition XMSS_TREE_HEIGHT :: nat where "XMSS_TREE_HEIGHT = 20"
definition WOTS_W :: nat where "WOTS_W = 16"
definition WOTS_LEN1 :: nat where "WOTS_LEN1 = 62"
definition WOTS_LEN2 :: nat where "WOTS_LEN2 = 3"
definition WOTS_LEN :: nat where "WOTS_LEN = WOTS_LEN1 + WOTS_LEN2"
definition STATEMENT_TYPE_REQUEST :: u8 where "STATEMENT_TYPE_REQUEST = 1"
definition STATEMENT_TYPE_WITHDRAWAL :: u8 where "STATEMENT_TYPE_WITHDRAWAL = 2"

lemmas wots_params = WOTS_LEN_def WOTS_LEN1_def WOTS_LEN2_def WOTS_W_def

record EpochRoots =
  er_epoch :: u32
  er_state_root :: felt
  er_clear_root :: felt

definition lookup_state_root :: "EpochRoots list \<Rightarrow> u32 \<Rightarrow> felt option" where
  "lookup_state_root roots e = map_option er_state_root (find (\<lambda>entry. er_epoch entry = e) roots)"

definition lookup_clear_root :: "EpochRoots list \<Rightarrow> u32 \<Rightarrow> felt option" where
  "lookup_clear_root roots e = map_option er_clear_root (find (\<lambda>entry. er_epoch entry = e) roots)"


section \<open>Domain tags\<close>

text \<open>\<open>None\<close> is the failed assertion on the label length. The label is copied byte by byte to the
  end of a zeroed array.\<close>

definition domain_felt :: "u8 list \<Rightarrow> felt option" where
  "domain_felt label =
     (if length label \<le> 31 then
        let offset = 32 - length label in
        Some (felt_of_bytes
          (fold (\<lambda>i bytes. bytes[offset + i := label ! i]) [0..<length label] (replicate 32 0)))
      else None)"

definition domain_const :: "string \<Rightarrow> felt" where
  "domain_const label = the (domain_felt (as_bytes_str label))"

definition DOMAIN_STATE :: felt where "DOMAIN_STATE = domain_const ''zkapi.state''"
definition DOMAIN_CLEAR :: felt where "DOMAIN_CLEAR = domain_const ''zkapi.clear''"
definition DOMAIN_XMSS_LEAF :: felt where "DOMAIN_XMSS_LEAF = domain_const ''zkapi.xmss.leaf''"
definition DOMAIN_XMSS_NODE :: felt where "DOMAIN_XMSS_NODE = domain_const ''zkapi.xmss.node''"
definition DOMAIN_XMSS_CHAIN :: felt where "DOMAIN_XMSS_CHAIN = domain_const ''zkapi.xmss.chain''"
definition DOMAIN_XMSS_MSG :: felt where "DOMAIN_XMSS_MSG = domain_const ''zkapi.xmss.msg''"
definition DOMAIN_XMSS_SK :: felt where "DOMAIN_XMSS_SK = domain_const ''zkapi.xmss.sk''"
definition DOMAIN_ANCHOR :: felt where "DOMAIN_ANCHOR = domain_const ''zkapi.anchor''"
definition DOMAIN_BLIND :: felt where "DOMAIN_BLIND = domain_const ''zkapi.blind''"

definition domain_labels :: "string list" where
  "domain_labels =
     [''zkapi.reg'', ''zkapi.leaf'', ''zkapi.node'', ''zkapi.null'', ''zkapi.state'',
      ''zkapi.clear'', ''zkapi.reqpub'', ''zkapi.wdpub'', ''zkapi.bal.g'', ''zkapi.bal.h'',
      ''zkapi.xmss.leaf'', ''zkapi.xmss.node'', ''zkapi.xmss.chain'', ''zkapi.xmss.msg'',
      ''zkapi.xmss.sk'', ''zkapi.anchor'', ''zkapi.blind'']"

definition DOMAIN_TAGS :: "(string \<times> felt) list" where
  "DOMAIN_TAGS = map (\<lambda>label. (label, domain_const label)) domain_labels"


section \<open>Notes and signatures\<close>

datatype NoteStatus = Uninitialized | Active | PendingWithdrawal | Closed

definition NoteStatus_from_u8 :: "u8 \<Rightarrow> NoteStatus option" where
  "NoteStatus_from_u8 v =
     (if v = 0 then Some Uninitialized
      else if v = 1 then Some Active
      else if v = 2 then Some PendingWithdrawal
      else if v = 3 then Some Closed
      else None)"

datatype NullifierStatus = Reserved | Finalized | ClearanceReserved

record SchnorrSignature =
  r_x :: felt
  r_y :: felt
  sig_s :: felt

definition SchnorrSignature_IDENTITY :: SchnorrSignature where
  "SchnorrSignature_IDENTITY = \<lparr>r_x = ZERO, r_y = ONE, sig_s = ZERO\<rparr>"

record XmssSignature =
  sig_epoch :: u32
  leaf_index :: u32
  wots_sig :: "felt list"
  auth_path :: "felt list"

datatype xmss_shape_error =
    WotsLengthMismatch nat
  | AuthPathLengthMismatch nat nat
  | HeightTooLarge
  | LeafIndexTooLarge u32

definition validate_for_height :: "XmssSignature \<Rightarrow> nat \<Rightarrow> xmss_shape_error + unit" where
  "validate_for_height sg expected_height =
     (if length (wots_sig sg) \<noteq> WOTS_LEN then Inl (WotsLengthMismatch (length (wots_sig sg)))
      else if length (auth_path sg) \<noteq> expected_height
        then Inl (AuthPathLengthMismatch expected_height (length (auth_path sg)))
      else if expected_height \<ge> 32 then Inl HeightTooLarge
      else if leaf_index sg \<ge> push_bit expected_height 1 then Inl (LeafIndexTooLarge (leaf_index sg))
      else Inr ())"

definition xmss_validate :: "XmssSignature \<Rightarrow> xmss_shape_error + unit" where
  "xmss_validate sg = validate_for_height sg XMSS_TREE_HEIGHT"


section \<open>Facts about labels\<close>

lemma fold_update_label:
  assumes "length xs = n" "k \<le> length label" "length label \<le> n"
  shows "fold (\<lambda>i bytes. bytes[n - length label + i := label ! i]) [0..<k] xs
         = take (n - length label) xs @ take k label @ drop (n - length label + k) xs"
  using assms(2)
proof (induction k)
  case 0
  show ?case by simp
next
  case (Suc k)
  let ?o = "n - length label"
  have k: "k < length label" using Suc.prems by simp
  have ok: "?o + k < length xs" using k assms by simp
  have len: "length (take ?o xs @ take k label) = ?o + k" using assms k by simp
  have "((take ?o xs @ take k label) @ drop (?o + k) xs)[?o + k := label ! k]
      = (take ?o xs @ take k label) @ (drop (?o + k) xs)[0 := label ! k]"
    by (simp only: list_update_append len less_irrefl if_False diff_self_eq_0)
  then have "(take ?o xs @ take k label @ drop (?o + k) xs)[?o + k := label ! k]
      = take ?o xs @ take k label @ (drop (?o + k) xs)[0 := label ! k]"
    by simp
  also have "\<dots> = take ?o xs @ take (Suc k) label @ drop (?o + Suc k) xs"
    using ok k by (simp add: Cons_nth_drop_Suc [symmetric] take_Suc_conv_app_nth)
  finally show ?case using Suc.IH k by simp
qed

lemma domain_felt_eq:
  "domain_felt label =
     (if length label \<le> 31 then Some (felt_of_bytes (replicate (32 - length label) 0 @ label))
      else None)"
  using fold_update_label [of "replicate 32 0" 32 "length label" label]
  by (simp add: domain_felt_def Let_def)

text \<open>A label's tag is its value in base 256, so labels without leading NUL have distinct tags.\<close>

lemma unat_domain_felt: "domain_felt label = Some f \<Longrightarrow> unat f = be_value label"
  by (auto simp: domain_felt_eq unat_felt_of_bytes be_value_append split: if_splits)

lemma be_value_lower: "b \<noteq> 0 \<Longrightarrow> 256 ^ length bs \<le> be_value (b # bs)"
proof -
  assume "b \<noteq> 0"
  then have "1 \<le> unat b" by (simp add: unat_gt_0 Suc_le_eq)
  then have "1 * 256 ^ length bs \<le> unat b * 256 ^ length bs" by (rule mult_right_mono) simp
  then show ?thesis by (simp only: be_value_Cons mult_1 trans_le_add1)
qed

lemma be_value_label_length:
  assumes "xs \<noteq> []" "hd xs \<noteq> 0" "be_value xs = be_value ys"
  shows "length xs \<le> length ys"
proof (rule ccontr)
  assume "\<not> length xs \<le> length ys"
  then have le: "length ys \<le> length (tl xs)" by simp
  have "256 ^ length ys \<le> (256 :: nat) ^ length (tl xs)" using le by (rule power_increasing) simp
  also have "\<dots> \<le> be_value xs" using be_value_lower [OF assms(2), of "tl xs"] assms(1) by simp
  also have "\<dots> < 256 ^ length ys" using be_value_less [of ys] assms(3) by simp
  finally show False by simp
qed

lemma be_value_label_inject:
  assumes "xs \<noteq> []" "ys \<noteq> []" "hd xs \<noteq> 0" "hd ys \<noteq> 0" "be_value xs = be_value ys"
  shows "xs = ys"
  using be_value_label_length [of xs ys] be_value_label_length [of ys xs] assms
  by (intro be_value_inj) simp_all

lemma validate_for_height_Inr:
  "validate_for_height sg h = Inr () \<longleftrightarrow>
     length (wots_sig sg) = WOTS_LEN \<and> length (auth_path sg) = h \<and> h < 32 \<and>
     unat (leaf_index sg) < 2 ^ h"
  using unat_push_bit_1 [of h, where 'a = 32]
  by (auto simp: validate_for_height_def word_le_nat_alt not_le)


section \<open>Properties\<close>

text \<open>Domain separation: every protocol label fits the length limit, so its constant is
  defined and is the big-endian value of the label, and the tags of different labels differ.\<close>

lemma domain_tags_distinct:
  "(\<forall>(label, tag) \<in> set DOMAIN_TAGS. domain_felt (as_bytes_str label) = Some tag \<and>
      unat tag = be_value (as_bytes_str label)) \<and>
   distinct (map snd DOMAIN_TAGS)"
proof
  have short: "length label \<le> 31" and ne: "label \<noteq> []" and hd: "hd label = CHR ''z''"
    if "label \<in> set domain_labels" for label
    using that by (auto simp: domain_labels_def)
  have val: "domain_felt (as_bytes_str label) = Some (domain_const label)"
    if "label \<in> set domain_labels" for label
    using short [OF that] by (simp add: domain_const_def domain_felt_eq)
  show "\<forall>(label, tag) \<in> set DOMAIN_TAGS. domain_felt (as_bytes_str label) = Some tag \<and>
      unat tag = be_value (as_bytes_str label)"
    using val unat_domain_felt by (fastforce simp: DOMAIN_TAGS_def)
  have hd0: "hd (as_bytes_str label) \<noteq> 0" if "label \<in> set domain_labels" for label
    using ne [OF that] hd [OF that] by (simp add: as_bytes_str_def hd_map)
  have "inj_on domain_const (set domain_labels)"
  proof (rule inj_onI)
    fix a b assume ab: "a \<in> set domain_labels" "b \<in> set domain_labels" "domain_const a = domain_const b"
    then have "be_value (as_bytes_str a) = be_value (as_bytes_str b)"
      using unat_domain_felt val by metis
    then have "as_bytes_str a = as_bytes_str b"
      using ab ne hd0 by (intro be_value_label_inject) (auto simp: as_bytes_str_def)
    then show "a = b" by simp
  qed
  moreover have "distinct domain_labels" by (simp add: domain_labels_def)
  ultimately show "distinct (map snd DOMAIN_TAGS)"
    by (simp add: DOMAIN_TAGS_def distinct_map comp_def)
qed

end
