(* ===== verification/Inputs.thy ===== *)
theory Inputs
  imports Types
begin

text \<open>
  Public statements and hashes to the field: \<open>zkapi-types/src/inputs.rs\<close>. \<open>Keccak256\<close> comes from
  the \<open>sha3\<close> crate and is the parameter \<open>keccak\<close> of every definition that hashes bytes: it takes
  all bytes passed to \<open>update\<close> and returns the 32-byte digest.
\<close>

section \<open>Public inputs\<close>

record RequestPublicInputsV2 =
  r2_protocol_version :: u16
  r2_chain_id :: u64
  r2_contract_address :: felt
  r2_active_root :: felt
  r2_state_signing_key_x :: felt
  r2_state_signing_key_y :: felt
  r2_request_time :: u64
  r2_solvency_bound :: u128
  r2_request_nullifier :: felt
  r2_authorization_tag :: felt
  r2_anonymous_commitment_x :: felt
  r2_anonymous_commitment_y :: felt

definition r2_to_field_elements :: "RequestPublicInputsV2 \<Rightarrow> felt list" where
  "r2_to_field_elements p =
     [from_u64 (ucast (r2_protocol_version p)),
      from_u64 (r2_chain_id p),
      r2_contract_address p,
      r2_active_root p,
      r2_state_signing_key_x p,
      r2_state_signing_key_y p,
      from_u64 (r2_request_time p),
      from_u128 (r2_solvency_bound p),
      r2_request_nullifier p,
      r2_authorization_tag p,
      r2_anonymous_commitment_x p,
      r2_anonymous_commitment_y p]"

record WithdrawalPublicInputsV2 =
  w2_protocol_version :: u16
  w2_chain_id :: u64
  w2_contract_address :: felt
  w2_active_root :: felt
  w2_state_signing_key_x :: felt
  w2_state_signing_key_y :: felt
  w2_clearance_signing_key_x :: felt
  w2_clearance_signing_key_y :: felt
  w2_note_id :: u32
  w2_final_balance :: u128
  w2_destination :: address
  w2_withdrawal_nullifier :: felt
  w2_has_clearance :: bool
  w2_withdrawal_tag :: felt

definition destination_field :: "address \<Rightarrow> felt" where
  "destination_field d = felt_of_bytes (replicate 12 0 @ addr_bytes d)"

definition w2_to_field_elements :: "WithdrawalPublicInputsV2 \<Rightarrow> felt list" where
  "w2_to_field_elements p =
     [from_u64 (ucast (w2_protocol_version p)),
      from_u64 (w2_chain_id p),
      w2_contract_address p,
      w2_active_root p,
      w2_state_signing_key_x p,
      w2_state_signing_key_y p,
      w2_clearance_signing_key_x p,
      w2_clearance_signing_key_y p,
      from_u64 (ucast (w2_note_id p)),
      from_u128 (w2_final_balance p),
      destination_field (w2_destination p),
      w2_withdrawal_nullifier p,
      from_u64 (of_bool (w2_has_clearance p)),
      w2_withdrawal_tag p]"

record RequestPublicInputs =
  r1_statement_type :: u8
  r1_protocol_version :: u16
  r1_chain_id :: u64
  r1_contract_address :: felt
  r1_active_root :: felt
  r1_state_sig_epoch :: u32
  r1_state_sig_root :: felt
  r1_request_nullifier :: felt
  r1_anon_commitment_x :: felt
  r1_anon_commitment_y :: felt
  r1_expiry_ts :: u64
  r1_solvency_bound :: u128

definition r1_to_cairo_outputs :: "RequestPublicInputs \<Rightarrow> felt list" where
  "r1_to_cairo_outputs p =
     [from_u64 (ucast (r1_statement_type p)),
      from_u64 (ucast (r1_protocol_version p)),
      from_u64 (r1_chain_id p),
      r1_contract_address p,
      r1_active_root p,
      from_u64 (ucast (r1_state_sig_epoch p)),
      r1_state_sig_root p,
      r1_request_nullifier p,
      r1_anon_commitment_x p,
      r1_anon_commitment_y p,
      from_u64 (r1_expiry_ts p),
      from_u128 (r1_solvency_bound p)]"

record WithdrawalPublicInputs =
  w1_statement_type :: u8
  w1_protocol_version :: u16
  w1_chain_id :: u64
  w1_contract_address :: felt
  w1_active_root :: felt
  w1_note_id :: u32
  w1_final_balance :: u128
  w1_destination :: address
  w1_withdrawal_nullifier :: felt
  w1_is_genesis :: bool
  w1_has_clearance :: bool
  w1_state_sig_epoch :: u32
  w1_state_sig_root :: felt
  w1_clear_sig_epoch :: u32
  w1_clear_sig_root :: felt

definition w1_to_cairo_outputs :: "WithdrawalPublicInputs \<Rightarrow> felt list" where
  "w1_to_cairo_outputs p =
     [from_u64 (ucast (w1_statement_type p)),
      from_u64 (ucast (w1_protocol_version p)),
      from_u64 (w1_chain_id p),
      w1_contract_address p,
      w1_active_root p,
      from_u64 (ucast (w1_note_id p)),
      from_u128 (w1_final_balance p),
      destination_field (w1_destination p),
      w1_withdrawal_nullifier p,
      from_u64 (of_bool (w1_is_genesis p)),
      from_u64 (of_bool (w1_has_clearance p)),
      from_u64 (ucast (w1_state_sig_epoch p)),
      w1_state_sig_root p,
      from_u64 (ucast (w1_clear_sig_epoch p)),
      w1_clear_sig_root p]"


section \<open>Hashing bytes to the field\<close>

type_synonym keccak256 = "u8 list \<Rightarrow> u8 list"

text \<open>The bytes fed to the hasher in one round of the loop.\<close>

definition hash_preimage :: "u8 list \<Rightarrow> u8 list \<Rightarrow> u32 \<Rightarrow> u8 list" where
  "hash_preimage tag payload counter =
     tag @ be_digits 8 (unat (of_nat (length payload) :: u64)) @ payload
       @ be_digits 4 (unat counter)"

text \<open>Rejection sampling; \<open>None\<close> is the panic of the exhausted counter.\<close>

function hash_loop :: "keccak256 \<Rightarrow> u8 list \<Rightarrow> u8 list \<Rightarrow> u32 \<Rightarrow> felt option" where
  "hash_loop keccak tag payload counter =
     (case try_from_bytes_be (keccak (hash_preimage tag payload counter)) of
        Inr f \<Rightarrow> Some f
      | Inl _ \<Rightarrow> (case checked_add counter 1 of
                   None \<Rightarrow> None
                 | Some counter' \<Rightarrow> hash_loop keccak tag payload counter'))"
  by pat_completeness auto
termination
proof (relation "measure (\<lambda>(k, d, p, c). 2 ^ 32 - unat c)")
  fix keccak :: keccak256 and tag payload and counter :: u32 and e and counter' :: u32
  assume "checked_add counter 1 = Some counter'"
  then have "unat counter' = Suc (unat counter)" using checked_add_unat by fastforce
  moreover have "unat counter' < 2 ^ 32" using unsigned_less [of counter', where 'a = nat] by simp
  ultimately show "((keccak, tag, payload, counter'), keccak, tag, payload, counter)
      \<in> measure (\<lambda>(k, d, p, c). 2 ^ 32 - unat c)"
    by simp
qed simp

declare hash_loop.simps [simp del]

definition hash_bytes_to_felt :: "keccak256 \<Rightarrow> string \<Rightarrow> u8 list \<Rightarrow> felt option" where
  "hash_bytes_to_felt keccak tag payload = hash_loop keccak (as_bytes_str tag) payload 0"

definition hash_felts_to_felt :: "keccak256 \<Rightarrow> string \<Rightarrow> felt list \<Rightarrow> felt option" where
  "hash_felts_to_felt keccak tag felts = hash_bytes_to_felt keccak tag (concat (map as_bytes felts))"

definition request_context_bytes :: "string \<Rightarrow> felt \<Rightarrow> u8 list" where
  "request_context_bytes client_request_id payload_hash =
     (let idb = as_bytes_str client_request_id in
      be_digits 8 (unat (of_nat (length idb) :: u64)) @ idb @ as_bytes payload_hash)"

definition canonical_request_context :: "keccak256 \<Rightarrow> string \<Rightarrow> felt \<Rightarrow> felt option" where
  "canonical_request_context keccak client_request_id payload_hash =
     hash_bytes_to_felt keccak ''zkapi.v2.request-context''
       (request_context_bytes client_request_id payload_hash)"

definition canonical_payload_hash :: "keccak256 \<Rightarrow> u8 list \<Rightarrow> felt option" where
  "canonical_payload_hash keccak payload = hash_bytes_to_felt keccak ''zkapi.payload.v1'' payload"

definition canonical_response_hash :: "keccak256 \<Rightarrow> u8 list \<Rightarrow> felt option" where
  "canonical_response_hash keccak payload = hash_bytes_to_felt keccak ''zkapi.response.v1'' payload"

definition r1_public_output_hash :: "keccak256 \<Rightarrow> RequestPublicInputs \<Rightarrow> felt option" where
  "r1_public_output_hash keccak p =
     hash_felts_to_felt keccak ''zkapi.req.outputs.v1'' (r1_to_cairo_outputs p)"

definition w1_public_output_hash :: "keccak256 \<Rightarrow> WithdrawalPublicInputs \<Rightarrow> felt option" where
  "w1_public_output_hash keccak p =
     hash_felts_to_felt keccak ''zkapi.wd.outputs.v1'' (w1_to_cairo_outputs p)"

text \<open>\<open>OutputHashPanic\<close> is the exhausted counter of the hash; the others are the returned messages.\<close>

datatype output_error =
    OutputCount nat nat | WrongStatementType | UnknownStatementType u64 | NoOutputs | OutputHashPanic

definition request_public_output_hash_from_outputs ::
    "keccak256 \<Rightarrow> felt list \<Rightarrow> output_error + felt" where
  "request_public_output_hash_from_outputs keccak outputs =
     (if length outputs \<noteq> 12 then Inl (OutputCount (length outputs) 12)
      else if to_u64 (outputs ! 0) \<noteq> Some (ucast STATEMENT_TYPE_REQUEST) then Inl WrongStatementType
      else ok_or OutputHashPanic (hash_felts_to_felt keccak ''zkapi.req.outputs.v1'' outputs))"

definition withdrawal_public_output_hash_from_outputs ::
    "keccak256 \<Rightarrow> felt list \<Rightarrow> output_error + felt" where
  "withdrawal_public_output_hash_from_outputs keccak outputs =
     (if length outputs \<noteq> 15 then Inl (OutputCount (length outputs) 15)
      else if to_u64 (outputs ! 0) \<noteq> Some (ucast STATEMENT_TYPE_WITHDRAWAL)
        then Inl WrongStatementType
      else ok_or OutputHashPanic (hash_felts_to_felt keccak ''zkapi.wd.outputs.v1'' outputs))"

definition public_output_hash_from_cairo_outputs ::
    "keccak256 \<Rightarrow> felt list \<Rightarrow> output_error + felt" where
  "public_output_hash_from_cairo_outputs keccak outputs =
     (case (case outputs of [] \<Rightarrow> None | f # _ \<Rightarrow> to_u64 f) of
        Some statement_type \<Rightarrow>
          if statement_type = ucast STATEMENT_TYPE_REQUEST
            then request_public_output_hash_from_outputs keccak outputs
          else if statement_type = ucast STATEMENT_TYPE_WITHDRAWAL
            then withdrawal_public_output_hash_from_outputs keccak outputs
          else Inl (UnknownStatementType statement_type)
      | None \<Rightarrow> Inl NoOutputs)"


section \<open>Injectivity of the encodings\<close>

lemma ucast_u64_inject [simp]:
  "(ucast (a :: u16) :: u64) = ucast b \<longleftrightarrow> a = b"
  "(ucast (c :: u32) :: u64) = ucast d \<longleftrightarrow> c = d"
  "(ucast (e :: u8) :: u64) = ucast f \<longleftrightarrow> e = f"
  by (simp_all add: ucast_up_inject)

lemma destination_field_eq: "destination_field d = address_to_felt d"
  by (simp add: destination_field_def address_to_felt_def)

lemma destination_field_inject [simp]: "destination_field d = destination_field e \<longleftrightarrow> d = e"
  by (simp add: destination_field_eq)

lemma be_digits_inject:
  "v < 256 ^ n \<Longrightarrow> w < 256 ^ n \<Longrightarrow> be_digits n v = be_digits n w \<longleftrightarrow> v = w"
  by (metis be_value_digits_id)

lemma be_digits_u32_inject [simp]: "be_digits 4 (unat (c :: u32)) = be_digits 4 (unat d) \<longleftrightarrow> c = d"
  using unsigned_less [of c, where 'a = nat] unsigned_less [of d, where 'a = nat]
  by (simp add: be_digits_inject word_unat_eq_iff)

lemma hash_preimage_same_domain:
  assumes "hash_preimage tag p c = hash_preimage tag p' c'"
  shows "p = p' \<and> c = c'"
proof -
  have "length p = length p'"
    using arg_cong [OF assms, of length] by (simp add: hash_preimage_def)
  then show ?thesis using assms by (simp add: hash_preimage_def)
qed

lemma request_context_bytes_inject:
  "request_context_bytes i h = request_context_bytes i' h' \<longleftrightarrow> i = i' \<and> h = h'"
proof
  assume eq: "request_context_bytes i h = request_context_bytes i' h'"
  have "length i = length i'"
    using arg_cong [OF eq, of length] by (simp add: request_context_bytes_def Let_def)
  then show "i = i' \<and> h = h'" using eq by (simp add: request_context_bytes_def Let_def)
qed simp


section \<open>Collisions\<close>

lemma try_from_bytes_be_InrD: "try_from_bytes_be bs = Inr f \<Longrightarrow> f = felt_of_bytes bs"
  by (simp add: try_from_bytes_be_def split: if_splits)

lemma hash_loop_SomeD:
  "hash_loop keccak tag payload c = Some f \<Longrightarrow>
   \<exists>c'. f = felt_of_bytes (keccak (hash_preimage tag payload c'))"
proof (induction keccak tag payload c rule: hash_loop.induct)
  case (1 keccak tag payload counter)
  show ?case
  proof (cases "try_from_bytes_be (keccak (hash_preimage tag payload counter))")
    case (Inr g)
    then show ?thesis using "1.prems" try_from_bytes_be_InrD
      by (subst (asm) hash_loop.simps) auto
  next
    case (Inl e)
    then obtain c' where "checked_add counter 1 = Some c'" "hash_loop keccak tag payload c' = Some f"
      using "1.prems" by (subst (asm) hash_loop.simps) (auto split: option.splits)
    then show ?thesis using "1.IH" Inl by blast
  qed
qed

lemma felt_of_bytes_32_inject:
  "length bs = 32 \<Longrightarrow> length cs = 32 \<Longrightarrow> felt_of_bytes bs = felt_of_bytes cs \<Longrightarrow> bs = cs"
  by (metis as_bytes_of_bytes)

text \<open>The documented output length of Keccak-256.\<close>

definition keccak_ok :: "keccak256 \<Rightarrow> bool" where
  "keccak_ok keccak \<longleftrightarrow> (\<forall>m. length (keccak m) = 32)"

lemma hash_loop_canonical: "keccak_ok k \<Longrightarrow> hash_loop k tag p c = Some f \<Longrightarrow> canonical f"
proof (induction k tag p c rule: hash_loop.induct)
  case (1 k tag p c)
  show ?case
  proof (cases "try_from_bytes_be (k (hash_preimage tag p c))")
    case (Inr g)
    then have "f = g" using "1.prems"(2) by (subst (asm) hash_loop.simps) simp
    then show ?thesis using try_from_bytes_be_canonical(1) [OF _ Inr] "1.prems"(1) by (simp add: keccak_ok_def)
  next
    case (Inl e)
    then obtain c' where "checked_add c 1 = Some c'" "hash_loop k tag p c' = Some f"
      using "1.prems"(2) by (subst (asm) hash_loop.simps) (auto split: option.splits)
    then show ?thesis using "1.IH" Inl "1.prems"(1) by blast
  qed
qed

lemma hash_bytes_canonical: "keccak_ok k \<Longrightarrow> hash_bytes_to_felt k tag p = Some f \<Longrightarrow> canonical f"
  by (simp add: hash_bytes_to_felt_def hash_loop_canonical)

text \<open>An explicit Keccak collision between two hashing attempts.\<close>

definition preimage_collision ::
    "keccak256 \<Rightarrow> string \<Rightarrow> u8 list \<Rightarrow> string \<Rightarrow> u8 list \<Rightarrow> bool" where
  "preimage_collision keccak tag p tag' p' \<longleftrightarrow>
     (\<exists>c c'. hash_preimage (as_bytes_str tag) p c \<noteq> hash_preimage (as_bytes_str tag') p' c' \<and>
        keccak (hash_preimage (as_bytes_str tag) p c) =
        keccak (hash_preimage (as_bytes_str tag') p' c'))"

definition hash_domains :: "string list" where
  "hash_domains = [''zkapi.v2.request-context'', ''zkapi.payload.v1'', ''zkapi.response.v1'',
     ''zkapi.req.outputs.v1'', ''zkapi.wd.outputs.v1'']"

text \<open>Different domains differ at one of their first ten characters.\<close>

lemma hash_domains_differ:
  assumes "t \<in> set hash_domains" "t' \<in> set hash_domains" "t \<noteq> t'"
  shows "take 10 t \<noteq> take 10 t' \<and> length t \<ge> 10 \<and> length t' \<ge> 10"
proof -
  have "\<forall>t \<in> set hash_domains. length t \<ge> 10" by (simp add: hash_domains_def)
  moreover have "distinct (map (take 10) hash_domains)" by (simp add: hash_domains_def)
  then have "inj_on (take 10) (set hash_domains)" by (simp add: distinct_map)
  ultimately show ?thesis using assms by (auto dest: inj_onD)
qed

lemma hash_preimage_inject:
  assumes "t \<in> set hash_domains" "t' \<in> set hash_domains"
    and "hash_preimage (as_bytes_str t) p c = hash_preimage (as_bytes_str t') p' c'"
  shows "t = t' \<and> p = p'"
proof (cases "t = t'")
  case True
  then show ?thesis using assms(3) hash_preimage_same_domain by blast
next
  case False
  note differ = hash_domains_differ [OF assms(1,2) False]
  have "take 10 (as_bytes_str t) = take 10 (as_bytes_str t')"
    using arg_cong [OF assms(3), of "take 10"] differ by (simp add: hash_preimage_def)
  then have "as_bytes_str (take 10 t) = as_bytes_str (take 10 t')"
    by (simp add: as_bytes_str_def take_map)
  then show ?thesis using differ by simp
qed

lemma hash_bytes_to_felt_binding:
  assumes "keccak_ok keccak" "t \<in> set hash_domains" "t' \<in> set hash_domains"
    and "hash_bytes_to_felt keccak t p = Some f" "hash_bytes_to_felt keccak t' p' = Some f"
    and "(t, p) \<noteq> (t', p')"
  shows "preimage_collision keccak t p t' p'"
proof -
  obtain c c' where "f = felt_of_bytes (keccak (hash_preimage (as_bytes_str t) p c))"
    and "f = felt_of_bytes (keccak (hash_preimage (as_bytes_str t') p' c'))"
    using assms(4,5) hash_loop_SomeD unfolding hash_bytes_to_felt_def by metis
  then have "keccak (hash_preimage (as_bytes_str t) p c)
      = keccak (hash_preimage (as_bytes_str t') p' c')"
    using assms(1) by (intro felt_of_bytes_32_inject) (simp_all add: keccak_ok_def)
  moreover have "hash_preimage (as_bytes_str t) p c \<noteq> hash_preimage (as_bytes_str t') p' c'"
    using hash_preimage_inject [OF assms(2,3)] assms(6) by blast
  ultimately show ?thesis unfolding preimage_collision_def by blast
qed


section \<open>Properties\<close>

text \<open>The field vectors of the four public statements determine every member of the
  statement: no two statements share an encoding.\<close>

lemma public_inputs_injective:
  "(r2_to_field_elements a = r2_to_field_elements a' \<longleftrightarrow> a = (a' :: RequestPublicInputsV2)) \<and>
   (w2_to_field_elements b = w2_to_field_elements b' \<longleftrightarrow> b = (b' :: WithdrawalPublicInputsV2)) \<and>
   (r1_to_cairo_outputs c = r1_to_cairo_outputs c' \<longleftrightarrow> c = (c' :: RequestPublicInputs)) \<and>
   (w1_to_cairo_outputs d = w1_to_cairo_outputs d' \<longleftrightarrow> d = (d' :: WithdrawalPublicInputs))"
proof (intro conjI)
  show "r2_to_field_elements a = r2_to_field_elements a' \<longleftrightarrow> a = a'"
    by (cases a, cases a') (auto simp: r2_to_field_elements_def)
  show "w2_to_field_elements b = w2_to_field_elements b' \<longleftrightarrow> b = b'"
    by (cases b, cases b') (auto simp: w2_to_field_elements_def)
  show "r1_to_cairo_outputs c = r1_to_cairo_outputs c' \<longleftrightarrow> c = c'"
    by (cases c, cases c') (auto simp: r1_to_cairo_outputs_def)
  show "w1_to_cairo_outputs d = w1_to_cairo_outputs d' \<longleftrightarrow> d = d'"
    by (cases d, cases d') (auto simp: w1_to_cairo_outputs_def)
qed

text \<open>Claim C33. A request context binds the client request id and the payload hash: two different
  pairs with the same context give an explicit Keccak collision, and so does a context that equals
  the payload hash of some bytes.\<close>

theorem request_context_binding:
  assumes "keccak_ok keccak" "canonical_request_context keccak i h = Some ctx"
  shows "(canonical_request_context keccak i' h' = Some ctx \<and> (i, h) \<noteq> (i', h') \<longrightarrow>
      preimage_collision keccak ''zkapi.v2.request-context'' (request_context_bytes i h)
        ''zkapi.v2.request-context'' (request_context_bytes i' h')) \<and>
    (canonical_payload_hash keccak payload = Some ctx \<longrightarrow>
      preimage_collision keccak ''zkapi.v2.request-context'' (request_context_bytes i h)
        ''zkapi.payload.v1'' payload)"
  using assms
  by (auto intro!: hash_bytes_to_felt_binding simp: hash_domains_def canonical_request_context_def
      canonical_payload_hash_def request_context_bytes_inject)

theorem request_context_binding_witness:
  "preimage_collision (\<lambda>_. replicate 32 0) ''zkapi.v2.request-context'' (request_context_bytes ''a'' 1)
      ''zkapi.v2.request-context'' (request_context_bytes ''b'' 1)"
proof -
  let ?k = "\<lambda>_ :: u8 list. replicate 32 (0 :: u8)"
  have "try_from_bytes_be (replicate 32 0) = Inr 0"
    by (simp add: try_from_bytes_be_eq field_modulus_def felt_of_bytes_def)
  then have "canonical_request_context ?k ''a'' 1 = Some 0" "canonical_request_context ?k ''b'' 1 = Some 0"
    by (simp_all add: canonical_request_context_def hash_bytes_to_felt_def hash_loop.simps)
  moreover have "keccak_ok ?k" by (simp add: keccak_ok_def)
  ultimately show ?thesis using request_context_binding [of ?k "''a''" 1 0 "''b''" 1] by simp
qed

end
