(* ===== verification/Wire.thy ===== *)
theory Wire
  imports Inputs
begin

text \<open>
  The messages of the HTTP interface: \<open>zkapi-types/src/wire.rs\<close>. The amounts of the OpenRouter lease messages
  are floating-point numbers, a type parameter here; no code of the repository handles these messages.
\<close>

datatype ProofBackendWire = StwoCairo | Groth16Bn254

record ProofArtifactWire =
  pa_backend :: ProofBackendWire
  pa_public_output_hash :: felt
  pa_proof :: string

record Groth16ProofWire =
  gw_backend :: ProofBackendWire
  gw_proof :: string

record ApiRequestV2 =
  aq2_client_request_id :: string
  aq2_payload :: string
  aq2_payload_hash :: felt
  aq2_public_inputs :: RequestPublicInputsV2
  aq2_proof :: Groth16ProofWire

record OpenRouterLeaseAuthorization =
  ola_mode :: string
  ola_version :: u16

definition OpenRouterLeaseAuthorization_default :: OpenRouterLeaseAuthorization where
  "OpenRouterLeaseAuthorization_default = \<lparr>ola_mode = ''openrouter_ephemeral_lease'', ola_version = 1\<rparr>"

text \<open>Only the live response has the plaintext key.\<close>

record 'x OpenRouterLeaseResponse =
  olr_status :: string
  olr_client_request_id :: string
  olr_api_key :: string
  olr_openrouter_api_base :: string
  olr_issued_at :: u64
  olr_expires_at :: u64
  olr_valid_for_seconds :: u64
  olr_settle_after :: u64
  olr_spending_limit_usd :: 'x

record 'x OpenRouterLeaseStatusResponse =
  ols_status :: string
  ols_client_request_id :: string
  ols_issued_at :: u64
  ols_expires_at :: u64
  ols_settle_after :: u64
  ols_spending_limit_usd :: 'x
  ols_usage_usd :: "'x option"
  ols_charge_applied :: "u128 option"
  ols_last_error :: "string option"

record CurvePointWire =
  cp_x :: felt
  cp_y :: felt

record RequestResponseV2 =
  rr2_status :: string
  rr2_client_request_id :: string
  rr2_request_nullifier :: felt
  rr2_response_code :: u16
  rr2_response_payload :: string
  rr2_response_hash :: felt
  rr2_charge_applied :: u128
  rr2_next_commitment :: CurvePointWire
  rr2_next_anchor :: felt
  rr2_blind_delta_srv :: felt
  rr2_next_state_signature :: SchnorrSignature
  rr2_policy_reason_code :: "u32 option"
  rr2_policy_evidence_hash :: "felt option"

record ClearanceResponseV2 =
  cr2_status :: string
  cr2_withdrawal_nullifier :: felt
  cr2_signature :: SchnorrSignature

record RecoveryResponseV2 =
  rc2_status :: string
  rc2_nullifier_status :: string
  rc2_request_response :: "RequestResponseV2 option"

record RequestResponse =
  rr_status :: string
  rr_client_request_id :: string
  rr_request_nullifier :: felt
  rr_response_code :: u16
  rr_response_payload :: string
  rr_response_hash :: felt
  rr_charge_applied :: u128
  rr_next_commitment :: CurvePointWire
  rr_next_anchor :: felt
  rr_blind_delta_srv :: felt
  rr_next_state_sig_epoch :: u32
  rr_next_state_sig_root :: felt
  rr_next_state_sig :: XmssSignature
  rr_policy_reason_code :: "u32 option"
  rr_policy_evidence_hash :: "felt option"

record ErrorResponse =
  ee_status :: string
  ee_client_request_id :: string
  ee_error_code :: string
  ee_error_message :: string
  ee_retriable :: bool
  ee_latest_root :: "felt option"
  ee_server_time_ms :: "u64 option"
  ee_retry_after_seconds :: "u64 option"

record ApiRequest =
  aq_client_request_id :: string
  aq_payload :: string
  aq_payload_hash :: felt
  aq_public_inputs :: RequestPublicInputs
  aq_proof :: ProofArtifactWire

record ClearanceRequest =
  cq_withdrawal_nullifier :: felt

record ClearanceResponse =
  cr_status :: string
  cr_withdrawal_nullifier :: felt
  cr_clear_sig_epoch :: u32
  cr_clear_sig_root :: felt
  cr_clear_sig :: XmssSignature

record RecoveryResponse =
  rc_status :: string
  rc_nullifier_status :: string
  rc_request_response :: "RequestResponse option"

end
