(* ===== verification/Core_V2.thy ===== *)
theory Core_V2
  imports Inputs
begin

text \<open>
  The protocol hashes of \<open>zkapi-core\<close>. The first section is \<open>v2.rs\<close> with its wrappers
  \<open>leaf.rs\<close> and \<open>nullifier.rs\<close>; the second is the Starknet variant of \<open>poseidon.rs\<close> and
  \<open>commitment.rs\<close> used by the version 1 signer.

  The sponge itself comes from \<open>ark-crypto-primitives\<close> and is the parameter \<open>poseidon\<close>: the hash of
  a list of field elements, each represented by its value below the modulus. \<open>poseidon_ok\<close> states
  that the result is such a value. Starknet's field and hash are the record \<open>stark\<close>.
\<close>

section \<open>Field elements and the domain-separated hash\<close>

type_synonym poseidon = "nat list \<Rightarrow> nat"

definition poseidon_ok :: "poseidon \<Rightarrow> bool" where
  "poseidon_ok P \<longleftrightarrow> (\<forall>xs. P xs < field_modulus)"

text \<open>\<open>Fr::from_be_bytes_mod_order\<close> reduces the big-endian value of the bytes.\<close>

definition from_be_bytes_mod_order :: "u8 list \<Rightarrow> nat" where
  "from_be_bytes_mod_order bs = be_value bs mod field_modulus"

definition v2_domain :: "string \<Rightarrow> nat" where
  "v2_domain label = from_be_bytes_mod_order (as_bytes_str label)"

definition felt_to_field :: "felt \<Rightarrow> nat" where
  "felt_to_field f = from_be_bytes_mod_order (as_bytes f)"

definition field_to_felt :: "nat \<Rightarrow> felt" where
  "field_to_felt v =
     (let raw = be_digits 32 v in felt_of_bytes (replicate (32 - length raw) 0 @ raw))"

definition hash_felts :: "poseidon \<Rightarrow> felt list \<Rightarrow> felt" where
  "hash_felts P inputs = field_to_felt (P (map felt_to_field inputs))"

definition hash_domain :: "poseidon \<Rightarrow> string \<Rightarrow> felt list \<Rightarrow> felt" where
  "hash_domain P label inputs = field_to_felt (P (v2_domain label # map felt_to_field inputs))"

definition V2_DOMAIN_REG :: string where "V2_DOMAIN_REG = ''zkapi.v2.reg''"
definition V2_DOMAIN_LEAF :: string where "V2_DOMAIN_LEAF = ''zkapi.v2.leaf''"
definition V2_DOMAIN_NODE :: string where "V2_DOMAIN_NODE = ''zkapi.v2.node''"
definition V2_DOMAIN_NULLIFIER :: string where "V2_DOMAIN_NULLIFIER = ''zkapi.v2.null''"
definition V2_DOMAIN_AUTHORIZATION :: string where "V2_DOMAIN_AUTHORIZATION = ''zkapi.v2.auth''"
definition V2_DOMAIN_STATE :: string where "V2_DOMAIN_STATE = ''zkapi.v2.state''"
definition V2_DOMAIN_CLEARANCE :: string where "V2_DOMAIN_CLEARANCE = ''zkapi.v2.clear''"
definition V2_DOMAIN_WITHDRAWAL :: string where "V2_DOMAIN_WITHDRAWAL = ''zkapi.v2.withdraw''"
definition V2_DOMAIN_ANCHOR :: string where "V2_DOMAIN_ANCHOR = ''zkapi.v2.anchor''"
definition V2_DOMAIN_BLIND :: string where "V2_DOMAIN_BLIND = ''zkapi.v2.blind''"

lemmas v2_labels = V2_DOMAIN_REG_def V2_DOMAIN_LEAF_def V2_DOMAIN_NODE_def V2_DOMAIN_NULLIFIER_def
  V2_DOMAIN_AUTHORIZATION_def V2_DOMAIN_STATE_def V2_DOMAIN_CLEARANCE_def V2_DOMAIN_WITHDRAWAL_def
  V2_DOMAIN_ANCHOR_def V2_DOMAIN_BLIND_def


section \<open>Protocol hashes, version 2\<close>

definition registration_commitment :: "poseidon \<Rightarrow> felt \<Rightarrow> felt" where
  "registration_commitment P secret = hash_domain P V2_DOMAIN_REG [secret, ZERO]"

definition note_leaf :: "poseidon \<Rightarrow> u32 \<Rightarrow> felt \<Rightarrow> u128 \<Rightarrow> u64 \<Rightarrow> felt" where
  "note_leaf P note_id registration deposit_amount expiry =
     hash_domain P V2_DOMAIN_LEAF
       [from_u64 (ucast note_id), registration, from_u128 deposit_amount, from_u64 expiry]"

definition merkle_node :: "poseidon \<Rightarrow> felt \<Rightarrow> felt \<Rightarrow> felt" where
  "merkle_node P left right = hash_domain P V2_DOMAIN_NODE [left, right]"

text \<open>\<open>siblings.iter().enumerate()\<close> with the bit of \<open>note_id\<close> at each level.\<close>

definition merkle_root :: "poseidon \<Rightarrow> u32 \<Rightarrow> felt \<Rightarrow> felt list \<Rightarrow> felt" where
  "merkle_root P note_id leaf siblings =
     fold (\<lambda>(level, sibling) current.
             if and (drop_bit level note_id) 1 = 0 then merkle_node P current sibling
             else merkle_node P sibling current)
          (List.enumerate 0 siblings) leaf"

text \<open>The loop \<open>for level in 1..=MERKLE_DEPTH\<close> on the array.\<close>

definition zero_hashes :: "poseidon \<Rightarrow> felt list" where
  "zero_hashes P =
     fold (\<lambda>level values. values[level := merkle_node P (values ! (level - 1)) (values ! (level - 1))])
          [1..<MERKLE_DEPTH + 1] (replicate (MERKLE_DEPTH + 1) ZERO)"

definition nullifier :: "poseidon \<Rightarrow> felt \<Rightarrow> felt \<Rightarrow> felt" where
  "nullifier P secret anchor = hash_domain P V2_DOMAIN_NULLIFIER [secret, anchor]"

definition authorization_tag :: "poseidon \<Rightarrow> felt \<Rightarrow> felt \<Rightarrow> felt" where
  "authorization_tag P nul request_context =
     hash_domain P V2_DOMAIN_AUTHORIZATION [nul, request_context]"

definition state_message :: "poseidon \<Rightarrow> u16 \<Rightarrow> u64 \<Rightarrow> felt \<Rightarrow> felt \<Rightarrow> felt \<Rightarrow> felt \<Rightarrow> felt" where
  "state_message P protocol_version chain_id contract_address commitment_x commitment_y anchor =
     hash_domain P V2_DOMAIN_STATE
       [from_u64 (ucast protocol_version), from_u64 chain_id, contract_address,
        commitment_x, commitment_y, anchor]"

definition clearance_message :: "poseidon \<Rightarrow> u16 \<Rightarrow> u64 \<Rightarrow> felt \<Rightarrow> felt \<Rightarrow> felt" where
  "clearance_message P protocol_version chain_id contract_address withdrawal_nullifier =
     hash_domain P V2_DOMAIN_CLEARANCE
       [from_u64 (ucast protocol_version), from_u64 chain_id, contract_address,
        withdrawal_nullifier]"

definition withdrawal_tag :: "poseidon \<Rightarrow> felt \<Rightarrow> felt \<Rightarrow> u128 \<Rightarrow> bool \<Rightarrow> felt" where
  "withdrawal_tag P nul destination final_balance has_clearance =
     hash_domain P V2_DOMAIN_WITHDRAWAL
       [nul, destination, from_u128 final_balance, from_u64 (of_bool has_clearance)]"

definition next_anchor :: "poseidon \<Rightarrow> felt \<Rightarrow> felt \<Rightarrow> felt \<Rightarrow> felt \<Rightarrow> felt" where
  "next_anchor P server_randomness request_nullifier commitment_x commitment_y =
     hash_domain P V2_DOMAIN_ANCHOR
       [server_randomness, request_nullifier, commitment_x, commitment_y]"

definition blind_delta :: "poseidon \<Rightarrow> felt \<Rightarrow> felt \<Rightarrow> felt" where
  "blind_delta P server_randomness request_nullifier =
     hash_domain P V2_DOMAIN_BLIND [server_randomness, request_nullifier]"

definition compute_note_leaf :: "poseidon \<Rightarrow> u32 \<Rightarrow> felt \<Rightarrow> u128 \<Rightarrow> u64 \<Rightarrow> felt" where
  "compute_note_leaf P note_id commitment deposit_amount expiry_ts =
     note_leaf P note_id commitment deposit_amount expiry_ts"

definition compute_registration_commitment :: "poseidon \<Rightarrow> felt \<Rightarrow> felt" where
  "compute_registration_commitment P secret = registration_commitment P secret"

definition compute_nullifier :: "poseidon \<Rightarrow> felt \<Rightarrow> felt \<Rightarrow> felt" where
  "compute_nullifier P secret anchor = nullifier P secret anchor"

definition compute_genesis_nullifier :: "poseidon \<Rightarrow> felt \<Rightarrow> felt" where
  "compute_genesis_nullifier P secret = compute_nullifier P secret ONE"


section \<open>Protocol hashes, version 1\<close>

text \<open>\<open>starknet-types-core\<close> and \<open>starknet-crypto\<close>: the field element of 32 bytes, its bytes,
  the hash of a list of field elements, and the conversion from \<open>u64\<close>.\<close>

record 'f stark =
  from_bytes_be :: "felt \<Rightarrow> 'f"
  to_bytes_be :: "'f \<Rightarrow> felt"
  poseidon_hash_many :: "'f list \<Rightarrow> 'f"
  from_u64_felt :: "u64 \<Rightarrow> 'f"

text \<open>Serialising a field element and reading the bytes back gives the element.\<close>

definition stark_ok :: "'f stark \<Rightarrow> bool" where
  "stark_ok S \<longleftrightarrow> (\<forall>x. from_bytes_be S (to_bytes_be S x) = x)"

definition poseidon_hash :: "'f stark \<Rightarrow> felt \<Rightarrow> felt \<Rightarrow> felt \<Rightarrow> felt" where
  "poseidon_hash S tag a b =
     to_bytes_be S (poseidon_hash_many S
       [from_bytes_be S tag, from_bytes_be S a, from_bytes_be S b])"

definition poseidon_hash_chain :: "'f stark \<Rightarrow> felt \<Rightarrow> felt list \<Rightarrow> felt" where
  "poseidon_hash_chain S tag inputs =
     to_bytes_be S (poseidon_hash_many S (from_bytes_be S tag # map (from_bytes_be S) inputs))"

definition compute_state_message ::
    "'f stark \<Rightarrow> u16 \<Rightarrow> u64 \<Rightarrow> felt \<Rightarrow> felt \<Rightarrow> felt \<Rightarrow> felt \<Rightarrow> felt" where
  "compute_state_message S protocol_version chain_id contract_address commitment_x commitment_y anchor =
     poseidon_hash_chain S DOMAIN_STATE
       [from_u64 (ucast protocol_version), from_u64 chain_id, contract_address,
        commitment_x, commitment_y, anchor]"

definition compute_clearance_message :: "'f stark \<Rightarrow> u16 \<Rightarrow> u64 \<Rightarrow> felt \<Rightarrow> felt \<Rightarrow> felt" where
  "compute_clearance_message S protocol_version chain_id contract_address withdrawal_nullifier =
     poseidon_hash_chain S DOMAIN_CLEAR
       [from_u64 (ucast protocol_version), from_u64 chain_id, contract_address,
        withdrawal_nullifier]"

definition compute_next_anchor :: "'f stark \<Rightarrow> felt \<Rightarrow> felt \<Rightarrow> felt \<Rightarrow> felt \<Rightarrow> u32 \<Rightarrow> felt" where
  "compute_next_anchor S server_rng request_nullifier next_x next_y state_sig_leaf_index =
     poseidon_hash_chain S DOMAIN_ANCHOR
       [server_rng, request_nullifier, next_x, next_y, from_u64 (ucast state_sig_leaf_index)]"

definition compute_blind_delta :: "'f stark \<Rightarrow> felt \<Rightarrow> felt \<Rightarrow> u32 \<Rightarrow> felt" where
  "compute_blind_delta S server_rng request_nullifier state_sig_leaf_index =
     poseidon_hash_chain S DOMAIN_BLIND
       [server_rng, request_nullifier, from_u64 (ucast state_sig_leaf_index)]"


section \<open>Facts\<close>

lemma field_modulus_256: "field_modulus < 256 ^ 32"
  by (simp add: field_modulus_def)

lemma field_to_felt_eq: "field_to_felt v = of_nat (be_value (be_digits 32 v))"
  by (simp add: field_to_felt_def felt_of_bytes_def be_value_append)

lemma unat_field_to_felt:
  assumes "v < field_modulus"
  shows "unat (field_to_felt v) = v"
proof -
  have "v < 256 ^ 32" using assms field_modulus_256 by (rule less_trans)
  then have "be_value (be_digits 32 v) = v" by (rule be_value_digits_id)
  then have "field_to_felt v = of_nat v" by (simp only: field_to_felt_eq)
  then show ?thesis using \<open>v < 256 ^ 32\<close> by (simp add: unat_of_nat)
qed

lemma felt_to_field_unat: "felt_to_field f = unat f mod field_modulus"
  by (simp add: felt_to_field_def from_be_bytes_mod_order_def be_value_as_bytes)

lemma felt_to_field_canonical: "canonical f \<Longrightarrow> felt_to_field f = unat f"
  by (simp add: felt_to_field_unat canonical_def)

lemma field_felt_round_trip: "v < field_modulus \<Longrightarrow> felt_to_field (field_to_felt v) = v"
  by (simp add: felt_to_field_unat unat_field_to_felt)

lemma felt_field_round_trip: "canonical f \<Longrightarrow> field_to_felt (felt_to_field f) = f"
  by (metis canonical_def felt_to_field_canonical unat_field_to_felt word_unat_eq_iff)

lemma field_to_felt_inject:
  "v < field_modulus \<Longrightarrow> w < field_modulus \<Longrightarrow> field_to_felt v = field_to_felt w \<longleftrightarrow> v = w"
  by (metis unat_field_to_felt)

lemma canonical_hash_domain: "poseidon_ok P \<Longrightarrow> canonical (hash_domain P label inputs)"
  by (simp add: hash_domain_def canonical_def unat_field_to_felt poseidon_ok_def)

lemma canonical_from_u64 [simp]: "canonical (from_u64 v)"
proof -
  have "unat (from_u64 v) < 2 ^ 64" using unsigned_less [of v, where 'a = nat]
    by (simp add: unat_from_u64)
  also have "(2 :: nat) ^ 64 < field_modulus" by (simp add: field_modulus_def)
  finally show ?thesis by (simp add: canonical_def)
qed

lemma canonical_from_u128 [simp]: "canonical (from_u128 v)"
proof -
  have "unat (from_u128 v) < 2 ^ 128" using unsigned_less [of v, where 'a = nat]
    by (simp add: unat_from_u128)
  also have "(2 :: nat) ^ 128 < field_modulus" by (simp add: field_modulus_def)
  finally show ?thesis by (simp add: canonical_def)
qed

lemma canonical_0 [simp]: "canonical 0" and canonical_1 [simp]: "canonical 1"
  by (simp_all add: canonical_def field_modulus_def)

end
