(* ===== verification/Pedersen.thy ===== *)
theory Pedersen
  imports Core_V2
begin

text \<open>
  Pedersen commitments of \<open>zkapi-crypto/src/pedersen.rs\<close>. The curve arithmetic of
  \<open>starknet-types-core\<close> is a parameter: projective points form an abelian group \<open>'g\<close> (\<open>+\<close> is point
  addition and \<open>0\<close> the identity) and the record \<open>curve\<close> holds the two generators and the conversions
  to and from affine coordinates. \<open>curve_ok\<close> states the documented laws: the group order annihilates
  the generator used for blinding and affine coordinates determine a point.
\<close>

section \<open>Model\<close>

definition STARK_PRIME :: nat where
  "STARK_PRIME = 2 ^ 251 + 17 * 2 ^ 192 + 1"

definition CURVE_ORDER :: nat where
  "CURVE_ORDER = 0x0800000000000010ffffffffffffffffb781126dcae7b2321e66a241adc64d2f"

record ('f, 'g) curve =
  G_BALANCE :: 'g
  H_BLIND :: 'g
  to_affine :: "'g \<Rightarrow> ('f \<times> 'f) option"
  from_affine :: "'f \<Rightarrow> 'f \<Rightarrow> 'g option"

text \<open>The generators of the source; a constant that is not on the curve panics at the first use.
  \<open>from_hex_unchecked\<close> is the library's reading of a constant.\<close>

definition G_BALANCE_X_HEX :: string where
  "G_BALANCE_X_HEX = ''02e60e3230fe061dbebac8fd2cfa503e4eb92783aeb5fd6fb931a66ee277e4d3''"

definition G_BALANCE_Y_HEX :: string where
  "G_BALANCE_Y_HEX = ''039289536a4fb4c04778f51eed313db47730cf86d342fd3f80f27bed1c2febac''"

definition H_BLIND_X_HEX :: string where
  "H_BLIND_X_HEX = ''009ed31288dc3e29f8759144b455aa05f39eee1a947e92fc1a9d71d15ed49faa''"

definition H_BLIND_Y_HEX :: string where
  "H_BLIND_Y_HEX = ''073853a56a47d4dbeaf5c18ca78fbf64f414d5fccefaac0227d5c2654d2ca9b4''"

definition init_generators ::
    "(string \<Rightarrow> 'f) \<Rightarrow> ('f \<Rightarrow> 'f \<Rightarrow> 'g option) \<Rightarrow> ('g \<times> 'g) option" where
  "init_generators from_hex_unchecked affine =
     Option.bind (affine (from_hex_unchecked G_BALANCE_X_HEX) (from_hex_unchecked G_BALANCE_Y_HEX)) (\<lambda>g.
     Option.bind (affine (from_hex_unchecked H_BLIND_X_HEX) (from_hex_unchecked H_BLIND_Y_HEX)) (\<lambda>h. Some (g, h)))"

text \<open>The value of a field element and the element of a value.\<close>

definition to_biguint :: "'f stark \<Rightarrow> 'f \<Rightarrow> nat" where
  "to_biguint S x = unat (to_bytes_be S x)"

definition biguint_to_felt :: "'f stark \<Rightarrow> nat \<Rightarrow> 'f" where
  "biguint_to_felt S v = from_bytes_be S (felt_of_bytes (be_digits 32 v))"

definition felt_from_u128 :: "'f stark \<Rightarrow> u128 \<Rightarrow> 'f" where
  "felt_from_u128 S v = from_bytes_be S (from_u128 v)"

definition reduce_blinding :: "'f stark \<Rightarrow> 'f \<Rightarrow> 'f" where
  "reduce_blinding S value = biguint_to_felt S (to_biguint S value mod CURVE_ORDER)"

definition add_blinding :: "'f stark \<Rightarrow> 'f \<Rightarrow> 'f \<Rightarrow> 'f" where
  "add_blinding S a b = biguint_to_felt S ((to_biguint S a + to_biguint S b) mod CURVE_ORDER)"

text \<open>Double and add over the 256 bits of the scalar, least significant first.\<close>

definition to_bits_le :: "'f stark \<Rightarrow> 'f \<Rightarrow> bool list" where
  "to_bits_le S x = map (\<lambda>i. bit (to_bytes_be S x) i) [0..<256]"

definition scalar_mul :: "'f stark \<Rightarrow> 'g::ab_group_add \<Rightarrow> 'f \<Rightarrow> 'g" where
  "scalar_mul S point scalar =
     fst (fold (\<lambda>b (result, temp). (if b then result + temp else result, temp + temp))
               (to_bits_le S scalar) (0, point))"

definition commit :: "'f stark \<Rightarrow> ('f, 'g::ab_group_add) curve \<Rightarrow> u128 \<Rightarrow> 'f \<Rightarrow> 'g" where
  "commit S C balance blinding =
     scalar_mul S (G_BALANCE C) (felt_from_u128 S balance) + scalar_mul S (H_BLIND C) blinding"

definition rerandomize :: "'f stark \<Rightarrow> ('f, 'g::ab_group_add) curve \<Rightarrow> 'g \<Rightarrow> 'f \<Rightarrow> 'g" where
  "rerandomize S C point rho = point + scalar_mul S (H_BLIND C) rho"

definition server_update :: "'f stark \<Rightarrow> ('f, 'g::ab_group_add) curve \<Rightarrow> 'g \<Rightarrow> u128 \<Rightarrow> 'f \<Rightarrow> 'g" where
  "server_update S C anon charge bdelta =
     (let delta_g = scalar_mul S (G_BALANCE C) (felt_from_u128 S charge);
          blind_h = scalar_mul S (H_BLIND C) bdelta
      in (anon + (- delta_g)) + blind_h)"

definition verify_opening :: "'f stark \<Rightarrow> ('f, 'g::ab_group_add) curve \<Rightarrow> 'g \<Rightarrow> u128 \<Rightarrow> 'f \<Rightarrow> bool" where
  "verify_opening S C point balance blinding \<longleftrightarrow> point = commit S C balance blinding"

definition point_to_affine :: "('f, 'g) curve \<Rightarrow> 'g \<Rightarrow> ('f \<times> 'f) option" where
  "point_to_affine C p = to_affine C p"


section \<open>The generators\<close>

text \<open>The Stark curve, documented as \<open>y^2 = x^3 + x + b\<close>, and the value of a constant.\<close>

definition STARK_BETA :: nat where
  "STARK_BETA = 0x06f21413efbe40de150e596d72f7a8c5609ad26c15c915c1f4cdfcb99cee9e89"

definition on_stark_curve :: "nat \<Rightarrow> nat \<Rightarrow> bool" where
  "on_stark_curve x y \<longleftrightarrow> x < STARK_PRIME \<and> y < STARK_PRIME \<and>
     y * y mod STARK_PRIME = ((x * x mod STARK_PRIME) * x + x + STARK_BETA) mod STARK_PRIME"

lemma hex_digits:
  "hex_digit CHR ''0'' = Some 0" "hex_digit CHR ''1'' = Some 1" "hex_digit CHR ''2'' = Some 2" "hex_digit CHR ''3'' = Some 3" "hex_digit CHR ''4'' = Some 4" "hex_digit CHR ''5'' = Some 5" "hex_digit CHR ''6'' = Some 6" "hex_digit CHR ''7'' = Some 7"
  "hex_digit CHR ''8'' = Some 8" "hex_digit CHR ''9'' = Some 9" "hex_digit CHR ''a'' = Some 10" "hex_digit CHR ''b'' = Some 11" "hex_digit CHR ''c'' = Some 12" "hex_digit CHR ''d'' = Some 13" "hex_digit CHR ''e'' = Some 14" "hex_digit CHR ''f'' = Some 15"
  by (simp_all add: hex_digit_def)

lemma generator_values:
  "hex_value 0 G_BALANCE_X_HEX = Some 0x02e60e3230fe061dbebac8fd2cfa503e4eb92783aeb5fd6fb931a66ee277e4d3"
  "hex_value 0 G_BALANCE_Y_HEX = Some 0x039289536a4fb4c04778f51eed313db47730cf86d342fd3f80f27bed1c2febac"
  "hex_value 0 H_BLIND_X_HEX = Some 0x009ed31288dc3e29f8759144b455aa05f39eee1a947e92fc1a9d71d15ed49faa"
  "hex_value 0 H_BLIND_Y_HEX = Some 0x073853a56a47d4dbeaf5c18ca78fbf64f414d5fccefaac0227d5c2654d2ca9b4"
  unfolding G_BALANCE_X_HEX_def G_BALANCE_Y_HEX_def H_BLIND_X_HEX_def H_BLIND_Y_HEX_def by (simp_all add: hex_digits)

text \<open>A remainder from its quotient.\<close>

lemma mod_quotient: "(a :: nat) = q * p + r \<Longrightarrow> r < p \<Longrightarrow> a mod p = r"
  by simp

lemma balance_on_curve:
  "on_stark_curve 0x2e60e3230fe061dbebac8fd2cfa503e4eb92783aeb5fd6fb931a66ee277e4d3 0x39289536a4fb4c04778f51eed313db47730cf86d342fd3f80f27bed1c2febac"
proof -
  let ?r = "0x67208e0741d153c92f00754e67aee84ab117b3890e4b8374f938951fca8563e :: nat" and ?t = "0x664e76bfa216fbcb58f61acc7117f5468651b4a13922d205c6a42df618c01ee :: nat"
  have "0x39289536a4fb4c04778f51eed313db47730cf86d342fd3f80f27bed1c2febac * 0x39289536a4fb4c04778f51eed313db47730cf86d342fd3f80f27bed1c2febac mod STARK_PRIME = ?r"
    by (rule mod_quotient [where q = "0x198631c29b083bfa55c50b48c478c2d62b1f610b7aa296981e89fac0574e552"]) (simp_all add: STARK_PRIME_def)
  moreover have "0x2e60e3230fe061dbebac8fd2cfa503e4eb92783aeb5fd6fb931a66ee277e4d3 * 0x2e60e3230fe061dbebac8fd2cfa503e4eb92783aeb5fd6fb931a66ee277e4d3 mod STARK_PRIME = ?t"
    by (rule mod_quotient [where q = "0x10cdec977b0f7cafb17474c508d195789a2e33717054833167dee9fb32683fb"]) (simp_all add: STARK_PRIME_def)
  moreover have "(?t * 0x2e60e3230fe061dbebac8fd2cfa503e4eb92783aeb5fd6fb931a66ee277e4d3 + 0x2e60e3230fe061dbebac8fd2cfa503e4eb92783aeb5fd6fb931a66ee277e4d3 + STARK_BETA) mod STARK_PRIME = ?r"
    by (rule mod_quotient [where q = "0x2511a3111ab6aeb7bcc8d81257772c3c2fe17d5b30f9e03877b44e19c7dbc48"]) (simp_all add: STARK_PRIME_def STARK_BETA_def)
  moreover have "0x2e60e3230fe061dbebac8fd2cfa503e4eb92783aeb5fd6fb931a66ee277e4d3 < STARK_PRIME" "0x39289536a4fb4c04778f51eed313db47730cf86d342fd3f80f27bed1c2febac < STARK_PRIME" by (simp_all add: STARK_PRIME_def)
  ultimately show ?thesis unfolding on_stark_curve_def by (simp only: simp_thms)
qed

lemma blind_on_curve:
  "on_stark_curve 0x9ed31288dc3e29f8759144b455aa05f39eee1a947e92fc1a9d71d15ed49faa 0x73853a56a47d4dbeaf5c18ca78fbf64f414d5fccefaac0227d5c2654d2ca9b4"
proof -
  let ?r = "0xae5c1cd297cb4534775e121decf51d04a196e56fbd7a41f77770b017a9a0a5 :: nat" and ?t = "0x147a886b4bb2c9e668988fbd385f1c0621bd19a9004b57f94b227478e473c4a :: nat"
  have "0x73853a56a47d4dbeaf5c18ca78fbf64f414d5fccefaac0227d5c2654d2ca9b4 * 0x73853a56a47d4dbeaf5c18ca78fbf64f414d5fccefaac0227d5c2654d2ca9b4 mod STARK_PRIME = ?r"
    by (rule mod_quotient [where q = "0x6841ef7f0635baf21177d30be736bbf7aa2a4d4da42c5a2f3c72d38f6b585eb"]) (simp_all add: STARK_PRIME_def)
  moreover have "0x9ed31288dc3e29f8759144b455aa05f39eee1a947e92fc1a9d71d15ed49faa * 0x9ed31288dc3e29f8759144b455aa05f39eee1a947e92fc1a9d71d15ed49faa mod STARK_PRIME = ?t"
    by (rule mod_quotient [where q = "0xc51271d0fd9ea333f50d3ff23f8862a1b2727b8b78b5e791376261edd609a"]) (simp_all add: STARK_PRIME_def)
  moreover have "(?t * 0x9ed31288dc3e29f8759144b455aa05f39eee1a947e92fc1a9d71d15ed49faa + 0x9ed31288dc3e29f8759144b455aa05f39eee1a947e92fc1a9d71d15ed49faa + STARK_BETA) mod STARK_PRIME = ?r"
    by (rule mod_quotient [where q = "0x1969055872ec0eea4c1a2eb931de69cca2ba5077b13264614e6248b7219cb2"]) (simp_all add: STARK_PRIME_def STARK_BETA_def)
  moreover have "0x9ed31288dc3e29f8759144b455aa05f39eee1a947e92fc1a9d71d15ed49faa < STARK_PRIME" "0x73853a56a47d4dbeaf5c18ca78fbf64f414d5fccefaac0227d5c2654d2ca9b4 < STARK_PRIME" by (simp_all add: STARK_PRIME_def)
  ultimately show ?thesis unfolding on_stark_curve_def by (simp only: simp_thms)
qed

text \<open>Both constants are points of the curve, with the even root the derivation in the source selects; so the
  library accepts them and the generators are initialised.\<close>

definition stark_constant :: "string \<Rightarrow> string \<Rightarrow> bool" where
  "stark_constant x y \<longleftrightarrow>
     (case (hex_value 0 x, hex_value 0 y) of (Some a, Some b) \<Rightarrow> on_stark_curve a b \<and> even b | _ \<Rightarrow> False)"

lemma generators_on_curve:
  "stark_constant G_BALANCE_X_HEX G_BALANCE_Y_HEX" "stark_constant H_BLIND_X_HEX H_BLIND_Y_HEX"
  by (simp_all add: stark_constant_def generator_values balance_on_curve blind_on_curve)

lemma generators_initialised:
  assumes "\<And>x y. stark_constant x y \<Longrightarrow> affine (from_hex_unchecked x) (from_hex_unchecked y) \<noteq> None"
  shows "init_generators from_hex_unchecked affine \<noteq> None"
  using assms [OF generators_on_curve(1)] assms [OF generators_on_curve(2)] by (auto simp: init_generators_def)

section \<open>Laws\<close>

text \<open>Starknet field elements are the integers modulo the prime, and bytes are reduced.\<close>

definition stark_field_ok :: "'f stark \<Rightarrow> bool" where
  "stark_field_ok S \<longleftrightarrow> stark_ok S \<and>
     (\<forall>f. unat (to_bytes_be S (from_bytes_be S f)) = unat f mod STARK_PRIME)"

primrec nsmul :: "nat \<Rightarrow> 'g::ab_group_add \<Rightarrow> 'g" where
  "nsmul 0 p = 0"
| "nsmul (Suc n) p = p + nsmul n p"

definition curve_ok :: "('f, 'g::ab_group_add) curve \<Rightarrow> bool" where
  "curve_ok C \<longleftrightarrow> nsmul CURVE_ORDER (H_BLIND C) = 0 \<and>
     (\<forall>p x y. to_affine C p = Some (x, y) \<longrightarrow> from_affine C x y = Some p) \<and>
     (\<forall>x y p. from_affine C x y = Some p \<longrightarrow> to_affine C p = Some (x, y)) \<and>
     (\<forall>p. to_affine C p = None \<longleftrightarrow> p = 0)"

lemma nsmul_add: "nsmul (m + n) p = nsmul m p + nsmul n p"
  by (induction m) (simp_all add: add.assoc)

lemma nsmul_mult: "nsmul (m * n) p = nsmul m (nsmul n p)"
  by (induction m) (simp_all add: nsmul_add)

lemma nsmul_zero [simp]: "nsmul n 0 = 0"
  by (induction n) simp_all

lemma nsmul_double: "nsmul n (p + p) = nsmul (2 * n) p"
  by (induction n) (simp_all add: add.assoc)

lemma nsmul_diff: "n \<le> m \<Longrightarrow> nsmul (m - n) p = nsmul m p - nsmul n p"
  using nsmul_add [of "m - n" n p] by simp

lemma nsmul_mod:
  assumes "nsmul k p = 0"
  shows "nsmul (n mod k) p = nsmul n p"
proof -
  have "nsmul n p = nsmul (n div k * k + n mod k) p" by simp
  also have "\<dots> = nsmul (n mod k) p" by (simp only: nsmul_add nsmul_mult assms nsmul_zero add_0)
  finally show ?thesis by simp
qed

text \<open>The loop of \<open>scalar_mul\<close> computes the multiple given by the bits.\<close>

primrec bits_value :: "bool list \<Rightarrow> nat" where
  "bits_value [] = 0"
| "bits_value (b # bs) = of_bool b + 2 * bits_value bs"

lemma scalar_mul_loop:
  "fst (fold (\<lambda>b (result, temp). (if b then result + temp else result, temp + temp)) bs (r, t))
     = r + nsmul (bits_value bs) t"
proof (induction bs arbitrary: r t)
  case (Cons b bs)
  then show ?case by (cases b) (simp_all add: nsmul_double add.assoc)
qed simp

lemma bits_value_drop_bit:
  "bits_value (map (\<lambda>i. bit (n :: nat) (k + i)) [0..<m]) = take_bit m (drop_bit k n)"
proof (induction m arbitrary: k)
  case (Suc m)
  have "[0..<Suc m] = 0 # map Suc [0..<m]" by (simp add: upt_conv_Cons map_Suc_upt del: upt_Suc)
  then have "bits_value (map (\<lambda>i. bit n (k + i)) [0..<Suc m])
      = of_bool (bit n k) + 2 * bits_value (map (\<lambda>i. bit n (Suc k + i)) [0..<m])"
    by (simp add: comp_def del: upt_Suc)
  also have "\<dots> = of_bool (odd (drop_bit k n)) + 2 * take_bit m (drop_bit k n div 2)"
    using Suc [of "Suc k"] by (simp add: bit_iff_odd_drop_bit drop_bit_Suc flip: drop_bit_half)
  finally show ?case by (simp add: take_bit_Suc mod_2_eq_odd add.commute)
qed simp

lemma scalar_mul_eq: "scalar_mul S p x = nsmul (to_biguint S x) p"
proof -
  have "to_bits_le S x = map (\<lambda>i. bit (to_biguint S x) (0 + i)) [0..<256]"
    by (auto simp: to_bits_le_def to_biguint_def bit_unsigned_iff)
  then have "bits_value (to_bits_le S x) = take_bit 256 (to_biguint S x)"
    by (simp only: bits_value_drop_bit drop_bit_0 id_apply)
  also have "\<dots> = to_biguint S x"
    using unsigned_less [of "to_bytes_be S x", where ?'a = nat]
    by (simp add: to_biguint_def take_bit_nat_eq_self)
  finally show ?thesis by (simp add: scalar_mul_def scalar_mul_loop)
qed

lemma STARK_PRIME_less: "STARK_PRIME < field_modulus" "STARK_PRIME < 2 ^ 256" "CURVE_ORDER < STARK_PRIME"
  "2 ^ 128 < STARK_PRIME"
  by (simp_all add: STARK_PRIME_def CURVE_ORDER_def field_modulus_def)

lemma to_biguint_less: "stark_field_ok S \<Longrightarrow> to_biguint S x < STARK_PRIME"
proof -
  assume S: "stark_field_ok S"
  have "unat (to_bytes_be S x) = unat (to_bytes_be S (from_bytes_be S (to_bytes_be S x)))"
    using S by (simp add: stark_field_ok_def stark_ok_def)
  also have "\<dots> = unat (to_bytes_be S x) mod STARK_PRIME" using S by (simp add: stark_field_ok_def)
  also have "\<dots> < STARK_PRIME" by (simp add: STARK_PRIME_def)
  finally show ?thesis by (simp add: to_biguint_def)
qed

lemma canonical_to_bytes_be: "stark_field_ok S \<Longrightarrow> canonical (to_bytes_be S x)"
  using to_biguint_less [of S x] STARK_PRIME_less(1) by (simp add: canonical_def to_biguint_def)

lemma to_biguint_of_biguint:
  assumes "stark_field_ok S" "v < STARK_PRIME"
  shows "to_biguint S (biguint_to_felt S v) = v"
proof -
  have "v < 256 ^ 32" using assms(2) STARK_PRIME_less(2) by simp
  then have "unat (felt_of_bytes (be_digits 32 v)) = v"
    by (simp only: unat_felt_of_bytes length_be_digits le_refl be_value_digits_id)
  then show ?thesis using assms by (simp add: to_biguint_def biguint_to_felt_def stark_field_ok_def)
qed

lemma to_biguint_from_u128: "stark_field_ok S \<Longrightarrow> to_biguint S (felt_from_u128 S b) = unat b"
proof -
  assume S: "stark_field_ok S"
  have "unat b < 2 ^ 128" using unsigned_less [of b, where ?'a = nat] by simp
  then show ?thesis using S STARK_PRIME_less(4)
    by (simp add: to_biguint_def felt_from_u128_def stark_field_ok_def unat_from_u128)
qed

lemma to_biguint_add_blinding:
  "stark_field_ok S \<Longrightarrow> to_biguint S (add_blinding S a b) = (to_biguint S a + to_biguint S b) mod CURVE_ORDER"
  unfolding add_blinding_def
  by (rule to_biguint_of_biguint, assumption)
    (rule less_trans [OF mod_less_divisor STARK_PRIME_less(3)], simp add: CURVE_ORDER_def)

lemma commit_eq:
  "stark_field_ok S \<Longrightarrow>
   commit S C b r = nsmul (unat b) (G_BALANCE C) + nsmul (to_biguint S r) (H_BLIND C)"
  by (simp add: commit_def scalar_mul_eq to_biguint_from_u128)

lemma nsmul_add_blinding:
  assumes "stark_field_ok S" "curve_ok C"
  shows "nsmul (to_biguint S (add_blinding S a b)) (H_BLIND C)
    = nsmul (to_biguint S a) (H_BLIND C) + nsmul (to_biguint S b) (H_BLIND C)"
proof -
  have "nsmul CURVE_ORDER (H_BLIND C) = 0" using assms(2) by (simp add: curve_ok_def)
  from nsmul_mod [OF this] show ?thesis
    by (simp add: to_biguint_add_blinding [OF assms(1)] nsmul_add)
qed

lemma rerandomize_commit:
  "stark_field_ok S \<Longrightarrow> curve_ok C \<Longrightarrow>
   rerandomize S C (commit S C b r) rho = commit S C b (add_blinding S r rho)"
  by (simp add: rerandomize_def commit_eq scalar_mul_eq nsmul_add_blinding add.assoc)

lemma server_update_commit:
  assumes "stark_field_ok S" "curve_ok C" "charge \<le> b"
  shows "server_update S C (commit S C b r) charge delta = commit S C (b - charge) (add_blinding S r delta)"
proof -
  have "unat (b - charge) = unat b - unat charge" "unat charge \<le> unat b"
    using assms(3) by (simp_all add: unat_sub word_le_nat_alt)
  then show ?thesis
    using assms(1,2)
    by (simp add: server_update_def Let_def commit_eq scalar_mul_eq nsmul_add_blinding
        to_biguint_from_u128 nsmul_diff)
qed


section \<open>A concrete curve\<close>

text \<open>The integers modulo the Stark prime and modulo the curve order, for the witnesses.\<close>

typedef stark_felt = "{n :: nat. n < STARK_PRIME}"
  by (rule exI [of _ 0]) (simp add: STARK_PRIME_def)

setup_lifting type_definition_stark_felt

definition mod_stark :: "stark_felt stark" where
  "mod_stark = \<lparr>from_bytes_be = (\<lambda>f. Abs_stark_felt (unat f mod STARK_PRIME)),
     to_bytes_be = (\<lambda>x. of_nat (Rep_stark_felt x)),
     poseidon_hash_many = (\<lambda>xs. Abs_stark_felt (sum_list (map Rep_stark_felt xs) mod STARK_PRIME)),
     from_u64_felt = (\<lambda>v. Abs_stark_felt (unat v mod STARK_PRIME))\<rparr>"

lemma Rep_stark_felt_less: "Rep_stark_felt x < STARK_PRIME"
  using Rep_stark_felt [of x] by simp

lemma mod_stark_ok: "stark_field_ok mod_stark"
proof -
  have "Abs_stark_felt (unat (of_nat (Rep_stark_felt x) :: felt) mod STARK_PRIME) = x" for x
    using Rep_stark_felt_less [of x] STARK_PRIME_less(2) by (simp add: unat_of_nat Rep_stark_felt_inverse)
  moreover have "Rep_stark_felt (Abs_stark_felt (n mod STARK_PRIME)) = n mod STARK_PRIME" for n
    by (rule Abs_stark_felt_inverse) (simp add: STARK_PRIME_def)
  moreover have "n mod STARK_PRIME < 2 ^ 256" for n
    by (rule less_trans [OF mod_less_divisor STARK_PRIME_less(2)]) (simp add: STARK_PRIME_def)
  ultimately show ?thesis by (simp add: stark_field_ok_def stark_ok_def mod_stark_def unat_of_nat)
qed

typedef scalar_group = "{n :: int. 0 \<le> n \<and> n < int CURVE_ORDER}"
  by (rule exI [of _ 0]) (simp add: CURVE_ORDER_def)

setup_lifting type_definition_scalar_group

instantiation scalar_group :: ab_group_add
begin

lift_definition zero_scalar_group :: scalar_group is 0 by (simp add: CURVE_ORDER_def)
lift_definition plus_scalar_group :: "scalar_group \<Rightarrow> scalar_group \<Rightarrow> scalar_group"
  is "\<lambda>a b. (a + b) mod int CURVE_ORDER" by (simp add: CURVE_ORDER_def)
lift_definition uminus_scalar_group :: "scalar_group \<Rightarrow> scalar_group"
  is "\<lambda>a. (- a) mod int CURVE_ORDER" by (simp add: CURVE_ORDER_def)
lift_definition minus_scalar_group :: "scalar_group \<Rightarrow> scalar_group \<Rightarrow> scalar_group"
  is "\<lambda>a b. (a - b) mod int CURVE_ORDER" by (simp add: CURVE_ORDER_def)

instance
  by standard (transfer; simp add: mod_simps algebra_simps)+

end

lemma Rep_nsmul: "Rep_scalar_group (nsmul n p) = (int n * Rep_scalar_group p) mod int CURVE_ORDER"
  by (induction n)
    (simp_all add: zero_scalar_group.rep_eq plus_scalar_group.rep_eq mod_simps algebra_simps)

lemma nsmul_order [simp]: "nsmul CURVE_ORDER (p :: scalar_group) = 0"
  using Rep_nsmul [of CURVE_ORDER p] by (simp add: Rep_scalar_group_inject [symmetric] zero_scalar_group.rep_eq)

definition scalar_curve :: "(stark_felt, scalar_group) curve" where
  "scalar_curve =
     \<lparr>G_BALANCE = Abs_scalar_group 1, H_BLIND = Abs_scalar_group 2,
      to_affine = (\<lambda>p. if p = 0 then None
        else Some (Abs_stark_felt (nat (Rep_scalar_group p)), Abs_stark_felt 0)),
      from_affine = (\<lambda>x y. if Rep_stark_felt x < CURVE_ORDER \<and> Rep_stark_felt x \<noteq> 0 \<and> y = Abs_stark_felt 0
        then Some (Abs_scalar_group (int (Rep_stark_felt x))) else None)\<rparr>"

lemma scalar_curve_ok: "curve_ok scalar_curve"
proof -
  have rep: "0 \<le> Rep_scalar_group p" "Rep_scalar_group p < int CURVE_ORDER" for p
    using Rep_scalar_group [of p] by simp_all
  have zero: "p = 0 \<longleftrightarrow> Rep_scalar_group p = 0" for p
    by (simp add: Rep_scalar_group_inject [symmetric] zero_scalar_group.rep_eq)
  have out: "Rep_stark_felt (Abs_stark_felt (nat (Rep_scalar_group p))) = nat (Rep_scalar_group p)" for p
  proof (rule Abs_stark_felt_inverse)
    have "nat (Rep_scalar_group p) < CURVE_ORDER" using rep [of p] by (simp add: nat_less_iff)
    then show "nat (Rep_scalar_group p) \<in> {n. n < STARK_PRIME}" using STARK_PRIME_less(3) by simp
  qed
  have into: "Rep_scalar_group (Abs_scalar_group (int (Rep_stark_felt x))) = int (Rep_stark_felt x)"
    if "Rep_stark_felt x < CURVE_ORDER" for x
    using that by (intro Abs_scalar_group_inverse) simp
  have bwd: "from_affine scalar_curve x y = Some p" if "to_affine scalar_curve p = Some (x, y)" for p x y
    using that rep [of p] out [of p]
    by (auto simp: scalar_curve_def zero Rep_scalar_group_inverse nat_less_iff split: if_splits)
  have fwd: "to_affine scalar_curve p = Some (x, y)" if "from_affine scalar_curve x y = Some p" for p x y
    using that into [of x]
    by (auto simp: scalar_curve_def zero Rep_stark_felt_inverse split: if_splits)
  have "to_affine scalar_curve p = None \<longleftrightarrow> p = 0" for p by (simp add: scalar_curve_def)
  then show ?thesis unfolding curve_ok_def using bwd fwd nsmul_order by blast
qed


section \<open>Interface\<close>

text \<open>What the wallet and the server rely on. \<open>com\<close> commits, \<open>rerand\<close> is the client's
  rerandomisation, \<open>upd\<close> the server's charge, and \<open>add\<close> accumulates blindings; \<open>'p\<close> are the
  parameters of the scheme.\<close>

locale homomorphic_commitment =
  fixes ok :: "'p \<Rightarrow> bool"
    and com :: "'p \<Rightarrow> u128 \<Rightarrow> 'r \<Rightarrow> 'c"
    and rerand :: "'p \<Rightarrow> 'c \<Rightarrow> 'r \<Rightarrow> 'c"
    and upd :: "'p \<Rightarrow> 'c \<Rightarrow> u128 \<Rightarrow> 'r \<Rightarrow> 'c"
    and add :: "'p \<Rightarrow> 'r \<Rightarrow> 'r \<Rightarrow> 'r"
  assumes rerand_com: "ok p \<Longrightarrow> rerand p (com p b r) rho = com p b (add p r rho)"
    and upd_com: "ok p \<Longrightarrow> c \<le> b \<Longrightarrow> upd p (com p b r) c d = com p (b - c) (add p r d)"
begin

lemma request_round:
  "ok p \<Longrightarrow> c \<le> b \<Longrightarrow> upd p (rerand p (com p b r) rho) c d = com p (b - c) (add p (add p r rho) d)"
  by (simp add: rerand_com upd_com)

text \<open>Any number of requests whose charges the balance covers.\<close>

lemma request_rounds:
  assumes "ok p" "sum_list (map (\<lambda>(rho, c, d). unat c) rounds) \<le> unat b"
  shows "fold (\<lambda>(rho, c, d) x. upd p (rerand p x rho) c d) rounds (com p b r)
    = com p (b - sum_list (map (\<lambda>(rho, c, d). c) rounds))
        (fold (\<lambda>(rho, c, d) s. add p (add p s rho) d) rounds r)"
  using assms(2)
proof (induction rounds arbitrary: b r)
  case (Cons x rounds)
  obtain rho c d where x: "x = (rho, c, d)" by (cases x)
  have "unat c \<le> unat b" using Cons.prems by (simp add: x)
  then have "c \<le> b" "unat (b - c) = unat b - unat c" by (simp_all add: word_le_nat_alt unat_sub)
  moreover have "sum_list (map (\<lambda>(rho, c, d). unat c) rounds) \<le> unat (b - c)"
    using Cons.prems calculation(2) by (simp add: x)
  ultimately show ?case
    using Cons.IH [of "b - c"] by (simp add: x request_round [OF assms(1)] diff_diff_eq)
qed simp

end

interpretation pc: homomorphic_commitment "\<lambda>(S, C). stark_field_ok S \<and> curve_ok C"
  "\<lambda>(S, C). commit S C" "\<lambda>(S, C). rerandomize S C" "\<lambda>(S, C). server_update S C"
  "\<lambda>(S, C). add_blinding S"
  by unfold_locales (auto simp: rerandomize_commit server_update_commit)


section \<open>Properties\<close>

text \<open>Claim C27. Balances are conserved: after any number of requests, each rerandomised by the client
  and charged by the server, the commitment opens to the initial balance minus the charges and to the
  blinding both sides accumulated modulo the curve order.\<close>

theorem pedersen_rounds_open:
  fixes C :: "('f, 'g::ab_group_add) curve"
  assumes "stark_field_ok S" "curve_ok C" "sum_list (map (\<lambda>(rho, c, d). unat c) rounds) \<le> unat b"
  shows "verify_opening S C
    (fold (\<lambda>(rho, c, d) x. server_update S C (rerandomize S C x rho) c d) rounds (commit S C b r))
    (b - sum_list (map (\<lambda>(rho, c, d). c) rounds))
    (fold (\<lambda>(rho, c, d) s. add_blinding S (add_blinding S s rho) d) rounds r)"
  using pc.request_rounds [of "(S, C)" rounds b r] assms by (simp add: verify_opening_def)

theorem pedersen_rounds_open_witness:
  "verify_opening mod_stark scalar_curve
     (server_update mod_stark scalar_curve (rerandomize mod_stark scalar_curve
        (commit mod_stark scalar_curve 1000 (felt_from_u128 mod_stark 42)) (felt_from_u128 mod_stark 7))
        100 (felt_from_u128 mod_stark 5))
     900 (add_blinding mod_stark (add_blinding mod_stark (felt_from_u128 mod_stark 42)
        (felt_from_u128 mod_stark 7)) (felt_from_u128 mod_stark 5))"
  using pedersen_rounds_open [OF mod_stark_ok scalar_curve_ok,
      of "[(felt_from_u128 mod_stark 7, 100, felt_from_u128 mod_stark 5)]" 1000 "felt_from_u128 mod_stark 42"]
  by simp

end
