(* ===== verification/Merkle.thy ===== *)
theory Merkle
  imports Core_V2
begin

text \<open>
  The fixed-depth Merkle tree of \<open>zkapi-core/src/merkle.rs\<close>: root computation along a sibling path,
  and the in-memory tree with its per-level node cache. The specification \<open>spec_node\<close> hashes a total
  map from indices to leaves; the cache is shown to agree with it after every operation.
\<close>

section \<open>Model\<close>

definition compute_zero_hashes :: "poseidon \<Rightarrow> felt list" where
  "compute_zero_hashes P =
     fold (\<lambda>i zeros. zeros[i := merkle_node P (zeros ! (i - 1)) (zeros ! (i - 1))])
          [1..<MERKLE_DEPTH + 1] (replicate (MERKLE_DEPTH + 1) ZERO)"

definition compute_root :: "poseidon \<Rightarrow> u32 \<Rightarrow> felt \<Rightarrow> felt list \<Rightarrow> felt" where
  "compute_root P index leaf siblings =
     fst (fold (\<lambda>sibling (current, idx).
                  (if and idx 1 = 0 then merkle_node P current sibling
                   else merkle_node P sibling current,
                   drop_bit 1 idx))
               (take MERKLE_DEPTH siblings) (leaf, index))"

definition verify_membership :: "poseidon \<Rightarrow> felt \<Rightarrow> u32 \<Rightarrow> felt \<Rightarrow> felt list \<Rightarrow> bool" where
  "verify_membership P root index leaf siblings \<longleftrightarrow> compute_root P index leaf siblings = root"

record MerkleTree =
  next_index :: u32
  leaves :: "felt list"
  tree_zero_hashes :: "felt list"
  nodes :: "(u32 \<rightharpoonup> felt) list"

definition MerkleTree_new :: "poseidon \<Rightarrow> MerkleTree" where
  "MerkleTree_new P =
     \<lparr>next_index = 0, leaves = [], tree_zero_hashes = compute_zero_hashes P,
      nodes = replicate (MERKLE_DEPTH + 1) Map.empty\<rparr>"

definition get_node :: "MerkleTree \<Rightarrow> nat \<Rightarrow> u32 \<Rightarrow> felt" where
  "get_node t level index = unwrap_or (tree_zero_hashes t ! level) ((nodes t ! level) index)"

definition tree_root :: "MerkleTree \<Rightarrow> felt" where
  "tree_root t = get_node t MERKLE_DEPTH 0"

definition get_leaf :: "MerkleTree \<Rightarrow> u32 \<Rightarrow> felt" where
  "get_leaf t index = get_node t 0 index"

definition insert_node :: "MerkleTree \<Rightarrow> nat \<Rightarrow> u32 \<Rightarrow> felt \<Rightarrow> MerkleTree" where
  "insert_node t level index value = t\<lparr>nodes := (nodes t)[level := (nodes t ! level)(index \<mapsto> value)]\<rparr>"

text \<open>One iteration of the loop that recomputes the path to the root.\<close>

definition set_leaf_level :: "poseidon \<Rightarrow> nat \<Rightarrow> MerkleTree \<times> u32 \<Rightarrow> MerkleTree \<times> u32" where
  "set_leaf_level P level = (\<lambda>(t, idx).
     let parent_idx = idx div 2;
         left_idx = parent_idx * 2;
         right_idx = left_idx + 1;
         left = get_node t level left_idx;
         right = get_node t level right_idx;
         parent = merkle_node P left right
     in (insert_node t (level + 1) parent_idx parent, parent_idx))"

definition set_leaf :: "poseidon \<Rightarrow> MerkleTree \<Rightarrow> u32 \<Rightarrow> felt \<Rightarrow> MerkleTree" where
  "set_leaf P t index value =
     (let grown = leaves t @ replicate (unat index + 1 - length (leaves t)) ZERO;
          t1 = t\<lparr>leaves := grown[unat index := value]\<rparr>;
          t2 = insert_node t1 0 index value
      in fst (fold (set_leaf_level P) [0..<MERKLE_DEPTH] (t2, index)))"

text \<open>\<open>next_index\<close> is a \<open>u32\<close>; the increment wraps as in a release build.\<close>

definition insert_leaf :: "poseidon \<Rightarrow> MerkleTree \<Rightarrow> felt \<Rightarrow> MerkleTree \<times> u32" where
  "insert_leaf P t value =
     (let idx = next_index t in ((set_leaf P t idx value)\<lparr>next_index := idx + 1\<rparr>, idx))"

definition get_siblings :: "MerkleTree \<Rightarrow> u32 \<Rightarrow> felt list" where
  "get_siblings t index =
     fst (fold (\<lambda>level (siblings, idx). (siblings[level := get_node t level (xor idx 1)], idx div 2))
               [0..<MERKLE_DEPTH] (replicate MERKLE_DEPTH ZERO, index))"


section \<open>Specification\<close>

text \<open>The node at a level and position of the complete tree over the leaf map \<open>L\<close>.\<close>

fun spec_node :: "poseidon \<Rightarrow> (u32 \<Rightarrow> felt) \<Rightarrow> nat \<Rightarrow> nat \<Rightarrow> felt" where
  "spec_node P L 0 n = L (of_nat n)"
| "spec_node P L (Suc l) n = merkle_node P (spec_node P L l (2 * n)) (spec_node P L l (2 * n + 1))"

definition spec_root :: "poseidon \<Rightarrow> (u32 \<Rightarrow> felt) \<Rightarrow> felt" where
  "spec_root P L = spec_node P L 32 0"

definition sibling_index :: "nat \<Rightarrow> nat" where
  "sibling_index n = (if even n then n + 1 else n - 1)"

definition spec_siblings :: "poseidon \<Rightarrow> (u32 \<Rightarrow> felt) \<Rightarrow> u32 \<Rightarrow> felt list" where
  "spec_siblings P L i =
     map (\<lambda>l. spec_node P L l (sibling_index (unat i div 2 ^ l))) [0..<32]"

lemma unat_u32_less: "unat (i :: u32) < 2 ^ 32"
  using unsigned_less [of i, where 'a = nat] by simp

lemma unat_of_nat_u32: "n < 2 ^ 32 \<Longrightarrow> unat (of_nat n :: u32) = n"
  by (simp add: unat_of_nat)

lemma of_nat_u32_inject: "m < 2 ^ 32 \<Longrightarrow> n < 2 ^ 32 \<Longrightarrow> (of_nat m :: u32) = of_nat n \<longleftrightarrow> m = n"
  by (metis unat_of_nat_u32)

lemma of_nat_u32_div2: "n < 2 ^ 32 \<Longrightarrow> (of_nat n :: u32) div 2 = of_nat (n div 2)"
  by (simp add: word_unat_eq_iff unat_div unat_of_nat)

lemma level_index_less: "n < 2 ^ (32 - l) \<Longrightarrow> n < (2 :: nat) ^ 32"
proof -
  assume "n < 2 ^ (32 - l)"
  also have "(2 :: nat) ^ (32 - l) \<le> 2 ^ 32" by (rule power_increasing) simp_all
  finally show ?thesis .
qed

lemma path_index_less: "l \<le> 32 \<Longrightarrow> unat (i :: u32) div 2 ^ l < 2 ^ (32 - l)"
  using unat_u32_less [of i] by (simp add: less_mult_imp_div_less power_add [symmetric])

lemma path_index_bound: "l \<le> 32 \<Longrightarrow> unat (i :: u32) div 2 ^ l < 2 ^ 32"
  using path_index_less level_index_less by blast

lemma path_index_Suc: "unat (i :: u32) div 2 ^ l div 2 = unat i div 2 ^ Suc l"
  by (simp add: div_mult2_eq [symmetric] mult.commute)

lemma level_width_Suc: "l < 32 \<Longrightarrow> (2 :: nat) ^ (32 - l) = 2 * 2 ^ (32 - Suc l)"
  by (simp only: Suc_diff_Suc power_Suc [symmetric])

lemma child_index_less:
  assumes "l < 32" "n < 2 ^ (32 - Suc l)"
  shows "2 * n + 1 < (2 :: nat) ^ (32 - l)"
  using assms(2) unfolding level_width_Suc [OF assms(1)] by linarith

lemma sibling_index_less:
  assumes "l < 32" "n < 2 ^ (32 - l)"
  shows "sibling_index n < 2 ^ (32 - l)"
proof -
  have "n div 2 < 2 ^ (32 - Suc l)" using assms(2) unfolding level_width_Suc [OF assms(1)] by linarith
  from child_index_less [OF assms(1) this] show ?thesis
    by (auto simp: sibling_index_def elim!: evenE oddE)
qed

lemma sibling_index_neq: "sibling_index n \<noteq> n"
  by (auto simp: sibling_index_def elim: oddE)

text \<open>A write changes only the nodes on the path from its leaf.\<close>

lemma spec_node_upd:
  "l \<le> 32 \<Longrightarrow> n < 2 ^ (32 - l) \<Longrightarrow> n \<noteq> unat j div 2 ^ l \<Longrightarrow>
   spec_node P (L(j := v)) l n = spec_node P L l n"
proof (induction l arbitrary: n)
  case 0
  then show ?case by (auto simp: unat_of_nat)
next
  case (Suc l)
  have "2 * n \<noteq> unat j div 2 ^ l" "2 * n + 1 \<noteq> unat j div 2 ^ l"
    using Suc.prems(3) path_index_Suc [of j l] by auto
  then show ?case using Suc child_index_less [of l n] by simp
qed

lemma spec_node_path:
  "spec_node P L (Suc l) (n div 2) =
     (if even n then merkle_node P (spec_node P L l n) (spec_node P L l (sibling_index n))
      else merkle_node P (spec_node P L l (sibling_index n)) (spec_node P L l n))"
  by (auto simp: sibling_index_def elim!: evenE oddE)

lemma spec_node_const: "spec_node P (\<lambda>_. c) l m = spec_node P (\<lambda>_. c) l n"
  by (induction l arbitrary: m n) (auto, metis)


section \<open>Zero hashes\<close>

lemma zero_loop:
  assumes "k \<le> 32"
  shows "let zs = fold (\<lambda>i zeros. zeros[i := merkle_node P (zeros ! (i - 1)) (zeros ! (i - 1))])
                    [1..<k + 1] (replicate 33 0)
         in length zs = 33 \<and> (\<forall>l \<le> k. zs ! l = spec_node P (\<lambda>_. 0) l 0)"
  using assms
proof (induction k)
  case 0
  then show ?case by simp
next
  case (Suc k)
  have "spec_node P (\<lambda>_. 0) k (Suc 0) = spec_node P (\<lambda>_. 0) k 0" by (rule spec_node_const)
  then show ?case using Suc by (auto simp: Let_def nth_list_update le_Suc_eq)
qed

lemma compute_zero_hashes_nth:
  "l \<le> 32 \<Longrightarrow> compute_zero_hashes P ! l = spec_node P (\<lambda>_. 0) l n"
  using zero_loop [of 32 P] spec_node_const [of P 0 l n 0]
  by (simp add: compute_zero_hashes_def MERKLE_DEPTH_def Let_def)

lemma zero_hashes_eq: "zero_hashes P = compute_zero_hashes P"
  by (simp add: zero_hashes_def compute_zero_hashes_def)


section \<open>Invariant of the tree\<close>

definition merkle_inv :: "poseidon \<Rightarrow> MerkleTree \<Rightarrow> bool" where
  "merkle_inv P t \<longleftrightarrow>
     length (nodes t) = 33 \<and> tree_zero_hashes t = compute_zero_hashes P \<and>
     (\<forall>l n. l \<le> 32 \<longrightarrow> n < 2 ^ (32 - l) \<longrightarrow>
        get_node t l (of_nat n) = spec_node P (get_leaf t) l n) \<and>
     (\<forall>i. get_leaf t i = (if unat i < length (leaves t) then leaves t ! unat i else 0))"

lemma get_node_inv:
  "merkle_inv P t \<Longrightarrow> l \<le> 32 \<Longrightarrow> n < 2 ^ (32 - l) \<Longrightarrow>
   get_node t l (of_nat n) = spec_node P (get_leaf t) l n"
  by (simp add: merkle_inv_def)

lemma tree_root_spec: "merkle_inv P t \<Longrightarrow> tree_root t = spec_root P (get_leaf t)"
  using get_node_inv [of P t 32 0] by (simp add: tree_root_def spec_root_def MERKLE_DEPTH_def)

lemma new_leaf: "get_leaf (MerkleTree_new P) i = 0"
  by (simp add: get_leaf_def get_node_def MerkleTree_new_def compute_zero_hashes_nth [of 0 P 0])

lemma merkle_inv_new: "merkle_inv P (MerkleTree_new P)"
proof -
  have "get_leaf (MerkleTree_new P) = (\<lambda>_. 0)" by (rule ext) (rule new_leaf)
  then show ?thesis
    by (auto simp: merkle_inv_def get_node_def MerkleTree_new_def compute_zero_hashes_nth
        MERKLE_DEPTH_def nth_Cons')
qed

lemma get_node_insert:
  "l < length (nodes t) \<Longrightarrow> get_node (insert_node t l i v) l' i' =
     (if l' = l \<and> i' = i then v else get_node t l' i')"
  by (auto simp: get_node_def insert_node_def unwrap_or_def nth_list_update)

lemma insert_node_fields [simp]:
  "leaves (insert_node t l i v) = leaves t"
  "next_index (insert_node t l i v) = next_index t"
  "tree_zero_hashes (insert_node t l i v) = tree_zero_hashes t"
  "length (nodes (insert_node t l i v)) = length (nodes t)"
  by (simp_all add: insert_node_def)

text \<open>The state of the loop of \<open>set_leaf\<close> after \<open>k\<close> levels: every node is right for the new leaf map
  \<open>L\<close>, except those above level \<open>k\<close> on the path of \<open>j\<close>.\<close>

definition path_pending ::
    "poseidon \<Rightarrow> (u32 \<Rightarrow> felt) \<Rightarrow> u32 \<Rightarrow> nat \<Rightarrow> MerkleTree \<times> u32 \<Rightarrow> bool" where
  "path_pending P L j k = (\<lambda>(t, idx).
     idx = of_nat (unat j div 2 ^ k) \<and> length (nodes t) = 33 \<and>
     (\<forall>l n. l \<le> 32 \<longrightarrow> n < 2 ^ (32 - l) \<longrightarrow> l \<le> k \<or> n \<noteq> unat j div 2 ^ l \<longrightarrow>
        get_node t l (of_nat n) = spec_node P L l n))"

lemma set_leaf_level_step:
  assumes "k < 32" "path_pending P L j k s"
  shows "path_pending P L j (Suc k) (set_leaf_level P k s)"
proof -
  obtain t idx where s: "s = (t, idx)" by (cases s)
  define p where "p = unat j div 2 ^ Suc k"
  have p: "p < 2 ^ (32 - Suc k)" unfolding p_def by (rule path_index_less) (use assms in simp)
  have idx: "idx div 2 = of_nat p"
    using assms path_index_bound [of k j] path_index_Suc [of j k]
    by (simp add: s path_pending_def of_nat_u32_div2 p_def)
  have right: "get_node t l (of_nat n) = spec_node P L l n"
    if "l \<le> 32" "n < 2 ^ (32 - l)" "l \<le> k \<or> n \<noteq> unat j div 2 ^ l" for l n
    using assms(2) that by (auto simp: s path_pending_def)
  have "get_node t k (of_nat p * 2) = spec_node P L k (2 * p)"
    using right [of k "2 * p"] assms(1) child_index_less [OF assms(1) p] by (simp add: mult.commute)
  moreover have "get_node t k (of_nat p * 2 + 1) = spec_node P L k (2 * p + 1)"
    using right [of k "2 * p + 1"] assms(1) child_index_less [OF assms(1) p]
    by (simp add: mult.commute add.commute)
  ultimately have step: "set_leaf_level P k s
      = (insert_node t (Suc k) (of_nat p) (spec_node P L (Suc k) p), of_nat p)"
    by (simp add: s set_leaf_level_def idx Let_def)
  have len: "length (nodes t) = 33" using assms(2) by (simp add: s path_pending_def)
  show ?thesis unfolding step path_pending_def prod.case
  proof (intro conjI allI impI)
    show "of_nat p = (of_nat (unat j div 2 ^ Suc k) :: u32)" by (simp only: p_def)
    show "length (nodes (insert_node t (Suc k) (of_nat p) (spec_node P L (Suc k) p))) = 33"
      by (simp add: len)
    fix l n assume ln: "l \<le> 32" "n < 2 ^ (32 - l)" "l \<le> Suc k \<or> n \<noteq> unat j div 2 ^ l"
    show "get_node (insert_node t (Suc k) (of_nat p) (spec_node P L (Suc k) p)) l (of_nat n)
        = spec_node P L l n"
    proof (cases "l = Suc k \<and> n = p")
      case True
      then show ?thesis using len assms(1) by (simp add: get_node_insert)
    next
      case False
      then have "\<not> (l = Suc k \<and> (of_nat n :: u32) = of_nat p)"
        using ln level_index_less [OF p] level_index_less [OF ln(2)] of_nat_u32_inject by blast
      then have "get_node (insert_node t (Suc k) (of_nat p) v) l (of_nat n) = get_node t l (of_nat n)" for v
        using len assms(1) by (auto simp: get_node_insert)
      moreover have "l \<le> k \<or> n \<noteq> unat j div 2 ^ l" using False ln(3) p_def by (auto simp: le_Suc_eq)
      ultimately show ?thesis using right ln by simp
    qed
  qed
qed

lemma set_leaf_loop:
  assumes "k \<le> 32" "path_pending P L j 0 s"
  shows "path_pending P L j k (fold (set_leaf_level P) [0..<k] s)"
  using assms(1) by (induction k) (simp_all add: assms(2) set_leaf_level_step)

lemma set_leaf_level_fields [simp]:
  "leaves (fst (set_leaf_level P k s)) = leaves (fst s)"
  "next_index (fst (set_leaf_level P k s)) = next_index (fst s)"
  "tree_zero_hashes (fst (set_leaf_level P k s)) = tree_zero_hashes (fst s)"
  by (simp_all add: set_leaf_level_def Let_def split: prod.split)

lemma set_leaf_loop_fields [simp]:
  "leaves (fst (fold (set_leaf_level P) ks s)) = leaves (fst s)"
  "next_index (fst (fold (set_leaf_level P) ks s)) = next_index (fst s)"
  "tree_zero_hashes (fst (fold (set_leaf_level P) ks s)) = tree_zero_hashes (fst s)"
  by (induction ks arbitrary: s) simp_all

lemma path_pending_start:
  assumes "merkle_inv P t"
  shows "path_pending P ((get_leaf t)(j := v)) j 0 (insert_node (t\<lparr>leaves := vs\<rparr>) 0 j v, j)"
proof -
  have "get_node (insert_node (t\<lparr>leaves := vs\<rparr>) 0 j v) l (of_nat n)
      = spec_node P ((get_leaf t)(j := v)) l n"
    if ln: "l \<le> 32" "n < 2 ^ (32 - l)" "l = 0 \<or> n \<noteq> unat j div 2 ^ l" for l n
  proof (cases "l = 0")
    case True
    have "length (nodes t) = 33" using assms by (simp add: merkle_inv_def)
    with True show ?thesis by (simp add: get_node_insert) (simp add: get_leaf_def get_node_def)
  next
    case False
    then have "spec_node P ((get_leaf t)(j := v)) l n = spec_node P (get_leaf t) l n"
      using ln by (intro spec_node_upd) auto
    moreover have "get_node (t\<lparr>leaves := vs\<rparr>) l (of_nat n) = get_node t l (of_nat n)"
      by (simp add: get_node_def)
    ultimately show ?thesis
      using False assms ln get_node_inv [OF assms ln(1,2)] by (simp add: get_node_insert merkle_inv_def)
  qed
  moreover have "length (nodes t) = 33" using assms by (simp add: merkle_inv_def)
  ultimately show ?thesis by (auto simp: path_pending_def)
qed

lemma set_leaf_nodes:
  assumes "merkle_inv P t"
  shows "path_pending P ((get_leaf t)(i := v)) i 32 (set_leaf P t i v, of_nat (unat i div 2 ^ 32))"
proof -
  define s where "s = (insert_node (t\<lparr>leaves := (leaves t @ replicate (unat i + 1 - length (leaves t))
      ZERO)[unat i := v]\<rparr>) 0 i v, i)"
  have "path_pending P ((get_leaf t)(i := v)) i 32 (fold (set_leaf_level P) [0..<32] s)"
    unfolding s_def by (intro set_leaf_loop path_pending_start assms) simp
  moreover have "set_leaf P t i v = fst (fold (set_leaf_level P) [0..<32] s)"
    by (simp add: set_leaf_def s_def MERKLE_DEPTH_def Let_def)
  ultimately show ?thesis
    by (cases "fold (set_leaf_level P) [0..<32] s") (simp add: path_pending_def)
qed

lemma get_leaf_set_leaf:
  assumes "merkle_inv P t"
  shows "get_leaf (set_leaf P t i v) = (get_leaf t)(i := v)"
proof
  fix j :: u32
  have "get_node (set_leaf P t i v) l (of_nat n) = spec_node P ((get_leaf t)(i := v)) l n"
    if "l \<le> 32" "n < 2 ^ (32 - l)" for l n
    using set_leaf_nodes [OF assms, of i v] that by (simp add: path_pending_def)
  from this [of 0 "unat j"] show "get_leaf (set_leaf P t i v) j = ((get_leaf t)(i := v)) j"
    using unat_u32_less [of j] by (simp add: get_leaf_def ucast_id)
qed

lemma merkle_inv_set_leaf:
  assumes "merkle_inv P t"
  shows "merkle_inv P (set_leaf P t i v)"
proof -
  have "tree_zero_hashes (set_leaf P t i v) = compute_zero_hashes P"
    using assms by (simp add: set_leaf_def Let_def merkle_inv_def)
  moreover have "leaves (set_leaf P t i v)
      = (leaves t @ replicate (unat i + 1 - length (leaves t)) 0)[unat i := v]"
    by (simp add: set_leaf_def Let_def)
  moreover have "((get_leaf t)(i := v)) j = (if unat j < length (leaves (set_leaf P t i v))
      then leaves (set_leaf P t i v) ! unat j else 0)" for j
    using assms calculation(2)
    by (auto simp: merkle_inv_def nth_list_update nth_append word_unat_eq_iff)
  ultimately show ?thesis
    using set_leaf_nodes [OF assms, of i v]
    by (simp add: merkle_inv_def get_leaf_set_leaf [OF assms] path_pending_def)
qed

lemma tree_root_set_leaf:
  "merkle_inv P t \<Longrightarrow> tree_root (set_leaf P t i v) = spec_root P ((get_leaf t)(i := v))"
  using tree_root_spec [OF merkle_inv_set_leaf] by (simp add: get_leaf_set_leaf)

lemma next_index_set_leaf [simp]: "next_index (set_leaf P t i v) = next_index t"
  by (simp add: set_leaf_def Let_def)

lemma get_node_next_index [simp]: "get_node (t\<lparr>next_index := n\<rparr>) = get_node t"
  by (simp add: get_node_def fun_eq_iff)

lemma get_leaf_next_index [simp]: "get_leaf (t\<lparr>next_index := n\<rparr>) = get_leaf t"
  by (simp add: get_leaf_def fun_eq_iff)

lemma merkle_inv_next_index [simp]: "merkle_inv P (t\<lparr>next_index := n\<rparr>) \<longleftrightarrow> merkle_inv P t"
  by (simp add: merkle_inv_def)


section \<open>Sibling paths\<close>

lemma even_unat: "even (unat (w :: u32)) \<longleftrightarrow> even w"
  using bit_unsigned_iff [of w 0, where ?'a = nat] by (simp add: bit_0)

lemma and_1_eq_0: "and (w :: u32) 1 = 0 \<longleftrightarrow> even (unat w)"
  by (simp add: and_one_eq flip: even_iff_mod_2_eq_zero) (simp add: even_unat)

lemma xor_1_of_nat:
  assumes "n < 2 ^ 32"
  shows "xor (of_nat n :: u32) 1 = of_nat (sibling_index n)"
proof -
  have "even (of_nat n :: u32) \<longleftrightarrow> even n"
    using even_unat [of "of_nat n :: u32"] unat_of_nat_u32 [OF assms] by simp
  then show ?thesis by (auto simp: xor_one_eq sibling_index_def elim!: oddE)
qed

lemma get_siblings_loop:
  assumes "k \<le> 32"
  shows "fold (\<lambda>level (sibs, idx). (sibs[level := get_node t level (xor idx 1)], idx div 2))
           [0..<k] (replicate 32 0, i)
       = (map (\<lambda>l. get_node t l (of_nat (sibling_index (unat i div 2 ^ l)))) [0..<k] @ replicate (32 - k) 0,
          of_nat (unat i div 2 ^ k))"
  using assms
proof (induction k)
  case 0
  then show ?case by simp
next
  case (Suc k)
  have "unat i div 2 ^ k < 2 ^ 32" using Suc.prems by (intro path_index_bound) simp
  moreover have "replicate (32 - k) (0 :: felt) = 0 # replicate (32 - Suc k) 0"
    using Suc.prems by (simp only: Suc_diff_Suc replicate_Suc [symmetric])
  ultimately show ?case using Suc path_index_Suc [of i k]
    by (simp add: xor_1_of_nat of_nat_u32_div2 list_update_append)
qed

lemma get_siblings_eq:
  "get_siblings t i = map (\<lambda>l. get_node t l (of_nat (sibling_index (unat i div 2 ^ l)))) [0..<32]"
  using get_siblings_loop [of 32 t i] by (simp add: get_siblings_def MERKLE_DEPTH_def)

lemma length_get_siblings [simp]: "length (get_siblings t i) = 32"
  by (simp add: get_siblings_eq)

lemma get_siblings_spec: "merkle_inv P t \<Longrightarrow> get_siblings t i = spec_siblings P (get_leaf t) i"
  by (simp add: get_siblings_eq spec_siblings_def get_node_inv sibling_index_less path_index_less)

lemma compute_root_loop:
  assumes "k \<le> 32"
  shows "fold (\<lambda>l (current, idx).
             (if and idx 1 = 0 then merkle_node P current (spec_node P L l (sibling_index (unat i div 2 ^ l)))
              else merkle_node P (spec_node P L l (sibling_index (unat i div 2 ^ l))) current, drop_bit 1 idx))
           [0..<k] (v, i)
       = (spec_node P (L(i := v)) k (unat i div 2 ^ k), of_nat (unat i div 2 ^ k))"
  using assms
proof (induction k)
  case 0
  then show ?case by simp
next
  case (Suc k)
  let ?n = "unat i div 2 ^ k"
  have n: "?n < 2 ^ (32 - k)" "?n < 2 ^ 32"
    using Suc.prems path_index_less path_index_bound by (simp_all only: Suc_le_lessD less_imp_le)
  have "spec_node P (L(i := v)) k (sibling_index ?n) = spec_node P L k (sibling_index ?n)"
    using Suc.prems n sibling_index_less sibling_index_neq by (intro spec_node_upd) auto
  then have "spec_node P (L(i := v)) (Suc k) (unat i div 2 ^ Suc k)
      = (if even ?n then merkle_node P (spec_node P (L(i := v)) k ?n) (spec_node P L k (sibling_index ?n))
         else merkle_node P (spec_node P L k (sibling_index ?n)) (spec_node P (L(i := v)) k ?n))"
    using spec_node_path [of P "L(i := v)" k ?n] by (simp only: path_index_Suc)
  moreover have "drop_bit 1 (of_nat ?n :: u32) = of_nat (unat i div 2 ^ Suc k)"
    unfolding path_index_Suc [symmetric] using n by (simp add: drop_bit_eq_div of_nat_u32_div2)
  ultimately show ?case using Suc.IH Suc.prems n
    by (simp add: and_1_eq_0 unat_of_nat_u32 del: spec_node.simps power_Suc One_nat_def fun_upd_apply)
qed

text \<open>Hashing a value up the sibling path gives the root of the tree with that value written.\<close>

lemma compute_root_spec: "compute_root P i v (spec_siblings P L i) = spec_root P (L(i := v))"
  using compute_root_loop [of 32 P L i v] path_index_less [of 32 i]
  by (simp add: compute_root_def spec_siblings_def spec_root_def fold_map comp_def MERKLE_DEPTH_def)

section \<open>Interface\<close>

text \<open>What users of the tree rely on: a store of leaves whose root is a function of its contents and
  can be recomputed from one leaf and its path.\<close>

locale authenticated_store =
  fixes ok :: "'t \<Rightarrow> bool"
    and look :: "'t \<Rightarrow> u32 \<Rightarrow> felt"
    and store :: "'t \<Rightarrow> u32 \<Rightarrow> felt \<Rightarrow> 't"
    and root_of :: "'t \<Rightarrow> felt"
    and path_of :: "'t \<Rightarrow> u32 \<Rightarrow> felt list"
    and rebuild :: "u32 \<Rightarrow> felt \<Rightarrow> felt list \<Rightarrow> felt"
  assumes ok_store: "ok t \<Longrightarrow> ok (store t i v)"
    and look_store: "ok t \<Longrightarrow> look (store t i v) = (look t)(i := v)"
    and root_cong: "ok s \<Longrightarrow> ok t \<Longrightarrow> look s = look t \<Longrightarrow> root_of s = root_of t"
    and root_store: "ok t \<Longrightarrow> root_of (store t i v) = rebuild i v (path_of t i)"
begin

lemma member: "ok t \<Longrightarrow> rebuild i (look t i) (path_of t i) = root_of t"
  using root_store [of t i "look t i"] root_cong [of "store t i (look t i)" t]
  by (simp add: ok_store look_store)

lemma store_restore: "ok t \<Longrightarrow> root_of (store (store t i v) i (look t i)) = root_of t"
  by (rule root_cong) (simp_all add: ok_store look_store)

lemma store_commute:
  "ok t \<Longrightarrow> i \<noteq> j \<Longrightarrow> root_of (store (store t i v) j w) = root_of (store (store t j w) i v)"
  by (rule root_cong) (simp_all add: ok_store look_store fun_upd_twist)

end

locale appendable_store = authenticated_store ok look store root_of path_of rebuild
  for ok :: "'t \<Rightarrow> bool" and look store root_of path_of rebuild +
  fixes append :: "'t \<Rightarrow> felt \<Rightarrow> 't"
    and count :: "'t \<Rightarrow> u32"
  assumes ok_append: "ok t \<Longrightarrow> ok (append t v)"
    and look_append: "ok t \<Longrightarrow> look (append t v) = (look t)(count t := v)"
    and count_append: "count (append t v) = count t + 1"
begin

lemma append_all:
  assumes "ok t" "unat (count t) + length vs \<le> 2 ^ 32"
  shows "ok (fold (\<lambda>v t. append t v) vs t)"
    and "count (fold (\<lambda>v t. append t v) vs t) = count t + of_nat (length vs)"
    and "k < length vs \<Longrightarrow> look (fold (\<lambda>v t. append t v) vs t) (count t + of_nat k) = vs ! k"
    and "unat j < unat (count t) \<Longrightarrow> look (fold (\<lambda>v t. append t v) vs t) j = look t j"
proof -
  have "ok (fold (\<lambda>v t. append t v) vs t) \<and>
      count (fold (\<lambda>v t. append t v) vs t) = count t + of_nat (length vs) \<and>
      (\<forall>k < length vs. look (fold (\<lambda>v t. append t v) vs t) (count t + of_nat k) = vs ! k) \<and>
      (\<forall>j. unat j < unat (count t) \<longrightarrow> look (fold (\<lambda>v t. append t v) vs t) j = look t j)"
    using assms(2)
  proof (induction vs rule: rev_induct)
    case Nil
    then show ?case using assms(1) by simp
  next
    case (snoc v vs)
    let ?t = "fold (\<lambda>v t. append t v) vs t"
    have len: "unat (count t) + length vs < 2 ^ 32" using snoc.prems by simp
    have pos: "unat (count t + of_nat k) = unat (count t) + k" if "k \<le> length vs" for k
      using len that by (simp add: unat_word_ariths unat_of_nat)
    have "count t + of_nat k \<noteq> count t + of_nat (length vs)" if "k < length vs" for k
      using pos [of k] pos [of "length vs"] that by (metis add_left_cancel less_imp_le nat_neq_iff order_refl)
    moreover have "j \<noteq> count t + of_nat (length vs)" if "unat j < unat (count t)" for j
      using pos [of "length vs"] that by auto
    ultimately show ?case using snoc
      by (auto simp: ok_append look_append count_append nth_append less_Suc_eq)
  qed
  then show "ok (fold (\<lambda>v t. append t v) vs t)"
    and "count (fold (\<lambda>v t. append t v) vs t) = count t + of_nat (length vs)"
    and "k < length vs \<Longrightarrow> look (fold (\<lambda>v t. append t v) vs t) (count t + of_nat k) = vs ! k"
    and "unat j < unat (count t) \<Longrightarrow> look (fold (\<lambda>v t. append t v) vs t) j = look t j"
    by blast+
qed

end

interpretation mt: appendable_store "merkle_inv P" get_leaf "set_leaf P" tree_root get_siblings
  "compute_root P" "\<lambda>t v. fst (insert_leaf P t v)" next_index for P
  by unfold_locales
    (simp_all add: merkle_inv_set_leaf get_leaf_set_leaf tree_root_set_leaf tree_root_spec get_siblings_spec
      compute_root_spec insert_leaf_def Let_def)


section \<open>Uniqueness of openings\<close>

text \<open>The pairs of nodes hashed on the way from a leaf to the root.\<close>

fun path_pairs :: "poseidon \<Rightarrow> u32 \<Rightarrow> felt \<Rightarrow> felt list \<Rightarrow> (felt \<times> felt) list" where
  "path_pairs P idx leaf [] = []"
| "path_pairs P idx leaf (s # ss) =
     (let pair = (if and idx 1 = 0 then (leaf, s) else (s, leaf))
      in pair # path_pairs P (drop_bit 1 idx) (merkle_node P (fst pair) (snd pair)) ss)"

definition pair_collision :: "poseidon \<Rightarrow> (felt \<times> felt) list \<Rightarrow> (felt \<times> felt) list \<Rightarrow> bool" where
  "pair_collision P ps qs \<longleftrightarrow>
     (\<exists>k < length ps. ps ! k \<noteq> qs ! k \<and>
        merkle_node P (fst (ps ! k)) (snd (ps ! k)) = merkle_node P (fst (qs ! k)) (snd (qs ! k)))"

lemma pair_collision_Cons:
  "pair_collision P (p # ps) (q # qs) \<longleftrightarrow>
     p \<noteq> q \<and> merkle_node P (fst p) (snd p) = merkle_node P (fst q) (snd q) \<or> pair_collision P ps qs"
  unfolding pair_collision_def by (auto simp: less_Suc_eq_0_disj)

lemma fold_root_collision:
  fixes ss ss' :: "felt list" and P :: poseidon
  defines "step \<equiv> \<lambda>sibling (current, idx :: u32).
     (if and idx 1 = 0 then merkle_node P current sibling else merkle_node P sibling current,
      drop_bit 1 idx)"
  assumes "length ss = length ss'" "(leaf, ss) \<noteq> (leaf', ss')"
    and "fst (fold step ss (leaf, i)) = fst (fold step ss' (leaf', i))"
  shows "pair_collision P (path_pairs P i leaf ss) (path_pairs P i leaf' ss')"
  using assms(2-)
proof (induction ss ss' arbitrary: leaf leaf' i rule: list_induct2)
  case Nil
  then show ?case by simp
next
  case (Cons s ss s' ss')
  define p where "p = (if and i 1 = 0 then (leaf, s) else (s, leaf))"
  define p' where "p' = (if and i 1 = 0 then (leaf', s') else (s', leaf'))"
  have pp: "p = p' \<longleftrightarrow> leaf = leaf' \<and> s = s'" by (auto simp: p_def p'_def)
  have "step s (leaf, i) = (merkle_node P (fst p) (snd p), drop_bit 1 i)"
    "step s' (leaf', i) = (merkle_node P (fst p') (snd p'), drop_bit 1 i)"
    by (simp_all add: step_def p_def p'_def)
  then have "pair_collision P (path_pairs P (drop_bit 1 i) (merkle_node P (fst p) (snd p)) ss)
       (path_pairs P (drop_bit 1 i) (merkle_node P (fst p') (snd p')) ss')"
    if "(merkle_node P (fst p) (snd p), ss) \<noteq> (merkle_node P (fst p') (snd p'), ss')"
    using Cons.IH [OF that] Cons.prems by simp
  then show ?case using Cons.prems(1) pp
    by (auto simp: Let_def pair_collision_Cons p_def [symmetric] p'_def [symmetric])
qed


section \<open>Equivalence with the version 2 root\<close>

lemma merkle_root_loop:
  fixes i :: u32
  shows "fst (fold (\<lambda>sibling (current, idx).
           (if and idx 1 = 0 then merkle_node P current sibling else merkle_node P sibling current,
            drop_bit 1 idx)) ss (leaf, drop_bit k i))
   = fold (\<lambda>(level, sibling) current.
             if and (drop_bit level i) 1 = 0 then merkle_node P current sibling
             else merkle_node P sibling current)
          (List.enumerate k ss) leaf"
proof (induction ss arbitrary: leaf k)
  case (Cons s ss)
  then show ?case by (simp add: drop_bit_drop_bit)
qed simp


section \<open>Properties\<close>

text \<open>Claim C16. The node cache refines the leaf map: the empty tree satisfies the invariant, a write
  keeps it and changes exactly one leaf, and the root read from the cache is the hash of the complete
  tree of depth 32 over the leaves.\<close>

theorem set_leaf_refines_spec:
  "merkle_inv P (MerkleTree_new P) \<and> get_leaf (MerkleTree_new P) = (\<lambda>_. 0) \<and>
   (merkle_inv P t \<longrightarrow>
      merkle_inv P (set_leaf P t i v) \<and>
      get_leaf (set_leaf P t i v) = (get_leaf t)(i := v) \<and>
      tree_root (set_leaf P t i v) = spec_root P ((get_leaf t)(i := v)))"
  using merkle_inv_new [of P] new_leaf [of P]
  by (auto simp: merkle_inv_set_leaf get_leaf_set_leaf tree_root_set_leaf tree_root_spec fun_eq_iff)

theorem set_leaf_refines_spec_witness:
  "tree_root (set_leaf sum_list (MerkleTree_new sum_list) 3 7)
     = spec_root sum_list ((\<lambda>_. 0)(3 := 7))"
  using set_leaf_refines_spec [of sum_list "MerkleTree_new sum_list" 3 7] by simp

text \<open>Every path the tree hands out verifies against its root, and hashing a new value up
  that path gives exactly the root after the write.\<close>

lemma siblings_verify:
  assumes "merkle_inv P t"
  shows "verify_membership P (tree_root t) i (get_leaf t i) (get_siblings t i) \<and>
    verify_membership P (tree_root (set_leaf P t i v)) i v (get_siblings t i) \<and>
    length (get_siblings t i) = MERKLE_DEPTH"
  using mt.member [OF assms] mt.root_store [OF assms]
  by (simp add: verify_membership_def MERKLE_DEPTH_def)

text \<open>Inserting up to \<open>2 ^ 32\<close> leaves into the empty tree assigns them the indices from
  zero on, and every inserted leaf verifies at its index against the final root.\<close>

lemma insert_all_verify:
  assumes "length vs \<le> 2 ^ 32" "k < length vs"
  shows "let t = fold (\<lambda>v t. fst (insert_leaf P t v)) vs (MerkleTree_new P) in
    next_index t = of_nat (length vs) \<and> get_leaf t (of_nat k) = vs ! k \<and>
    verify_membership P (tree_root t) (of_nat k) (vs ! k) (get_siblings t (of_nat k))"
proof -
  let ?t = "fold (\<lambda>v t. fst (insert_leaf P t v)) vs (MerkleTree_new P)"
  have 0: "next_index (MerkleTree_new P) = 0" by (simp add: MerkleTree_new_def)
  note all = mt.append_all [of P "MerkleTree_new P" vs, OF merkle_inv_new, unfolded 0]
  have "get_leaf ?t (of_nat k) = vs ! k" using all(3) [of k] assms by simp
  moreover have "merkle_inv P ?t" "next_index ?t = of_nat (length vs)" using all(1,2) assms by simp_all
  ultimately show ?thesis using mt.member [of P ?t "of_nat k"] by (simp add: verify_membership_def Let_def)
qed

text \<open>The root of \<open>v2.rs\<close>, which reads the bits of the note identifier, equals the root of
  \<open>merkle.rs\<close>, which shifts the index, and both crates' zero hashes agree.\<close>

lemma merkle_root_eq_compute_root:
  assumes "length siblings = MERKLE_DEPTH"
  shows "merkle_root P note_id leaf siblings = compute_root P note_id leaf siblings \<and>
    zero_hashes P = compute_zero_hashes P"
  using assms merkle_root_loop [of P siblings leaf 0 note_id]
  by (simp add: merkle_root_def compute_root_def zero_hashes_eq)

text \<open>Claim C19. An opening is unique up to hash collisions: two different openings of one index to
  the same root contain, at some level, two different node pairs with the same parent.\<close>

theorem opening_unique_or_collision:
  assumes "verify_membership P root i leaf ss" "verify_membership P root i leaf' ss'"
    and "length ss = MERKLE_DEPTH" "length ss' = MERKLE_DEPTH" "(leaf, ss) \<noteq> (leaf', ss')"
  shows "pair_collision P (path_pairs P i leaf ss) (path_pairs P i leaf' ss')"
  using fold_root_collision [of ss ss' leaf leaf' P i] assms
  by (simp add: verify_membership_def compute_root_def)

theorem opening_unique_or_collision_witness:
  "pair_collision (\<lambda>_. 0) (path_pairs (\<lambda>_. 0) 0 1 (replicate 32 0))
     (path_pairs (\<lambda>_. 0) 0 2 (replicate 32 0))"
proof (rule opening_unique_or_collision [of _ 0])
  have "merkle_node (\<lambda>_. 0) a b = 0" for a b
    by (simp add: merkle_node_def hash_domain_def field_to_felt_eq be_value_digits_id [of 0])
  then show "verify_membership (\<lambda>_. 0) 0 0 1 (replicate 32 0)"
    "verify_membership (\<lambda>_. 0) 0 0 2 (replicate 32 0)"
    by (simp_all add: verify_membership_def compute_root_def MERKLE_DEPTH_def numeral_eq_Suc)
qed (simp_all add: MERKLE_DEPTH_def)

end
