(* ===== verification/Xmss.thy ===== *)
theory Xmss
  imports Merkle
begin

text \<open>
  The hash-based signatures of \<open>zkapi-crypto\<close>: one-time signatures (\<open>wots.rs\<close>) and their
  authentication tree with the leaf cursor (\<open>xmss.rs\<close>). A key pair's mutex is held for a whole
  signature, so a signature is one atomic step on the key pair. \<open>AtomicU32\<close> is the field
  \<open>kp_next_index\<close>.
\<close>

section \<open>One-time signatures\<close>

definition chain_step :: "'f stark \<Rightarrow> 'f \<Rightarrow> u32 \<Rightarrow> 'f" where
  "chain_step S value step =
     poseidon_hash_many S [from_bytes_be S DOMAIN_XMSS_CHAIN, value, from_u64_felt S (ucast step)]"

definition chain :: "'f stark \<Rightarrow> 'f \<Rightarrow> u32 \<Rightarrow> u32 \<Rightarrow> 'f" where
  "chain S value start steps =
     fold (\<lambda>i current. chain_step S current (of_nat i)) [unat start..<unat (start + steps)] value"

definition wots_keygen :: "'f stark \<Rightarrow> 'f list \<Rightarrow> 'f list" where
  "wots_keygen S secret_key =
     map (\<lambda>i. chain S (secret_key ! i) 0 (of_nat (WOTS_W - 1))) [0..<WOTS_LEN]"

definition wots_pk_to_leaf :: "'f stark \<Rightarrow> 'f list \<Rightarrow> 'f" where
  "wots_pk_to_leaf S public_key =
     poseidon_hash_many S (from_bytes_be S DOMAIN_XMSS_LEAF # public_key)"

definition msg_digit :: "u8 list \<Rightarrow> nat \<Rightarrow> u32" where
  "msg_digit bytes i =
     (let bit_offset = 8 + i * 4;
          byte_idx = bit_offset div 8;
          bit_in_byte = bit_offset mod 8
      in if bit_in_byte \<le> 4
         then ucast (and (drop_bit (4 - bit_in_byte) (bytes ! byte_idx)) 0x0F)
         else let high = and (push_bit (bit_in_byte - 4) (bytes ! byte_idx)) 0x0F;
                  low = drop_bit (12 - bit_in_byte) (bytes ! (byte_idx + 1))
              in ucast (or high low))"

definition digits_checksum :: "u32 list \<Rightarrow> u32" where
  "digits_checksum msg_digits =
     fold (\<lambda>d checksum. checksum + ((of_nat WOTS_W - 1) - d)) msg_digits 0"

text \<open>The loop over \<open>(0..WOTS_LEN2).rev()\<close>.\<close>

definition checksum_digits :: "u32 \<Rightarrow> u32 list" where
  "checksum_digits checksum =
     fst (fold (\<lambda>i (cs_digits, cs). (cs_digits[i := cs mod of_nat WOTS_W], cs div of_nat WOTS_W))
               (rev [0..<WOTS_LEN2]) (replicate WOTS_LEN2 0, checksum))"

definition message_to_base_w :: "'f stark \<Rightarrow> 'f \<Rightarrow> u32 list \<times> u32 list" where
  "message_to_base_w S message =
     (let bytes = as_bytes (to_bytes_be S message);
          msg_digits = map (msg_digit bytes) [0..<WOTS_LEN1]
      in (msg_digits, checksum_digits (digits_checksum msg_digits)))"

definition wots_sign :: "'f stark \<Rightarrow> 'f list \<Rightarrow> 'f \<Rightarrow> 'f list" where
  "wots_sign S secret_key message =
     (let (msg_digits, cs_digits) = message_to_base_w S message in
      map (\<lambda>i. chain S (secret_key ! i) 0 (msg_digits ! i)) [0..<WOTS_LEN1] @
      map (\<lambda>i. chain S (secret_key ! (WOTS_LEN1 + i)) 0 (cs_digits ! i)) [0..<WOTS_LEN2])"

definition wots_verify :: "'f stark \<Rightarrow> 'f list \<Rightarrow> 'f \<Rightarrow> 'f list" where
  "wots_verify S signature message =
     (let (msg_digits, cs_digits) = message_to_base_w S message in
      map (\<lambda>i. chain S (signature ! i) (msg_digits ! i) ((of_nat WOTS_W - 1) - msg_digits ! i))
        [0..<WOTS_LEN1] @
      map (\<lambda>i. chain S (signature ! (WOTS_LEN1 + i)) (cs_digits ! i) ((of_nat WOTS_W - 1) - cs_digits ! i))
        [0..<WOTS_LEN2])"


section \<open>The authentication tree\<close>

definition xmss_node_hash :: "'f stark \<Rightarrow> 'f \<Rightarrow> 'f \<Rightarrow> 'f" where
  "xmss_node_hash S left right = poseidon_hash_many S [from_bytes_be S DOMAIN_XMSS_NODE, left, right]"

definition xmss_hash_message :: "'f stark \<Rightarrow> felt \<Rightarrow> 'f" where
  "xmss_hash_message S message =
     poseidon_hash_many S [from_bytes_be S DOMAIN_XMSS_MSG, from_bytes_be S message]"

record 'f XmssKeypair =
  secret_keys :: "'f list list"
  xmss_tree :: "'f list list"
  kp_root :: 'f
  kp_next_index :: u32
  kp_height :: nat

definition xmss_level :: "'f stark \<Rightarrow> 'f list \<Rightarrow> 'f list" where
  "xmss_level S prev =
     map (\<lambda>k. xmss_node_hash S (prev ! (2 * k)) (prev ! (2 * k + 1))) [0..<(length prev + 1) div 2]"

definition generate_with_height :: "'f stark \<Rightarrow> 'f \<Rightarrow> nat \<Rightarrow> 'f XmssKeypair" where
  "generate_with_height S seed height =
     (let num_leaves = push_bit height 1 :: u32;
          sks = map (\<lambda>i. map (\<lambda>j. poseidon_hash_many S
                    [from_bytes_be S DOMAIN_XMSS_SK, seed, from_u64_felt S (of_nat i),
                     from_u64_felt S (of_nat j)]) [0..<WOTS_LEN]) [0..<unat num_leaves];
          lvs = map (\<lambda>sk. wots_pk_to_leaf S (wots_keygen S sk)) sks;
          levels = fold (\<lambda>level levels. levels @ [xmss_level S (levels ! level)]) [0..<height] [lvs]
      in \<lparr>secret_keys = sks, xmss_tree = levels, kp_root = levels ! height ! 0,
          kp_next_index = 0, kp_height = height\<rparr>)"

definition generate :: "'f stark \<Rightarrow> 'f \<Rightarrow> 'f XmssKeypair" where
  "generate S seed = generate_with_height S seed XMSS_TREE_HEIGHT"

definition root_felt :: "'f stark \<Rightarrow> 'f XmssKeypair \<Rightarrow> felt" where
  "root_felt S kp = to_bytes_be S (kp_root kp)"

definition capacity :: "'f XmssKeypair \<Rightarrow> u32" where
  "capacity kp = push_bit (kp_height kp) 1"

definition build_auth_path :: "'f stark \<Rightarrow> 'f XmssKeypair \<Rightarrow> u32 \<Rightarrow> felt list" where
  "build_auth_path S kp idx =
     fst (fold (\<lambda>level (path, node_idx).
                  (path @ [to_bytes_be S (xmss_tree kp ! level ! unat (xor node_idx 1))],
                   node_idx div 2))
               [0..<kp_height kp] ([], idx))"

text \<open>The signature both signing functions assemble for a leaf and a message.\<close>

definition leaf_signature :: "'f stark \<Rightarrow> 'f XmssKeypair \<Rightarrow> u32 \<Rightarrow> felt \<Rightarrow> XmssSignature" where
  "leaf_signature S kp idx message =
     (let msg_hash = xmss_hash_message S message;
          wsig = wots_sign S (secret_keys kp ! unat idx) msg_hash
      in \<lparr>sig_epoch = 0, leaf_index = idx, wots_sig = map (to_bytes_be S) wsig,
          auth_path = build_auth_path S kp idx\<rparr>)"

definition sign_with_index ::
    "'f stark \<Rightarrow> 'f XmssKeypair \<Rightarrow> (u32 \<Rightarrow> felt) \<Rightarrow> 'f XmssKeypair \<times> (XmssSignature \<times> u32 \<times> felt) option" where
  "sign_with_index S kp build_message =
     (let idx = kp_next_index kp in
      if idx \<ge> push_bit (kp_height kp) 1 then (kp, None)
      else let message = build_message idx;
               kp' = kp\<lparr>kp_next_index := idx + 1\<rparr>
           in (kp', Some (leaf_signature S kp' idx message, idx, message)))"

definition xmss_sign ::
    "'f stark \<Rightarrow> 'f XmssKeypair \<Rightarrow> felt \<Rightarrow> 'f XmssKeypair \<times> (XmssSignature \<times> u32) option" where
  "xmss_sign S kp message =
     apsnd (map_option (\<lambda>(sg, index, _). (sg, index))) (sign_with_index S kp (\<lambda>_. message))"

definition sign_reserved ::
    "'f stark \<Rightarrow> 'f XmssKeypair \<Rightarrow> u32 \<Rightarrow> felt \<Rightarrow> 'f XmssKeypair \<times> XmssSignature option" where
  "sign_reserved S kp index message =
     (if index \<ge> push_bit (kp_height kp) 1 then (kp, None)
      else case checked_add index 1 of
          None \<Rightarrow> (kp, None)
        | Some next \<Rightarrow>
            let kp' = (if kp_next_index kp < next then kp\<lparr>kp_next_index := next\<rparr> else kp)
            in (kp', Some (leaf_signature S kp' index message)))"

definition remaining :: "'f XmssKeypair \<Rightarrow> u32" where
  "remaining kp = capacity kp - kp_next_index kp"

definition is_exhausted :: "'f XmssKeypair \<Rightarrow> bool" where
  "is_exhausted kp \<longleftrightarrow> remaining kp = 0"

definition verify_inner :: "'f stark \<Rightarrow> felt \<Rightarrow> felt \<Rightarrow> XmssSignature \<Rightarrow> bool" where
  "verify_inner S root message sg =
     (let msg_hash = xmss_hash_message S message;
          recovered_pk = wots_verify S (map (from_bytes_be S) (wots_sig sg)) msg_hash;
          leaf = wots_pk_to_leaf S recovered_pk;
          (current, _) = fold (\<lambda>sibling_felt (current, idx :: u32).
              let sibling = from_bytes_be S sibling_felt in
              (if and idx 1 = 0 then xmss_node_hash S current sibling
               else xmss_node_hash S sibling current, idx div 2))
            (auth_path sg) (leaf, leaf_index sg)
      in to_bytes_be S current = root)"

definition xmss_verify :: "'f stark \<Rightarrow> felt \<Rightarrow> felt \<Rightarrow> XmssSignature \<Rightarrow> bool" where
  "xmss_verify S root message sg \<longleftrightarrow>
     (case validate_for_height sg (length (auth_path sg)) of
        Inl _ \<Rightarrow> False
      | Inr _ \<Rightarrow> verify_inner S root message sg)"

definition verify_for_height :: "'f stark \<Rightarrow> felt \<Rightarrow> felt \<Rightarrow> XmssSignature \<Rightarrow> nat \<Rightarrow> bool" where
  "verify_for_height S root message sg height \<longleftrightarrow>
     (case validate_for_height sg height of
        Inl _ \<Rightarrow> False
      | Inr _ \<Rightarrow> verify_inner S root message sg)"


section \<open>Digits and chains\<close>

lemma unat_and_15: "unat (and (w :: u8) 0x0F) = unat w mod 16"
proof -
  have "and w 0x0F = take_bit 4 w" by (simp add: take_bit_eq_mask mask_numeral)
  then show ?thesis by (simp add: take_bit_eq_mod unat_mod)
qed

lemma byte_high_nibble: "unat (w :: u8) div 16 < 16"
  using unat_u8_less [of w] by (simp add: less_mult_imp_div_less)

lemma msg_digit_cases:
  "unat (msg_digit bytes (2 * k)) = unat (bytes ! Suc k) div 16"
  "unat (msg_digit bytes (Suc (2 * k))) = unat (bytes ! Suc k) mod 16"
proof -
  show "unat (msg_digit bytes (2 * k)) = unat (bytes ! Suc k) div 16"
    by (simp add: msg_digit_def Let_def unat_ucast_up unat_and_15 drop_bit_eq_div unat_div
        byte_high_nibble)
  show "unat (msg_digit bytes (Suc (2 * k))) = unat (bytes ! Suc k) mod 16"
  proof -
    have "8 + Suc (2 * k) * 4 = 8 * Suc k + 4" by simp
    then have "(8 + Suc (2 * k) * 4) div 8 = Suc k" "(8 + Suc (2 * k) * 4) mod 8 = 4"
      by (simp_all only: div_mult_self4 mod_mult_self4) simp_all
    then show ?thesis by (simp add: msg_digit_def Let_def unat_ucast_up unat_and_15)
  qed
qed


lemma msg_digit_less: "unat (msg_digit bytes i) < 16"
proof (cases "even i")
  case True
  then show ?thesis by (auto elim!: evenE simp: msg_digit_cases byte_high_nibble)
next
  case False
  then show ?thesis by (auto elim!: oddE simp: msg_digit_cases)
qed

lemma unat_15_minus: "unat d < 16 \<Longrightarrow> unat ((of_nat WOTS_W - 1) - d :: u32) = 15 - unat d"
  by (simp add: WOTS_W_def unat_sub word_le_nat_alt)

text \<open>Continuing a chain from a digit to its end gives the full chain.\<close>

lemma chain_resume:
  assumes "unat d < 16"
  shows "chain S (chain S x 0 d) d ((of_nat WOTS_W - 1) - d) = chain S x 0 (of_nat (WOTS_W - 1))"
proof -
  have "unat (d + ((of_nat WOTS_W - 1) - d)) = 15"
    by (simp add: WOTS_W_def)
  then have "chain S (chain S x 0 d) d ((of_nat WOTS_W - 1) - d)
      = fold (\<lambda>i c. chain_step S c (of_nat i)) [unat d..<15]
          (fold (\<lambda>i c. chain_step S c (of_nat i)) [0..<unat d] x)"
    by (simp add: chain_def)
  also have "\<dots> = fold (\<lambda>i c. chain_step S c (of_nat i)) ([0..<unat d] @ [unat d..<15]) x"
    by simp
  also have "[0..<unat d] @ [unat d..<15] = [0..<15]"
    using assms upt_add_eq_append [of 0 "unat d" "15 - unat d"] by simp
  finally show ?thesis by (simp add: chain_def WOTS_W_def)
qed

lemma digits_checksum_fold:
  "\<forall>d \<in> set ds. unat (d :: u32) < 16 \<Longrightarrow> unat acc + 15 * length ds < 2 ^ 32 \<Longrightarrow>
   unat (fold (\<lambda>d checksum. checksum + ((of_nat WOTS_W - 1) - d)) ds acc)
     = unat acc + sum_list (map (\<lambda>d. 15 - unat d) ds)"
proof (induction ds arbitrary: acc)
  case (Cons d ds)
  have "unat (acc + ((of_nat WOTS_W - 1) - d)) = unat acc + (15 - unat d)"
    using Cons.prems unat_15_minus [of d] by (simp add: unat_word_ariths)
  then show ?case using Cons by simp
qed simp

lemma unat_digits_checksum:
  assumes "\<forall>d \<in> set ds. unat d < 16" "length ds = 62"
  shows "unat (digits_checksum ds) = sum_list (map (\<lambda>d. 15 - unat d) ds)"
    "unat (digits_checksum ds) < 4096"
proof -
  show *: "unat (digits_checksum ds) = sum_list (map (\<lambda>d. 15 - unat d) ds)"
    using digits_checksum_fold [of ds 0] assms by (simp add: digits_checksum_def)
  have "sum_list (map (\<lambda>d. 15 - unat d) ds) \<le> sum_list (map (\<lambda>_. 15) ds)"
    by (rule sum_list_mono) simp
  then show "unat (digits_checksum ds) < 4096" using * assms(2) by (simp add: sum_list_triv)
qed

lemma checksum_digits_eq:
  "checksum_digits c = [c div 16 div 16 mod 16, c div 16 mod 16, c mod 16]"
  by (simp add: checksum_digits_def WOTS_LEN2_def WOTS_W_def numeral_3_eq_3)

lemma checksum_digits_less: "d \<in> set (checksum_digits c) \<Longrightarrow> unat d < 16"
  by (auto simp: checksum_digits_eq unat_mod)

lemma checksum_digits_value:
  assumes "unat c < 4096"
  shows "unat c = 256 * unat (checksum_digits c ! 0) + 16 * unat (checksum_digits c ! 1)
    + unat (checksum_digits c ! 2)"
proof -
  have "unat c div 16 div 16 < 16" using assms by (simp add: less_mult_imp_div_less)
  moreover have "n = 256 * (n div 16 div 16) + 16 * (n div 16 mod 16) + n mod 16" for n :: nat
    using div_mult_mod_eq [of n 16] div_mult_mod_eq [of "n div 16" 16] by linarith
  ultimately show ?thesis by (simp add: checksum_digits_eq unat_mod unat_div)
qed

lemma message_to_base_w_facts:
  assumes "message_to_base_w S m = (a, b)"
  shows "length a = 62" "length b = 3" "\<forall>d \<in> set (a @ b). unat d < 16"
    "b = checksum_digits (digits_checksum a)"
  using assms msg_digit_less checksum_digits_less
  by (auto simp: message_to_base_w_def Let_def WOTS_LEN1_def checksum_digits_eq)

text \<open>One message's digits never lie below another's in every position.\<close>

lemma digits_no_dominance:
  assumes "message_to_base_w S m = (a, b)" "message_to_base_w S m' = (a', b')" "a \<noteq> a'"
  shows "\<exists>i < 65. (a' @ b') ! i < (a @ b) ! i"
proof (rule ccontr)
  assume "\<not> ?thesis"
  then have ge: "unat ((a @ b) ! i) \<le> unat ((a' @ b') ! i)" if "i < 65" for i
    using that by (meson not_less word_le_nat_alt)
  note f = message_to_base_w_facts [OF assms(1)] and f' = message_to_base_w_facts [OF assms(2)]
  have le: "unat (a ! i) \<le> unat (a' ! i)" if "i < 62" for i
    using ge [of i] that f(1) f'(1) by (simp add: nth_append)
  have "unat (b ! i) \<le> unat (b' ! i)" if "i < 3" for i
    using ge [of "62 + i"] that f(1) f'(1) by (simp add: nth_append)
  then have "unat (digits_checksum a) \<le> unat (digits_checksum a')"
    using checksum_digits_value [of "digits_checksum a"] checksum_digits_value [of "digits_checksum a'"]
      unat_digits_checksum(2) [of a] unat_digits_checksum(2) [of a'] f f'
    by (simp add: add_mono)
  then have "sum_list (map (\<lambda>d. 15 - unat d) a) \<le> sum_list (map (\<lambda>d. 15 - unat d) a')"
    using unat_digits_checksum(1) [of a] unat_digits_checksum(1) [of a'] f f' by simp
  moreover have "sum_list (map (\<lambda>d. 15 - unat d) a) > sum_list (map (\<lambda>d. 15 - unat d) a')"
  proof -
    obtain j where j: "j < 62" "a ! j \<noteq> a' ! j"
      using assms(3) f(1) f'(1) nth_equalityI [of a a'] by auto
    have "unat (a' ! j) < 16" using f'(1,3) j(1) by simp
    moreover have "unat (a ! j) < unat (a' ! j)" using le [OF j(1)] j(2) by (simp add: word_unat_eq_iff)
    ultimately have "(\<Sum>i<62. 15 - unat (a' ! i)) < (\<Sum>i<62. 15 - unat (a ! i))"
      using le j(1) by (intro sum_strict_mono_ex1) (auto intro!: bexI [of _ j] diff_le_mono2)
    then show ?thesis using f(1) f'(1) by (simp add: sum_list_sum_nth atLeast0LessThan)
  qed
  ultimately show False by simp
qed

lemma msg_digits_inject:
  assumes "length xs = 32" "length ys = 32"
    and "map (msg_digit xs) [0..<62] = map (msg_digit ys) [0..<62]"
  shows "drop 1 xs = drop 1 ys"
proof (rule nth_equalityI)
  show "length (drop 1 xs) = length (drop 1 ys)" using assms by simp
  fix k assume "k < length (drop 1 xs)"
  then have k: "k < 31" using assms(1) by simp
  have "msg_digit xs (2 * k) = msg_digit ys (2 * k)" "msg_digit xs (Suc (2 * k)) = msg_digit ys (Suc (2 * k))"
    using assms(3) k by auto
  then have "unat (xs ! Suc k) div 16 = unat (ys ! Suc k) div 16"
    "unat (xs ! Suc k) mod 16 = unat (ys ! Suc k) mod 16"
    by (metis msg_digit_cases)+
  then have "unat (xs ! Suc k) = unat (ys ! Suc k)" by (metis mult_div_mod_eq)
  then show "drop 1 xs ! k = drop 1 ys ! k" using k assms by (simp add: word_unat_eq_iff)
qed

lemma wots_verify_sign:
  "length sk = WOTS_LEN \<Longrightarrow> wots_verify S (wots_sign S sk m) m = wots_keygen S sk"
proof -
  obtain a b where ab: "message_to_base_w S m = (a, b)" by fastforce
  note f = message_to_base_w_facts [OF ab]
  have *: "[0..<65] = [0..<62] @ map (\<lambda>i. 62 + i) [0..<3]" by (simp add: upt_rec)
  have "chain S (chain S (sk ! i) 0 (a ! i)) (a ! i) ((of_nat WOTS_W - 1) - a ! i)
      = chain S (sk ! i) 0 (of_nat (WOTS_W - 1))" if "i < 62" for i
    using f(1,3) that by (intro chain_resume) auto
  moreover have "chain S (chain S (sk ! (62 + i)) 0 (b ! i)) (b ! i) ((of_nat WOTS_W - 1) - b ! i)
      = chain S (sk ! (62 + i)) 0 (of_nat (WOTS_W - 1))" if "i < 3" for i
    using f(2,3) that by (intro chain_resume) auto
  ultimately show ?thesis
    unfolding wots_verify_def wots_sign_def wots_keygen_def ab Let_def prod.case WOTS_LEN_def
      WOTS_LEN1_def WOTS_LEN2_def
    by (simp add: * nth_append del: upt_conv_Cons)
qed


section \<open>Invariant of a key pair\<close>

fun xmss_spec_node :: "'f stark \<Rightarrow> (nat \<Rightarrow> 'f) \<Rightarrow> nat \<Rightarrow> nat \<Rightarrow> 'f" where
  "xmss_spec_node S L 0 n = L n"
| "xmss_spec_node S L (Suc l) n =
     xmss_node_hash S (xmss_spec_node S L l (2 * n)) (xmss_spec_node S L l (2 * n + 1))"

definition key_leaf :: "'f stark \<Rightarrow> 'f list list \<Rightarrow> nat \<Rightarrow> 'f" where
  "key_leaf S sks n = wots_pk_to_leaf S (wots_keygen S (sks ! n))"

definition keypair_inv :: "'f stark \<Rightarrow> 'f XmssKeypair \<Rightarrow> bool" where
  "keypair_inv S kp \<longleftrightarrow>
     kp_height kp < 32 \<and> unat (kp_next_index kp) \<le> 2 ^ kp_height kp \<and>
     length (secret_keys kp) = 2 ^ kp_height kp \<and>
     (\<forall>sk \<in> set (secret_keys kp). length sk = WOTS_LEN) \<and>
     (\<forall>l n. l \<le> kp_height kp \<longrightarrow> n < 2 ^ (kp_height kp - l) \<longrightarrow>
        xmss_tree kp ! l ! n = xmss_spec_node S (key_leaf S (secret_keys kp)) l n) \<and>
     kp_root kp = xmss_tree kp ! kp_height kp ! 0"

lemma xmss_levels:
  fixes S :: "'f stark" and lvs :: "'f list"
  assumes "k \<le> h" "length lvs = 2 ^ h" "\<And>n. n < 2 ^ h \<Longrightarrow> lvs ! n = L n"
  defines "levels j \<equiv> fold (\<lambda>level levels. levels @ [xmss_level S (levels ! level)]) [0..<j] [lvs]"
  shows "length (levels k) = Suc k \<and> (\<forall>l \<le> k. length (levels k ! l) = 2 ^ (h - l) \<and>
    (\<forall>n < 2 ^ (h - l). levels k ! l ! n = xmss_spec_node S L l n))"
  using assms(1)
proof (induction k)
  case 0
  then show ?case by (simp add: levels_def assms(2,3))
next
  case (Suc k)
  then have IH: "length (levels k) = Suc k" "\<And>l. l \<le> k \<Longrightarrow> length (levels k ! l) = 2 ^ (h - l)"
    "\<And>l n. l \<le> k \<Longrightarrow> n < 2 ^ (h - l) \<Longrightarrow> levels k ! l ! n = xmss_spec_node S L l n"
    by auto
  have width: "(2 :: nat) ^ (h - k) = 2 * 2 ^ (h - Suc k)"
    using Suc.prems by (simp only: Suc_diff_Suc Suc_le_lessD power_Suc [symmetric])
  have next_level: "levels (Suc k) = levels k @ [xmss_level S (levels k ! k)]"
    by (simp add: levels_def)
  have "length (xmss_level S (levels k ! k)) = 2 ^ (h - Suc k)"
    using IH(2) [of k] width by (simp add: xmss_level_def)
  moreover have "xmss_level S (levels k ! k) ! n = xmss_spec_node S L (Suc k) n"
    if "n < 2 ^ (h - Suc k)" for n
    using IH(2,3) [of k] that width by (simp add: xmss_level_def)
  ultimately show ?case using IH by (auto simp: next_level nth_append le_Suc_eq)
qed

lemma keypair_inv_generate:
  assumes "h < 32"
  shows "keypair_inv S (generate_with_height S seed h)"
proof -
  define sks where "sks = map (\<lambda>i. map (\<lambda>j. poseidon_hash_many S
      [from_bytes_be S DOMAIN_XMSS_SK, seed, from_u64_felt S (of_nat i), from_u64_felt S (of_nat j)])
      [0..<WOTS_LEN]) [0..<unat (push_bit h 1 :: u32)]"
  have n: "unat (push_bit h 1 :: u32) = 2 ^ h" by (rule unat_push_bit_1) (use assms in simp)
  have len: "length sks = 2 ^ h" by (simp add: sks_def n del: push_bit_of_1)
  define levels where "levels = fold (\<lambda>level levels. levels @ [xmss_level S (levels ! level)]) [0..<h]
      [map (\<lambda>sk. wots_pk_to_leaf S (wots_keygen S sk)) sks]"
  have "generate_with_height S seed h = \<lparr>secret_keys = sks, xmss_tree = levels,
      kp_root = levels ! h ! 0, kp_next_index = 0, kp_height = h\<rparr>"
    by (simp only: generate_with_height_def Let_def sks_def levels_def)
  moreover have "\<forall>sk \<in> set sks. length sk = WOTS_LEN" by (auto simp: sks_def)
  moreover have "levels ! l ! n = xmss_spec_node S (key_leaf S sks) l n"
    if "l \<le> h" "n < 2 ^ (h - l)" for l n
    using xmss_levels [of h h "map (\<lambda>sk. wots_pk_to_leaf S (wots_keygen S sk)) sks" "key_leaf S sks" S]
      that len by (simp add: levels_def key_leaf_def)
  ultimately show ?thesis using assms len by (simp add: keypair_inv_def)
qed

lemma keypair_inv_next_index:
  "keypair_inv S kp \<Longrightarrow> unat n \<le> 2 ^ kp_height kp \<Longrightarrow> keypair_inv S (kp\<lparr>kp_next_index := n\<rparr>)"
  by (simp add: keypair_inv_def)

lemma sibling_index_even: "even w \<Longrightarrow> n < w \<Longrightarrow> sibling_index n < w"
  by (cases "even n") (auto simp: sibling_index_def elim!: evenE oddE)

lemma build_auth_path_loop:
  fixes idx :: u32
  assumes "k \<le> 32"
  shows "fold (\<lambda>level (path, node_idx).
            (path @ [to_bytes_be S (xmss_tree kp ! level ! unat (xor node_idx 1))], node_idx div 2))
          [0..<k] ([], idx)
        = (map (\<lambda>l. to_bytes_be S (xmss_tree kp ! l ! sibling_index (unat idx div 2 ^ l))) [0..<k],
           of_nat (unat idx div 2 ^ k))"
  using assms
proof (induction k)
  case 0
  then show ?case by simp
next
  case (Suc k)
  have less: "unat idx div 2 ^ k < 2 ^ (32 - k)" using Suc.prems by (intro path_index_less) simp
  then have "sibling_index (unat idx div 2 ^ k) < 2 ^ 32"
    using level_index_less [OF sibling_index_less [OF _ less]] Suc.prems by simp
  then show ?case using Suc path_index_Suc [of idx k] level_index_less [OF less]
    by (simp add: xor_1_of_nat of_nat_u32_div2 unat_of_nat_u32)
qed

lemma xmss_spec_path:
  "xmss_spec_node S L (Suc l) (n div 2) =
     (if even n then xmss_node_hash S (xmss_spec_node S L l n) (xmss_spec_node S L l (sibling_index n))
      else xmss_node_hash S (xmss_spec_node S L l (sibling_index n)) (xmss_spec_node S L l n))"
  by (auto simp: sibling_index_def elim!: evenE oddE)

lemma verify_path_loop:
  assumes "stark_ok S" "k \<le> 32"
  shows "fold (\<lambda>sibling_felt (current, idx :: u32).
            let sibling = from_bytes_be S sibling_felt in
            (if and idx 1 = 0 then xmss_node_hash S current sibling
             else xmss_node_hash S sibling current, idx div 2))
          (map (\<lambda>l. to_bytes_be S (xmss_spec_node S L l (sibling_index (unat i div 2 ^ l)))) [0..<k])
          (L (unat i), i)
        = (xmss_spec_node S L k (unat i div 2 ^ k), of_nat (unat i div 2 ^ k))"
  using assms(2)
proof (induction k)
  case 0
  then show ?case by simp
next
  case (Suc k)
  let ?n = "unat i div 2 ^ k"
  have n: "?n < 2 ^ 32" using Suc.prems by (intro path_index_bound) simp
  have "xmss_spec_node S L (Suc k) (unat i div 2 ^ Suc k)
      = (if even ?n then xmss_node_hash S (xmss_spec_node S L k ?n) (xmss_spec_node S L k (sibling_index ?n))
         else xmss_node_hash S (xmss_spec_node S L k (sibling_index ?n)) (xmss_spec_node S L k ?n))"
    using xmss_spec_path [of S L k ?n] by (simp only: path_index_Suc)
  moreover have "(of_nat ?n :: u32) div 2 = of_nat (unat i div 2 ^ Suc k)"
    unfolding path_index_Suc [symmetric] using n by (rule of_nat_u32_div2)
  ultimately show ?case using Suc.IH Suc.prems n assms(1)
    by (simp add: and_1_eq_0 unat_of_nat_u32 Let_def stark_ok_def del: xmss_spec_node.simps power_Suc)
qed

lemma leaf_signature_shape:
  assumes "keypair_inv S kp" "unat idx < 2 ^ kp_height kp"
  shows "validate_for_height (leaf_signature S kp idx m) (kp_height kp) = Inr ()"
    and "length (auth_path (leaf_signature S kp idx m)) = kp_height kp"
proof -
  show "length (auth_path (leaf_signature S kp idx m)) = kp_height kp"
    using assms build_auth_path_loop [of "kp_height kp" S kp idx]
    by (simp add: leaf_signature_def build_auth_path_def Let_def keypair_inv_def)
  then show "validate_for_height (leaf_signature S kp idx m) (kp_height kp) = Inr ()"
    using assms by (simp add: validate_for_height_Inr)
      (simp add: leaf_signature_def Let_def wots_sign_def keypair_inv_def WOTS_LEN_def
        split: prod.split)
qed

lemma leaf_signature_verifies:
  assumes "stark_ok S" "keypair_inv S kp" "unat idx < 2 ^ kp_height kp"
  shows "verify_inner S (root_felt S kp) m (leaf_signature S kp idx m)"
proof -
  let ?L = "key_leaf S (secret_keys kp)" and ?h = "kp_height kp" and ?n = "unat idx"
  have h: "?h < 32" using assms(2) by (simp add: keypair_inv_def)
  have node: "xmss_tree kp ! l ! n = xmss_spec_node S ?L l n" if "l \<le> ?h" "n < 2 ^ (?h - l)" for l n
    using assms(2) that by (simp add: keypair_inv_def)
  have "sibling_index (?n div 2 ^ l) < 2 ^ (?h - l)" if "l < ?h" for l
  proof -
    have "?n div 2 ^ l < 2 ^ (?h - l)"
      using assms(3) that by (simp add: less_mult_imp_div_less power_add [symmetric])
    moreover have "even ((2 :: nat) ^ (?h - l))" using that by simp
    ultimately show ?thesis by (intro sibling_index_even)
  qed
  then have path: "build_auth_path S kp idx
      = map (\<lambda>l. to_bytes_be S (xmss_spec_node S ?L l (sibling_index (?n div 2 ^ l)))) [0..<?h]"
    using build_auth_path_loop [of ?h S kp idx] h node by (simp add: build_auth_path_def)
  have "length (secret_keys kp ! ?n) = WOTS_LEN" using assms(2,3) by (simp add: keypair_inv_def)
  then have leaf: "wots_pk_to_leaf S (wots_verify S (wots_sign S (secret_keys kp ! ?n) x) x) = ?L ?n" for x
    by (simp add: wots_verify_sign key_leaf_def)
  have root: "kp_root kp = xmss_spec_node S ?L ?h (?n div 2 ^ ?h)"
    using assms(2,3) node [of ?h 0] by (simp add: keypair_inv_def)
  have "map (from_bytes_be S) (map (to_bytes_be S) xs) = xs" for xs
    using assms(1) by (simp add: stark_ok_def comp_def)
  then show ?thesis
    using verify_path_loop [OF assms(1), of ?h ?L idx] h
    by (simp add: verify_inner_def leaf_signature_def Let_def path leaf root root_felt_def del: map_map)
qed


section \<open>Leaf allocation\<close>

text \<open>Running an operation on a sequence of inputs, collecting its outputs.\<close>

fun run_all :: "('s \<Rightarrow> 'm \<Rightarrow> 's \<times> 'o) \<Rightarrow> 's \<Rightarrow> 'm list \<Rightarrow> 's \<times> 'o list" where
  "run_all f s [] = (s, [])"
| "run_all f s (m # ms) =
     (let (s1, out) = f s m; (s2, outs) = run_all f s1 ms in (s2, out # outs))"

text \<open>The leaves of the successful results.\<close>

definition leaves_used :: "('r \<Rightarrow> nat) \<Rightarrow> 'r option list \<Rightarrow> nat list" where
  "leaves_used index outs = map index (List.map_filter id outs)"

lemma leaves_used_simps [simp]:
  "leaves_used index [] = []" "leaves_used index (None # outs) = leaves_used index outs"
  "leaves_used index (Some r # outs) = index r # leaves_used index outs"
  by (simp_all add: leaves_used_def map_filter_simps)

text \<open>What a user of a one-time signer relies on. \<open>alloc\<close> consumes at most one leaf; \<open>index\<close> is the
  leaf of a result.\<close>

locale leaf_allocator =
  fixes ok :: "'s \<Rightarrow> bool"
    and alloc :: "'s \<Rightarrow> 'm \<Rightarrow> 's \<times> 'r option"
    and index :: "'r \<Rightarrow> nat"
    and cursor :: "'s \<Rightarrow> nat"
    and limit :: "'s \<Rightarrow> nat"
  assumes ok_alloc: "ok s \<Longrightarrow> alloc s m = (s', res) \<Longrightarrow> ok s'"
    and alloc_Some: "ok s \<Longrightarrow> alloc s m = (s', Some r) \<Longrightarrow>
      cursor s \<le> index r \<and> index r < cursor s' \<and> cursor s' \<le> limit s"
    and alloc_None: "ok s \<Longrightarrow> alloc s m = (s', None) \<Longrightarrow> cursor s \<le> cursor s'"
    and limit_alloc: "ok s \<Longrightarrow> alloc s m = (s', res) \<Longrightarrow> limit s' = limit s"
begin

lemma cursor_mono: "ok s \<Longrightarrow> alloc s m = (s', r) \<Longrightarrow> cursor s \<le> cursor s'"
  by (cases r) (auto dest: alloc_Some alloc_None)

text \<open>No leaf is used twice, in any sequence of operations.\<close>

lemma leaves_increase:
  assumes "ok s" "run_all alloc s ms = (s', outs)"
  shows "sorted_wrt (<) (leaves_used index outs) \<and> (\<forall>i \<in> set (leaves_used index outs). cursor s \<le> i \<and> i < limit s)"
  using assms
proof (induction ms arbitrary: s outs)
  case (Cons m ms)
  obtain s1 r outs1 where step: "alloc s m = (s1, r)" and rest: "run_all alloc s1 ms = (s', outs1)"
    and outs: "outs = r # outs1"
    using Cons.prems(2) by (auto split: prod.splits)
  note IH = Cons.IH [OF ok_alloc [OF Cons.prems(1) step] rest]
    and lim = limit_alloc [OF Cons.prems(1) step] and mono = cursor_mono [OF Cons.prems(1) step]
  show ?case
  proof (cases r)
    case None
    then show ?thesis using IH lim mono by (auto simp: outs)
  next
    case (Some x)
    then show ?thesis using IH lim mono alloc_Some [OF Cons.prems(1), of m s1 x] step
      by (fastforce simp: outs)
  qed
qed simp

lemma leaves_distinct: "ok s \<Longrightarrow> run_all alloc s ms = (s', outs) \<Longrightarrow> distinct (leaves_used index outs)"
  using leaves_increase strict_sorted_iff by blast

end

lemma sign_with_index_inv:
  assumes "keypair_inv S kp" "sign_with_index S kp bm = (kp', r)"
  shows "keypair_inv S kp'" "kp_height kp' = kp_height kp" "root_felt S kp' = root_felt S kp"
proof -
  have "unat (kp_next_index kp + 1) \<le> 2 ^ kp_height kp" if "unat (kp_next_index kp) < 2 ^ kp_height kp"
  proof -
    have "(2 :: nat) ^ kp_height kp < 2 ^ 32"
      using assms(1) by (intro power_strict_increasing) (simp_all add: keypair_inv_def)
    then show ?thesis using that by (simp add: unat_word_ariths)
  qed
  moreover have "unat (push_bit (kp_height kp) 1 :: u32) = 2 ^ kp_height kp"
    using assms(1) by (intro unat_push_bit_1) (simp add: keypair_inv_def)
  ultimately show "keypair_inv S kp'" "kp_height kp' = kp_height kp" "root_felt S kp' = root_felt S kp"
    using assms
    by (auto simp: sign_with_index_def Let_def root_felt_def word_le_nat_alt not_le
        intro!: keypair_inv_next_index split: if_splits simp del: push_bit_of_1)
qed


lemma unat_capacity: "keypair_inv S kp \<Longrightarrow> unat (push_bit (kp_height kp) 1 :: u32) = 2 ^ kp_height kp"
  by (rule unat_push_bit_1) (simp add: keypair_inv_def)

lemma keypair_capacity_less: "keypair_inv S kp \<Longrightarrow> (2 :: nat) ^ kp_height kp < 2 ^ 32"
  by (rule power_strict_increasing) (simp_all add: keypair_inv_def)

lemma sign_with_index_None:
  "keypair_inv S kp \<Longrightarrow> sign_with_index S kp bm = (kp', None) \<longleftrightarrow>
     kp' = kp \<and> unat (kp_next_index kp) = 2 ^ kp_height kp"
  using unat_capacity [of S kp]
  by (auto simp: sign_with_index_def Let_def word_le_nat_alt keypair_inv_def simp del: push_bit_of_1)

lemma sign_with_index_Some:
  assumes "keypair_inv S kp" "sign_with_index S kp bm = (kp', Some (sg, i, m))"
  shows "i = kp_next_index kp" "m = bm i" "unat i < 2 ^ kp_height kp"
    "kp' = kp\<lparr>kp_next_index := i + 1\<rparr>" "unat (kp_next_index kp') = Suc (unat i)"
    "sg = leaf_signature S kp' i m"
proof -
  show i: "i = kp_next_index kp" "m = bm i" "unat i < 2 ^ kp_height kp"
    and kp': "kp' = kp\<lparr>kp_next_index := i + 1\<rparr>" "sg = leaf_signature S kp' i m"
    using assms unat_capacity [OF assms(1)]
    by (auto simp: sign_with_index_def Let_def word_le_nat_alt not_le split: if_splits
        simp del: push_bit_of_1)
  show "unat (kp_next_index kp') = Suc (unat i)"
    using i keypair_capacity_less [OF assms(1)] by (simp add: kp' unat_word_ariths)
qed

interpretation xk: leaf_allocator "keypair_inv S" "sign_with_index S" "\<lambda>(sg, i, m). unat i"
  "\<lambda>kp. unat (kp_next_index kp)" "\<lambda>kp. 2 ^ kp_height kp" for S
proof unfold_locales
  fix kp bm kp' and out :: "(XmssSignature \<times> u32 \<times> felt) option"
  assume kp: "keypair_inv S kp"
  show "sign_with_index S kp bm = (kp', out) \<Longrightarrow> keypair_inv S kp'"
    "sign_with_index S kp bm = (kp', out) \<Longrightarrow> 2 ^ kp_height kp' = (2 :: nat) ^ kp_height kp"
    using sign_with_index_inv [OF kp] by auto
  show "sign_with_index S kp bm = (kp', None) \<Longrightarrow> unat (kp_next_index kp) \<le> unat (kp_next_index kp')"
    using sign_with_index_None [OF kp] by simp
  fix r :: "XmssSignature \<times> u32 \<times> felt"
  obtain sg i m where r: "r = (sg, i, m)" by (cases r)
  assume "sign_with_index S kp bm = (kp', Some r)"
  from sign_with_index_Some [OF kp this [unfolded r]]
  show "unat (kp_next_index kp) \<le> (case r of (sg, i, m) \<Rightarrow> unat i) \<and>
      (case r of (sg, i, m) \<Rightarrow> unat i) < unat (kp_next_index kp') \<and>
      unat (kp_next_index kp') \<le> 2 ^ kp_height kp"
    by (simp add: r)
qed

lemma sign_reserved_correct:
  assumes "keypair_inv S kp"
  shows "sign_reserved S kp index m =
    (if 2 ^ kp_height kp \<le> unat index then (kp, None)
     else (kp\<lparr>kp_next_index := (if kp_next_index kp < index + 1 then index + 1 else kp_next_index kp)\<rparr>,
           Some (leaf_signature S kp index m)))"
proof -
  have "checked_add index 1 = Some (index + 1)" if "unat index < 2 ^ kp_height kp"
    using that keypair_capacity_less [OF assms] by (simp add: checked_add_def)
  moreover have "leaf_signature S (kp\<lparr>kp_next_index := n\<rparr>) index m = leaf_signature S kp index m" for n
    by (simp add: leaf_signature_def build_auth_path_def)
  ultimately show ?thesis
    using unat_capacity [OF assms]
    by (cases kp) (auto simp: sign_reserved_def word_le_nat_alt Let_def not_le simp del: push_bit_of_1)
qed


text \<open>A concrete field and hash for the witnesses: felts with the sum as hash.\<close>

definition sum_stark :: "felt stark" where
  "sum_stark = \<lparr>from_bytes_be = id, to_bytes_be = id, poseidon_hash_many = sum_list,
     from_u64_felt = from_u64\<rparr>"

lemma sum_stark_ok: "stark_ok sum_stark"
  by (simp add: sum_stark_def stark_ok_def)

section \<open>Properties\<close>

text \<open>Verifying a one-time signature recovers exactly the signer's public key, and a
  signature on one message gives no signature on another by hashing forward: whenever the messages
  differ in the signed 248 bits, some chain of the second message is behind the first one's.\<close>

lemma wots_correct_and_no_dominance:
  assumes "length sk = WOTS_LEN"
    and "message_to_base_w S m = (a, b)" "message_to_base_w S m' = (a', b')"
    and "drop 1 (as_bytes (to_bytes_be S m)) \<noteq> drop 1 (as_bytes (to_bytes_be S m'))"
  shows "wots_verify S (wots_sign S sk m) m = wots_keygen S sk \<and>
    (\<exists>i < WOTS_LEN. (a' @ b') ! i < (a @ b) ! i)"
proof -
  have "a \<noteq> a'" using assms(2-) msg_digits_inject
    by (auto simp: message_to_base_w_def Let_def WOTS_LEN1_def)
  then show ?thesis
    using digits_no_dominance [OF assms(2,3)] wots_verify_sign [OF assms(1)] by (simp add: wots_params)
qed

text \<open>The two ways a caller gets a signature from a key pair: on the next leaf, or on a leaf it reserved
  itself. A result is the signature, its leaf and the message signed.\<close>

datatype sign_call = NextLeaf "u32 \<Rightarrow> felt" | ReservedLeaf u32 felt

fun call_message :: "sign_call \<Rightarrow> u32 \<Rightarrow> felt" where
  "call_message (NextLeaf build_message) i = build_message i"
| "call_message (ReservedLeaf index message) i = message"

fun run_call :: "'f stark \<Rightarrow> 'f XmssKeypair \<Rightarrow> sign_call \<Rightarrow> 'f XmssKeypair \<times> (XmssSignature \<times> u32 \<times> felt) option" where
  "run_call S kp (NextLeaf build_message) = sign_with_index S kp build_message"
| "run_call S kp (ReservedLeaf index message) =
     apsnd (map_option (\<lambda>sg. (sg, index, message))) (sign_reserved S kp index message)"

text \<open>A verdict on one result: the leaf and the message are the ones asked for and both verifiers accept
  the signature against a root.\<close>

definition signature_ok :: "'f stark \<Rightarrow> felt \<Rightarrow> nat \<Rightarrow> sign_call \<Rightarrow> XmssSignature \<times> u32 \<times> felt \<Rightarrow> bool" where
  "signature_ok S root height call = (\<lambda>(sg, i, m).
     leaf_index sg = i \<and> unat i < 2 ^ height \<and> m = call_message call i \<and>
     (\<forall>index message. call = ReservedLeaf index message \<longrightarrow> i = index) \<and>
     xmss_verify S root m sg \<and> verify_for_height S root m sg height)"

lemma leaf_signature_ok:
  assumes "stark_ok S" "keypair_inv S kp" "unat i < 2 ^ kp_height kp" "m = call_message call i"
    and "\<And>index message. call = ReservedLeaf index message \<Longrightarrow> i = index"
  shows "signature_ok S (root_felt S kp) (kp_height kp) call (leaf_signature S kp i m, i, m)"
  using leaf_signature_verifies [OF assms(1-3), of m] leaf_signature_shape [OF assms(2,3), of m] assms(3-)
  by (auto simp: signature_ok_def xmss_verify_def verify_for_height_def) (simp add: leaf_signature_def Let_def)

text \<open>One call keeps the key pair, except for its cursor, and gives an acceptable signature.\<close>

lemma run_call_step:
  assumes "stark_ok S" "keypair_inv S kp" "run_call S kp call = (kp', res)"
  shows "keypair_inv S kp' \<and> kp_height kp' = kp_height kp \<and> root_felt S kp' = root_felt S kp \<and>
    (\<forall>r. res = Some r \<longrightarrow> signature_ok S (root_felt S kp) (kp_height kp) call r)"
proof (cases call)
  case (NextLeaf bm)
  then have run: "sign_with_index S kp bm = (kp', res)" using assms(3) by simp
  note inv = sign_with_index_inv [OF assms(2) run]
  have "signature_ok S (root_felt S kp) (kp_height kp) call (sg, i, m)" if "res = Some (sg, i, m)" for sg i m
    using leaf_signature_ok [OF assms(1) inv(1), of i m call] sign_with_index_Some [OF assms(2) run [unfolded that]]
      inv NextLeaf by simp
  then show ?thesis using inv by auto
next
  case (ReservedLeaf index message)
  obtain out where run: "sign_reserved S kp index message = (kp', out)"
    and res: "res = map_option (\<lambda>sg. (sg, index, message)) out"
    using assms(3) ReservedLeaf by (auto simp: apsnd_def map_prod_def split: prod.splits)
  note cases = sign_reserved_correct [OF assms(2), of index message, unfolded run]
  show ?thesis
  proof (cases "2 ^ kp_height kp \<le> unat index")
    case True
    then show ?thesis using cases assms(2) by (simp only: if_True prod.inject res) simp
  next
    case False
    let ?n = "if kp_next_index kp < index + 1 then index + 1 else kp_next_index kp"
    from cases have "(kp', out) = (kp\<lparr>kp_next_index := ?n\<rparr>, Some (leaf_signature S kp index message))"
      by (simp only: False if_False)
    then have "kp' = kp\<lparr>kp_next_index := ?n\<rparr>" "out = Some (leaf_signature S kp index message)"
      by (simp_all only: prod.inject)
    moreover have "unat (kp_next_index kp) \<le> 2 ^ kp_height kp" using assms(2) by (simp add: keypair_inv_def)
    then have "unat ?n \<le> 2 ^ kp_height kp"
      using False keypair_capacity_less [OF assms(2)] by (simp add: unat_word_ariths)
    then have "keypair_inv S (kp\<lparr>kp_next_index := ?n\<rparr>)" by (rule keypair_inv_next_index [OF assms(2)])
    moreover have "signature_ok S (root_felt S kp) (kp_height kp) call (leaf_signature S kp index message, index, message)"
      by (rule leaf_signature_ok [OF assms(1,2)]) (use False in \<open>simp_all add: ReservedLeaf\<close>)
    ultimately show ?thesis by (simp only: res) (simp add: root_felt_def del: if_split)
  qed
qed

text \<open>Claim C25. Every signature a generated key pair ever produces is right. From key generation with any
  seed and any height below 32, after any sequence of signing calls on the next leaf or on a leaf the caller
  reserved, each signature returned carries its leaf, which is below the capacity and the reserved one when
  there is one, signs the message built for that leaf, and is accepted by both verifiers against the root of
  the generated key pair.\<close>

theorem xmss_signatures_verify:
  assumes "stark_ok S" "height < 32"
    and "run_all (run_call S) (generate_with_height S seed height) calls = (kp', outs)"
  shows "length outs = length calls \<and>
    (\<forall>(call, out) \<in> set (zip calls outs). \<forall>r. out = Some r \<longrightarrow>
      signature_ok S (root_felt S (generate_with_height S seed height)) height call r)"
proof -
  define kp where "kp = generate_with_height S seed height"
  have "keypair_inv S kp" unfolding kp_def by (rule keypair_inv_generate [OF assms(2)])
  moreover have "kp_height kp = height" by (simp add: kp_def generate_with_height_def Let_def)
  moreover have "length os = length cs \<and> (\<forall>(call, out) \<in> set (zip cs os). \<forall>r. out = Some r \<longrightarrow>
      signature_ok S (root_felt S k) (kp_height k) call r)"
    if "keypair_inv S k" "run_all (run_call S) k cs = (k', os)" for k k' cs os
    using that
  proof (induction cs arbitrary: k os)
    case (Cons c cs)
    obtain k1 r os1 where step: "run_call S k c = (k1, r)" "run_all (run_call S) k1 cs = (k', os1)" "os = r # os1"
      using Cons.prems(2) by (auto split: prod.splits)
    note one = run_call_step [OF assms(1) Cons.prems(1) step(1)]
    then show ?case using Cons.IH [OF _ step(2)] step(3) by auto
  qed simp
  ultimately show ?thesis using assms(3) by (simp add: kp_def [symmetric]) blast
qed

theorem xmss_signatures_verify_witness:
  "let kp = generate_with_height sum_stark 5 2 in
   case run_all (run_call sum_stark) kp [NextLeaf (\<lambda>_. 9), ReservedLeaf 3 7] of
     (kp', [Some (sg, i, m), Some (sg', i', m')]) \<Rightarrow>
       i = 0 \<and> m = 9 \<and> xmss_verify sum_stark (root_felt sum_stark kp) 9 sg \<and>
       i' = 3 \<and> m' = 7 \<and> xmss_verify sum_stark (root_felt sum_stark kp) 7 sg'
   | _ \<Rightarrow> False"
proof -
  define kp where "kp = generate_with_height sum_stark 5 2"
  have kp: "kp_next_index kp = 0" "kp_height kp = 2"
    by (simp_all add: kp_def generate_with_height_def Let_def)
  let ?kp1 = "kp\<lparr>kp_next_index := 1\<rparr>" and ?kp2 = "kp\<lparr>kp_next_index := 4\<rparr>"
  let ?outs = "[Some (leaf_signature sum_stark ?kp1 0 9, 0, 9), Some (leaf_signature sum_stark ?kp2 3 7, 3, 7)]"
  have run: "run_all (run_call sum_stark) kp [NextLeaf (\<lambda>_. 9), ReservedLeaf 3 7] = (?kp2, ?outs)"
    by (simp add: kp sign_with_index_def sign_reserved_def checked_add_def Let_def)
  from xmss_signatures_verify [OF sum_stark_ok _ run [unfolded kp_def]]
  show ?thesis unfolding kp_def [symmetric] Let_def run by (simp add: signature_ok_def)
qed

text \<open>A leaf is never used twice: in any sequence of signing calls on a key pair the
  successful calls use strictly increasing leaf indices below the capacity, and a call fails exactly
  when the tree is exhausted.\<close>

lemma xmss_leaves_never_reused:
  assumes "keypair_inv S kp" "run_all (sign_with_index S) kp messages = (kp', outs)"
  shows "sorted_wrt (<) (leaves_used (\<lambda>(sg, i, m). unat i) outs) \<and>
    (\<forall>i \<in> set (leaves_used (\<lambda>(sg, i, m). unat i) outs). i < unat (capacity kp)) \<and>
    (snd (sign_with_index S kp bm) = None \<longleftrightarrow> is_exhausted kp)"
proof -
  have cap: "unat (capacity kp) = 2 ^ kp_height kp"
    using unat_capacity [OF assms(1)] by (simp only: capacity_def)
  have "snd (sign_with_index S kp bm) = None \<longleftrightarrow> unat (kp_next_index kp) = 2 ^ kp_height kp"
    using sign_with_index_None [OF assms(1), of bm] by (cases "sign_with_index S kp bm") auto
  also have "\<dots> \<longleftrightarrow> is_exhausted kp"
    using cap by (auto simp: is_exhausted_def remaining_def) (simp add: word_unat_eq_iff)
  finally show ?thesis using xk.leaves_increase [OF assms] cap by simp
qed


end
