(* ===== verification/Server_Store.thy ===== *)
theory Server_Store
  imports Core_V2
begin

text \<open>
  The server's errors (\<open>zkapi-server/src/error.rs\<close>) and its SQLite table of nullifiers and
  transcripts (\<open>nullifier_store.rs\<close>). The table is the list of its rows in insertion order; each
  statement runs under the connection's mutex, so it is one atomic step. A \<open>fault\<close> flag stands for
  an SQLite failure of the statement, which changes nothing. \<open>serde_json\<close> is the record \<open>json\<close>.
  The clock is an argument.
\<close>

section \<open>Errors\<close>

text \<open>The message strings are dropped except for the root a client needs to retry.\<close>

datatype ServerError =
    InvalidProof | StaleRoot (latest_root: string) | Replay | NoteExpired | Internal
  | CapacityExhausted | NullifierUsed | Database | InvalidRequest | ProtocolMismatch

fun error_code :: "ServerError \<Rightarrow> string" where
  "error_code InvalidProof = ''INVALID_PROOF''"
| "error_code (StaleRoot _) = ''STALE_ROOT''"
| "error_code Replay = ''REPLAY''"
| "error_code NoteExpired = ''NOTE_EXPIRED''"
| "error_code Internal = ''INTERNAL''"
| "error_code CapacityExhausted = ''CAPACITY_EXHAUSTED''"
| "error_code NullifierUsed = ''NULLIFIER_USED''"
| "error_code Database = ''DATABASE_ERROR''"
| "error_code InvalidRequest = ''INVALID_REQUEST''"
| "error_code ProtocolMismatch = ''PROTOCOL_MISMATCH''"

fun is_retriable :: "ServerError \<Rightarrow> bool" where
  "is_retriable (StaleRoot _) = True"
| "is_retriable Internal = True"
| "is_retriable Database = True"
| "is_retriable InvalidProof = False"
| "is_retriable Replay = False"
| "is_retriable NoteExpired = False"
| "is_retriable CapacityExhausted = False"
| "is_retriable NullifierUsed = False"
| "is_retriable InvalidRequest = False"
| "is_retriable ProtocolMismatch = False"


section \<open>Rows and records\<close>

record TranscriptRecord =
  tr_nullifier :: felt
  tr_status :: NullifierStatus
  tr_client_request_id :: "string option"
  tr_payload_hash :: "felt option"
  tr_charge_applied :: "u128 option"
  tr_response_code :: "u16 option"
  tr_response_payload :: "string option"
  tr_response_hash :: "felt option"
  tr_next_commitment_x :: "felt option"
  tr_next_commitment_y :: "felt option"
  tr_next_anchor :: "felt option"
  tr_blind_delta_srv :: "felt option"
  tr_next_state_sig_epoch :: "u32 option"
  tr_next_state_sig_root :: "felt option"
  tr_next_state_sig :: "XmssSignature option"
  tr_policy_reason_code :: "u32 option"
  tr_policy_evidence_hash :: "felt option"
  tr_proof_blob :: "u8 list option"
  tr_request_inputs_json :: "string option"
  tr_created_at :: u64
  tr_finalized_at :: "u64 option"

text \<open>The columns: text, blobs, and the integers \<open>i64\<close> and \<open>i32\<close> bound to them.\<close>

record NullifierRow =
  row_nullifier :: string
  row_status :: string
  row_client_request_id :: "string option"
  row_payload_hash :: "string option"
  row_charge_applied :: "64 word option"
  row_response_code :: "32 word option"
  row_response_payload :: "string option"
  row_response_hash :: "string option"
  row_next_commitment_x :: "string option"
  row_next_commitment_y :: "string option"
  row_next_anchor :: "string option"
  row_blind_delta_srv :: "string option"
  row_next_state_sig_epoch :: "32 word option"
  row_next_state_sig_root :: "string option"
  row_next_state_sig_json :: "string option"
  row_policy_reason_code :: "32 word option"
  row_policy_evidence_hash :: "string option"
  row_proof_blob :: "u8 list option"
  row_request_inputs_json :: "string option"
  row_created_at :: "64 word"
  row_finalized_at :: "64 word option"

text \<open>\<open>serde_json\<close> on the two types the store and its users serialise.\<close>

record json =
  sig_to_json :: "XmssSignature \<Rightarrow> string option"
  sig_of_json :: "string \<Rightarrow> XmssSignature option"
  inputs_to_json :: "RequestPublicInputs \<Rightarrow> string option"
  inputs_of_json :: "string \<Rightarrow> RequestPublicInputs option"

fun status_to_str :: "NullifierStatus \<Rightarrow> string" where
  "status_to_str Reserved = ''Reserved''"
| "status_to_str Finalized = ''Finalized''"
| "status_to_str ClearanceReserved = ''ClearanceReserved''"

definition str_to_status :: "string \<Rightarrow> NullifierStatus" where
  "str_to_status s =
     (if s = ''Reserved'' then Reserved
      else if s = ''Finalized'' then Finalized
      else if s = ''ClearanceReserved'' then ClearanceReserved
      else Reserved)"

definition parse_opt_felt :: "string option \<Rightarrow> felt option" where
  "parse_opt_felt s = Option.bind s (\<lambda>h. res_ok (from_hex h))"

text \<open>\<open>as u128\<close> on an \<open>i64\<close> extends the sign; \<open>as i64\<close> on a \<open>u128\<close> keeps the low bits.\<close>

definition row_to_record :: "json \<Rightarrow> NullifierRow \<Rightarrow> TranscriptRecord" where
  "row_to_record J row =
     \<lparr>tr_nullifier = unwrap_or ZERO (res_ok (from_hex (row_nullifier row))),
      tr_status = str_to_status (row_status row),
      tr_client_request_id = row_client_request_id row,
      tr_payload_hash = parse_opt_felt (row_payload_hash row),
      tr_charge_applied = map_option (\<lambda>c. signed c) (row_charge_applied row),
      tr_response_code = map_option (\<lambda>c. ucast c) (row_response_code row),
      tr_response_payload = row_response_payload row,
      tr_response_hash = parse_opt_felt (row_response_hash row),
      tr_next_commitment_x = parse_opt_felt (row_next_commitment_x row),
      tr_next_commitment_y = parse_opt_felt (row_next_commitment_y row),
      tr_next_anchor = parse_opt_felt (row_next_anchor row),
      tr_blind_delta_srv = parse_opt_felt (row_blind_delta_srv row),
      tr_next_state_sig_epoch = row_next_state_sig_epoch row,
      tr_next_state_sig_root = parse_opt_felt (row_next_state_sig_root row),
      tr_next_state_sig = Option.bind (row_next_state_sig_json row) (sig_of_json J),
      tr_policy_reason_code = row_policy_reason_code row,
      tr_policy_evidence_hash = parse_opt_felt (row_policy_evidence_hash row),
      tr_proof_blob = row_proof_blob row,
      tr_request_inputs_json = row_request_inputs_json row,
      tr_created_at = row_created_at row,
      tr_finalized_at = row_finalized_at row\<rparr>"


section \<open>Statements\<close>

type_synonym nullifier_table = "NullifierRow list"

definition empty_row :: "string \<Rightarrow> NullifierStatus \<Rightarrow> u64 \<Rightarrow> NullifierRow" where
  "empty_row null_hex st now =
     \<lparr>row_nullifier = null_hex, row_status = status_to_str st,
      row_client_request_id = None, row_payload_hash = None, row_charge_applied = None,
      row_response_code = None, row_response_payload = None, row_response_hash = None,
      row_next_commitment_x = None, row_next_commitment_y = None, row_next_anchor = None,
      row_blind_delta_srv = None, row_next_state_sig_epoch = None, row_next_state_sig_root = None,
      row_next_state_sig_json = None, row_policy_reason_code = None,
      row_policy_evidence_hash = None, row_proof_blob = None, row_request_inputs_json = None,
      row_created_at = now, row_finalized_at = None\<rparr>"

text \<open>The primary key makes an insertion of a present nullifier a constraint violation.\<close>

definition has_row :: "nullifier_table \<Rightarrow> string \<Rightarrow> bool" where
  "has_row tbl null_hex \<longleftrightarrow> (\<exists>row \<in> set tbl. row_nullifier row = null_hex)"

definition reserve ::
    "bool \<Rightarrow> u64 \<Rightarrow> nullifier_table \<Rightarrow> felt \<Rightarrow> string \<Rightarrow> felt \<Rightarrow> nullifier_table \<times> (ServerError + unit)" where
  "reserve fault now tbl nul client_request_id payload_hash =
     (let null_hex = to_hex nul in
      if fault then (tbl, Inl Database)
      else if has_row tbl null_hex then (tbl, Inl Replay)
      else (tbl @ [(empty_row null_hex Reserved now)
               \<lparr>row_client_request_id := Some client_request_id,
                row_payload_hash := Some (to_hex payload_hash)\<rparr>], Inr ()))"

definition finalized_row :: "json \<Rightarrow> u64 \<Rightarrow> TranscriptRecord \<Rightarrow> NullifierRow \<Rightarrow> NullifierRow" where
  "finalized_row J now transcript row = row
     \<lparr>row_status := status_to_str Finalized,
      row_charge_applied := map_option (\<lambda>c. ucast c) (tr_charge_applied transcript),
      row_response_code := map_option (\<lambda>c. ucast c) (tr_response_code transcript),
      row_response_payload := tr_response_payload transcript,
      row_response_hash := map_option to_hex (tr_response_hash transcript),
      row_next_commitment_x := map_option to_hex (tr_next_commitment_x transcript),
      row_next_commitment_y := map_option to_hex (tr_next_commitment_y transcript),
      row_next_anchor := map_option to_hex (tr_next_anchor transcript),
      row_blind_delta_srv := map_option to_hex (tr_blind_delta_srv transcript),
      row_next_state_sig_epoch := tr_next_state_sig_epoch transcript,
      row_next_state_sig_root := map_option to_hex (tr_next_state_sig_root transcript),
      row_next_state_sig_json :=
        map_option (\<lambda>sg. unwrap_or '''' (sig_to_json J sg)) (tr_next_state_sig transcript),
      row_policy_reason_code := tr_policy_reason_code transcript,
      row_policy_evidence_hash := map_option to_hex (tr_policy_evidence_hash transcript),
      row_proof_blob := tr_proof_blob transcript,
      row_request_inputs_json := tr_request_inputs_json transcript,
      row_finalized_at := Some now\<rparr>"

definition finalize ::
    "json \<Rightarrow> bool \<Rightarrow> u64 \<Rightarrow> nullifier_table \<Rightarrow> felt \<Rightarrow> TranscriptRecord \<Rightarrow>
     nullifier_table \<times> (ServerError + unit)" where
  "finalize J fault now tbl nul transcript =
     (let null_hex = to_hex nul;
          hit = (\<lambda>row. row_nullifier row = null_hex \<and> row_status row = status_to_str Reserved)
      in if fault then (tbl, Inl Database)
         else if length (filter hit tbl) = 0 then (tbl, Inl Internal)
         else (map (\<lambda>row. if hit row then finalized_row J now transcript row else row) tbl, Inr ()))"

definition lookup_by_nullifier ::
    "json \<Rightarrow> bool \<Rightarrow> nullifier_table \<Rightarrow> felt \<Rightarrow> TranscriptRecord option" where
  "lookup_by_nullifier J fault tbl nul =
     (if fault then None
      else map_option (row_to_record J) (find (\<lambda>row. row_nullifier row = to_hex nul) tbl))"

definition lookup_by_client_id ::
    "json \<Rightarrow> bool \<Rightarrow> nullifier_table \<Rightarrow> string \<Rightarrow> TranscriptRecord option" where
  "lookup_by_client_id J fault tbl client_request_id =
     (if fault then None
      else map_option (row_to_record J)
             (find (\<lambda>row. row_client_request_id row = Some client_request_id) tbl))"

definition reserve_clearance ::
    "bool \<Rightarrow> u64 \<Rightarrow> nullifier_table \<Rightarrow> felt \<Rightarrow> nullifier_table \<times> (ServerError + unit)" where
  "reserve_clearance fault now tbl nul =
     (let null_hex = to_hex nul in
      if fault then (tbl, Inl Database)
      else if has_row tbl null_hex then (tbl, Inl NullifierUsed)
      else (tbl @ [empty_row null_hex ClearanceReserved now], Inr ()))"

definition get_reserved_entries :: "json \<Rightarrow> bool \<Rightarrow> nullifier_table \<Rightarrow> TranscriptRecord list" where
  "get_reserved_entries J fault tbl =
     (if fault then []
      else map (row_to_record J) (filter (\<lambda>row. row_status row = status_to_str Reserved) tbl))"

definition get_all_nullifiers :: "json \<Rightarrow> bool \<Rightarrow> nullifier_table \<Rightarrow> TranscriptRecord list" where
  "get_all_nullifiers J fault tbl = (if fault then [] else map (row_to_record J) tbl)"


section \<open>Facts about rows\<close>

lemma str_to_status_inverse [simp]: "str_to_status (status_to_str st) = st"
  by (cases st) (simp_all add: str_to_status_def)

lemma status_to_str_inject [simp]: "status_to_str a = status_to_str b \<longleftrightarrow> a = b"
  by (metis str_to_status_inverse)

lemma parse_opt_felt_to_hex [simp]:
  "(\<And>f. x = Some f \<Longrightarrow> canonical f) \<Longrightarrow> parse_opt_felt (map_option to_hex x) = x"
  by (cases x) (auto simp: parse_opt_felt_def from_hex_to_hex)

text \<open>Every row is written with one of the three states and a unique key.\<close>

definition table_inv :: "nullifier_table \<Rightarrow> bool" where
  "table_inv tbl \<longleftrightarrow>
     distinct (map row_nullifier tbl) \<and> (\<forall>row \<in> set tbl. row_status row \<in> range status_to_str)"

definition row_of :: "nullifier_table \<Rightarrow> felt \<Rightarrow> NullifierRow option" where
  "row_of tbl n = find (\<lambda>row. row_nullifier row = to_hex n) tbl"

definition row_state :: "nullifier_table \<Rightarrow> felt \<Rightarrow> NullifierStatus option" where
  "row_state tbl n = map_option (\<lambda>row. str_to_status (row_status row)) (row_of tbl n)"

lemma find_append: "find p (xs @ ys) = (case find p xs of None \<Rightarrow> find p ys | Some x \<Rightarrow> Some x)"
  by (induction xs) auto

lemma has_row_iff: "has_row tbl (to_hex n) \<longleftrightarrow> row_of tbl n \<noteq> None"
  by (auto simp: has_row_def row_of_def find_None_iff)

lemma row_of_append:
  "row_nullifier row = to_hex n \<Longrightarrow> row_of tbl n = None \<Longrightarrow>
   row_of (tbl @ [row]) = (row_of tbl)(n \<mapsto> row)"
  by (auto simp: row_of_def fun_eq_iff find_append split: option.splits)

lemma row_of_nullifier: "row_of tbl n = Some row \<Longrightarrow> row_nullifier row = to_hex n"
  by (auto simp: row_of_def find_Some_iff)

lemma row_of_map:
  assumes "\<And>row. row_nullifier (f row) = row_nullifier row"
  shows "row_of (map f tbl) n = map_option f (row_of tbl n)"
  by (induction tbl) (auto simp: row_of_def assms)

lemma row_of_Some_in: "row_of tbl n = Some row \<Longrightarrow> row \<in> set tbl"
  by (auto simp: row_of_def find_Some_iff)

lemma row_of_unique:
  "table_inv tbl \<Longrightarrow> row \<in> set tbl \<Longrightarrow> row_nullifier row = to_hex n \<Longrightarrow> row_of tbl n = Some row"
  by (induction tbl) (auto simp: row_of_def table_inv_def intro: rev_image_eqI)

lemma lookup_row: "lookup_by_nullifier J False tbl n = map_option (row_to_record J) (row_of tbl n)"
  by (simp add: lookup_by_nullifier_def row_of_def)

text \<open>The row written by \<open>finalize\<close> over a reserved row, and the row written by a reservation.\<close>

definition reserved_row :: "u64 \<Rightarrow> felt \<Rightarrow> string \<Rightarrow> felt \<Rightarrow> NullifierRow" where
  "reserved_row now n cid h = (empty_row (to_hex n) Reserved now)
     \<lparr>row_client_request_id := Some cid, row_payload_hash := Some (to_hex h)\<rparr>"

lemma row_nullifier_simps [simp]:
  "row_nullifier (finalized_row J now tr row) = row_nullifier row"
  "row_nullifier (empty_row h st now) = h"
  "row_nullifier (reserved_row now n cid p) = to_hex n"
  "row_status (finalized_row J now tr row) = ''Finalized''"
  "row_status (empty_row h st now) = status_to_str st"
  "row_status (reserved_row now n cid p) = ''Reserved''"
  by (simp_all add: finalized_row_def empty_row_def reserved_row_def)

lemma reserve_cases:
  "reserve fault now tbl n cid h =
     (if fault then (tbl, Inl Database)
      else if row_of tbl n \<noteq> None then (tbl, Inl Replay)
      else (tbl @ [reserved_row now n cid h], Inr ()))"
  by (simp add: reserve_def Let_def has_row_iff reserved_row_def)

lemma reserve_clearance_cases:
  "reserve_clearance fault now tbl n =
     (if fault then (tbl, Inl Database)
      else if row_of tbl n \<noteq> None then (tbl, Inl NullifierUsed)
      else (tbl @ [empty_row (to_hex n) ClearanceReserved now], Inr ()))"
  by (simp add: reserve_clearance_def Let_def has_row_iff)

lemma finalize_cases:
  assumes "table_inv tbl"
  shows "finalize J fault now tbl n tr =
     (if fault then (tbl, Inl Database)
      else case row_of tbl n of
          Some row \<Rightarrow> if row_status row = ''Reserved''
            then (map (\<lambda>r. if r = row then finalized_row J now tr r else r) tbl, Inr ())
            else (tbl, Inl Internal)
        | None \<Rightarrow> (tbl, Inl Internal))"
proof -
  have hit: "row_nullifier r = to_hex n \<and> row_status r = ''Reserved'' \<longleftrightarrow>
      (\<exists>row. row_of tbl n = Some row \<and> r = row \<and> row_status row = ''Reserved'')" if "r \<in> set tbl" for r
    using row_of_unique [OF assms that] row_of_nullifier by fastforce
  then have "filter (\<lambda>r. row_nullifier r = to_hex n \<and> row_status r = ''Reserved'') tbl = [] \<longleftrightarrow>
      \<not> (\<exists>row. row_of tbl n = Some row \<and> row_status row = ''Reserved'')"
    using row_of_Some_in by (fastforce simp: filter_empty_conv)
  moreover have "map (\<lambda>r. if row_nullifier r = to_hex n \<and> row_status r = ''Reserved''
        then finalized_row J now tr r else r) tbl
      = map (\<lambda>r. if r = row then finalized_row J now tr r else r) tbl"
    if "row_of tbl n = Some row" "row_status row = ''Reserved''" for row
    using hit that by auto
  ultimately show ?thesis
    by (auto simp: finalize_def Let_def split: option.split)
qed

lemma row_of_finalize:
  assumes "table_inv tbl" "row_of tbl n = Some row"
  shows "row_of (map (\<lambda>r. if r = row then finalized_row J now tr r else r) tbl)
    = (row_of tbl)(n \<mapsto> finalized_row J now tr row)"
proof
  fix m
  let ?f = "\<lambda>r. if r = row then finalized_row J now tr r else r"
  have "row_of (map ?f tbl) m = map_option ?f (row_of tbl m)" by (rule row_of_map) simp
  moreover have "row_of tbl m \<noteq> Some row" if "m \<noteq> n"
    using that row_of_nullifier [OF assms(2)] row_of_nullifier [of tbl m row] by auto
  ultimately show "row_of (map ?f tbl) m = ((row_of tbl)(n \<mapsto> finalized_row J now tr row)) m"
    using assms(2) by (cases "m = n"; cases "row_of tbl m") simp_all
qed

lemma table_inv_append:
  "table_inv tbl \<Longrightarrow> row_of tbl n = None \<Longrightarrow> row_nullifier row = to_hex n \<Longrightarrow>
   row_status row \<in> range status_to_str \<Longrightarrow> table_inv (tbl @ [row])"
  by (auto simp: table_inv_def row_of_def find_None_iff)

lemma table_inv_map:
  assumes "table_inv tbl"
  shows "table_inv (map (\<lambda>r. if r = row then finalized_row J now tr r else r) tbl)"
proof -
  have "row_nullifier \<circ> (\<lambda>r. if r = row then finalized_row J now tr r else r) = row_nullifier"
    by (simp add: fun_eq_iff)
  moreover have "''Finalized'' \<in> range status_to_str" by (rule range_eqI [of _ _ Finalized]) simp
  ultimately show ?thesis using assms by (auto simp: table_inv_def)
qed

lemma status_strings [simp]: "''Reserved'' \<in> range status_to_str" "''Finalized'' \<in> range status_to_str"
  "''ClearanceReserved'' \<in> range status_to_str"
  by (metis rangeI status_to_str.simps)+


section \<open>Interface\<close>

text \<open>What the processor and the watcher rely on: a nullifier enters the registry once, as reserved
  or as cleared, and only a reserved one becomes finalized. \<open>res\<close>, \<open>fin\<close> and \<open>clr\<close> are the three
  writes with their remaining arguments.\<close>

locale nullifier_registry =
  fixes ok :: "'s \<Rightarrow> bool"
    and entry :: "'s \<Rightarrow> felt \<Rightarrow> 'r option"
    and state_of :: "'r \<Rightarrow> NullifierStatus"
    and res :: "'i \<Rightarrow> 's \<Rightarrow> felt \<Rightarrow> 's \<times> (ServerError + unit)"
    and fin :: "'j \<Rightarrow> 's \<Rightarrow> felt \<Rightarrow> 's \<times> (ServerError + unit)"
    and clr :: "'k \<Rightarrow> 's \<Rightarrow> felt \<Rightarrow> 's \<times> (ServerError + unit)"
  assumes res_ok: "ok s \<Longrightarrow> res i s n = (s', Inr ()) \<Longrightarrow>
      ok s' \<and> entry s n = None \<and> (\<exists>r. state_of r = Reserved \<and> entry s' = (entry s)(n \<mapsto> r))"
    and fin_ok: "ok s \<Longrightarrow> fin j s n = (s', Inr ()) \<Longrightarrow>
      ok s' \<and> (\<exists>r r'. entry s n = Some r \<and> state_of r = Reserved \<and>
                state_of r' = Finalized \<and> entry s' = (entry s)(n \<mapsto> r'))"
    and clr_ok: "ok s \<Longrightarrow> clr k s n = (s', Inr ()) \<Longrightarrow>
      ok s' \<and> entry s n = None \<and> (\<exists>r. state_of r = ClearanceReserved \<and> entry s' = (entry s)(n \<mapsto> r))"
    and fails: "ok s \<Longrightarrow> res i s n = (s', Inl e) \<Longrightarrow> s' = s" "ok s \<Longrightarrow> fin j s n = (s', Inl e) \<Longrightarrow> s' = s"
      "ok s \<Longrightarrow> clr k s n = (s', Inl e) \<Longrightarrow> s' = s"
begin

lemma res_split:
  assumes "ok s"
  obtains (failed) e where "res i s n = (s, Inl e)"
  | (succeeded) s' r where "res i s n = (s', Inr ())" "ok s'" "entry s n = None" "state_of r = Reserved"
      "entry s' = (entry s)(n \<mapsto> r)"
  using assms res_ok [of s i n] fails(1) [of s i n] by (cases "res i s n"; cases "snd (res i s n)") auto

lemma fin_split:
  assumes "ok s"
  obtains (failed) e where "fin j s n = (s, Inl e)"
  | (succeeded) s' r r' where "fin j s n = (s', Inr ())" "ok s'" "entry s n = Some r" "state_of r = Reserved"
      "state_of r' = Finalized" "entry s' = (entry s)(n \<mapsto> r')"
  using assms fin_ok [of s j n] fails(2) [of s j n] by (cases "fin j s n"; cases "snd (fin j s n)") auto

lemma clr_split:
  assumes "ok s"
  obtains (failed) e where "clr k s n = (s, Inl e)"
  | (succeeded) s' r where "clr k s n = (s', Inr ())" "ok s'" "entry s n = None"
      "state_of r = ClearanceReserved" "entry s' = (entry s)(n \<mapsto> r)"
  using assms clr_ok [of s k n] fails(3) [of s k n] by (cases "clr k s n"; cases "snd (clr k s n)") auto

lemma ok_res: "ok s \<Longrightarrow> ok (fst (res i s n))"
  by (rule res_split [of s i n]) simp_all

lemma ok_fin: "ok s \<Longrightarrow> ok (fst (fin j s n))"
  by (rule fin_split [of s j n]) simp_all

lemma ok_clr: "ok s \<Longrightarrow> ok (fst (clr k s n))"
  by (rule clr_split [of s k n]) simp_all

text \<open>Settled entries never change, and no entry disappears.\<close>

lemma settled_res: "ok s \<Longrightarrow> entry s m = Some r \<Longrightarrow> entry (fst (res i s n)) m = Some r"
  by (rule res_split [of s i n]) auto

lemma settled_fin:
  "ok s \<Longrightarrow> entry s m = Some r \<Longrightarrow> state_of r \<noteq> Reserved \<Longrightarrow> entry (fst (fin j s n)) m = Some r"
  by (rule fin_split [of s j n]) auto

lemma settled_clr: "ok s \<Longrightarrow> entry s m = Some r \<Longrightarrow> entry (fst (clr k s n)) m = Some r"
  by (rule clr_split [of s k n]) auto

lemma present_fin: "ok s \<Longrightarrow> entry s m \<noteq> None \<Longrightarrow> entry (fst (fin j s n)) m \<noteq> None"
  by (rule fin_split [of s j n]) auto

end

interpretation nt: nullifier_registry table_inv row_of "\<lambda>row. str_to_status (row_status row)"
  "\<lambda>(fault, now, cid, h) tbl n. reserve fault now tbl n cid h"
  "\<lambda>(J, fault, now, tr) tbl n. finalize J fault now tbl n tr"
  "\<lambda>(fault, now) tbl n. reserve_clearance fault now tbl n"
proof unfold_locales
  fix tbl tbl' n i and e :: ServerError
  assume inv: "table_inv tbl"
  { assume "(\<lambda>(fault, now, cid, h) tbl n. reserve fault now tbl n cid h) i tbl n = (tbl', Inr ())"
    then obtain now cid h where "row_of tbl n = None" "tbl' = tbl @ [reserved_row now n cid h]"
      by (cases i) (auto simp: reserve_cases split: if_splits)
    then show "table_inv tbl' \<and> row_of tbl n = None \<and>
        (\<exists>r. str_to_status (row_status r) = Reserved \<and> row_of tbl' = (row_of tbl)(n \<mapsto> r))"
      using inv by (auto simp: row_of_append table_inv_append str_to_status_def
          intro!: exI [of _ "reserved_row now n cid h"]) }
  { assume "(\<lambda>(fault, now, cid, h) tbl n. reserve fault now tbl n cid h) i tbl n = (tbl', Inl e)"
    then show "tbl' = tbl" by (cases i) (auto simp: reserve_cases split: if_splits) }
next
  fix tbl tbl' n j and e :: ServerError
  assume inv: "table_inv tbl"
  { assume "(\<lambda>(J, fault, now, tr) tbl n. finalize J fault now tbl n tr) j tbl n = (tbl', Inr ())"
    then obtain J now tr row where "row_of tbl n = Some row" "row_status row = ''Reserved''"
      "tbl' = map (\<lambda>r. if r = row then finalized_row J now tr r else r) tbl"
      by (cases j) (auto simp: finalize_cases [OF inv] split: if_splits option.splits)
    then show "table_inv tbl' \<and> (\<exists>r r'. row_of tbl n = Some r \<and> str_to_status (row_status r) = Reserved \<and>
        str_to_status (row_status r') = Finalized \<and> row_of tbl' = (row_of tbl)(n \<mapsto> r'))"
      using inv by (auto simp: row_of_finalize table_inv_map str_to_status_def
          intro!: exI [of _ "finalized_row J now tr row"]) }
  { assume "(\<lambda>(J, fault, now, tr) tbl n. finalize J fault now tbl n tr) j tbl n = (tbl', Inl e)"
    then show "tbl' = tbl" by (cases j) (auto simp: finalize_cases [OF inv] split: if_splits option.splits) }
next
  fix tbl tbl' n k and e :: ServerError
  assume inv: "table_inv tbl"
  { assume "(\<lambda>(fault, now) tbl n. reserve_clearance fault now tbl n) k tbl n = (tbl', Inr ())"
    then obtain now where "row_of tbl n = None" "tbl' = tbl @ [empty_row (to_hex n) ClearanceReserved now]"
      by (cases k) (auto simp: reserve_clearance_cases split: if_splits)
    then show "table_inv tbl' \<and> row_of tbl n = None \<and>
        (\<exists>r. str_to_status (row_status r) = ClearanceReserved \<and> row_of tbl' = (row_of tbl)(n \<mapsto> r))"
      using inv by (auto simp: row_of_append str_to_status_def
          intro!: exI [of _ "empty_row (to_hex n) ClearanceReserved now"] table_inv_append) }
  { assume "(\<lambda>(fault, now) tbl n. reserve_clearance fault now tbl n) k tbl n = (tbl', Inl e)"
    then show "tbl' = tbl" by (cases k) (auto simp: reserve_clearance_cases split: if_splits) }
qed


section \<open>Round trip of transcripts\<close>

definition sig_canonical :: "XmssSignature \<Rightarrow> bool" where
  "sig_canonical sg \<longleftrightarrow> (\<forall>f \<in> set (wots_sig sg) \<union> set (auth_path sg). canonical f)"

definition inputs_canonical :: "RequestPublicInputs \<Rightarrow> bool" where
  "inputs_canonical p \<longleftrightarrow> canonical (r1_contract_address p) \<and> canonical (r1_active_root p) \<and>
     canonical (r1_state_sig_root p) \<and> canonical (r1_request_nullifier p) \<and>
     canonical (r1_anon_commitment_x p) \<and> canonical (r1_anon_commitment_y p)"

text \<open>\<open>serde_json\<close> reads back what it writes; field elements are written and read as hex strings, so
  this is required of canonical ones only.\<close>

definition json_ok :: "json \<Rightarrow> bool" where
  "json_ok J \<longleftrightarrow>
     (\<forall>sg. sig_canonical sg \<longrightarrow> (\<exists>t. sig_to_json J sg = Some t \<and> sig_of_json J t = Some sg)) \<and>
     (\<forall>p. inputs_canonical p \<longrightarrow> (\<exists>t. inputs_to_json J p = Some t \<and> inputs_of_json J t = Some p))"

definition transcript_canonical :: "TranscriptRecord \<Rightarrow> bool" where
  "transcript_canonical tr \<longleftrightarrow>
     (\<forall>f \<in> set_option (tr_response_hash tr) \<union> set_option (tr_next_commitment_x tr) \<union>
        set_option (tr_next_commitment_y tr) \<union> set_option (tr_next_anchor tr) \<union>
        set_option (tr_blind_delta_srv tr) \<union> set_option (tr_next_state_sig_root tr) \<union>
        set_option (tr_policy_evidence_hash tr). canonical f) \<and>
     (\<forall>sg \<in> set_option (tr_next_state_sig tr). sig_canonical sg)"

text \<open>The charge column is a signed 64-bit integer.\<close>

definition stored_charge :: "u128 \<Rightarrow> u128" where
  "stored_charge c = signed (ucast c :: 64 word)"

lemma stored_charge_small: "c < 2 ^ 63 \<Longrightarrow> stored_charge c = c"
proof -
  assume "c < 2 ^ 63"
  then have "uint c < 2 ^ 63" by (simp add: word_less_def)
  moreover have "- (2 ^ 63) \<le> uint c" using uint_ge_0 [of c] by (rule order_trans [rotated]) simp
  ultimately have "sint (ucast c :: 64 word) = uint c"
    using signed_take_bit_int_eq_self [of 63 "uint c"] by (simp add: signed_ucast_eq)
  then show ?thesis by (simp add: stored_charge_def) (metis scast_eq word_of_int_uint)
qed

text \<open>Reading the column back is stable: a charge that was stored once is not changed by storing it again.\<close>

lemma stored_charge_signed [simp]: "stored_charge (signed (i :: 64 word)) = signed i"
proof -
  have "(ucast (signed i :: u128) :: 64 word) = i" by (rule bit_word_eqI) (simp add: bit_simps)
  then show ?thesis by (simp add: stored_charge_def)
qed

lemma stored_charge_idem: "stored_charge (stored_charge c) = stored_charge c"
  by (subst (2 3) stored_charge_def) simp

lemma stored_charge_read:
  "stored_charge (unwrap_or 0 (map_option (\<lambda>i. signed (i :: 64 word)) x)) = unwrap_or 0 (map_option (\<lambda>i. signed i) x)"
  by (cases x) (simp_all add: unwrap_or_def stored_charge_small)

lemma ucast_i32_u16 [simp]: "(ucast (ucast (c :: u16) :: 32 word) :: u16) = c"
  by (rule bit_word_eqI) (simp add: bit_ucast_iff)

lemma sig_round_trip:
  assumes "json_ok J" "\<forall>sg \<in> set_option x. sig_canonical sg"
  shows "Option.bind (map_option (\<lambda>sg. unwrap_or '''' (sig_to_json J sg)) x) (sig_of_json J) = x"
proof (cases x)
  case (Some sg)
  then obtain t where "sig_to_json J sg = Some t" "sig_of_json J t = Some sg"
    using assms unfolding json_ok_def by auto
  then show ?thesis by (simp add: Some unwrap_or_def)
qed simp

lemma finalized_record:
  assumes "json_ok J" "transcript_canonical tr" "canonical n" "row_nullifier row = to_hex n"
  shows "row_to_record J (finalized_row J now tr row) = tr
    \<lparr>tr_nullifier := n, tr_status := Finalized,
     tr_client_request_id := row_client_request_id row,
     tr_payload_hash := parse_opt_felt (row_payload_hash row),
     tr_charge_applied := map_option stored_charge (tr_charge_applied tr),
     tr_created_at := row_created_at row, tr_finalized_at := Some now\<rparr>"
proof -
  have hex: "parse_opt_felt (map_option to_hex x) = x"
    if "x \<in> {tr_response_hash tr, tr_next_commitment_x tr, tr_next_commitment_y tr,
      tr_next_anchor tr, tr_blind_delta_srv tr, tr_next_state_sig_root tr,
      tr_policy_evidence_hash tr}" for x
    using that assms(2) by (intro parse_opt_felt_to_hex) (auto simp: transcript_canonical_def)
  have "Option.bind (map_option (\<lambda>sg. unwrap_or '''' (sig_to_json J sg)) (tr_next_state_sig tr))
      (sig_of_json J) = tr_next_state_sig tr"
    using assms(1,2) by (intro sig_round_trip) (simp_all add: transcript_canonical_def)
  moreover have "map_option ((\<lambda>c. signed c) \<circ> (\<lambda>c. ucast c :: 64 word)) x = map_option stored_charge x" for x
    by (cases x) (simp_all add: stored_charge_def)
  ultimately show ?thesis
    using assms(3,4)
    by (cases tr) (simp add: row_to_record_def finalized_row_def hex [simplified] from_hex_to_hex
        option.map_comp comp_def str_to_status_def unwrap_or_def option.map_ident)
qed

lemma row_client_simps [simp]:
  "row_client_request_id (finalized_row J now tr row) = row_client_request_id row"
  "row_payload_hash (finalized_row J now tr row) = row_payload_hash row"
  "row_client_request_id (reserved_row now n cid h) = Some cid"
  "row_payload_hash (reserved_row now n cid h) = Some (to_hex h)"
  "row_created_at (reserved_row now n cid h) = now"
  by (simp_all add: finalized_row_def reserved_row_def empty_row_def)


section \<open>Properties\<close>

text \<open>A transcript survives storage: reserving an unused nullifier, finalizing it and
  looking it up returns the transcript that was finalized, under the reserved request id and payload
  hash, with the charge reduced to the signed 64-bit column (unchanged below \<open>2 ^ 63\<close>).\<close>

lemma transcript_round_trip:
  assumes "table_inv tbl" "row_of tbl n = None" "json_ok J" "transcript_canonical tr"
    and "canonical n" "canonical h"
    and "reserve False now tbl n cid h = (tbl1, r1)" "finalize J False now' tbl1 n tr = (tbl2, r2)"
  shows "r1 = Inr () \<and> r2 = Inr () \<and> table_inv tbl2 \<and>
    lookup_by_nullifier J False tbl2 n = Some (tr
      \<lparr>tr_nullifier := n, tr_status := Finalized, tr_client_request_id := Some cid,
       tr_payload_hash := Some h, tr_charge_applied := map_option stored_charge (tr_charge_applied tr),
       tr_created_at := now, tr_finalized_at := Some now'\<rparr>) \<and>
    (\<forall>m. m \<noteq> n \<longrightarrow> lookup_by_nullifier J False tbl2 m = lookup_by_nullifier J False tbl m) \<and>
    (\<forall>c. c < 2 ^ 63 \<longrightarrow> stored_charge c = c)"
proof -
  let ?row = "reserved_row now n cid h"
  have tbl1: "tbl1 = tbl @ [?row]" "r1 = Inr ()"
    using assms(2,7) by (simp_all add: reserve_cases)
  have row1: "row_of tbl1 = (row_of tbl)(n \<mapsto> ?row)"
    unfolding tbl1 by (rule row_of_append) (use assms(2) in simp_all)
  have inv1: "table_inv tbl1" unfolding tbl1 using assms(1,2) by (intro table_inv_append) simp_all
  have tbl2: "tbl2 = map (\<lambda>r. if r = ?row then finalized_row J now' tr r else r) tbl1" "r2 = Inr ()"
    using assms(8) row1 by (simp_all add: finalize_cases [OF inv1])
  have row2: "row_of tbl2 = (row_of tbl1)(n \<mapsto> finalized_row J now' tr ?row)"
    unfolding tbl2 by (rule row_of_finalize [OF inv1]) (simp add: row1)
  have "lookup_by_nullifier J False tbl2 n = Some (row_to_record J (finalized_row J now' tr ?row))"
    by (simp add: lookup_row row2)
  then have "lookup_by_nullifier J False tbl2 n = Some (tr
      \<lparr>tr_nullifier := n, tr_status := Finalized, tr_client_request_id := Some cid,
       tr_payload_hash := Some h, tr_charge_applied := map_option stored_charge (tr_charge_applied tr),
       tr_created_at := now, tr_finalized_at := Some now'\<rparr>)"
    using assms(6) by (simp add: finalized_record [OF assms(3,4,5)] parse_opt_felt_def from_hex_to_hex)
  moreover have "lookup_by_nullifier J False tbl2 m = lookup_by_nullifier J False tbl m" if "m \<noteq> n" for m
    using that by (simp add: lookup_row row2 row1)
  moreover have "table_inv tbl2" unfolding tbl2 by (rule table_inv_map [OF inv1])
  ultimately show ?thesis using tbl1(2) tbl2(2) stored_charge_small by blast
qed

text \<open>A concrete serialiser for the witnesses: it writes numbers in unary.\<close>

definition write_nats :: "nat list \<Rightarrow> string" where
  "write_nats ns = concat (map (\<lambda>n. replicate n CHR ''1'' @ ''0'') ns)"

fun read_nats :: "nat \<Rightarrow> string \<Rightarrow> nat list" where
  "read_nats k [] = []"
| "read_nats k (c # cs) = (if c = CHR ''0'' then k # read_nats 0 cs else read_nats (Suc k) cs)"

lemma read_nats_replicate: "read_nats k (replicate n CHR ''1'' @ CHR ''0'' # s) = (k + n) # read_nats 0 s"
  by (induction n arbitrary: k) simp_all

lemma read_write_nats: "read_nats 0 (write_nats ns) = ns"
  unfolding write_nats_def by (induction ns) (simp_all add: read_nats_replicate)

definition sig_nats :: "XmssSignature \<Rightarrow> nat list" where
  "sig_nats sg = unat (sig_epoch sg) # unat (leaf_index sg) # length (wots_sig sg) #
     map unat (wots_sig sg) @ map unat (auth_path sg)"

definition nats_sig :: "nat list \<Rightarrow> XmssSignature" where
  "nats_sig ns = \<lparr>sig_epoch = of_nat (ns ! 0), leaf_index = of_nat (ns ! 1),
     wots_sig = map of_nat (take (ns ! 2) (drop 3 ns)), auth_path = map of_nat (drop (ns ! 2) (drop 3 ns))\<rparr>"

definition inputs_nats :: "RequestPublicInputs \<Rightarrow> nat list" where
  "inputs_nats p = [unat (r1_statement_type p), unat (r1_protocol_version p), unat (r1_chain_id p),
     unat (r1_contract_address p), unat (r1_active_root p), unat (r1_state_sig_epoch p),
     unat (r1_state_sig_root p), unat (r1_request_nullifier p), unat (r1_anon_commitment_x p),
     unat (r1_anon_commitment_y p), unat (r1_expiry_ts p), unat (r1_solvency_bound p)]"

definition nats_inputs :: "nat list \<Rightarrow> RequestPublicInputs" where
  "nats_inputs ns = \<lparr>r1_statement_type = of_nat (ns ! 0), r1_protocol_version = of_nat (ns ! 1),
     r1_chain_id = of_nat (ns ! 2), r1_contract_address = of_nat (ns ! 3),
     r1_active_root = of_nat (ns ! 4), r1_state_sig_epoch = of_nat (ns ! 5),
     r1_state_sig_root = of_nat (ns ! 6), r1_request_nullifier = of_nat (ns ! 7),
     r1_anon_commitment_x = of_nat (ns ! 8), r1_anon_commitment_y = of_nat (ns ! 9),
     r1_expiry_ts = of_nat (ns ! 10), r1_solvency_bound = of_nat (ns ! 11)\<rparr>"

definition unary_json :: json where
  "unary_json = \<lparr>sig_to_json = (\<lambda>sg. Some (write_nats (sig_nats sg))),
     sig_of_json = (\<lambda>t. Some (nats_sig (read_nats 0 t))),
     inputs_to_json = (\<lambda>p. Some (write_nats (inputs_nats p))),
     inputs_of_json = (\<lambda>t. Some (nats_inputs (read_nats 0 t)))\<rparr>"

lemma unary_json_ok: "json_ok unary_json"
proof -
  have "nats_sig (sig_nats sg) = sg" for sg
    by (cases sg) (simp add: nats_sig_def sig_nats_def comp_def)
  moreover have "nats_inputs (inputs_nats p) = p" for p
    by (cases p) (simp add: nats_inputs_def inputs_nats_def)
  ultimately show ?thesis by (simp add: json_ok_def unary_json_def read_write_nats)
qed

text \<open>A charge of \<open>2 ^ 63\<close> is read back as \<open>2 ^ 128 - 2 ^ 63\<close>, and a charge of \<open>2 ^ 64\<close> as
  zero: the charge column does not hold the protocol's 128-bit charges.\<close>

lemma stored_charge_overflow:
  "stored_charge (2 ^ 63) = - (2 ^ 63) \<and> stored_charge (2 ^ 64) = 0 \<and>
   unat (stored_charge (2 ^ 63)) = 2 ^ 128 - 2 ^ 63"
  by (simp add: stored_charge_def)

end
