(* ===== verification/Signer.thy ===== *)
theory Signer
  imports Xmss Server_Store
begin

text \<open>
  The server's signer (\<open>zkapi-server/src/signer.rs\<close>): two key pairs, for states and for clearances,
  and the durable leaf counters in SQLite. The signer holds its operation lock for a whole signature,
  so signatures are atomic steps; a panic while it is held poisons the lock. The table \<open>signer_state\<close> is what survives a restart: the content
  found in the database file is an argument of \<open>with_height_durable\<close> and the table is a field of the
  signer afterwards. A \<open>fault\<close> flag is an SQLite failure; the transaction is then rolled back.
\<close>

section \<open>Durable counters\<close>

datatype SignerTree = StateTree | ClearTree

fun tree_as_str :: "SignerTree \<Rightarrow> string" where
  "tree_as_str StateTree = ''state''"
| "tree_as_str ClearTree = ''clear''"

record SignerRow =
  tree_kind :: string
  sr_epoch :: "64 word"
  sr_root :: string
  sr_next_leaf :: "64 word"

type_synonym signer_table = "SignerRow list"

definition signer_row :: "signer_table \<Rightarrow> SignerTree \<Rightarrow> SignerRow option" where
  "signer_row tbl tree = find (\<lambda>row. tree_kind row = tree_as_str tree) tbl"

definition ensure_tree ::
    "bool \<Rightarrow> signer_table \<Rightarrow> SignerTree \<Rightarrow> u32 \<Rightarrow> felt \<Rightarrow> signer_table \<times> (ServerError + unit)" where
  "ensure_tree fault tbl tree epoch root =
     (if fault then (tbl, Inl Database)
      else case signer_row tbl tree of
          Some row \<Rightarrow>
            if sr_epoch row = ucast epoch \<and> sr_root row = to_hex root then (tbl, Inr ())
            else (tbl, Inl Database)
        | None \<Rightarrow> (tbl @ [\<lparr>tree_kind = tree_as_str tree, sr_epoch = ucast epoch,
                         sr_root = to_hex root, sr_next_leaf = 0\<rparr>], Inr ()))"

definition SignerStateStore_new ::
    "bool \<Rightarrow> bool \<Rightarrow> signer_table \<Rightarrow> u32 \<Rightarrow> felt \<Rightarrow> u32 \<Rightarrow> felt \<Rightarrow> signer_table \<times> (ServerError + unit)" where
  "SignerStateStore_new fault1 fault2 tbl state_epoch state_root clear_epoch clear_root =
     (case ensure_tree fault1 tbl StateTree state_epoch state_root of
        (tbl1, Inl e) \<Rightarrow> (tbl1, Inl e)
      | (tbl1, Inr _) \<Rightarrow> ensure_tree fault2 tbl1 ClearTree clear_epoch clear_root)"

text \<open>\<open>u32::try_from\<close> on an \<open>i64\<close>.\<close>

definition try_u32 :: "64 word \<Rightarrow> u32 option" where
  "try_u32 v = (if 0 \<le> sint v \<and> sint v < 2 ^ 32 then Some (ucast v) else None)"

definition next_leaf :: "bool \<Rightarrow> signer_table \<Rightarrow> SignerTree \<Rightarrow> ServerError + u32" where
  "next_leaf fault tbl tree =
     (if fault then Inl Database
      else case signer_row tbl tree of
          None \<Rightarrow> Inl Database
        | Some row \<Rightarrow> ok_or Database (try_u32 (sr_next_leaf row)))"

definition set_next_leaf :: "signer_table \<Rightarrow> SignerTree \<Rightarrow> 64 word \<Rightarrow> signer_table" where
  "set_next_leaf tbl tree v =
     map (\<lambda>row. if tree_kind row = tree_as_str tree then row\<lparr>sr_next_leaf := v\<rparr> else row) tbl"

definition reserve_leaf ::
    "bool \<Rightarrow> signer_table \<Rightarrow> SignerTree \<Rightarrow> u32 \<Rightarrow> felt \<Rightarrow> u32 \<Rightarrow> signer_table \<times> (ServerError + u32)" where
  "reserve_leaf fault tbl tree epoch root cap =
     (if fault then (tbl, Inl Database)
      else case signer_row tbl tree of
          None \<Rightarrow> (tbl, Inl Database)
        | Some row \<Rightarrow>
            if sr_epoch row \<noteq> ucast epoch \<or> sr_root row \<noteq> to_hex root then (tbl, Inl Database)
            else case try_u32 (sr_next_leaf row) of
                None \<Rightarrow> (tbl, Inl Database)
              | Some nxt \<Rightarrow>
                  if nxt \<ge> cap then (tbl, Inl CapacityExhausted)
                  else (set_next_leaf tbl tree (ucast (nxt + 1)), Inr nxt))"


section \<open>The signer\<close>

record 'f ServerSigner =
  state_keypair :: "'f XmssKeypair"
  clear_keypair :: "'f XmssKeypair"
  state_epoch :: u32
  clear_epoch :: u32
  durable_state :: "signer_table option"
  operation_lock_poisoned :: bool

definition with_height :: "'f stark \<Rightarrow> 'f \<Rightarrow> 'f \<Rightarrow> u32 \<Rightarrow> nat \<Rightarrow> 'f ServerSigner" where
  "with_height S state_seed clear_seed ep height =
     \<lparr>state_keypair = generate_with_height S state_seed height,
      clear_keypair = generate_with_height S clear_seed height,
      state_epoch = ep, clear_epoch = ep, durable_state = None,
      operation_lock_poisoned = False\<rparr>"

definition with_height_durable ::
    "'f stark \<Rightarrow> bool \<Rightarrow> bool \<Rightarrow> 'f \<Rightarrow> 'f \<Rightarrow> u32 \<Rightarrow> nat \<Rightarrow> signer_table \<Rightarrow>
     signer_table \<times> (ServerError + 'f ServerSigner)" where
  "with_height_durable S fault1 fault2 state_seed clear_seed ep height tbl =
     (let skp = generate_with_height S state_seed height;
          ckp = generate_with_height S clear_seed height
      in case SignerStateStore_new fault1 fault2 tbl ep (root_felt S skp) ep (root_felt S ckp) of
           (tbl', Inl e) \<Rightarrow> (tbl', Inl e)
         | (tbl', Inr _) \<Rightarrow>
             (tbl', Inr \<lparr>state_keypair = skp, clear_keypair = ckp, state_epoch = ep,
                         clear_epoch = ep, durable_state = Some tbl',
                         operation_lock_poisoned = False\<rparr>))"

definition signer_state_root :: "'f stark \<Rightarrow> 'f ServerSigner \<Rightarrow> felt" where
  "signer_state_root S sn = root_felt S (state_keypair sn)"

definition signer_clear_root :: "'f stark \<Rightarrow> 'f ServerSigner \<Rightarrow> felt" where
  "signer_clear_root S sn = root_felt S (clear_keypair sn)"

definition sign_next_state ::
    "'f stark \<Rightarrow> bool \<Rightarrow> 'f ServerSigner \<Rightarrow> (u32 \<Rightarrow> felt) \<Rightarrow>
     'f ServerSigner \<times> (ServerError + XmssSignature \<times> u32 \<times> felt)" where
  "sign_next_state S fault sn build_message =
     (if operation_lock_poisoned sn then (sn, Inl Internal)
      else case durable_state sn of
        Some tbl \<Rightarrow>
          (case reserve_leaf fault tbl StateTree (state_epoch sn) (signer_state_root S sn)
                  (capacity (state_keypair sn)) of
             (tbl', Inl e) \<Rightarrow> (sn\<lparr>durable_state := Some tbl'\<rparr>, Inl e)
           | (tbl', Inr leaf) \<Rightarrow>
               let message = build_message leaf in
               (case sign_reserved S (state_keypair sn) leaf message of
                  (kp, None) \<Rightarrow> (sn\<lparr>durable_state := Some tbl', state_keypair := kp\<rparr>, Inl CapacityExhausted)
                | (kp, Some sg) \<Rightarrow>
                    (sn\<lparr>durable_state := Some tbl', state_keypair := kp\<rparr>,
                     Inr (sg\<lparr>sig_epoch := state_epoch sn\<rparr>, leaf, message))))
      | None \<Rightarrow>
          (case sign_with_index S (state_keypair sn) build_message of
             (kp, None) \<Rightarrow> (sn\<lparr>state_keypair := kp\<rparr>, Inl CapacityExhausted)
           | (kp, Some (sg, leaf, message)) \<Rightarrow>
               (sn\<lparr>state_keypair := kp\<rparr>, Inr (sg\<lparr>sig_epoch := state_epoch sn\<rparr>, leaf, message))))"

definition sign_state ::
    "'f stark \<Rightarrow> bool \<Rightarrow> 'f ServerSigner \<Rightarrow> felt \<Rightarrow> 'f ServerSigner \<times> (ServerError + XmssSignature \<times> u32)" where
  "sign_state S fault sn message =
     (if operation_lock_poisoned sn then (sn, Inl Internal)
      else case durable_state sn of
        Some tbl \<Rightarrow>
          (case reserve_leaf fault tbl StateTree (state_epoch sn) (signer_state_root S sn)
                  (capacity (state_keypair sn)) of
             (tbl', Inl e) \<Rightarrow> (sn\<lparr>durable_state := Some tbl'\<rparr>, Inl e)
           | (tbl', Inr leaf) \<Rightarrow>
               (case sign_reserved S (state_keypair sn) leaf message of
                  (kp, None) \<Rightarrow> (sn\<lparr>durable_state := Some tbl', state_keypair := kp\<rparr>, Inl CapacityExhausted)
                | (kp, Some sg) \<Rightarrow>
                    (sn\<lparr>durable_state := Some tbl', state_keypair := kp\<rparr>,
                     Inr (sg\<lparr>sig_epoch := state_epoch sn\<rparr>, leaf))))
      | None \<Rightarrow>
          (case xmss_sign S (state_keypair sn) message of
             (kp, None) \<Rightarrow> (sn\<lparr>state_keypair := kp\<rparr>, Inl CapacityExhausted)
           | (kp, Some (sg, leaf)) \<Rightarrow>
               (sn\<lparr>state_keypair := kp\<rparr>, Inr (sg\<lparr>sig_epoch := state_epoch sn\<rparr>, leaf))))"

definition sign_clearance ::
    "'f stark \<Rightarrow> bool \<Rightarrow> 'f ServerSigner \<Rightarrow> felt \<Rightarrow> 'f ServerSigner \<times> (ServerError + XmssSignature \<times> u32)" where
  "sign_clearance S fault sn message =
     (if operation_lock_poisoned sn then (sn, Inl Internal)
      else case durable_state sn of
        Some tbl \<Rightarrow>
          (case reserve_leaf fault tbl ClearTree (clear_epoch sn) (signer_clear_root S sn)
                  (capacity (clear_keypair sn)) of
             (tbl', Inl e) \<Rightarrow> (sn\<lparr>durable_state := Some tbl'\<rparr>, Inl e)
           | (tbl', Inr leaf) \<Rightarrow>
               (case sign_reserved S (clear_keypair sn) leaf message of
                  (kp, None) \<Rightarrow> (sn\<lparr>durable_state := Some tbl', clear_keypair := kp\<rparr>, Inl CapacityExhausted)
                | (kp, Some sg) \<Rightarrow>
                    (sn\<lparr>durable_state := Some tbl', clear_keypair := kp\<rparr>,
                     Inr (sg\<lparr>sig_epoch := clear_epoch sn\<rparr>, leaf))))
      | None \<Rightarrow>
          (case xmss_sign S (clear_keypair sn) message of
             (kp, None) \<Rightarrow> (sn\<lparr>clear_keypair := kp\<rparr>, Inl CapacityExhausted)
           | (kp, Some (sg, leaf)) \<Rightarrow>
               (sn\<lparr>clear_keypair := kp\<rparr>, Inr (sg\<lparr>sig_epoch := clear_epoch sn\<rparr>, leaf))))"

definition state_remaining :: "bool \<Rightarrow> 'f ServerSigner \<Rightarrow> u32" where
  "state_remaining fault sn =
     (case durable_state sn of
        Some tbl \<Rightarrow> unwrap_or 0 (Option.bind (res_ok (next_leaf fault tbl StateTree))
                      (\<lambda>nxt. checked_sub (capacity (state_keypair sn)) nxt))
      | None \<Rightarrow> remaining (state_keypair sn))"

definition state_next_index :: "bool \<Rightarrow> 'f ServerSigner \<Rightarrow> u32" where
  "state_next_index fault sn =
     (case durable_state sn of
        Some tbl \<Rightarrow> unwrap_or 0 (res_ok (next_leaf fault tbl StateTree))
      | None \<Rightarrow> kp_next_index (state_keypair sn))"

definition clear_remaining :: "bool \<Rightarrow> 'f ServerSigner \<Rightarrow> u32" where
  "clear_remaining fault sn =
     (case durable_state sn of
        Some tbl \<Rightarrow> unwrap_or 0 (Option.bind (res_ok (next_leaf fault tbl ClearTree))
                      (\<lambda>nxt. checked_sub (capacity (clear_keypair sn)) nxt))
      | None \<Rightarrow> remaining (clear_keypair sn))"

definition clear_next_index :: "bool \<Rightarrow> 'f ServerSigner \<Rightarrow> u32" where
  "clear_next_index fault sn =
     (case durable_state sn of
        Some tbl \<Rightarrow> unwrap_or 0 (res_ok (next_leaf fault tbl ClearTree))
      | None \<Rightarrow> kp_next_index (clear_keypair sn))"

section \<open>Counters\<close>

definition leaf_count :: "signer_table \<Rightarrow> SignerTree \<Rightarrow> nat" where
  "leaf_count tbl tree = (case signer_row tbl tree of Some row \<Rightarrow> unat (sr_next_leaf row) | None \<Rightarrow> 0)"

definition tree_ok :: "signer_table \<Rightarrow> SignerTree \<Rightarrow> u32 \<Rightarrow> felt \<Rightarrow> nat \<Rightarrow> bool" where
  "tree_ok tbl tree ep root h \<longleftrightarrow>
     (\<exists>row. signer_row tbl tree = Some row \<and> sr_epoch row = ucast ep \<and> sr_root row = to_hex root) \<and>
     leaf_count tbl tree \<le> 2 ^ h"

lemma tree_as_str_inject [simp]: "tree_as_str a = tree_as_str b \<longleftrightarrow> a = b"
  by (cases a; cases b) simp_all

lemma signer_row_set:
  "signer_row (set_next_leaf tbl tree v) t =
     (if t = tree then map_option (\<lambda>row. row\<lparr>sr_next_leaf := v\<rparr>) (signer_row tbl t) else signer_row tbl t)"
  by (induction tbl) (auto simp: signer_row_def set_next_leaf_def)

lemma try_u32_small:
  assumes "unat v < 2 ^ 32"
  shows "try_u32 v = Some (of_nat (unat v))"
proof -
  have less: "uint v < 2 ^ 32"
    using iffD1 [OF nat_less_iff [OF uint_ge_0] assms [unfolded unat_eq_nat_uint]] by simp
  moreover have "- (2 ^ 63) \<le> uint v" using uint_ge_0 [of v] by (rule order_trans [rotated]) simp
  ultimately have "signed_take_bit 63 (uint v) = uint v" by (intro signed_take_bit_int_eq_self) simp_all
  then have "sint v = uint v" by (simp add: sint_uint)
  then show ?thesis using less by (simp add: try_u32_def)
qed

lemma power_31: "h < 32 \<Longrightarrow> (2 :: nat) ^ h \<le> 2 ^ 31"
  by (rule power_increasing) simp_all

lemma reserve_leaf_cases:
  assumes "tree_ok tbl tree ep root h" "h < 32" "unat cap = 2 ^ h"
  shows "reserve_leaf fault tbl tree ep root cap =
    (if fault then (tbl, Inl Database)
     else if leaf_count tbl tree = 2 ^ h then (tbl, Inl CapacityExhausted)
     else (set_next_leaf tbl tree (of_nat (Suc (leaf_count tbl tree))), Inr (of_nat (leaf_count tbl tree))))"
proof -
  obtain row where row: "signer_row tbl tree = Some row" "sr_epoch row = ucast ep" "sr_root row = to_hex root"
    using assms(1) by (auto simp: tree_ok_def)
  define n where "n = leaf_count tbl tree"
  have n: "n = unat (sr_next_leaf row)" "n \<le> 2 ^ h" "n < 2 ^ 32"
    using assms(1) row(1) power_31 [OF assms(2)] by (auto simp: n_def tree_ok_def leaf_count_def)
  have read: "try_u32 (sr_next_leaf row) = Some (of_nat n)" using try_u32_small n by simp
  have un: "unat (of_nat n :: u32) = n" using n(3) by (simp add: unat_of_nat)
  have "ucast (of_nat n + 1 :: u32) = (of_nat (Suc n) :: 64 word)" if "n < 2 ^ h"
  proof -
    have "Suc n < 2 ^ 32" using that power_31 [OF assms(2)] by simp
    then have "unat (of_nat n + 1 :: u32) = Suc n" by (simp add: unat_word_ariths unat_of_nat)
    then show ?thesis
      using \<open>Suc n < 2 ^ 32\<close> by (simp add: word_unat_eq_iff unat_ucast_up unat_of_nat unat_word_ariths)
  qed
  then show ?thesis
    using assms(3) n(2) row read un
    by (auto simp: reserve_leaf_def n_def [symmetric] word_le_nat_alt add.commute)
qed

lemma leaf_count_set:
  assumes "signer_row tbl tree \<noteq> None" "Suc n < 2 ^ 64"
  shows "leaf_count (set_next_leaf tbl tree (of_nat (Suc n))) t = (if t = tree then Suc n else leaf_count tbl t)"
proof -
  have "unat (of_nat (Suc n) :: 64 word) = Suc n" using assms(2) by (simp add: unat_of_nat del: of_nat_Suc)
  then show ?thesis using assms(1)
    by (auto simp: leaf_count_def signer_row_set simp del: of_nat_Suc split: option.split)
qed

text \<open>What a reservation does to the counters.\<close>

lemma reserve_leaf_counts:
  assumes "tree_ok tbl tree ep root h" "h < 32" "unat cap = 2 ^ h"
    and "reserve_leaf fault tbl tree ep root cap = (tbl', out)"
  shows "tree_ok tbl t e r k \<Longrightarrow> (t = tree \<Longrightarrow> k = h) \<Longrightarrow> tree_ok tbl' t e r k"
    and "out = Inl err \<Longrightarrow> tbl' = tbl"
    and "out = Inr i \<Longrightarrow> unat i = leaf_count tbl tree \<and> unat i < 2 ^ h \<and> leaf_count tbl' tree = Suc (unat i) \<and>
      (\<forall>t. t \<noteq> tree \<longrightarrow> leaf_count tbl' t = leaf_count tbl t)"
proof -
  have le: "leaf_count tbl tree \<le> 2 ^ h" and row: "signer_row tbl tree \<noteq> None"
    using assms(1) by (auto simp: tree_ok_def)
  have small: "leaf_count tbl tree < 2 ^ 32" "Suc (leaf_count tbl tree) < 2 ^ 64"
    using le power_31 [OF assms(2)] by auto
  note cases = assms(4) [unfolded reserve_leaf_cases [OF assms(1-3)]]
  show "out = Inl err \<Longrightarrow> tbl' = tbl" using cases by (auto split: if_splits)
  show "out = Inr i \<Longrightarrow> unat i = leaf_count tbl tree \<and> unat i < 2 ^ h \<and> leaf_count tbl' tree = Suc (unat i) \<and>
      (\<forall>t. t \<noteq> tree \<longrightarrow> leaf_count tbl' t = leaf_count tbl t)"
    using cases le leaf_count_set [OF row small(2)] small(1)
    by (auto simp: unat_of_nat simp del: of_nat_Suc split: if_splits)
  show "tree_ok tbl t e r k \<Longrightarrow> (t = tree \<Longrightarrow> k = h) \<Longrightarrow> tree_ok tbl' t e r k"
    using cases le leaf_count_set [OF row small(2)]
    by (auto simp: tree_ok_def signer_row_set simp del: of_nat_Suc split: if_splits)
qed

section \<open>Crashes and restarts\<close>

text \<open>The configuration a server is restarted with.\<close>

record 'f signer_config =
  cfg_state_seed :: 'f
  cfg_clear_seed :: 'f
  cfg_epoch :: u32
  cfg_height :: nat

text \<open>One event in the life of a durable signer: a signing call, a crash between the reservation of a
  leaf and the signature, or a restart. The Boolean arguments are SQLite failures.\<close>

datatype signer_event =
    SignNext "u32 \<Rightarrow> felt" bool
  | SignState felt bool
  | SignClear felt bool
  | CrashAfterReserve SignerTree bool bool bool
  | Restart bool bool

definition restart :: "'f stark \<Rightarrow> 'f signer_config \<Rightarrow> bool \<Rightarrow> bool \<Rightarrow> 'f ServerSigner \<Rightarrow> signer_table \<Rightarrow> 'f ServerSigner" where
  "restart S cfg f1 f2 sn tbl =
     (case with_height_durable S f1 f2 (cfg_state_seed cfg) (cfg_clear_seed cfg) (cfg_epoch cfg)
             (cfg_height cfg) tbl of
        (_, Inr sn') \<Rightarrow> sn'
      | (tbl', Inl _) \<Rightarrow> sn\<lparr>durable_state := Some tbl'\<rparr>)"

fun signer_step :: "'f stark \<Rightarrow> 'f signer_config \<Rightarrow> 'f ServerSigner \<Rightarrow> signer_event \<Rightarrow>
    'f ServerSigner \<times> (SignerTree \<times> u32) option" where
  "signer_step S cfg sn (SignNext bm fault) =
     (case sign_next_state S fault sn bm of
        (sn', Inr (_, i, _)) \<Rightarrow> (sn', Some (StateTree, i)) | (sn', Inl _) \<Rightarrow> (sn', None))"
| "signer_step S cfg sn (SignState m fault) =
     (case sign_state S fault sn m of
        (sn', Inr (_, i)) \<Rightarrow> (sn', Some (StateTree, i)) | (sn', Inl _) \<Rightarrow> (sn', None))"
| "signer_step S cfg sn (SignClear m fault) =
     (case sign_clearance S fault sn m of
        (sn', Inr (_, i)) \<Rightarrow> (sn', Some (ClearTree, i)) | (sn', Inl _) \<Rightarrow> (sn', None))"
| "signer_step S cfg sn (CrashAfterReserve tree fault f1 f2) =
     (let kp = (if tree = StateTree then state_keypair sn else clear_keypair sn);
          ep = (if tree = StateTree then state_epoch sn else clear_epoch sn)
      in (restart S cfg f1 f2 sn
            (fst (reserve_leaf fault (the (durable_state sn)) tree ep (root_felt S kp) (capacity kp))), None))"
| "signer_step S cfg sn (Restart f1 f2) = (restart S cfg f1 f2 sn (the (durable_state sn)), None)"

definition keys_ok :: "'f stark \<Rightarrow> 'f \<Rightarrow> nat \<Rightarrow> 'f XmssKeypair \<Rightarrow> bool" where
  "keys_ok S seed h kp \<longleftrightarrow> keypair_inv S kp \<and> kp_height kp = h \<and>
     root_felt S kp = root_felt S (generate_with_height S seed h)"

definition durable_inv :: "'f stark \<Rightarrow> 'f signer_config \<Rightarrow> 'f ServerSigner \<Rightarrow> bool" where
  "durable_inv S cfg sn \<longleftrightarrow>
     cfg_height cfg < 32 \<and>
     keys_ok S (cfg_state_seed cfg) (cfg_height cfg) (state_keypair sn) \<and>
     keys_ok S (cfg_clear_seed cfg) (cfg_height cfg) (clear_keypair sn) \<and>
     state_epoch sn = cfg_epoch cfg \<and> clear_epoch sn = cfg_epoch cfg \<and>
     (\<exists>tbl. durable_state sn = Some tbl \<and>
        tree_ok tbl StateTree (cfg_epoch cfg) (signer_state_root S sn) (cfg_height cfg) \<and>
        tree_ok tbl ClearTree (cfg_epoch cfg) (signer_clear_root S sn) (cfg_height cfg))"

definition durable_count :: "'f ServerSigner \<Rightarrow> SignerTree \<Rightarrow> nat" where
  "durable_count sn tree = leaf_count (the (durable_state sn)) tree"

lemma keys_ok_generate: "h < 32 \<Longrightarrow> keys_ok S seed h (generate_with_height S seed h)"
  by (simp add: keys_ok_def keypair_inv_generate) (simp add: generate_with_height_def Let_def)

lemma keys_ok_capacity: "keys_ok S seed h kp \<Longrightarrow> unat (capacity kp) = 2 ^ h"
  using unat_capacity [of S kp] by (auto simp: keys_ok_def capacity_def simp del: push_bit_of_1)

lemma sign_reserved_keys:
  assumes "keys_ok S seed h kp" "unat i < 2 ^ h"
  shows "\<exists>kp'. sign_reserved S kp i m = (kp', Some (leaf_signature S kp i m)) \<and> keys_ok S seed h kp' \<and>
    root_felt S kp' = root_felt S kp"
proof -
  have kp: "keypair_inv S kp" "kp_height kp = h" using assms(1) by (simp_all add: keys_ok_def)
  have "unat (i + 1) \<le> 2 ^ h"
    using assms(2) keypair_capacity_less [OF kp(1)] kp(2) by (simp add: unat_word_ariths)
  then have "keypair_inv S (kp\<lparr>kp_next_index := (if kp_next_index kp < i + 1 then i + 1 else kp_next_index kp)\<rparr>)"
    using kp by (intro keypair_inv_next_index) (simp_all add: keypair_inv_def)
  then show ?thesis
    using assms kp by (simp add: sign_reserved_correct keys_ok_def) (simp add: root_felt_def)
qed

lemma leaf_count_mono:
  assumes "\<And>e. out = Inl e \<Longrightarrow> tbl' = tbl"
    and "\<And>i. out = Inr i \<Longrightarrow> unat i = leaf_count tbl tree \<and> unat (i :: u32) < b \<and>
      leaf_count tbl' tree = Suc (unat i) \<and> (\<forall>t. t \<noteq> tree \<longrightarrow> leaf_count tbl' t = leaf_count tbl t)"
  shows "leaf_count tbl t \<le> leaf_count tbl' t"
  using assms by (cases out; cases "t = tree") auto

text \<open>A signing call on one tree, seen through the reservation it makes.\<close>

lemma reserve_for_tree:
  assumes "durable_inv S cfg sn" "durable_state sn = Some tbl"
  defines "kp tree \<equiv> if tree = StateTree then state_keypair sn else clear_keypair sn"
  assumes "reserve_leaf fault tbl tree (cfg_epoch cfg) (root_felt S (kp tree)) (capacity (kp tree)) = (tbl', out)"
  shows "durable_inv S cfg (sn\<lparr>durable_state := Some tbl'\<rparr>)"
    and "out = Inl e \<Longrightarrow> tbl' = tbl"
    and "out = Inr i \<Longrightarrow> unat i = leaf_count tbl tree \<and> unat i < 2 ^ cfg_height cfg \<and>
       leaf_count tbl' tree = Suc (unat i) \<and> (\<forall>t. t \<noteq> tree \<longrightarrow> leaf_count tbl' t = leaf_count tbl t)"
    and "leaf_count tbl t \<le> leaf_count tbl' t"
proof -
  have h: "cfg_height cfg < 32" and ok: "tree_ok tbl tree (cfg_epoch cfg) (root_felt S (kp tree)) (cfg_height cfg)"
    and cap: "unat (capacity (kp tree)) = 2 ^ cfg_height cfg"
    using assms(1,2) keys_ok_capacity
    by (cases tree; fastforce simp: durable_inv_def kp_def signer_state_root_def signer_clear_root_def)+
  note counts = reserve_leaf_counts [OF ok h cap assms(4)]
  show "durable_inv S cfg (sn\<lparr>durable_state := Some tbl'\<rparr>)"
    using assms(1,2) counts(1)
    by (auto simp: durable_inv_def signer_state_root_def signer_clear_root_def)
  show "out = Inl e \<Longrightarrow> tbl' = tbl" by (rule counts(2))
  show "out = Inr i \<Longrightarrow> unat i = leaf_count tbl tree \<and> unat i < 2 ^ cfg_height cfg \<and>
       leaf_count tbl' tree = Suc (unat i) \<and> (\<forall>t. t \<noteq> tree \<longrightarrow> leaf_count tbl' t = leaf_count tbl t)"
    by (rule counts(3))
  show "leaf_count tbl t \<le> leaf_count tbl' t"
    using counts(2,3) by (rule leaf_count_mono)
qed

lemma ensure_tree_ok:
  "tree_ok tbl tree ep root h \<Longrightarrow> ensure_tree fault tbl tree ep root = (tbl, if fault then Inl Database else Inr ())"
  by (auto simp: ensure_tree_def tree_ok_def)

lemma restart_ok:
  assumes "durable_inv S cfg sn" "durable_inv S cfg (sn\<lparr>durable_state := Some tbl\<rparr>)"
  shows "durable_inv S cfg (restart S cfg f1 f2 sn tbl)" "durable_state (restart S cfg f1 f2 sn tbl) = Some tbl"
proof -
  let ?skp = "generate_with_height S (cfg_state_seed cfg) (cfg_height cfg)"
    and ?ckp = "generate_with_height S (cfg_clear_seed cfg) (cfg_height cfg)"
  have ok: "tree_ok tbl StateTree (cfg_epoch cfg) (root_felt S ?skp) (cfg_height cfg)"
    "tree_ok tbl ClearTree (cfg_epoch cfg) (root_felt S ?ckp) (cfg_height cfg)" "cfg_height cfg < 32"
    using assms(2) by (auto simp: durable_inv_def signer_state_root_def signer_clear_root_def keys_ok_def)
  show "durable_state (restart S cfg f1 f2 sn tbl) = Some tbl"
    using ok by (simp add: restart_def with_height_durable_def SignerStateStore_new_def Let_def ensure_tree_ok)
  show "durable_inv S cfg (restart S cfg f1 f2 sn tbl)"
  proof (cases "f1 \<or> f2")
    case True
    then show ?thesis using ok assms(2)
      by (auto simp: restart_def with_height_durable_def SignerStateStore_new_def Let_def ensure_tree_ok)
  next
    case False
    then show ?thesis using ok
      by (simp add: restart_def with_height_durable_def SignerStateStore_new_def Let_def ensure_tree_ok
          durable_inv_def signer_state_root_def signer_clear_root_def keys_ok_generate)
  qed
qed

text \<open>The effect of one event: the counter of a tree never falls, and a signature uses the leaf the
  counter stood at and moves it on.\<close>

definition step_effect :: "'f stark \<Rightarrow> 'f signer_config \<Rightarrow> 'f ServerSigner \<Rightarrow>
    'f ServerSigner \<times> (SignerTree \<times> u32) option \<Rightarrow> bool" where
  "step_effect S cfg sn = (\<lambda>(sn', out). durable_inv S cfg sn' \<and>
     (\<forall>t. durable_count sn t \<le> durable_count sn' t) \<and>
     (\<forall>t i. out = Some (t, i) \<longrightarrow> unat i = durable_count sn t \<and> unat i < 2 ^ cfg_height cfg \<and>
        durable_count sn' t = Suc (unat i)))"

lemma durable_inv_state_keypair:
  "durable_inv S cfg sn \<Longrightarrow> keys_ok S (cfg_state_seed cfg) (cfg_height cfg) kp \<Longrightarrow>
   root_felt S kp = root_felt S (state_keypair sn) \<Longrightarrow> durable_inv S cfg (sn\<lparr>state_keypair := kp\<rparr>)"
  "durable_inv S cfg sn \<Longrightarrow> keys_ok S (cfg_clear_seed cfg) (cfg_height cfg) kp \<Longrightarrow>
   root_felt S kp = root_felt S (clear_keypair sn) \<Longrightarrow> durable_inv S cfg (sn\<lparr>clear_keypair := kp\<rparr>)"
  by (auto simp: durable_inv_def signer_state_root_def signer_clear_root_def)

lemma sign_next_state_effect:
  assumes inv: "durable_inv S cfg sn"
  shows "step_effect S cfg sn (signer_step S cfg sn (SignNext bm fault))"
proof -
  obtain tbl where tbl: "durable_state sn = Some tbl" using inv by (auto simp: durable_inv_def)
  obtain tbl' out where res: "reserve_leaf fault tbl StateTree (cfg_epoch cfg)
      (root_felt S (state_keypair sn)) (capacity (state_keypair sn)) = (tbl', out)" by fastforce
  note r = reserve_for_tree [OF inv tbl, of fault StateTree tbl' out, simplified, OF res]
  have ep: "state_epoch sn = cfg_epoch cfg"
    and keys: "keys_ok S (cfg_state_seed cfg) (cfg_height cfg) (state_keypair sn)"
    using inv by (simp_all add: durable_inv_def)
  show ?thesis
  proof (cases out)
    case (Inl e)
    then show ?thesis using r tbl res ep inv
      by (auto simp: sign_next_state_def signer_state_root_def step_effect_def durable_count_def)
  next
    case (Inr i)
    obtain kp where kp: "sign_reserved S (state_keypair sn) i (bm i) = (kp, Some (leaf_signature S (state_keypair sn) i (bm i)))"
      "keys_ok S (cfg_state_seed cfg) (cfg_height cfg) kp" "root_felt S kp = root_felt S (state_keypair sn)"
      using sign_reserved_keys [OF keys, of i "bm i"] r(3) [OF Inr] by blast
    have "durable_inv S cfg (sn\<lparr>durable_state := Some tbl', state_keypair := kp\<rparr>)"
      using durable_inv_state_keypair(1) [OF r(1) kp(2)] kp(3) by simp
    then show ?thesis using r(3) [OF Inr] tbl res ep kp(1) Inr r(4) inv
      by (auto simp: sign_next_state_def signer_state_root_def step_effect_def durable_count_def Let_def)
  qed
qed

lemma sign_state_effect:
  assumes inv: "durable_inv S cfg sn"
  shows "step_effect S cfg sn (signer_step S cfg sn (SignState m fault))"
proof -
  have "\<exists>tbl. durable_state sn = Some tbl" using inv by (auto simp: durable_inv_def)
  then have "signer_step S cfg sn (SignState m fault) = signer_step S cfg sn (SignNext (\<lambda>_. m) fault)"
    by (auto simp: sign_state_def sign_next_state_def Let_def split: prod.split sum.split option.split)
  then show ?thesis using sign_next_state_effect [OF inv] by simp
qed

lemma sign_clearance_effect:
  assumes inv: "durable_inv S cfg sn"
  shows "step_effect S cfg sn (signer_step S cfg sn (SignClear m fault))"
proof -
  obtain tbl where tbl: "durable_state sn = Some tbl" using inv by (auto simp: durable_inv_def)
  obtain tbl' out where res: "reserve_leaf fault tbl ClearTree (cfg_epoch cfg)
      (root_felt S (clear_keypair sn)) (capacity (clear_keypair sn)) = (tbl', out)" by fastforce
  note r = reserve_for_tree [OF inv tbl, of fault ClearTree tbl' out, simplified, OF res]
  have ep: "clear_epoch sn = cfg_epoch cfg"
    and keys: "keys_ok S (cfg_clear_seed cfg) (cfg_height cfg) (clear_keypair sn)"
    using inv by (simp_all add: durable_inv_def)
  show ?thesis
  proof (cases out)
    case (Inl e)
    then show ?thesis using r tbl res ep inv
      by (auto simp: sign_clearance_def signer_clear_root_def step_effect_def durable_count_def)
  next
    case (Inr i)
    obtain kp where kp: "sign_reserved S (clear_keypair sn) i m = (kp, Some (leaf_signature S (clear_keypair sn) i m))"
      "keys_ok S (cfg_clear_seed cfg) (cfg_height cfg) kp" "root_felt S kp = root_felt S (clear_keypair sn)"
      using sign_reserved_keys [OF keys, of i m] r(3) [OF Inr] by blast
    have "durable_inv S cfg (sn\<lparr>durable_state := Some tbl', clear_keypair := kp\<rparr>)"
      using durable_inv_state_keypair(2) [OF r(1) kp(2)] kp(3) by simp
    then show ?thesis using r(3) [OF Inr] tbl res ep kp(1) Inr r(4) inv
      by (auto simp: sign_clearance_def signer_clear_root_def step_effect_def durable_count_def Let_def)
  qed
qed

lemma restart_effect:
  assumes "durable_inv S cfg sn" "durable_inv S cfg (sn\<lparr>durable_state := Some tbl\<rparr>)"
    and "\<And>t. durable_count sn t \<le> leaf_count tbl t"
  shows "step_effect S cfg sn (restart S cfg f1 f2 sn tbl, None)"
  using restart_ok [OF assms(1,2)] assms(3) by (simp add: step_effect_def durable_count_def)

lemma crash_effect:
  assumes inv: "durable_inv S cfg sn"
  shows "step_effect S cfg sn (signer_step S cfg sn (CrashAfterReserve tree fault f1 f2))"
proof -
  obtain tbl where tbl: "durable_state sn = Some tbl" using inv by (auto simp: durable_inv_def)
  let ?kp = "if tree = StateTree then state_keypair sn else clear_keypair sn"
  obtain tbl' out where res: "reserve_leaf fault tbl tree (cfg_epoch cfg) (root_felt S ?kp) (capacity ?kp) = (tbl', out)"
    by fastforce
  note r = reserve_for_tree [OF inv tbl res]
  have "state_epoch sn = cfg_epoch cfg" "clear_epoch sn = cfg_epoch cfg" using inv by (simp_all add: durable_inv_def)
  then show ?thesis
    using restart_effect [OF inv r(1)] r(4) res tbl
    by (simp add: durable_count_def Let_def cong: if_cong)
qed

lemma signer_step_effect:
  assumes "durable_inv S cfg sn"
  shows "step_effect S cfg sn (signer_step S cfg sn ev)"
proof (cases ev)
  case (Restart f1 f2)
  obtain tbl where "durable_state sn = Some tbl" using assms by (auto simp: durable_inv_def)
  moreover from this have "sn\<lparr>durable_state := Some tbl\<rparr> = sn" by (cases sn) simp
  with assms have "durable_inv S cfg (sn\<lparr>durable_state := Some tbl\<rparr>)" by (simp only:)
  ultimately show ?thesis using restart_effect [OF assms, of tbl f1 f2] assms \<open>durable_state sn = Some tbl\<close>
    by (simp only: Restart durable_count_def signer_step.simps option.sel order_refl)
qed (simp_all only: sign_next_state_effect [OF assms] sign_state_effect [OF assms]
    sign_clearance_effect [OF assms] crash_effect [OF assms])

text \<open>The leaves of one tree, as an allocator.\<close>

definition tree_alloc :: "'f stark \<Rightarrow> 'f signer_config \<Rightarrow> SignerTree \<Rightarrow> 'f ServerSigner \<Rightarrow> signer_event \<Rightarrow>
    'f ServerSigner \<times> u32 option" where
  "tree_alloc S cfg tree sn ev =
     (case signer_step S cfg sn ev of
        (sn', Some (t, i)) \<Rightarrow> (sn', if t = tree then Some i else None)
      | (sn', None) \<Rightarrow> (sn', None))"

lemma tree_alloc_effect:
  assumes "durable_inv S cfg sn" "tree_alloc S cfg tree sn ev = (sn', out)"
  shows "durable_inv S cfg sn'" "durable_count sn tree \<le> durable_count sn' tree"
    "out = Some i \<Longrightarrow> unat i = durable_count sn tree \<and> unat i < 2 ^ cfg_height cfg \<and>
      durable_count sn' tree = Suc (unat i)"
  using signer_step_effect [OF assms(1), of ev] assms(2)
  by (auto simp: step_effect_def tree_alloc_def split: prod.splits option.splits if_splits)

interpretation ds: leaf_allocator "durable_inv S cfg" "tree_alloc S cfg tree" unat
  "\<lambda>sn. durable_count sn tree" "\<lambda>_. 2 ^ cfg_height cfg" for S cfg tree
  by unfold_locales (use tree_alloc_effect in \<open>(blast | fastforce)+\<close>)

lemma durable_inv_fresh:
  assumes "cfg_height cfg < 32"
    and "with_height_durable S f1 f2 (cfg_state_seed cfg) (cfg_clear_seed cfg) (cfg_epoch cfg)
           (cfg_height cfg) [] = (tbl, Inr sn)"
  shows "durable_inv S cfg sn" "durable_count sn tree = 0"
proof -
  have sn: "sn = \<lparr>state_keypair = generate_with_height S (cfg_state_seed cfg) (cfg_height cfg),
      clear_keypair = generate_with_height S (cfg_clear_seed cfg) (cfg_height cfg),
      state_epoch = cfg_epoch cfg, clear_epoch = cfg_epoch cfg,
      durable_state = Some
        [\<lparr>tree_kind = ''state'', sr_epoch = ucast (cfg_epoch cfg), sr_root = to_hex (root_felt S
            (generate_with_height S (cfg_state_seed cfg) (cfg_height cfg))), sr_next_leaf = 0\<rparr>,
         \<lparr>tree_kind = ''clear'', sr_epoch = ucast (cfg_epoch cfg), sr_root = to_hex (root_felt S
            (generate_with_height S (cfg_clear_seed cfg) (cfg_height cfg))), sr_next_leaf = 0\<rparr>],
      operation_lock_poisoned = False\<rparr>"
    using assms(2)
    by (auto simp: with_height_durable_def SignerStateStore_new_def Let_def ensure_tree_def
        signer_row_def split: if_splits)
  show "durable_inv S cfg sn"
    using assms(1)
    by (simp add: sn durable_inv_def keys_ok_generate signer_state_root_def signer_clear_root_def
        tree_ok_def signer_row_def leaf_count_def)
  show "durable_count sn tree = 0"
    by (cases tree) (simp_all add: sn durable_count_def leaf_count_def signer_row_def)
qed

text \<open>Every signature the signer returns verifies, with or without the durable counter.\<close>

lemma verify_epoch [simp]: "xmss_verify S root m (sg\<lparr>sig_epoch := e\<rparr>) = xmss_verify S root m sg"
  by (simp add: xmss_verify_def verify_inner_def validate_for_height_def Let_def cong: sum.case_cong)

lemma leaf_signature_xmss_verify:
  assumes "stark_ok S" "keypair_inv S kp" "unat i < 2 ^ kp_height kp"
  shows "xmss_verify S (root_felt S kp) m (leaf_signature S kp i m)"
  using leaf_signature_verifies [OF assms] leaf_signature_shape [OF assms(2,3)]
  by (simp add: xmss_verify_def)


lemma leaf_index_leaf_signature: "leaf_index (leaf_signature S kp j x) = j"
  by (simp add: leaf_signature_def Let_def)

lemma sign_reserved_Some:
  "keypair_inv S kp \<Longrightarrow> sign_reserved S kp j x = (kp', Some sg) \<Longrightarrow>
   unat j < 2 ^ kp_height kp \<and> sg = leaf_signature S kp j x"
  by (simp add: sign_reserved_correct split: if_splits)

lemma sign_with_index_leaf:
  assumes "keypair_inv S kp" "sign_with_index S kp bm = (kp', Some (sg, j, x))"
  shows "unat j < 2 ^ kp_height kp \<and> sg = leaf_signature S kp j x \<and> x = bm j"
  using sign_with_index_Some [OF assms] by (simp add: leaf_signature_def build_auth_path_def)

lemma sign_next_state_Inr:
  assumes "keypair_inv S (state_keypair sn)" "sign_next_state S fault sn bm = (sn', Inr (sg, i, m))"
  shows "m = bm i \<and> unat i < 2 ^ kp_height (state_keypair sn) \<and>
    sg = (leaf_signature S (state_keypair sn) i m)\<lparr>sig_epoch := state_epoch sn\<rparr>"
proof (cases "durable_state sn")
  case None
  then show ?thesis using assms sign_with_index_leaf [OF assms(1)]
    by (auto simp: sign_next_state_def split: option.splits prod.splits if_splits)
next
  case (Some tbl)
  then show ?thesis using assms sign_reserved_Some [OF assms(1)]
    by (fastforce simp: sign_next_state_def Let_def split: option.splits prod.splits sum.splits if_splits)
qed

lemma sign_clearance_Inr:
  assumes "keypair_inv S (clear_keypair sn)" "sign_clearance S fault sn m = (sn', Inr (sg, i))"
  shows "unat i < 2 ^ kp_height (clear_keypair sn) \<and>
    sg = (leaf_signature S (clear_keypair sn) i m)\<lparr>sig_epoch := clear_epoch sn\<rparr>"
proof (cases "durable_state sn")
  case None
  then show ?thesis using assms
    by (auto simp: sign_clearance_def xmss_sign_def apsnd_def map_prod_def
        split: option.splits prod.splits if_splits dest!: sign_with_index_leaf [OF assms(1)])
next
  case (Some tbl)
  then show ?thesis using assms sign_reserved_Some [OF assms(1)]
    by (fastforce simp: sign_clearance_def Let_def split: option.splits prod.splits sum.splits if_splits)
qed


section \<open>Properties\<close>

text \<open>Claim C4. A one-time key is never used twice by a durable signer: from a fresh database, through
  any sequence of signing calls, SQLite failures, crashes after a reservation and restarts with the
  same configuration, the signatures of each tree use strictly increasing leaves below its capacity.\<close>

theorem durable_leaves_never_reused:
  assumes "cfg_height cfg < 32"
    and "with_height_durable S f1 f2 (cfg_state_seed cfg) (cfg_clear_seed cfg) (cfg_epoch cfg)
           (cfg_height cfg) [] = (tbl, Inr sn)"
    and "run_all (tree_alloc S cfg tree) sn events = (sn', outs)"
  shows "sorted_wrt (<) (leaves_used unat outs) \<and> (\<forall>i \<in> set (leaves_used unat outs). i < 2 ^ cfg_height cfg)"
  using ds.leaves_increase [OF durable_inv_fresh(1) [OF assms(1,2)] assms(3)] by blast

theorem durable_leaves_never_reused_witness:
  "let cfg = \<lparr>cfg_state_seed = 5, cfg_clear_seed = 6, cfg_epoch = 3, cfg_height = 2\<rparr>;
       sn = restart sum_stark cfg False False undefined [];
       outs = snd (run_all (tree_alloc sum_stark cfg StateTree) sn
         [SignNext (\<lambda>i. 9) False, CrashAfterReserve StateTree False False False, SignState 7 False])
   in sorted_wrt (<) (leaves_used unat outs)"
proof -
  let ?cfg = "\<lparr>cfg_state_seed = 5, cfg_clear_seed = 6, cfg_epoch = 3, cfg_height = 2\<rparr> :: felt signer_config"
  obtain tbl sn where new: "with_height_durable sum_stark False False (cfg_state_seed ?cfg)
      (cfg_clear_seed ?cfg) (cfg_epoch ?cfg) (cfg_height ?cfg) [] = (tbl, Inr sn)"
    by (simp add: with_height_durable_def SignerStateStore_new_def Let_def ensure_tree_def signer_row_def)
  have "restart sum_stark ?cfg False False undefined [] = sn" using new by (simp add: restart_def)
  moreover obtain sn' outs where run: "run_all (tree_alloc sum_stark ?cfg StateTree) sn
      [SignNext (\<lambda>i. 9) False, CrashAfterReserve StateTree False False False, SignState 7 False] = (sn', outs)"
    by fastforce
  moreover have "sorted_wrt (<) (leaves_used unat outs)"
    using durable_leaves_never_reused [OF _ new run] by simp
  ultimately show ?thesis by (simp only: Let_def snd_conv)
qed

text \<open>Every signature the signer returns, from the durable counter or from the in-memory
  cursor, signs the message built for its leaf, carries the tree's epoch and verifies against the
  tree's published root.\<close>

lemma signer_signatures_verify:
  assumes "stark_ok S" "keypair_inv S (state_keypair sn)" "keypair_inv S (clear_keypair sn)"
  shows "(sign_next_state S fault sn build_message = (sn', Inr (sg, i, m)) \<longrightarrow>
      m = build_message i \<and> leaf_index sg = i \<and> sig_epoch sg = state_epoch sn \<and>
      xmss_verify S (signer_state_root S sn) m sg) \<and>
    (sign_clearance S fault sn msg = (sn'', Inr (csg, j)) \<longrightarrow>
      leaf_index csg = j \<and> sig_epoch csg = clear_epoch sn \<and>
      xmss_verify S (signer_clear_root S sn) msg csg)"
proof (rule conjI; rule impI)
  assume "sign_next_state S fault sn build_message = (sn', Inr (sg, i, m))"
  from sign_next_state_Inr [OF assms(2) this]
  show "m = build_message i \<and> leaf_index sg = i \<and> sig_epoch sg = state_epoch sn \<and>
      xmss_verify S (signer_state_root S sn) m sg"
    using leaf_signature_xmss_verify [OF assms(1,2), of i m]
    by (simp add: signer_state_root_def leaf_index_leaf_signature)
next
  assume "sign_clearance S fault sn msg = (sn'', Inr (csg, j))"
  from sign_clearance_Inr [OF assms(3) this]
  show "leaf_index csg = j \<and> sig_epoch csg = clear_epoch sn \<and> xmss_verify S (signer_clear_root S sn) msg csg"
    using leaf_signature_xmss_verify [OF assms(1,3), of j msg]
    by (simp add: signer_clear_root_def leaf_index_leaf_signature)
qed

end
