(* ===== verification/Processor.thy ===== *)
theory Processor
  imports Wire Pedersen Signer
begin

text \<open>
  The version 1 server: configuration (\<open>config.rs\<close>), the provider boundary (\<open>provider.rs\<close>), request
  and clearance processing (\<open>processor.rs\<close>), the error responses of \<open>routes.rs\<close> and the challenge
  planner (\<open>watcher.rs\<close>). Start-up and the router are in \<open>Server_App\<close>.

  A request is handled by a thread that takes the store's and the signer's locks one operation at a
  time. The phases below are exactly these atomic pieces; \<open>process_request\<close> composes them as the code
  does, and \<open>job_step\<close> of \<open>Server_Safety\<close> interleaves the phases of any number of requests, with crashes. Base64, the
  proof verifier (an external \<open>scarb\<close> process) and the provider are functions of the record \<open>deps\<close>.
\<close>

section \<open>Configuration and provider\<close>

datatype ServerProofMode = StwoScarb string

record ServerConfig =
  cf_protocol_version :: u16
  cf_chain_id :: u64
  cf_contract_address :: felt
  cf_request_charge_cap :: u128
  cf_policy_charge_cap :: u128
  cf_policy_enabled :: bool
  cf_listen_addr :: string
  cf_db_path :: string
  cf_recovery_timeout_ms :: u64
  cf_state_seed :: felt
  cf_clear_seed :: felt
  cf_epoch :: u32
  cf_xmss_height :: nat
  cf_initial_root :: felt
  cf_trusted_epoch_roots :: "EpochRoots list"
  cf_proof_mode :: ServerProofMode

definition ServerConfig_default :: ServerConfig where
  "ServerConfig_default =
     \<lparr>cf_protocol_version = 1, cf_chain_id = 1, cf_contract_address = ZERO,
      cf_request_charge_cap = 1000000, cf_policy_charge_cap = 10000000, cf_policy_enabled = False,
      cf_listen_addr = ''0.0.0.0:3000'', cf_db_path = ''zkapi_server.db'',
      cf_recovery_timeout_ms = 30000, cf_state_seed = from_u64 1, cf_clear_seed = from_u64 2,
      cf_epoch = 1, cf_xmss_height = XMSS_TREE_HEIGHT, cf_initial_root = ZERO,
      cf_trusted_epoch_roots = [], cf_proof_mode = StwoScarb ''cairo''\<rparr>"

record ProviderResponse =
  pr_status_code :: u16
  pr_payload :: string
  pr_charge_applied :: u128
  pr_policy_reason_code :: "u32 option"
  pr_policy_evidence_hash :: "felt option"

definition echo_execute :: "u128 \<Rightarrow> string \<Rightarrow> string \<Rightarrow> felt \<Rightarrow> ServerError + ProviderResponse" where
  "echo_execute fixed_charge client_request_id payload payload_hash =
     Inr \<lparr>pr_status_code = 200, pr_payload = payload, pr_charge_applied = fixed_charge,
          pr_policy_reason_code = None, pr_policy_evidence_hash = None\<rparr>"

record ('f, 'g) deps =
  dp_stark :: "'f stark"
  dp_curve :: "('f, 'g) curve"
  dp_keccak :: keccak256
  dp_json :: json
  dp_base64_decode :: "string \<Rightarrow> u8 list option"
  dp_verify_artifact :: "string \<Rightarrow> felt \<Rightarrow> u8 list \<Rightarrow> bool"
  dp_provider :: "string \<Rightarrow> string \<Rightarrow> felt \<Rightarrow> ServerError + ProviderResponse"

record 'f server_state =
  st_table :: nullifier_table
  st_signer :: "'f ServerSigner"
  st_root :: felt

text \<open>A handler returns an error or panics.\<close>

datatype failure = Err ServerError | Panicked


section \<open>Phases of a request\<close>

definition validate_state_sig_root ::
    "'f stark \<Rightarrow> ServerConfig \<Rightarrow> 'f ServerSigner \<Rightarrow> u32 \<Rightarrow> felt \<Rightarrow> ServerError + unit" where
  "validate_state_sig_root S cfg sn ep root =
     (if ep = 0 then (if \<not> is_zero root then Inl InvalidRequest else Inr ())
      else if root = signer_state_root S sn then Inr ()
      else if lookup_state_root (cf_trusted_epoch_roots cfg) ep = Some root then Inr ()
      else Inl InvalidRequest)"

definition charge_cap :: "ServerConfig \<Rightarrow> u128" where
  "charge_cap cfg = (if cf_policy_enabled cfg then cf_policy_charge_cap cfg else cf_request_charge_cap cfg)"

definition verify_request_proof_artifact ::
    "('f, 'g) deps \<Rightarrow> ServerConfig \<Rightarrow> ApiRequest \<Rightarrow> failure + u8 list" where
  "verify_request_proof_artifact D cfg req =
     (let pi = aq_public_inputs req; artifact = aq_proof req in
      if pa_backend artifact \<noteq> StwoCairo then Inl (Err InvalidProof)
      else case r1_public_output_hash (dp_keccak D) pi of
          None \<Rightarrow> Inl Panicked
        | Some expected_hash \<Rightarrow>
            if pa_public_output_hash artifact \<noteq> expected_hash then Inl (Err InvalidProof)
            else case dp_base64_decode D (pa_proof artifact) of
                None \<Rightarrow> Inl (Err InvalidProof)
              | Some proof_bytes \<Rightarrow>
                  (case cf_proof_mode cfg of StwoScarb cairo_dir \<Rightarrow>
                     if dp_verify_artifact D cairo_dir (pa_public_output_hash artifact) proof_bytes
                     then Inr proof_bytes else Inl (Err InvalidProof)))"

definition validate_request ::
    "('f, 'g) deps \<Rightarrow> ServerConfig \<Rightarrow> u64 \<Rightarrow> 'f server_state \<Rightarrow> ApiRequest \<Rightarrow> failure + u8 list" where
  "validate_request D cfg now st req =
     (let pi = aq_public_inputs req; root = st_root st in
      case canonical_payload_hash (dp_keccak D) (as_bytes_str (aq_payload req)) of
        None \<Rightarrow> Inl Panicked
      | Some actual_payload_hash \<Rightarrow>
          if aq_payload_hash req \<noteq> actual_payload_hash then Inl (Err InvalidRequest)
          else if r1_protocol_version pi \<noteq> cf_protocol_version cfg then Inl (Err ProtocolMismatch)
          else if r1_chain_id pi \<noteq> cf_chain_id cfg then Inl (Err ProtocolMismatch)
          else if r1_contract_address pi \<noteq> cf_contract_address cfg then Inl (Err ProtocolMismatch)
          else if r1_active_root pi \<noteq> root then Inl (Err (StaleRoot (to_hex root)))
          else if r1_expiry_ts pi \<le> now then Inl (Err NoteExpired)
          else if r1_solvency_bound pi < charge_cap cfg then Inl (Err InvalidRequest)
          else if r1_statement_type pi \<noteq> STATEMENT_TYPE_REQUEST then Inl (Err InvalidRequest)
          else and_then
                 (map_err Err (validate_state_sig_root (dp_stark D) cfg (st_signer st)
                    (r1_state_sig_epoch pi) (r1_state_sig_root pi)))
                 (\<lambda>_. verify_request_proof_artifact D cfg req))"

definition empty_xmss_sig :: XmssSignature where
  "empty_xmss_sig = \<lparr>sig_epoch = 0, leaf_index = 0, wots_sig = replicate WOTS_LEN ZERO,
     auth_path = replicate XMSS_TREE_HEIGHT ZERO\<rparr>"

definition build_response_from_record :: "TranscriptRecord \<Rightarrow> string \<Rightarrow> RequestResponse" where
  "build_response_from_record record client_request_id =
     \<lparr>rr_status = ''ok'', rr_client_request_id = client_request_id,
      rr_request_nullifier = tr_nullifier record,
      rr_response_code = unwrap_or 200 (tr_response_code record),
      rr_response_payload = unwrap_or '''' (tr_response_payload record),
      rr_response_hash = unwrap_or ZERO (tr_response_hash record),
      rr_charge_applied = unwrap_or 0 (tr_charge_applied record),
      rr_next_commitment = \<lparr>cp_x = unwrap_or ZERO (tr_next_commitment_x record),
                            cp_y = unwrap_or ZERO (tr_next_commitment_y record)\<rparr>,
      rr_next_anchor = unwrap_or ZERO (tr_next_anchor record),
      rr_blind_delta_srv = unwrap_or ZERO (tr_blind_delta_srv record),
      rr_next_state_sig_epoch = unwrap_or 0 (tr_next_state_sig_epoch record),
      rr_next_state_sig_root = unwrap_or ZERO (tr_next_state_sig_root record),
      rr_next_state_sig = unwrap_or empty_xmss_sig (tr_next_state_sig record),
      rr_policy_reason_code = tr_policy_reason_code record,
      rr_policy_evidence_hash = tr_policy_evidence_hash record\<rparr>"

text \<open>What the lookup of the nullifier decides.\<close>

datatype admission = ReturnStored RequestResponse | Proceed | MustReserve | Refuse ServerError

definition admit :: "ApiRequest \<Rightarrow> TranscriptRecord option \<Rightarrow> admission" where
  "admit req found =
     (case found of
        None \<Rightarrow> MustReserve
      | Some existing \<Rightarrow>
          if tr_client_request_id existing = Some (aq_client_request_id req) \<and>
             tr_payload_hash existing = Some (aq_payload_hash req) \<and>
             tr_status existing = Finalized
          then ReturnStored (build_response_from_record existing (aq_client_request_id req))
          else if tr_client_request_id existing = Some (aq_client_request_id req) \<and>
             tr_payload_hash existing = Some (aq_payload_hash req) \<and>
             tr_status existing = Reserved
          then Proceed
          else Refuse Replay)"

definition generate_server_rng :: "'f stark \<Rightarrow> felt \<Rightarrow> felt" where
  "generate_server_rng S nul = poseidon_hash S DOMAIN_ANCHOR nul (from_u64 1)"

definition generate_server_rng2 :: "'f stark \<Rightarrow> felt \<Rightarrow> felt" where
  "generate_server_rng2 S nul = poseidon_hash S DOMAIN_BLIND nul (from_u64 2)"

definition reconstruct_affine_point :: "('f, 'g) deps \<Rightarrow> felt \<Rightarrow> felt \<Rightarrow> 'g option" where
  "reconstruct_affine_point D x y =
     from_affine (dp_curve D) (from_bytes_be (dp_stark D) x) (from_bytes_be (dp_stark D) y)"

record next_state =
  ns_cx :: felt
  ns_cy :: felt
  ns_anchor :: felt
  ns_blind :: felt
  ns_message :: felt

text \<open>The closure passed to the signer; \<open>None\<close> is the panic on a commitment at infinity.\<close>

definition build_next_state ::
    "('f, 'g::ab_group_add) deps \<Rightarrow> ServerConfig \<Rightarrow> felt \<Rightarrow> 'g \<Rightarrow> u128 \<Rightarrow> u32 \<Rightarrow> next_state option" where
  "build_next_state D cfg nul anon_point charge leaf =
     (let S = dp_stark D;
          blind = compute_blind_delta S (generate_server_rng2 S nul) nul leaf;
          updated = server_update S (dp_curve D) anon_point charge (from_bytes_be S blind)
      in case to_affine (dp_curve D) updated of
           None \<Rightarrow> None
         | Some (x, y) \<Rightarrow>
             let cx = to_bytes_be S x; cy = to_bytes_be S y;
                 anchor = compute_next_anchor S (generate_server_rng S nul) nul cx cy leaf;
                 msg = compute_state_message S (cf_protocol_version cfg) (cf_chain_id cfg)
                         (cf_contract_address cfg) cx cy anchor
             in Some \<lparr>ns_cx = cx, ns_cy = cy, ns_anchor = anchor, ns_blind = blind, ns_message = msg\<rparr>)"

definition state_message_for ::
    "('f, 'g::ab_group_add) deps \<Rightarrow> ServerConfig \<Rightarrow> felt \<Rightarrow> 'g \<Rightarrow> u128 \<Rightarrow> u32 \<Rightarrow> felt" where
  "state_message_for D cfg nul anon_point charge leaf =
     (case build_next_state D cfg nul anon_point charge leaf of Some ns \<Rightarrow> ns_message ns | None \<Rightarrow> 0)"

definition request_transcript ::
    "('f, 'g) deps \<Rightarrow> u64 \<Rightarrow> ApiRequest \<Rightarrow> u8 list \<Rightarrow> ProviderResponse \<Rightarrow> felt \<Rightarrow> next_state \<Rightarrow>
     XmssSignature \<Rightarrow> felt \<Rightarrow> TranscriptRecord" where
  "request_transcript D now req proof prov response_hash ns sg root =
     \<lparr>tr_nullifier = r1_request_nullifier (aq_public_inputs req), tr_status = Finalized,
      tr_client_request_id = Some (aq_client_request_id req),
      tr_payload_hash = Some (aq_payload_hash req),
      tr_charge_applied = Some (pr_charge_applied prov),
      tr_response_code = Some (pr_status_code prov),
      tr_response_payload = Some (pr_payload prov), tr_response_hash = Some response_hash,
      tr_next_commitment_x = Some (ns_cx ns), tr_next_commitment_y = Some (ns_cy ns),
      tr_next_anchor = Some (ns_anchor ns), tr_blind_delta_srv = Some (ns_blind ns),
      tr_next_state_sig_epoch = Some (sig_epoch sg), tr_next_state_sig_root = Some root,
      tr_next_state_sig = Some sg,
      tr_policy_reason_code = pr_policy_reason_code prov,
      tr_policy_evidence_hash = pr_policy_evidence_hash prov,
      tr_proof_blob = Some proof,
      tr_request_inputs_json = inputs_to_json (dp_json D) (aq_public_inputs req),
      tr_created_at = now, tr_finalized_at = Some now\<rparr>"

text \<open>From the provider call to the signature: the transcript to finalize. A panic while the message is
  built happens under the signer's lock, after the durable reservation and before the in-memory cursor
  moves.\<close>

definition execute_and_sign ::
    "('f, 'g::ab_group_add) deps \<Rightarrow> ServerConfig \<Rightarrow> bool \<Rightarrow> u64 \<Rightarrow> 'f ServerSigner \<Rightarrow> ApiRequest \<Rightarrow>
     u8 list \<Rightarrow> 'f ServerSigner \<times> (failure + TranscriptRecord)" where
  "execute_and_sign D cfg fault now sn req proof =
     (let pi = aq_public_inputs req; nul = r1_request_nullifier pi in
      case dp_provider D (aq_client_request_id req) (aq_payload req) (aq_payload_hash req) of
        Inl e \<Rightarrow> (sn, Inl (Err e))
      | Inr prov \<Rightarrow>
          (case canonical_response_hash (dp_keccak D) (as_bytes_str (pr_payload prov)) of
             None \<Rightarrow> (sn, Inl Panicked)
           | Some response_hash \<Rightarrow>
               let charge = pr_charge_applied prov in
               if charge > charge_cap cfg then (sn, Inl (Err Internal))
               else case reconstruct_affine_point D (r1_anon_commitment_x pi) (r1_anon_commitment_y pi) of
                   None \<Rightarrow> (sn, Inl Panicked)
                 | Some anon_point \<Rightarrow>
                     (case sign_next_state (dp_stark D) fault sn
                             (state_message_for D cfg nul anon_point charge) of
                        (sn', Inl e) \<Rightarrow> (sn', Inl (Err e))
                      | (sn', Inr (sg, leaf, _)) \<Rightarrow>
                          (case build_next_state D cfg nul anon_point charge leaf of
                             None \<Rightarrow> (sn\<lparr>durable_state := durable_state sn',
                                         operation_lock_poisoned := True\<rparr>, Inl Panicked)
                           | Some ns \<Rightarrow>
                               (sn', Inr (request_transcript D now req proof prov response_hash ns sg
                                           (signer_state_root (dp_stark D) sn')))))))"

text \<open>The response built from the transcript that was just finalized.\<close>

definition fresh_response :: "TranscriptRecord \<Rightarrow> string \<Rightarrow> RequestResponse" where
  "fresh_response tr client_request_id =
     \<lparr>rr_status = ''ok'', rr_client_request_id = client_request_id,
      rr_request_nullifier = tr_nullifier tr,
      rr_response_code = the (tr_response_code tr),
      rr_response_payload = the (tr_response_payload tr),
      rr_response_hash = the (tr_response_hash tr),
      rr_charge_applied = the (tr_charge_applied tr),
      rr_next_commitment = \<lparr>cp_x = the (tr_next_commitment_x tr), cp_y = the (tr_next_commitment_y tr)\<rparr>,
      rr_next_anchor = the (tr_next_anchor tr),
      rr_blind_delta_srv = the (tr_blind_delta_srv tr),
      rr_next_state_sig_epoch = the (tr_next_state_sig_epoch tr),
      rr_next_state_sig_root = the (tr_next_state_sig_root tr),
      rr_next_state_sig = the (tr_next_state_sig tr),
      rr_policy_reason_code = tr_policy_reason_code tr,
      rr_policy_evidence_hash = tr_policy_evidence_hash tr\<rparr>"

section \<open>Handlers\<close>

text \<open>The clock readings and SQLite failures a request meets.\<close>

record request_env =
  ev_now :: u64
  ev_now_reserve :: u64
  ev_now_transcript :: u64
  ev_now_finalize :: u64
  ev_lookup_fault :: bool
  ev_reserve_fault :: bool
  ev_sign_fault :: bool
  ev_finalize_fault :: bool

definition finish_request ::
    "('f, 'g::ab_group_add) deps \<Rightarrow> ServerConfig \<Rightarrow> request_env \<Rightarrow> 'f server_state \<Rightarrow> ApiRequest \<Rightarrow>
     u8 list \<Rightarrow> 'f server_state \<times> (failure + RequestResponse)" where
  "finish_request D cfg env st req proof =
     (case execute_and_sign D cfg (ev_sign_fault env) (ev_now_transcript env) (st_signer st) req proof of
        (sn', Inl e) \<Rightarrow> (st\<lparr>st_signer := sn'\<rparr>, Inl e)
      | (sn', Inr transcript) \<Rightarrow>
          (case finalize (dp_json D) (ev_finalize_fault env) (ev_now_finalize env) (st_table st)
                  (r1_request_nullifier (aq_public_inputs req)) transcript of
             (tbl', Inl _) \<Rightarrow> (st\<lparr>st_signer := sn', st_table := tbl'\<rparr>, Inl (Err Internal))
           | (tbl', Inr _) \<Rightarrow>
               (st\<lparr>st_signer := sn', st_table := tbl'\<rparr>,
                Inr (fresh_response transcript (aq_client_request_id req)))))"

definition process_request ::
    "('f, 'g::ab_group_add) deps \<Rightarrow> ServerConfig \<Rightarrow> request_env \<Rightarrow> 'f server_state \<Rightarrow> ApiRequest \<Rightarrow>
     'f server_state \<times> (failure + RequestResponse)" where
  "process_request D cfg env st req =
     (case validate_request D cfg (ev_now env) st req of
        Inl e \<Rightarrow> (st, Inl e)
      | Inr proof \<Rightarrow>
          (let nul = r1_request_nullifier (aq_public_inputs req) in
           case admit req (lookup_by_nullifier (dp_json D) (ev_lookup_fault env) (st_table st) nul) of
             ReturnStored resp \<Rightarrow> (st, Inr resp)
           | Refuse e \<Rightarrow> (st, Inl (Err e))
           | Proceed \<Rightarrow> finish_request D cfg env st req proof
           | MustReserve \<Rightarrow>
               (case reserve (ev_reserve_fault env) (ev_now_reserve env) (st_table st) nul
                       (aq_client_request_id req) (aq_payload_hash req) of
                  (tbl', Inl e) \<Rightarrow> (st\<lparr>st_table := tbl'\<rparr>, Inl (Err e))
                | (tbl', Inr _) \<Rightarrow> finish_request D cfg env (st\<lparr>st_table := tbl'\<rparr>) req proof)))"

definition update_root :: "'f server_state \<Rightarrow> felt \<Rightarrow> 'f server_state" where
  "update_root st new_root = st\<lparr>st_root := new_root\<rparr>"

definition process_clearance ::
    "('f, 'g) deps \<Rightarrow> ServerConfig \<Rightarrow> request_env \<Rightarrow> 'f server_state \<Rightarrow> ClearanceRequest \<Rightarrow>
     'f server_state \<times> (ServerError + ClearanceResponse)" where
  "process_clearance D cfg env st creq =
     (let nul = cq_withdrawal_nullifier creq; S = dp_stark D in
      if lookup_by_nullifier (dp_json D) (ev_lookup_fault env) (st_table st) nul \<noteq> None
      then (st, Inl NullifierUsed)
      else
        let clear_msg = compute_clearance_message S (cf_protocol_version cfg) (cf_chain_id cfg)
                          (cf_contract_address cfg) nul
        in case sign_clearance S (ev_sign_fault env) (st_signer st) clear_msg of
             (sn', Inl e) \<Rightarrow> (st\<lparr>st_signer := sn'\<rparr>, Inl e)
           | (sn', Inr (sg, _)) \<Rightarrow>
               (case reserve_clearance (ev_reserve_fault env) (ev_now_reserve env) (st_table st) nul of
                  (tbl', Inl e) \<Rightarrow> (st\<lparr>st_signer := sn', st_table := tbl'\<rparr>, Inl e)
                | (tbl', Inr _) \<Rightarrow>
                    (st\<lparr>st_signer := sn', st_table := tbl'\<rparr>,
                     Inr \<lparr>cr_status = ''ok'', cr_withdrawal_nullifier = nul,
                          cr_clear_sig_epoch = sig_epoch sg,
                          cr_clear_sig_root = signer_clear_root S sn', cr_clear_sig = sg\<rparr>)))"

definition build_recovery_response :: "TranscriptRecord \<Rightarrow> RecoveryResponse" where
  "build_recovery_response record =
     \<lparr>rc_status = ''ok'',
      rc_nullifier_status = (case tr_status record of
          Reserved \<Rightarrow> ''reserved'' | Finalized \<Rightarrow> ''finalized''
        | ClearanceReserved \<Rightarrow> ''clearance_reserved''),
      rc_request_response =
        (if tr_status record = Finalized
         then Some (build_response_from_record record (unwrap_or '''' (tr_client_request_id record)))
         else None)\<rparr>"

definition recovery_not_found :: RecoveryResponse where
  "recovery_not_found = \<lparr>rc_status = ''not_found'', rc_nullifier_status = ''unknown'',
     rc_request_response = None\<rparr>"

definition recover_by_client_id ::
    "('f, 'g) deps \<Rightarrow> bool \<Rightarrow> 'f server_state \<Rightarrow> string \<Rightarrow> ServerError + RecoveryResponse" where
  "recover_by_client_id D fault st client_request_id =
     (case lookup_by_client_id (dp_json D) fault (st_table st) client_request_id of
        Some record \<Rightarrow> Inr (build_recovery_response record)
      | None \<Rightarrow> Inr recovery_not_found)"

definition recover_by_nullifier ::
    "('f, 'g) deps \<Rightarrow> bool \<Rightarrow> 'f server_state \<Rightarrow> felt \<Rightarrow> ServerError + RecoveryResponse" where
  "recover_by_nullifier D fault st nul =
     (case lookup_by_nullifier (dp_json D) fault (st_table st) nul of
        Some record \<Rightarrow> Inr (build_recovery_response record)
      | None \<Rightarrow> Inr recovery_not_found)"


section \<open>Routes and watcher\<close>

fun status_code_of :: "ServerError \<Rightarrow> nat" where
  "status_code_of InvalidProof = 400"
| "status_code_of InvalidRequest = 400"
| "status_code_of ProtocolMismatch = 400"
| "status_code_of (StaleRoot _) = 409"
| "status_code_of Replay = 409"
| "status_code_of NullifierUsed = 409"
| "status_code_of NoteExpired = 410"
| "status_code_of CapacityExhausted = 503"
| "status_code_of Internal = 500"
| "status_code_of Database = 500"

text \<open>\<open>message\<close> is the display form of the error. \<open>None\<close> below is a panic of the handler.\<close>

definition error_to_response ::
    "(ServerError \<Rightarrow> string) \<Rightarrow> u64 \<Rightarrow> ServerError \<Rightarrow> string \<Rightarrow> 'f server_state \<Rightarrow> nat \<times> ErrorResponse" where
  "error_to_response message now_ms err client_request_id st =
     (status_code_of err,
      \<lparr>ee_status = ''error'', ee_client_request_id = client_request_id,
       ee_error_code = error_code err, ee_error_message = message err,
       ee_retriable = is_retriable err,
       ee_latest_root = (case err of StaleRoot _ \<Rightarrow> Some (st_root st) | _ \<Rightarrow> None),
       ee_server_time_ms = Some now_ms, ee_retry_after_seconds = None\<rparr>)"

definition handle_recovery_by_nullifier ::
    "('f, 'g) deps \<Rightarrow> (ServerError \<Rightarrow> string) \<Rightarrow> u64 \<Rightarrow> bool \<Rightarrow> 'f server_state \<Rightarrow> string \<Rightarrow>
     ((nat \<times> ErrorResponse) + RecoveryResponse) option" where
  "handle_recovery_by_nullifier D message now_ms fault st nullifier_hex =
     (case from_hex nullifier_hex of
        Inl SlicePanic \<Rightarrow> None
      | Inl _ \<Rightarrow> Some (Inl (error_to_response message now_ms InvalidRequest nullifier_hex st))
      | Inr nul \<Rightarrow>
          Some (map_err (\<lambda>e. error_to_response message now_ms e nullifier_hex st)
            (recover_by_nullifier D fault st nul)))"

record ChallengeAction =
  ca_note_id :: u32
  ca_request_inputs :: RequestPublicInputs
  ca_proof_artifact :: "u8 list"
  ca_siblings :: "felt list"

datatype challenge_error = NoTranscript | NoInputs | BadInputs | NullifierMismatch | NoProof

definition finalized_transcript :: "json \<Rightarrow> bool \<Rightarrow> nullifier_table \<Rightarrow> felt \<Rightarrow> TranscriptRecord option" where
  "finalized_transcript J fault tbl nul =
     (case lookup_by_nullifier J fault tbl nul of
        None \<Rightarrow> None
      | Some record \<Rightarrow> if tr_status record = Finalized then Some record else None)"

definition build_challenge_action ::
    "json \<Rightarrow> bool \<Rightarrow> nullifier_table \<Rightarrow> u32 \<Rightarrow> felt \<Rightarrow> felt list \<Rightarrow> challenge_error + ChallengeAction" where
  "build_challenge_action J fault tbl note_id nul siblings =
     and_then (ok_or NoTranscript (finalized_transcript J fault tbl nul)) (\<lambda>record.
     and_then (ok_or NoInputs (tr_request_inputs_json record)) (\<lambda>text.
     and_then (ok_or BadInputs (inputs_of_json J text)) (\<lambda>request_inputs.
     and_then (bail_if (r1_request_nullifier request_inputs \<noteq> nul) NullifierMismatch) (\<lambda>_.
     and_then (ok_or NoProof (tr_proof_blob record)) (\<lambda>proof.
     Inr \<lparr>ca_note_id = note_id, ca_request_inputs = request_inputs, ca_proof_artifact = proof,
          ca_siblings = siblings\<rparr>)))))"

section \<open>Interleaved requests\<close>

text \<open>A job is a request or clearance between two of its atomic operations.\<close>

datatype job =
    JValidate ApiRequest
  | JLookup ApiRequest "u8 list"
  | JReserve ApiRequest "u8 list"
  | JWork ApiRequest "u8 list"
  | JFinalize ApiRequest TranscriptRecord
  | CLookup felt
  | CSign felt
  | CReserve felt XmssSignature

abbreviation req_nullifier :: "ApiRequest \<Rightarrow> felt" where
  "req_nullifier req \<equiv> r1_request_nullifier (aq_public_inputs req)"

text \<open>What a job becomes: it goes on, or ends with a reply or an error.\<close>

datatype verdict = Continue job | Reply RequestResponse | Cleared ClearanceResponse | Failed failure

fun job_step :: "('f, 'g::ab_group_add) deps \<Rightarrow> ServerConfig \<Rightarrow> request_env \<Rightarrow> 'f server_state \<Rightarrow> job \<Rightarrow>
    'f server_state \<times> verdict" where
  "job_step D cfg env st (JValidate req) =
     (st, case validate_request D cfg (ev_now env) st req of
            Inl e \<Rightarrow> Failed e | Inr proof \<Rightarrow> Continue (JLookup req proof))"
| "job_step D cfg env st (JLookup req proof) =
     (st, case admit req (lookup_by_nullifier (dp_json D) (ev_lookup_fault env) (st_table st) (req_nullifier req)) of
            ReturnStored resp \<Rightarrow> Reply resp
          | Refuse e \<Rightarrow> Failed (Err e)
          | Proceed \<Rightarrow> Continue (JWork req proof)
          | MustReserve \<Rightarrow> Continue (JReserve req proof))"
| "job_step D cfg env st (JReserve req proof) =
     (case reserve (ev_reserve_fault env) (ev_now_reserve env) (st_table st) (req_nullifier req)
             (aq_client_request_id req) (aq_payload_hash req) of
        (tbl', Inl e) \<Rightarrow> (st\<lparr>st_table := tbl'\<rparr>, Failed (Err e))
      | (tbl', Inr _) \<Rightarrow> (st\<lparr>st_table := tbl'\<rparr>, Continue (JWork req proof)))"
| "job_step D cfg env st (JWork req proof) =
     (case execute_and_sign D cfg (ev_sign_fault env) (ev_now_transcript env) (st_signer st) req proof of
        (sn', Inl e) \<Rightarrow> (st\<lparr>st_signer := sn'\<rparr>, Failed e)
      | (sn', Inr transcript) \<Rightarrow> (st\<lparr>st_signer := sn'\<rparr>, Continue (JFinalize req transcript)))"
| "job_step D cfg env st (JFinalize req transcript) =
     (case finalize (dp_json D) (ev_finalize_fault env) (ev_now_finalize env) (st_table st)
             (req_nullifier req) transcript of
        (tbl', Inl _) \<Rightarrow> (st\<lparr>st_table := tbl'\<rparr>, Failed (Err Internal))
      | (tbl', Inr _) \<Rightarrow>
          (st\<lparr>st_table := tbl'\<rparr>, Reply (fresh_response transcript (aq_client_request_id req))))"
| "job_step D cfg env st (CLookup nul) =
     (st, if lookup_by_nullifier (dp_json D) (ev_lookup_fault env) (st_table st) nul \<noteq> None
          then Failed (Err NullifierUsed) else Continue (CSign nul))"
| "job_step D cfg env st (CSign nul) =
     (case sign_clearance (dp_stark D) (ev_sign_fault env) (st_signer st)
             (compute_clearance_message (dp_stark D) (cf_protocol_version cfg) (cf_chain_id cfg)
                (cf_contract_address cfg) nul) of
        (sn', Inl e) \<Rightarrow> (st\<lparr>st_signer := sn'\<rparr>, Failed (Err e))
      | (sn', Inr (sg, _)) \<Rightarrow> (st\<lparr>st_signer := sn'\<rparr>, Continue (CReserve nul sg)))"
| "job_step D cfg env st (CReserve nul sg) =
     (case reserve_clearance (ev_reserve_fault env) (ev_now_reserve env) (st_table st) nul of
        (tbl', Inl e) \<Rightarrow> (st\<lparr>st_table := tbl'\<rparr>, Failed (Err e))
      | (tbl', Inr _) \<Rightarrow>
          (st\<lparr>st_table := tbl'\<rparr>,
           Cleared \<lparr>cr_status = ''ok'', cr_withdrawal_nullifier = nul, cr_clear_sig_epoch = sig_epoch sg,
                    cr_clear_sig_root = signer_clear_root (dp_stark D) (st_signer st), cr_clear_sig = sg\<rparr>))"

record 'f world =
  wd_state :: "'f server_state"
  wd_jobs :: "job list"
  wd_replies :: "RequestResponse list"
  wd_cleared :: "ClearanceResponse list"

definition settle :: "'f world \<Rightarrow> 'f server_state \<Rightarrow> job list \<Rightarrow> verdict \<Rightarrow> 'f world" where
  "settle w st rest v =
     (case v of
        Continue j \<Rightarrow> w\<lparr>wd_state := st, wd_jobs := j # rest\<rparr>
      | Reply r \<Rightarrow> w\<lparr>wd_state := st, wd_jobs := rest, wd_replies := r # wd_replies w\<rparr>
      | Cleared c \<Rightarrow> w\<lparr>wd_state := st, wd_jobs := rest, wd_cleared := c # wd_cleared w\<rparr>
      | Failed _ \<Rightarrow> w\<lparr>wd_state := st, wd_jobs := rest\<rparr>)"

text \<open>Requests arrive deserialised, with canonical field elements. A crash loses every job and the
  signer's memory; the table stays.\<close>

inductive srv_step :: "('f, 'g::ab_group_add) deps \<Rightarrow> ServerConfig \<Rightarrow> 'f world \<Rightarrow> 'f world \<Rightarrow> bool"
  for D cfg where
  request: "inputs_canonical (aq_public_inputs req) \<Longrightarrow>
    srv_step D cfg w (w\<lparr>wd_jobs := JValidate req # wd_jobs w\<rparr>)"
| clearance: "srv_step D cfg w (w\<lparr>wd_jobs := CLookup nul # wd_jobs w\<rparr>)"
| phase: "wd_jobs w = before @ j # after \<Longrightarrow> job_step D cfg env (wd_state w) j = (st, v) \<Longrightarrow>
    srv_step D cfg w (settle w st (before @ after) v)"
| new_root: "srv_step D cfg w (w\<lparr>wd_state := update_root (wd_state w) r\<rparr>)"
| crash: "srv_step D cfg w (w\<lparr>wd_state := (wd_state w)\<lparr>st_signer := sn\<rparr>, wd_jobs := []\<rparr>)"

inductive_cases srv_stepE: "srv_step D cfg w w'"

definition initial_world :: "'f server_state \<Rightarrow> 'f world" where
  "initial_world st = \<lparr>wd_state = st\<lparr>st_table := []\<rparr>, wd_jobs = [], wd_replies = [], wd_cleared = []\<rparr>"

inductive reachable :: "('f, 'g::ab_group_add) deps \<Rightarrow> ServerConfig \<Rightarrow> 'f world \<Rightarrow> bool" for D cfg where
  start: "reachable D cfg (initial_world st)"
| step: "reachable D cfg w \<Longrightarrow> srv_step D cfg w w' \<Longrightarrow> reachable D cfg w'"

end
