(* ===== verification/Server_Safety.thy ===== *)
theory Server_Safety
  imports Processor
begin

text \<open>
  Safety of the version 1 server: the sequential handlers, and every interleaving of requests and
  clearances with crashes. The invariant ties each outstanding job and each reply to the row of its
  nullifier; rows only evolve from reserved to finalized.
\<close>

section \<open>Evolution of rows\<close>

text \<open>A row stays, or goes from reserved to finalized under the same request.\<close>

definition row_evolves :: "NullifierRow \<Rightarrow> NullifierRow \<Rightarrow> bool" where
  "row_evolves row row' \<longleftrightarrow> row' = row \<or>
     (row_status row = ''Reserved'' \<and> row_status row' = ''Finalized'' \<and>
      row_client_request_id row' = row_client_request_id row \<and> row_payload_hash row' = row_payload_hash row)"

definition table_evolves :: "nullifier_table \<Rightarrow> nullifier_table \<Rightarrow> bool" where
  "table_evolves tbl tbl' \<longleftrightarrow>
     (\<forall>n row. row_of tbl n = Some row \<longrightarrow> (\<exists>row'. row_of tbl' n = Some row' \<and> row_evolves row row'))"

lemma table_evolves_refl [simp]: "table_evolves tbl tbl"
  by (simp add: table_evolves_def row_evolves_def)

lemma reserve_evolves:
  assumes "table_inv tbl" "reserve f now tbl n cid h = (tbl', r)"
  shows "table_inv tbl' \<and> table_evolves tbl tbl'"
  using nt.ok_res [of tbl "(f, now, cid, h)" n] nt.settled_res [of tbl _ _ "(f, now, cid, h)" n] assms
  by (simp add: table_evolves_def row_evolves_def)

lemma reserve_clearance_evolves:
  assumes "table_inv tbl" "reserve_clearance f now tbl n = (tbl', r)"
  shows "table_inv tbl' \<and> table_evolves tbl tbl'"
  using nt.ok_clr [of tbl "(f, now)" n] nt.settled_clr [of tbl _ _ "(f, now)" n] assms
  by (simp add: table_evolves_def row_evolves_def)

lemma finalize_evolves:
  assumes "table_inv tbl" "finalize J f now tbl n tr = (tbl', r)"
  shows "table_inv tbl' \<and> table_evolves tbl tbl'"
proof
  show "table_inv tbl'" using nt.ok_fin [of tbl "(J, f, now, tr)" n] assms by simp
  show "table_evolves tbl tbl'"
  proof (cases r)
    case (Inl e)
    then show ?thesis using assms nt.fails(2) [of tbl "(J, f, now, tr)" n tbl' e] by simp
  next
    case (Inr u)
    then obtain row where row: "row_of tbl n = Some row" "row_status row = ''Reserved''"
      "tbl' = map (\<lambda>r. if r = row then finalized_row J now tr r else r) tbl"
      using assms by (auto simp: finalize_cases split: if_splits option.splits)
    then show ?thesis
      by (auto simp: table_evolves_def row_evolves_def row_of_finalize [OF assms(1) row(1)])
  qed
qed

text \<open>The row of a request being worked on.\<close>

definition owns :: "nullifier_table \<Rightarrow> ApiRequest \<Rightarrow> bool" where
  "owns tbl req \<longleftrightarrow> (\<exists>row. row_of tbl (req_nullifier req) = Some row \<and>
     row_client_request_id row = Some (aq_client_request_id req) \<and>
     parse_opt_felt (row_payload_hash row) = Some (aq_payload_hash req))"

text \<open>A reply as the table gives it back: the charge went through the signed 64-bit column.\<close>

definition stored_reply :: "RequestResponse \<Rightarrow> RequestResponse" where
  "stored_reply r = r\<lparr>rr_charge_applied := stored_charge (rr_charge_applied r)\<rparr>"

lemma stored_reply_idem [simp]: "stored_reply (stored_reply r) = stored_reply r"
  by (simp add: stored_reply_def stored_charge_idem)

lemma stored_reply_fields [simp]:
  "rr_request_nullifier (stored_reply r) = rr_request_nullifier r"
  "rr_client_request_id (stored_reply r) = rr_client_request_id r"
  by (simp_all add: stored_reply_def)

definition answered :: "json \<Rightarrow> nullifier_table \<Rightarrow> RequestResponse \<Rightarrow> bool" where
  "answered J tbl r \<longleftrightarrow> (\<exists>row. row_of tbl (rr_request_nullifier r) = Some row \<and>
     row_status row = ''Finalized'' \<and> row_client_request_id row = Some (rr_client_request_id r) \<and>
     stored_reply r = build_response_from_record (row_to_record J row) (rr_client_request_id r))"

definition cleared :: "nullifier_table \<Rightarrow> felt \<Rightarrow> bool" where
  "cleared tbl n \<longleftrightarrow> (\<exists>row. row_of tbl n = Some row \<and> row_status row = ''ClearanceReserved'')"

lemma owns_evolves: "table_evolves tbl tbl' \<Longrightarrow> owns tbl req \<Longrightarrow> owns tbl' req"
  unfolding owns_def table_evolves_def row_evolves_def by fastforce

lemma answered_evolves: "table_evolves tbl tbl' \<Longrightarrow> answered J tbl r \<Longrightarrow> answered J tbl' r"
  unfolding answered_def table_evolves_def row_evolves_def by fastforce

lemma cleared_evolves: "table_evolves tbl tbl' \<Longrightarrow> cleared tbl n \<Longrightarrow> cleared tbl' n"
  unfolding cleared_def table_evolves_def row_evolves_def by fastforce


section \<open>Transcripts\<close>

text \<open>A provider whose evidence hashes are canonical field elements.\<close>

definition provider_ok :: "('f, 'g) deps \<Rightarrow> bool" where
  "provider_ok D \<longleftrightarrow> (\<forall>i p h r f. dp_provider D i p h = Inr r \<longrightarrow> pr_policy_evidence_hash r = Some f \<longrightarrow> canonical f)"

definition deps_ok :: "('f, 'g::ab_group_add) deps \<Rightarrow> bool" where
  "deps_ok D \<longleftrightarrow> stark_field_ok (dp_stark D) \<and> keccak_ok (dp_keccak D) \<and> json_ok (dp_json D) \<and> provider_ok D"

text \<open>Every charge the cap lets through keeps its value in the signed 64-bit column. The server does not
  check this; a cap below \<open>2 ^ 63\<close> is enough, and so is a provider that charges less.\<close>

definition charges_fit :: "('f, 'g) deps \<Rightarrow> ServerConfig \<Rightarrow> bool" where
  "charges_fit D cfg \<longleftrightarrow> (\<forall>i p h prov. dp_provider D i p h = Inr prov \<longrightarrow> pr_charge_applied prov \<le> charge_cap cfg \<longrightarrow>
     stored_charge (pr_charge_applied prov) = pr_charge_applied prov)"

lemma charges_fit_cap: "charge_cap cfg < 2 ^ 63 \<Longrightarrow> charges_fit D cfg"
  using le_less_trans stored_charge_small unfolding charges_fit_def by blast

lemma leaf_signature_canonical:
  assumes "stark_field_ok S"
  shows "sig_canonical (leaf_signature S kp i m)"
proof -
  have "set (fst (fold (\<lambda>level (path, node_idx).
      (path @ [to_bytes_be S (xmss_tree kp ! level ! unat (xor node_idx 1))], node_idx div 2)) ls (p, i)))
      \<subseteq> set p \<union> range (to_bytes_be S)" for ls p and i :: u32
    by (induction ls arbitrary: p i) (auto, fastforce)
  from this [of "[0..<kp_height kp]" "[]" i]
  have "set (build_auth_path S kp i) \<subseteq> range (to_bytes_be S)" by (simp add: build_auth_path_def)
  then show ?thesis using canonical_to_bytes_be [OF assms]
    by (auto simp: sig_canonical_def leaf_signature_def Let_def)
qed

lemma sig_canonical_epoch [simp]: "sig_canonical (sg\<lparr>sig_epoch := e\<rparr>) = sig_canonical sg"
  by (simp add: sig_canonical_def)

lemma sign_next_state_canonical:
  assumes "stark_field_ok S" "sign_next_state S fault sn bm = (sn', Inr (sg, i, m))"
  shows "sig_canonical sg"
proof (cases "durable_state sn")
  case None
  then show ?thesis using assms
    by (auto simp: sign_next_state_def sign_with_index_def Let_def leaf_signature_canonical
        split: option.splits prod.splits if_splits)
next
  case (Some tbl)
  then show ?thesis using assms
    by (auto simp: sign_next_state_def sign_reserved_def Let_def leaf_signature_canonical
        split: option.splits prod.splits sum.splits if_splits)
qed

text \<open>What the work phase hands to \<open>finalize\<close>.\<close>

definition transcript_for :: "('f, 'g) deps \<Rightarrow> ServerConfig \<Rightarrow> ApiRequest \<Rightarrow> TranscriptRecord \<Rightarrow> bool" where
  "transcript_for D cfg req tr \<longleftrightarrow>
     transcript_canonical tr \<and> tr_nullifier tr = req_nullifier req \<and> tr_status tr = Finalized \<and>
     tr_client_request_id tr = Some (aq_client_request_id req) \<and>
     tr_payload_hash tr = Some (aq_payload_hash req) \<and>
     (\<exists>c. tr_charge_applied tr = Some c \<and> c \<le> charge_cap cfg \<and> (charges_fit D cfg \<longrightarrow> stored_charge c = c)) \<and>
     tr_response_code tr \<noteq> None \<and> tr_response_payload tr \<noteq> None \<and> tr_response_hash tr \<noteq> None \<and>
     tr_next_commitment_x tr \<noteq> None \<and> tr_next_commitment_y tr \<noteq> None \<and> tr_next_anchor tr \<noteq> None \<and>
     tr_blind_delta_srv tr \<noteq> None \<and> tr_next_state_sig_epoch tr \<noteq> None \<and>
     tr_next_state_sig_root tr \<noteq> None \<and> tr_next_state_sig tr \<noteq> None"

lemma build_next_state_canonical:
  assumes "stark_field_ok (dp_stark D)" "build_next_state D cfg nul p c leaf = Some ns"
  shows "canonical (ns_cx ns) \<and> canonical (ns_cy ns) \<and> canonical (ns_anchor ns) \<and> canonical (ns_blind ns)"
  using assms canonical_to_bytes_be [OF assms(1)]
  by (auto simp: build_next_state_def Let_def compute_next_anchor_def compute_blind_delta_def
      poseidon_hash_chain_def split: option.splits)

lemma execute_and_sign_Inr:
  assumes "execute_and_sign D cfg fault now sn req proof = (sn', Inr tr)"
  obtains prov rh p sg leaf m ns where
    "dp_provider D (aq_client_request_id req) (aq_payload req) (aq_payload_hash req) = Inr prov"
    "canonical_response_hash (dp_keccak D) (as_bytes_str (pr_payload prov)) = Some rh"
    "\<not> pr_charge_applied prov > charge_cap cfg"
    "reconstruct_affine_point D (r1_anon_commitment_x (aq_public_inputs req))
       (r1_anon_commitment_y (aq_public_inputs req)) = Some p"
    "sign_next_state (dp_stark D) fault sn
       (state_message_for D cfg (req_nullifier req) p (pr_charge_applied prov)) = (sn', Inr (sg, leaf, m))"
    "build_next_state D cfg (req_nullifier req) p (pr_charge_applied prov) leaf = Some ns"
    "tr = request_transcript D now req proof prov rh ns sg (root_felt (dp_stark D) (state_keypair sn'))"
  using assms
  by (auto simp: execute_and_sign_def Let_def signer_state_root_def
      split: sum.splits option.splits if_splits prod.splits)

lemma execute_and_sign_transcript:
  assumes "deps_ok D" "execute_and_sign D cfg fault now sn req proof = (sn', Inr tr)"
  shows "transcript_for D cfg req tr"
  using assms(2)
proof (cases rule: execute_and_sign_Inr)
  case (1 prov rh p sg leaf m ns)
  note prov = 1(1) and rh = 1(2) and cap = 1(3) and sign = 1(5) and ns = 1(6) and tr = 1(7)
  have S: "stark_field_ok (dp_stark D)" "keccak_ok (dp_keccak D)" "provider_ok D"
    using assms(1) by (simp_all add: deps_ok_def)
  have "canonical rh" using rh hash_bytes_canonical [OF S(2)] by (simp add: canonical_response_hash_def)
  moreover have "sig_canonical sg" by (rule sign_next_state_canonical [OF S(1) sign])
  moreover have "canonical f" if "pr_policy_evidence_hash prov = Some f" for f
    using S(3) prov that unfolding provider_ok_def by blast
  ultimately have "transcript_canonical tr"
    using build_next_state_canonical [OF S(1) ns] canonical_to_bytes_be [OF S(1)]
    by (auto simp: tr transcript_canonical_def request_transcript_def root_felt_def)
  then show ?thesis using cap prov
    by (auto simp: transcript_for_def tr request_transcript_def not_less charges_fit_def)
qed

lemma fresh_response_eq:
  "transcript_for D cfg req tr \<Longrightarrow> fresh_response tr cid = build_response_from_record tr cid"
  by (auto simp: transcript_for_def fresh_response_def build_response_from_record_def unwrap_or_def)

text \<open>The response sent when a request is finalized is the one the stored row gives later, up to the
  width of the charge column.\<close>

lemma finalized_answered:
  assumes "deps_ok D" "table_inv tbl" "owns tbl req" "canonical (req_nullifier req)"
    and "transcript_for D cfg req tr"
    and "finalize (dp_json D) fault now tbl (req_nullifier req) tr = (tbl', Inr ())"
  shows "answered (dp_json D) tbl' (fresh_response tr (aq_client_request_id req))"
    and "charges_fit D cfg \<Longrightarrow> stored_reply (fresh_response tr cid) = fresh_response tr cid"
proof -
  let ?n = "req_nullifier req" and ?J = "dp_json D"
  obtain row where row: "row_of tbl ?n = Some row" "row_client_request_id row = Some (aq_client_request_id req)"
    "parse_opt_felt (row_payload_hash row) = Some (aq_payload_hash req)"
    using assms(3) by (auto simp: owns_def)
  then have tbl': "row_of tbl' ?n = Some (finalized_row ?J now tr row)"
    using assms(6) row_of_finalize [OF assms(2) row(1)]
    by (auto simp: finalize_cases [OF assms(2)] split: if_splits)
  have "build_response_from_record (row_to_record ?J (finalized_row ?J now tr row)) (aq_client_request_id req)
      = stored_reply (build_response_from_record tr (aq_client_request_id req))"
    using assms(1,4,5) row_of_nullifier [OF row(1)]
    by (subst finalized_record)
      (auto simp: deps_ok_def transcript_for_def build_response_from_record_def stored_reply_def unwrap_or_def)
  then show "answered ?J tbl' (fresh_response tr (aq_client_request_id req))"
    using tbl' row assms(5)
    by (simp add: answered_def fresh_response_eq) (simp add: build_response_from_record_def transcript_for_def)
  show "charges_fit D cfg \<Longrightarrow> stored_reply (fresh_response tr cid) = fresh_response tr cid"
    using assms(5) by (auto simp: stored_reply_def fresh_response_def transcript_for_def)
qed

section \<open>The invariant\<close>

fun job_inv :: "('f, 'g) deps \<Rightarrow> ServerConfig \<Rightarrow> nullifier_table \<Rightarrow> job \<Rightarrow> bool" where
  "job_inv D cfg tbl (JValidate req) \<longleftrightarrow> canonical (req_nullifier req)"
| "job_inv D cfg tbl (JLookup req _) \<longleftrightarrow> canonical (req_nullifier req) \<and> canonical (aq_payload_hash req)"
| "job_inv D cfg tbl (JReserve req _) \<longleftrightarrow> canonical (req_nullifier req) \<and> canonical (aq_payload_hash req)"
| "job_inv D cfg tbl (JWork req _) \<longleftrightarrow> canonical (req_nullifier req) \<and> owns tbl req"
| "job_inv D cfg tbl (JFinalize req tr) \<longleftrightarrow>
     canonical (req_nullifier req) \<and> owns tbl req \<and> transcript_for D cfg req tr"
| "job_inv D cfg tbl (CLookup n) \<longleftrightarrow> True"
| "job_inv D cfg tbl (CSign n) \<longleftrightarrow> True"
| "job_inv D cfg tbl (CReserve n sg) \<longleftrightarrow> True"

text \<open>A reply is on record, and identical to the recorded one when charges fit the column.\<close>

definition reply_ok :: "('f, 'g) deps \<Rightarrow> ServerConfig \<Rightarrow> nullifier_table \<Rightarrow> RequestResponse \<Rightarrow> bool" where
  "reply_ok D cfg tbl r \<longleftrightarrow> answered (dp_json D) tbl r \<and> (charges_fit D cfg \<longrightarrow> stored_reply r = r)"

lemma reply_ok_evolves: "table_evolves tbl tbl' \<Longrightarrow> reply_ok D cfg tbl r \<Longrightarrow> reply_ok D cfg tbl' r"
  using answered_evolves unfolding reply_ok_def by blast

fun verdict_inv :: "('f, 'g) deps \<Rightarrow> ServerConfig \<Rightarrow> nullifier_table \<Rightarrow> verdict \<Rightarrow> bool" where
  "verdict_inv D cfg tbl (Continue j) \<longleftrightarrow> job_inv D cfg tbl j"
| "verdict_inv D cfg tbl (Reply r) \<longleftrightarrow> reply_ok D cfg tbl r"
| "verdict_inv D cfg tbl (Cleared c) \<longleftrightarrow> cleared tbl (cr_withdrawal_nullifier c)"
| "verdict_inv D cfg tbl (Failed e) \<longleftrightarrow> True"

definition world_inv :: "('f, 'g) deps \<Rightarrow> ServerConfig \<Rightarrow> 'f world \<Rightarrow> bool" where
  "world_inv D cfg w \<longleftrightarrow>
     (let tbl = st_table (wd_state w) in
      table_inv tbl \<and> (\<forall>j \<in> set (wd_jobs w). job_inv D cfg tbl j) \<and>
      (\<forall>r \<in> set (wd_replies w). reply_ok D cfg tbl r) \<and>
      (\<forall>c \<in> set (wd_cleared w). cleared tbl (cr_withdrawal_nullifier c)))"

lemma job_inv_evolves: "table_evolves tbl tbl' \<Longrightarrow> job_inv D cfg tbl j \<Longrightarrow> job_inv D cfg tbl' j"
  by (cases j) (auto intro: owns_evolves)

lemma validate_request_hash:
  assumes "keccak_ok (dp_keccak D)" "validate_request D cfg now st req = Inr proof"
  shows "canonical (aq_payload_hash req)"
  using assms hash_bytes_canonical [OF assms(1)]
  by (auto simp: validate_request_def Let_def canonical_payload_hash_def split: option.splits if_splits)

lemma admit_stored:
  assumes "table_inv tbl" "canonical n" "req_nullifier req = n"
    and "admit req (lookup_by_nullifier J f tbl n) = ReturnStored r"
  shows "answered J tbl r \<and> stored_reply r = r \<and> rr_request_nullifier r = n"
proof -
  obtain row where row: "row_of tbl n = Some row" "row_client_request_id row = Some (aq_client_request_id req)"
    "str_to_status (row_status row) = Finalized"
    "r = build_response_from_record (row_to_record J row) (aq_client_request_id req)"
    using assms(4)
    by (auto simp: admit_def lookup_by_nullifier_def row_of_def row_to_record_def
        split: option.splits if_splits)
  then have "row_status row = ''Finalized''"
    using assms(1) row_of_Some_in [OF row(1)] by (fastforce simp: table_inv_def)
  moreover have "rr_request_nullifier r = n" "rr_client_request_id r = aq_client_request_id req"
    using row(4) row_of_nullifier [OF row(1)] assms(2)
    by (simp_all add: build_response_from_record_def row_to_record_def from_hex_to_hex unwrap_or_def)
  moreover have "stored_reply r = r"
    by (simp add: row(4) stored_reply_def build_response_from_record_def row_to_record_def stored_charge_read)
  ultimately show ?thesis using row by (simp add: answered_def)
qed

lemma admit_proceed:
  assumes "req_nullifier req = n" "admit req (lookup_by_nullifier J f tbl n) = Proceed"
  shows "owns tbl req"
  using assms
  by (auto simp: admit_def lookup_by_nullifier_def row_of_def row_to_record_def owns_def
      split: option.splits if_splits)

lemma reserve_owns:
  assumes "table_inv tbl" "canonical (aq_payload_hash req)"
    and "reserve f now tbl (req_nullifier req) (aq_client_request_id req) (aq_payload_hash req) = (tbl', Inr u)"
  shows "owns tbl' req"
proof -
  have "row_of tbl (req_nullifier req) = None"
    "tbl' = tbl @ [reserved_row now (req_nullifier req) (aq_client_request_id req) (aq_payload_hash req)]"
    using assms(3) by (auto simp: reserve_cases split: if_splits)
  then show ?thesis
    using assms(2) row_of_append [of "reserved_row now (req_nullifier req) (aq_client_request_id req) (aq_payload_hash req)"
        "req_nullifier req" tbl]
    by (simp add: owns_def parse_opt_felt_def from_hex_to_hex)
qed

lemma reserve_clearance_cleared:
  assumes "reserve_clearance f now tbl n = (tbl', Inr u)"
  shows "cleared tbl' n"
  using assms row_of_append [of "empty_row (to_hex n) ClearanceReserved now" n tbl]
  by (auto simp: reserve_clearance_cases cleared_def split: if_splits)

text \<open>One atomic operation of one job.\<close>

lemma job_step_inv:
  assumes "deps_ok D" "table_inv (st_table st)" "job_inv D cfg (st_table st) j"
    and "job_step D cfg env st j = (st', v)"
  shows "table_inv (st_table st') \<and> table_evolves (st_table st) (st_table st') \<and>
    verdict_inv D cfg (st_table st') v"
proof (cases j)
  case (JValidate req)
  then show ?thesis using assms validate_request_hash [of D cfg "ev_now env" st req]
    by (auto simp: deps_ok_def split: sum.splits)
next
  case (JLookup req pf)
  then show ?thesis
    using assms(2-4) admit_stored [OF assms(2), of "req_nullifier req" req "dp_json D" "ev_lookup_fault env"]
      admit_proceed [of req "req_nullifier req" "dp_json D" "ev_lookup_fault env" "st_table st"]
    by (auto simp: reply_ok_def split: admission.splits)
next
  case (JReserve req pf)
  then show ?thesis
    using assms(2-4) reserve_evolves [OF assms(2)] reserve_owns [OF assms(2), of req]
    by (fastforce split: prod.splits sum.splits)
next
  case (JWork req pf)
  then show ?thesis using assms execute_and_sign_transcript [OF assms(1)]
    by (fastforce split: prod.splits sum.splits)
next
  case (JFinalize req tr)
  then show ?thesis
    using assms(2-4) finalize_evolves [OF assms(2)] finalized_answered [OF assms(1,2), of req cfg tr]
    by (fastforce simp: reply_ok_def split: prod.splits sum.splits)
next
  case (CReserve n sg)
  then show ?thesis
    using assms(2-4) reserve_clearance_evolves [OF assms(2)] reserve_clearance_cleared
    by (fastforce split: prod.splits sum.splits)
qed (use assms in \<open>auto split: prod.splits sum.splits if_splits\<close>)

lemma world_inv_settle:
  assumes "world_inv D cfg w" "wd_jobs w = before @ j # after"
    and "table_inv (st_table st)" "table_evolves (st_table (wd_state w)) (st_table st)"
    and "verdict_inv D cfg (st_table st) v"
  shows "world_inv D cfg (settle w st (before @ after) v)"
  using assms job_inv_evolves [OF assms(4), of D cfg] reply_ok_evolves [OF assms(4), of D cfg] cleared_evolves [OF assms(4)]
  by (cases v) (auto simp: world_inv_def settle_def Let_def)

lemma world_inv_step:
  assumes "deps_ok D" "world_inv D cfg w" "srv_step D cfg w w'"
  shows "world_inv D cfg w'"
  using assms(3)
proof (cases rule: srv_step.cases)
  case (phase before j after env st v)
  have "table_inv (st_table (wd_state w))" "job_inv D cfg (st_table (wd_state w)) j"
    using assms(2) phase(2) by (simp_all add: world_inv_def Let_def)
  from job_step_inv [OF assms(1) this phase(3)] show ?thesis
    using world_inv_settle [OF assms(2) phase(2)] phase(1) by simp
qed (use assms(2) in \<open>auto simp: world_inv_def Let_def inputs_canonical_def update_root_def\<close>)

lemma world_inv_reachable:
  assumes "deps_ok D" "reachable D cfg w"
  shows "world_inv D cfg w"
  using assms(2)
proof induction
  case (start st)
  then show ?case by (simp add: world_inv_def initial_world_def table_inv_def)
next
  case (step w w')
  then show ?case using world_inv_step [OF assms(1)] by blast
qed

lemma row_evolves_trans: "row_evolves a b \<Longrightarrow> row_evolves b c \<Longrightarrow> row_evolves a c"
  by (auto simp: row_evolves_def)

lemma table_evolves_trans: "table_evolves a b \<Longrightarrow> table_evolves b c \<Longrightarrow> table_evolves a c"
  unfolding table_evolves_def using row_evolves_trans by metis

lemma srv_step_evolves:
  assumes "deps_ok D" "world_inv D cfg w" "srv_step D cfg w w'"
  shows "table_evolves (st_table (wd_state w)) (st_table (wd_state w'))"
  using assms(3)
proof (cases rule: srv_step.cases)
  case (phase before j after env st v)
  have "table_inv (st_table (wd_state w))" "job_inv D cfg (st_table (wd_state w)) j"
    using assms(2) phase(2) by (simp_all add: world_inv_def Let_def)
  from job_step_inv [OF assms(1) this phase(3)] show ?thesis
    using phase(1) by (simp add: settle_def split: verdict.splits)
qed (simp_all add: update_root_def)

end
