(* ===== verification/Server_Properties.thy ===== *)
theory Server_Properties
  imports Server_Safety
begin

text \<open>
  Properties of the version 1 server: the sequential handler is one schedule of the interleaved
  phases, what a successful request guarantees, the outcome of retries, the challenge planner, the
  consistency of all replies under every schedule, and what a panic under the signer's lock leaves.
\<close>

section \<open>Running one job alone\<close>

lemma reachable_job:
  assumes "reachable D cfg w" "wd_jobs w = [j]" "job_step D cfg env (wd_state w) j = (st, v)"
  shows "reachable D cfg (settle w st [] v)"
  using reachable.step [OF assms(1)] srv_step.phase [of w "[]" j "[]" D cfg env st v] assms(2,3) by simp

text \<open>The world after a request handled alone.\<close>

definition after_request :: "'f world \<Rightarrow> 'f server_state \<Rightarrow> failure + RequestResponse \<Rightarrow> 'f world" where
  "after_request w st out = w\<lparr>wd_state := st, wd_jobs := [],
     wd_replies := (case out of Inr r \<Rightarrow> [r] | Inl _ \<Rightarrow> []) @ wd_replies w\<rparr>"

lemma run_finalize:
  fixes env :: request_env
  assumes "reachable D cfg w" "wd_jobs w = [JFinalize req tr]"
    and "finalize (dp_json D) (ev_finalize_fault env) (ev_now_finalize env) (st_table (wd_state w))
           (req_nullifier req) tr = (tbl', o1)"
  shows "reachable D cfg (after_request w ((wd_state w)\<lparr>st_table := tbl'\<rparr>)
    (case o1 of Inl _ \<Rightarrow> Inl (Err Internal) | Inr _ \<Rightarrow> Inr (fresh_response tr (aq_client_request_id req))))"
  using reachable_job [OF assms(1,2), of env] assms(3)
  by (cases o1) (auto simp: settle_def after_request_def)

lemma run_work:
  assumes "reachable D cfg w" "wd_jobs w = [JWork req pf]"
    and "finish_request D cfg env (wd_state w) req pf = (st', out)"
  shows "reachable D cfg (after_request w st' out)"
proof -
  obtain sn' o1 where ex: "execute_and_sign D cfg (ev_sign_fault env) (ev_now_transcript env)
      (st_signer (wd_state w)) req pf = (sn', o1)" by fastforce
  show ?thesis
  proof (cases o1)
    case (Inl e)
    then show ?thesis using reachable_job [OF assms(1,2), of env] assms(3) ex
      by (auto simp: settle_def after_request_def finish_request_def)
  next
    case (Inr tr)
    let ?w = "w\<lparr>wd_state := (wd_state w)\<lparr>st_signer := sn'\<rparr>, wd_jobs := [JFinalize req tr]\<rparr>"
    have "reachable D cfg ?w"
      using reachable_job [OF assms(1,2), of env] ex Inr by (simp add: settle_def)
    moreover obtain tbl' o2 where fin: "finalize (dp_json D) (ev_finalize_fault env) (ev_now_finalize env)
        (st_table (wd_state w)) (req_nullifier req) tr = (tbl', o2)" by fastforce
    ultimately have "reachable D cfg (after_request ?w ((wd_state ?w)\<lparr>st_table := tbl'\<rparr>)
        (case o2 of Inl _ \<Rightarrow> Inl (Err Internal) | Inr _ \<Rightarrow> Inr (fresh_response tr (aq_client_request_id req))))"
      by (intro run_finalize) simp_all
    then show ?thesis using assms(3) ex Inr fin
      by (cases o2) (auto simp: finish_request_def after_request_def)
  qed
qed

text \<open>The atomic phases of one request, run without interference, are \<open>process_request\<close>.\<close>

lemma process_request_reachable:
  assumes "reachable D cfg w" "wd_jobs w = []" "inputs_canonical (aq_public_inputs req)"
    and "process_request D cfg env (wd_state w) req = (st', out)"
  shows "reachable D cfg (after_request w st' out)"
proof -
  let ?w1 = "w\<lparr>wd_jobs := [JValidate req]\<rparr>"
  have w1: "reachable D cfg ?w1"
    using reachable.step [OF assms(1) srv_step.request [OF assms(3), of D cfg w]] assms(2) by simp
  show ?thesis
  proof (cases "validate_request D cfg (ev_now env) (wd_state w) req")
    case (Inl e)
    then show ?thesis using reachable_job [OF w1, of "JValidate req" env] assms(4)
      by (auto simp: process_request_def settle_def after_request_def)
  next
    case (Inr pf)
    let ?w2 = "w\<lparr>wd_jobs := [JLookup req pf]\<rparr>"
    have w2: "reachable D cfg ?w2"
      using reachable_job [OF w1, of "JValidate req" env] Inr by (simp add: settle_def)
    let ?adm = "admit req (lookup_by_nullifier (dp_json D) (ev_lookup_fault env) (st_table (wd_state w))
        (req_nullifier req))"
    note step = reachable_job [OF w2, of "JLookup req pf" env]
    show ?thesis
    proof (cases ?adm)
      case Proceed
      then have "reachable D cfg (w\<lparr>wd_jobs := [JWork req pf]\<rparr>)" using step by (simp add: settle_def)
      from run_work [OF this, of req pf env st' out] show ?thesis
        using assms(4) Inr Proceed by (simp add: process_request_def Let_def after_request_def)
    next
      case MustReserve
      then have w3: "reachable D cfg (w\<lparr>wd_jobs := [JReserve req pf]\<rparr>)" using step by (simp add: settle_def)
      obtain tbl' o1 where res: "reserve (ev_reserve_fault env) (ev_now_reserve env) (st_table (wd_state w))
          (req_nullifier req) (aq_client_request_id req) (aq_payload_hash req) = (tbl', o1)" by fastforce
      note step3 = reachable_job [OF w3, of "JReserve req pf" env]
      show ?thesis
      proof (cases o1)
        case (Inl e)
        then show ?thesis using step3 res assms(4) Inr MustReserve
          by (auto simp: process_request_def Let_def settle_def after_request_def)
      next
        case Inr1: (Inr u)
        let ?w4 = "w\<lparr>wd_state := (wd_state w)\<lparr>st_table := tbl'\<rparr>, wd_jobs := [JWork req pf]\<rparr>"
        have "reachable D cfg ?w4" using step3 res Inr1 by (simp add: settle_def)
        from run_work [OF this, of req pf env st' out] show ?thesis
          using assms(4) Inr MustReserve res Inr1 by (simp add: process_request_def Let_def after_request_def)
      qed
    qed (use step assms(4) Inr in \<open>auto simp: process_request_def Let_def settle_def after_request_def\<close>)
  qed
qed

section \<open>One request\<close>

lemma finish_request_inv:
  assumes "deps_ok D" "table_inv (st_table st)" "canonical (req_nullifier req)" "owns (st_table st) req"
    and "finish_request D cfg env st req pf = (st', out)"
  shows "table_inv (st_table st') \<and> table_evolves (st_table st) (st_table st') \<and>
    (\<forall>r. out = Inr r \<longrightarrow> reply_ok D cfg (st_table st') r \<and> rr_request_nullifier r = req_nullifier req)"
proof -
  obtain sn' o1 where ex: "execute_and_sign D cfg (ev_sign_fault env) (ev_now_transcript env)
      (st_signer st) req pf = (sn', o1)" by fastforce
  show ?thesis
  proof (cases o1)
    case (Inl e)
    then show ?thesis using assms(2,5) ex by (auto simp: finish_request_def)
  next
    case (Inr tr)
    obtain tbl' o2 where fin: "finalize (dp_json D) (ev_finalize_fault env) (ev_now_finalize env)
        (st_table st) (req_nullifier req) tr = (tbl', o2)" by fastforce
    have tr: "transcript_for D cfg req tr" using execute_and_sign_transcript [OF assms(1)] ex Inr by simp
    then have "rr_request_nullifier (fresh_response tr cid) = req_nullifier req" for cid
      by (simp add: fresh_response_def transcript_for_def)
    with finalized_answered [OF assms(1,2,4,3) tr] finalize_evolves [OF assms(2) fin]
    show ?thesis using assms(5) ex Inr fin by (cases o2) (auto simp: finish_request_def reply_ok_def)
  qed
qed

lemma admit_stored_owns:
  "admit req (lookup_by_nullifier J f tbl (req_nullifier req)) = ReturnStored r \<Longrightarrow> owns tbl req"
  by (auto simp: admit_def lookup_by_nullifier_def row_of_def row_to_record_def owns_def
      split: option.splits if_splits)

text \<open>A reply is on record under the identifier and the payload hash of its request.\<close>

lemma process_request_inv:
  assumes "deps_ok D" "table_inv (st_table st)" "canonical (req_nullifier req)"
    and "process_request D cfg env st req = (st', out)"
  shows "table_inv (st_table st') \<and> table_evolves (st_table st) (st_table st') \<and>
    (\<forall>r. out = Inr r \<longrightarrow> owns (st_table st') req \<and> reply_ok D cfg (st_table st') r \<and>
      rr_request_nullifier r = req_nullifier req)"
proof (cases "validate_request D cfg (ev_now env) st req")
  case (Inl e)
  then show ?thesis using assms(2,4) by (auto simp: process_request_def)
next
  case (Inr pf)
  let ?n = "req_nullifier req"
  have hash: "canonical (aq_payload_hash req)"
    using validate_request_hash [OF _ Inr] assms(1) by (simp add: deps_ok_def)
  have finish: "table_inv (st_table st') \<and> table_evolves (st_table s) (st_table st') \<and>
      (\<forall>r. out = Inr r \<longrightarrow> owns (st_table st') req \<and> reply_ok D cfg (st_table st') r \<and>
        rr_request_nullifier r = req_nullifier req)"
    if "table_inv (st_table s)" "owns (st_table s) req" "finish_request D cfg env s req pf = (st', out)" for s
    using finish_request_inv [OF assms(1) that(1) assms(3) that(2,3)] owns_evolves that(2) by blast
  show ?thesis
  proof (cases "admit req (lookup_by_nullifier (dp_json D) (ev_lookup_fault env) (st_table st) ?n)")
    case (ReturnStored r)
    then show ?thesis
      using assms(2,4) Inr admit_stored [OF assms(2,3) refl ReturnStored] admit_stored_owns [OF ReturnStored]
      by (auto simp: process_request_def reply_ok_def)
  next
    case Proceed
    then show ?thesis using finish [OF assms(2) admit_proceed [OF refl Proceed]] assms(4) Inr
      by (simp add: process_request_def)
  next
    case (Refuse e)
    then show ?thesis using assms(2,4) Inr by (auto simp: process_request_def)
  next
    case MustReserve
    obtain tbl' o1 where res: "reserve (ev_reserve_fault env) (ev_now_reserve env) (st_table st) ?n
        (aq_client_request_id req) (aq_payload_hash req) = (tbl', o1)" by fastforce
    have ev: "table_inv tbl'" "table_evolves (st_table st) tbl'" using reserve_evolves [OF assms(2) res] by simp_all
    show ?thesis
    proof (cases o1)
      case (Inl e)
      then show ?thesis using ev assms(4) Inr MustReserve res by (auto simp: process_request_def)
    next
      case Inr1: (Inr u)
      have "owns tbl' req" using reserve_owns [OF assms(2) hash] res Inr1 by simp
      then have "table_inv (st_table st') \<and> table_evolves tbl' (st_table st') \<and>
          (\<forall>r. out = Inr r \<longrightarrow> owns (st_table st') req \<and> reply_ok D cfg (st_table st') r \<and>
            rr_request_nullifier r = req_nullifier req)"
        using finish [of "st\<lparr>st_table := tbl'\<rparr>"] ev(1) assms(4) Inr MustReserve res Inr1
        by (simp add: process_request_def)
      then show ?thesis using table_evolves_trans ev(2) by blast
    qed
  qed
qed

text \<open>What a retry of an answered request gives: validation may refuse it, a failing lookup makes the
  reservation refuse it, and otherwise the recorded reply comes back. The state is the same in each case.\<close>

lemma process_request_again:
  assumes "owns (st_table st) req" "answered (dp_json D) (st_table st) r"
    and "rr_request_nullifier r = req_nullifier req"
  shows "process_request D cfg env st req = (st,
    case validate_request D cfg (ev_now env) st req of
      Inl e \<Rightarrow> Inl e
    | Inr _ \<Rightarrow> if \<not> ev_lookup_fault env then Inr (stored_reply r)
              else Inl (Err (if ev_reserve_fault env then Database else Replay)))"
proof -
  obtain row where row: "row_of (st_table st) (req_nullifier req) = Some row" "row_status row = ''Finalized''"
    "row_client_request_id row = Some (rr_client_request_id r)"
    "stored_reply r = build_response_from_record (row_to_record (dp_json D) row) (rr_client_request_id r)"
    "row_client_request_id row = Some (aq_client_request_id req)"
    "parse_opt_felt (row_payload_hash row) = Some (aq_payload_hash req)"
    using assms(1,2,3) by (auto simp: answered_def owns_def)
  then have "admit req (lookup_by_nullifier (dp_json D) False (st_table st) (req_nullifier req))
      = ReturnStored (build_response_from_record (row_to_record (dp_json D) row) (aq_client_request_id req))"
    by (simp add: lookup_by_nullifier_def row_of_def admit_def)
      (simp add: row_to_record_def str_to_status_def)
  moreover have "lookup_by_nullifier (dp_json D) True (st_table st) (req_nullifier req) = None"
    by (simp add: lookup_by_nullifier_def)
  ultimately show ?thesis using row(1,3,4,5)
    by (cases "ev_lookup_fault env")
      (auto simp: process_request_def admit_def reserve_cases split: sum.splits)
qed

lemma owned_answer_steps:
  assumes "deps_ok D" "world_inv D cfg w" "(srv_step D cfg)\<^sup>*\<^sup>* w w'"
    and "owns (st_table (wd_state w)) req" "answered (dp_json D) (st_table (wd_state w)) r"
  shows "world_inv D cfg w' \<and> owns (st_table (wd_state w')) req \<and> answered (dp_json D) (st_table (wd_state w')) r"
  using assms(3)
proof induction
  case base
  then show ?case using assms by simp
next
  case (step y z)
  from srv_step_evolves [OF assms(1) _ step(2)] step.IH show ?case
    using world_inv_step [OF assms(1) _ step(2)] owns_evolves answered_evolves by blast
qed

lemma finalized_row_stays:
  assumes "deps_ok D" "world_inv D cfg w" "(srv_step D cfg)\<^sup>*\<^sup>* w w'"
    and "row_of (st_table (wd_state w)) n = Some row" "row_status row = ''Finalized''"
  shows "row_of (st_table (wd_state w')) n = Some row"
proof -
  have "world_inv D cfg w' \<and> row_of (st_table (wd_state w')) n = Some row"
    using assms(3)
  proof induction
    case base
    then show ?case using assms by simp
  next
    case (step y z)
    from srv_step_evolves [OF assms(1) _ step(2)] world_inv_step [OF assms(1) _ step(2)] step.IH show ?case
      using assms(5) by (fastforce simp: table_evolves_def row_evolves_def)
  qed
  then show ?thesis by simp
qed

text \<open>The successful run of a request whose nullifier is new.\<close>

lemma process_request_fresh:
  assumes "row_of (st_table st) (req_nullifier req) = None"
    and "process_request D cfg env st req = (st', Inr r)"
  obtains pf tbl1 sn' tr tbl2 where
    "validate_request D cfg (ev_now env) st req = Inr pf"
    "reserve (ev_reserve_fault env) (ev_now_reserve env) (st_table st) (req_nullifier req)
       (aq_client_request_id req) (aq_payload_hash req) = (tbl1, Inr ())"
    "execute_and_sign D cfg (ev_sign_fault env) (ev_now_transcript env) (st_signer st) req pf = (sn', Inr tr)"
    "finalize (dp_json D) (ev_finalize_fault env) (ev_now_finalize env) tbl1 (req_nullifier req) tr = (tbl2, Inr ())"
    "st' = st\<lparr>st_signer := sn', st_table := tbl2\<rparr>"
    "r = fresh_response tr (aq_client_request_id req)"
proof -
  have "lookup_by_nullifier (dp_json D) f (st_table st) (req_nullifier req) = None" for f
    using assms(1) by (simp add: lookup_by_nullifier_def row_of_def)
  then show ?thesis using assms(2) that
    by (auto simp: process_request_def admit_def finish_request_def Let_def split: sum.splits prod.splits)
qed

lemma sign_next_state_root:
  "sign_next_state S f sn bm = (sn', out) \<Longrightarrow> signer_state_root S sn' = signer_state_root S sn"
  by (auto simp: sign_next_state_def signer_state_root_def Let_def sign_with_index_def sign_reserved_def
      root_felt_def split: option.splits prod.splits sum.splits if_splits)

lemma build_next_state_Some:
  assumes "stark_field_ok (dp_stark D)" "curve_ok (dp_curve D)"
    and "build_next_state D cfg nul p charge leaf = Some ns"
  shows "reconstruct_affine_point D (ns_cx ns) (ns_cy ns) =
      Some (server_update (dp_stark D) (dp_curve D) p charge (from_bytes_be (dp_stark D) (ns_blind ns))) \<and>
    ns_message ns = compute_state_message (dp_stark D) (cf_protocol_version cfg) (cf_chain_id cfg)
      (cf_contract_address cfg) (ns_cx ns) (ns_cy ns) (ns_anchor ns)"
proof -
  have "from_bytes_be (dp_stark D) (to_bytes_be (dp_stark D) x) = x" for x
    using assms(1) by (simp add: stark_field_ok_def stark_ok_def)
  moreover have "from_affine (dp_curve D) x y = Some q" if "to_affine (dp_curve D) q = Some (x, y)" for x y q
    using assms(2) that unfolding curve_ok_def by blast
  moreover obtain x y where "to_affine (dp_curve D) (server_update (dp_stark D) (dp_curve D) p charge
      (from_bytes_be (dp_stark D) (ns_blind ns))) = Some (x, y)" "ns_cx ns = to_bytes_be (dp_stark D) x"
      "ns_cy ns = to_bytes_be (dp_stark D) y"
    and msg: "ns_message ns = compute_state_message (dp_stark D) (cf_protocol_version cfg) (cf_chain_id cfg)
      (cf_contract_address cfg) (ns_cx ns) (ns_cy ns) (ns_anchor ns)"
    using assms(3) unfolding build_next_state_def Let_def
    by (clarsimp split: option.splits prod.splits)
  ultimately show ?thesis by (simp only: reconstruct_affine_point_def)
qed

text \<open>What the reply to a new request carries.\<close>

lemma served_reply:
  fixes D :: "('f, 'g::ab_group_add) deps"
  defines "S \<equiv> dp_stark D"
  assumes "deps_ok D" "curve_ok (dp_curve D)" "keypair_inv S (state_keypair (st_signer st))"
    and "row_of (st_table st) (req_nullifier req) = None"
    and "process_request D cfg env st req = (st', Inr r)"
    and "reconstruct_affine_point D (r1_anon_commitment_x (aq_public_inputs req))
           (r1_anon_commitment_y (aq_public_inputs req)) = Some p"
  shows "rr_charge_applied r \<le> charge_cap cfg"
    and "charge_cap cfg \<le> r1_solvency_bound (aq_public_inputs req)"
    and "reconstruct_affine_point D (cp_x (rr_next_commitment r)) (cp_y (rr_next_commitment r)) =
      Some (server_update S (dp_curve D) p (rr_charge_applied r) (from_bytes_be S (rr_blind_delta_srv r)))"
    and "rr_next_state_sig_root r = signer_state_root S (st_signer st)"
    and "rr_next_state_sig_epoch r = state_epoch (st_signer st)"
    and "sig_epoch (rr_next_state_sig r) = state_epoch (st_signer st)"
    and "xmss_verify S (rr_next_state_sig_root r)
      (compute_state_message S (cf_protocol_version cfg) (cf_chain_id cfg) (cf_contract_address cfg)
        (cp_x (rr_next_commitment r)) (cp_y (rr_next_commitment r)) (rr_next_anchor r))
      (rr_next_state_sig r)"
    and "canonical_response_hash (dp_keccak D) (as_bytes_str (rr_response_payload r)) = Some (rr_response_hash r)"
    and "map_option (map_prod (to_bytes_be S) (to_bytes_be S)) (to_affine (dp_curve D)
        (server_update S (dp_curve D) p (rr_charge_applied r) (from_bytes_be S (rr_blind_delta_srv r)))) =
      Some (cp_x (rr_next_commitment r), cp_y (rr_next_commitment r))"
    and "r1_protocol_version (aq_public_inputs req) = cf_protocol_version cfg"
    and "r1_chain_id (aq_public_inputs req) = cf_chain_id cfg"
    and "r1_contract_address (aq_public_inputs req) = cf_contract_address cfg"
    and "\<exists>leaf. rr_next_anchor r = compute_next_anchor S (generate_server_rng S (req_nullifier req)) (req_nullifier req)
      (cp_x (rr_next_commitment r)) (cp_y (rr_next_commitment r)) leaf"
proof -
  have S: "stark_field_ok S" using assms(2) by (simp add: deps_ok_def S_def)
  obtain pf tbl1 sn' tr tbl2 where valid: "validate_request D cfg (ev_now env) st req = Inr pf"
    and ex: "execute_and_sign D cfg (ev_sign_fault env) (ev_now_transcript env) (st_signer st) req pf = (sn', Inr tr)"
    and r: "r = fresh_response tr (aq_client_request_id req)"
    using assms(5,6) by (rule process_request_fresh)
  obtain prov rh sg leaf m ns where rh: "canonical_response_hash (dp_keccak D) (as_bytes_str (pr_payload prov)) = Some rh"
    and cap: "\<not> pr_charge_applied prov > charge_cap cfg"
    and sign: "sign_next_state S (ev_sign_fault env) (st_signer st)
       (state_message_for D cfg (req_nullifier req) p (pr_charge_applied prov)) = (sn', Inr (sg, leaf, m))"
    and ns: "build_next_state D cfg (req_nullifier req) p (pr_charge_applied prov) leaf = Some ns"
    and tr: "tr = request_transcript D (ev_now_transcript env) req pf prov rh ns sg (root_felt S (state_keypair sn'))"
    using ex by (cases rule: execute_and_sign_Inr) (use assms(7) in \<open>auto simp: S_def\<close>)
  note sig = sign_next_state_Inr [OF assms(4) sign]
  note fields = r tr fresh_response_def request_transcript_def
  show "rr_charge_applied r \<le> charge_cap cfg" using cap by (simp add: fields not_less)
  show "charge_cap cfg \<le> r1_solvency_bound (aq_public_inputs req)"
    using valid by (auto simp: validate_request_def Let_def not_less split: option.splits if_splits)
  show "reconstruct_affine_point D (cp_x (rr_next_commitment r)) (cp_y (rr_next_commitment r)) =
      Some (server_update S (dp_curve D) p (rr_charge_applied r) (from_bytes_be S (rr_blind_delta_srv r)))"
    using build_next_state_Some [OF S [unfolded S_def] assms(3) ns] by (simp add: fields S_def)
  have root: "root_felt S (state_keypair sn') = signer_state_root S (st_signer st)"
    using sign_next_state_root [OF sign] by (simp add: signer_state_root_def)
  then show "rr_next_state_sig_root r = signer_state_root S (st_signer st)" by (simp add: fields)
  show "rr_next_state_sig_epoch r = state_epoch (st_signer st)"
    "sig_epoch (rr_next_state_sig r) = state_epoch (st_signer st)"
    using sig by (simp_all add: fields)
  have "xmss_verify S (signer_state_root S (st_signer st)) m sg"
    using sig leaf_signature_xmss_verify [OF _ assms(4), of leaf m] S
    by (simp add: signer_state_root_def stark_field_ok_def)
  moreover have "m = ns_message ns" using sig ns by (simp add: state_message_for_def)
  ultimately show "xmss_verify S (rr_next_state_sig_root r)
      (compute_state_message S (cf_protocol_version cfg) (cf_chain_id cfg) (cf_contract_address cfg)
        (cp_x (rr_next_commitment r)) (cp_y (rr_next_commitment r)) (rr_next_anchor r)) (rr_next_state_sig r)"
    using build_next_state_Some [OF S [unfolded S_def] assms(3) ns] root by (simp add: fields S_def)
  show "canonical_response_hash (dp_keccak D) (as_bytes_str (rr_response_payload r)) = Some (rr_response_hash r)"
    using rh by (simp add: fields)
  show "map_option (map_prod (to_bytes_be S) (to_bytes_be S)) (to_affine (dp_curve D)
        (server_update S (dp_curve D) p (rr_charge_applied r) (from_bytes_be S (rr_blind_delta_srv r)))) =
      Some (cp_x (rr_next_commitment r), cp_y (rr_next_commitment r))"
    and "\<exists>leaf. rr_next_anchor r = compute_next_anchor S (generate_server_rng S (req_nullifier req)) (req_nullifier req)
      (cp_x (rr_next_commitment r)) (cp_y (rr_next_commitment r)) leaf"
    using ns by (auto simp: fields build_next_state_def S_def Let_def split: option.splits)
  show "r1_protocol_version (aq_public_inputs req) = cf_protocol_version cfg"
    "r1_chain_id (aq_public_inputs req) = cf_chain_id cfg"
    "r1_contract_address (aq_public_inputs req) = cf_contract_address cfg"
    using valid by (auto simp: validate_request_def Let_def split: option.splits if_splits)
qed

text \<open>Enough for a request to be served.\<close>

lemma process_request_serves:
  assumes "table_inv (st_table st)" "row_of (st_table st) (req_nullifier req) = None"
    and "validate_request D cfg (ev_now env) st req = Inr pf"
    and "\<not> ev_reserve_fault env" "\<not> ev_finalize_fault env"
    and "dp_provider D (aq_client_request_id req) (aq_payload req) (aq_payload_hash req) = Inr prov"
    and "canonical_response_hash (dp_keccak D) (as_bytes_str (pr_payload prov)) = Some rh"
    and "pr_charge_applied prov \<le> charge_cap cfg"
    and "reconstruct_affine_point D (r1_anon_commitment_x (aq_public_inputs req))
           (r1_anon_commitment_y (aq_public_inputs req)) = Some p"
    and "sign_next_state (dp_stark D) (ev_sign_fault env) (st_signer st)
           (state_message_for D cfg (req_nullifier req) p (pr_charge_applied prov)) = (sn', Inr (sg, leaf, m))"
    and "build_next_state D cfg (req_nullifier req) p (pr_charge_applied prov) leaf = Some ns"
  shows "\<exists>st' r. process_request D cfg env st req = (st', Inr r) \<and>
    rr_response_payload r = pr_payload prov \<and> rr_charge_applied r = pr_charge_applied prov"
proof -
  let ?n = "req_nullifier req"
  let ?row = "reserved_row (ev_now_reserve env) ?n (aq_client_request_id req) (aq_payload_hash req)"
  let ?tr = "request_transcript D (ev_now_transcript env) req pf prov rh ns sg
      (signer_state_root (dp_stark D) sn')"
  have res: "reserve (ev_reserve_fault env) (ev_now_reserve env) (st_table st) ?n
      (aq_client_request_id req) (aq_payload_hash req) = (st_table st @ [?row], Inr ())"
    using assms(2,4) by (simp add: reserve_cases)
  then have "table_inv (st_table st @ [?row])" using reserve_evolves [OF assms(1)] by blast
  moreover have "row_of (st_table st @ [?row]) ?n = Some ?row"
    using row_of_append [of ?row ?n "st_table st"] assms(2) by simp
  ultimately obtain tbl2 where "finalize (dp_json D) (ev_finalize_fault env) (ev_now_finalize env)
      (st_table st @ [?row]) ?n ?tr = (tbl2, Inr ())"
    using assms(5) by (simp add: finalize_cases)
  moreover have "execute_and_sign D cfg (ev_sign_fault env) (ev_now_transcript env) (st_signer st) req pf
      = (sn', Inr ?tr)"
    using assms(6-11) by (simp add: execute_and_sign_def Let_def)
  moreover have "lookup_by_nullifier (dp_json D) f (st_table st) ?n = None" for f
    using assms(2) by (simp add: lookup_by_nullifier_def row_of_def)
  ultimately show ?thesis
    using assms(3) res
    by (simp add: process_request_def admit_def finish_request_def)
      (simp add: fresh_response_def request_transcript_def)
qed

section \<open>A served request\<close>

text \<open>Concrete dependencies for the witnesses: a Poseidon that is
  zero for blinding deltas and one otherwise, a constant Keccak, the scalar curve and an
  echoing provider that charges 100.\<close>

definition toy_stark :: "stark_felt stark" where
  "toy_stark = mod_stark\<lparr>poseidon_hash_many := (\<lambda>xs. Abs_stark_felt (if length xs = 4 then 0 else 1))\<rparr>"

definition toy_deps :: "(stark_felt, scalar_group) deps" where
  "toy_deps = \<lparr>dp_stark = toy_stark, dp_curve = scalar_curve, dp_keccak = (\<lambda>_. replicate 32 0),
     dp_json = unary_json, dp_base64_decode = (\<lambda>_. Some [1, 2]), dp_verify_artifact = (\<lambda>_ _ _. True),
     dp_provider = echo_execute 100\<rparr>"

definition toy_state :: "stark_felt server_state" where
  "toy_state = \<lparr>st_table = [],
     st_signer = with_height toy_stark (Abs_stark_felt 0) (Abs_stark_felt 0) 3 2, st_root = 0\<rparr>"

definition toy_inputs :: RequestPublicInputs where
  "toy_inputs = \<lparr>r1_statement_type = STATEMENT_TYPE_REQUEST, r1_protocol_version = 1, r1_chain_id = 1,
     r1_contract_address = 0, r1_active_root = 0, r1_state_sig_epoch = 0, r1_state_sig_root = 0,
     r1_request_nullifier = 42, r1_anon_commitment_x = 2000000, r1_anon_commitment_y = 0,
     r1_expiry_ts = 10, r1_solvency_bound = 1000000\<rparr>"

definition toy_request :: ApiRequest where
  "toy_request = \<lparr>aq_client_request_id = ''req-1'', aq_payload = ''hello'', aq_payload_hash = 0,
     aq_public_inputs = toy_inputs,
     aq_proof = \<lparr>pa_backend = StwoCairo, pa_public_output_hash = 0, pa_proof = ''AQI=''\<rparr>\<rparr>"

definition toy_env :: request_env where
  "toy_env = \<lparr>ev_now = 5, ev_now_reserve = 5, ev_now_transcript = 6, ev_now_finalize = 7,
     ev_lookup_fault = False, ev_reserve_fault = False, ev_sign_fault = False, ev_finalize_fault = False\<rparr>"

lemma toy_stark_ok: "stark_field_ok toy_stark"
  using mod_stark_ok by (simp add: toy_stark_def stark_field_ok_def stark_ok_def)

lemma toy_hash: "hash_bytes_to_felt (\<lambda>_. replicate 32 0) tag p = Some 0"
proof -
  have "try_from_bytes_be (replicate 32 0) = Inr 0"
    by (simp add: try_from_bytes_be_eq field_modulus_def felt_of_bytes_def)
  then show ?thesis by (simp add: hash_bytes_to_felt_def hash_loop.simps)
qed

lemma toy_deps_ok: "deps_ok toy_deps"
  using toy_stark_ok unary_json_ok
  by (simp add: deps_ok_def toy_deps_def keccak_ok_def provider_ok_def echo_execute_def charge_cap_def
      ServerConfig_default_def)

lemma nsmul_generator: "n < CURVE_ORDER \<Longrightarrow> nsmul n (Abs_scalar_group 1) = Abs_scalar_group (int n)"
  by (subst Rep_scalar_group_inject [symmetric])
    (simp add: Rep_nsmul Abs_scalar_group_inverse CURVE_ORDER_def)

lemma toy_point:
  "reconstruct_affine_point toy_deps 2000000 0 = Some (commit toy_stark scalar_curve 2000000 (felt_from_u128 toy_stark 0))"
proof -
  have "commit toy_stark scalar_curve 2000000 (felt_from_u128 toy_stark 0) = Abs_scalar_group 2000000"
    using nsmul_generator [of 2000000]
    by (simp add: commit_eq [OF toy_stark_ok] to_biguint_from_u128 [OF toy_stark_ok] scalar_curve_def CURVE_ORDER_def)
  then show ?thesis
    by (simp add: reconstruct_affine_point_def toy_deps_def toy_stark_def mod_stark_def scalar_curve_def
        Abs_stark_felt_inverse STARK_PRIME_def CURVE_ORDER_def)
qed

lemma toy_update:
  assumes "c = 1 \<or> c = 100"
  shows "server_update toy_stark scalar_curve (commit toy_stark scalar_curve 2000000 (felt_from_u128 toy_stark 0)) c
     (Abs_stark_felt 0) = Abs_scalar_group (2000000 - uint c)"
proof -
  have "to_biguint toy_stark (Abs_stark_felt 0) = 0"
    by (simp add: to_biguint_def toy_stark_def mod_stark_def Abs_stark_felt_inverse STARK_PRIME_def)
  moreover have "c \<le> 2000000" using assms by auto
  then have "server_update toy_stark scalar_curve
      (commit toy_stark scalar_curve 2000000 (felt_from_u128 toy_stark 0)) c (Abs_stark_felt 0)
    = commit toy_stark scalar_curve (2000000 - c) (add_blinding toy_stark (felt_from_u128 toy_stark 0) (Abs_stark_felt 0))"
    using server_update_commit [OF toy_stark_ok scalar_curve_ok, of c 2000000] by simp
  ultimately show ?thesis using assms nsmul_generator [of 1999900] nsmul_generator [of 1999999]
    by (auto simp: commit_eq [OF toy_stark_ok] to_biguint_add_blinding [OF toy_stark_ok]
        to_biguint_from_u128 [OF toy_stark_ok])
      (simp_all add: scalar_curve_def CURVE_ORDER_def)
qed

lemma toy_next_state:
  assumes "c = 1 \<or> c = 100"
  shows "\<exists>ns. build_next_state toy_deps ServerConfig_default 42
     (commit toy_stark scalar_curve 2000000 (felt_from_u128 toy_stark 0)) c leaf = Some ns"
proof -
  have "from_bytes_be toy_stark (compute_blind_delta toy_stark x y leaf) = Abs_stark_felt 0" for x y
    by (simp add: compute_blind_delta_def poseidon_hash_chain_def toy_stark_def mod_stark_def
        Abs_stark_felt_inverse STARK_PRIME_def)
  moreover have "Abs_scalar_group (2000000 - uint c) \<noteq> 0" using assms
    by (auto simp: Rep_scalar_group_inject [symmetric] zero_scalar_group.rep_eq Abs_scalar_group_inverse CURVE_ORDER_def)
  ultimately show ?thesis
    by (simp add: build_next_state_def toy_deps_def Let_def toy_update [OF assms]) (simp add: scalar_curve_def Let_def)
qed

lemma toy_valid: "st_root st = 0 \<Longrightarrow> validate_request toy_deps ServerConfig_default 5 st toy_request = Inr [1, 2]"
  by (simp add: validate_request_def toy_deps_def toy_request_def toy_inputs_def
      ServerConfig_default_def canonical_payload_hash_def toy_hash charge_cap_def ZERO_def
      validate_state_sig_root_def is_zero_def verify_request_proof_artifact_def r1_public_output_hash_def
      hash_felts_to_felt_def)

lemma toy_fields [simp]:
  "req_nullifier toy_request = 42" "r1_anon_commitment_x (aq_public_inputs toy_request) = 2000000"
  "r1_anon_commitment_y (aq_public_inputs toy_request) = 0" "dp_keccak toy_deps = (\<lambda>_. replicate 32 0)"
  "ev_now toy_env = 5" "ev_reserve_fault toy_env = False" "ev_sign_fault toy_env = False"
  "ev_finalize_fault toy_env = False" "ev_lookup_fault toy_env = False"
  "cf_policy_enabled ServerConfig_default = False" "cf_request_charge_cap ServerConfig_default = 1000000"
  "st_table toy_state = []" "st_root toy_state = 0" "inputs_canonical (aq_public_inputs toy_request)"
  by (simp_all add: toy_request_def toy_inputs_def toy_deps_def toy_env_def ServerConfig_default_def toy_state_def
      inputs_canonical_def canonical_def field_modulus_def)

lemma toy_table: "table_inv (st_table toy_state)" "row_of (st_table toy_state) n = None"
  by (simp_all add: table_inv_def row_of_def)

lemma toy_signs: "\<exists>sn' sg leaf m. sign_next_state toy_stark False (st_signer toy_state) bm = (sn', Inr (sg, leaf, m))"
proof -
  have "kp_next_index (state_keypair (st_signer toy_state)) = 0" "kp_height (state_keypair (st_signer toy_state)) = 2"
    "durable_state (st_signer toy_state) = None" "\<not> operation_lock_poisoned (st_signer toy_state)"
    by (simp_all add: toy_state_def with_height_def generate_with_height_def Let_def)
  then show ?thesis by (simp add: sign_next_state_def sign_with_index_def Let_def)
qed

lemma toy_served: "\<exists>st' r. process_request toy_deps ServerConfig_default toy_env toy_state toy_request = (st', Inr r)"
proof -
  let ?bm = "state_message_for toy_deps ServerConfig_default 42
      (commit toy_stark scalar_curve 2000000 (felt_from_u128 toy_stark 0)) 100"
  obtain sn' sg leaf m where sign: "sign_next_state toy_stark False (st_signer toy_state) ?bm = (sn', Inr (sg, leaf, m))"
    using toy_signs by blast
  obtain ns where ns: "build_next_state toy_deps ServerConfig_default 42
      (commit toy_stark scalar_curve 2000000 (felt_from_u128 toy_stark 0)) 100 leaf = Some ns"
    using toy_next_state by blast
  have prov: "dp_provider toy_deps (aq_client_request_id toy_request) (aq_payload toy_request)
      (aq_payload_hash toy_request) = Inr \<lparr>pr_status_code = 200, pr_payload = ''hello'',
        pr_charge_applied = 100, pr_policy_reason_code = None, pr_policy_evidence_hash = None\<rparr>"
    by (simp add: toy_deps_def echo_execute_def toy_request_def)
  have "dp_stark toy_deps = toy_stark" by (simp add: toy_deps_def)
  then show ?thesis
    using process_request_serves [where D = toy_deps and cfg = ServerConfig_default and env = toy_env
        and st = toy_state, OF toy_table(1,2) _ _ _ prov, of "[1, 2]" 0] sign ns toy_valid [of toy_state] toy_point
    by (simp add: canonical_response_hash_def toy_hash charge_cap_def) blast
qed

lemma toy_reply:
  obtains st' r where "process_request toy_deps ServerConfig_default toy_env toy_state toy_request = (st', Inr r)"
    "reachable toy_deps ServerConfig_default (initial_world toy_state)"
    "wd_state (initial_world toy_state) = toy_state" "wd_jobs (initial_world toy_state) = []"
proof -
  have "toy_state\<lparr>st_table := []\<rparr> = toy_state" by (simp add: toy_state_def)
  then show ?thesis using toy_served that reachable.start [of toy_deps ServerConfig_default toy_state]
    by (auto simp: initial_world_def)
qed


section \<open>Properties\<close>

text \<open>Claim C2. Under every interleaving of requests, clearances, root updates and crashes, all replies
  for one nullifier are the same reply up to the charge, which may have passed through the signed 64-bit
  charge column; with a charge cap below \<open>2 ^ 63\<close> they are identical. Above that bound, which the server
  does not check, a first reply and its replay can differ in the charge (\<open>stored_charge_overflow\<close>). A
  nullifier that was answered is never cleared for a mutual close, whatever the cap: a spent note state
  cannot be spent again and cannot be withdrawn with the server's consent.\<close>

theorem replies_consistent:
  assumes "deps_ok D" "reachable D cfg w" "r \<in> set (wd_replies w)"
  shows "(\<forall>r' \<in> set (wd_replies w). rr_request_nullifier r' = rr_request_nullifier r \<longrightarrow>
      stored_reply r' = stored_reply r \<and> (charge_cap cfg < 2 ^ 63 \<longrightarrow> r' = r)) \<and>
    (\<forall>c \<in> set (wd_cleared w). cr_withdrawal_nullifier c \<noteq> rr_request_nullifier r)"
proof -
  let ?tbl = "st_table (wd_state w)"
  have inv: "\<forall>r \<in> set (wd_replies w). reply_ok D cfg ?tbl r"
    "\<forall>c \<in> set (wd_cleared w). cleared ?tbl (cr_withdrawal_nullifier c)"
    using world_inv_reachable [OF assms(1,2)] by (simp_all add: world_inv_def Let_def)
  then have fit: "\<forall>r \<in> set (wd_replies w). charge_cap cfg < 2 ^ 63 \<longrightarrow> stored_reply r = r"
    using charges_fit_cap [of cfg D] by (auto simp: reply_ok_def)
  obtain row where row: "row_of ?tbl (rr_request_nullifier r) = Some row" "row_status row = ''Finalized''"
    "row_client_request_id row = Some (rr_client_request_id r)"
    "stored_reply r = build_response_from_record (row_to_record (dp_json D) row) (rr_client_request_id r)"
    using inv(1) assms(3) by (auto simp: reply_ok_def answered_def)
  have "stored_reply r' = stored_reply r \<and> (charge_cap cfg < 2 ^ 63 \<longrightarrow> r' = r)"
    if "r' \<in> set (wd_replies w)" "rr_request_nullifier r' = rr_request_nullifier r" for r'
  proof -
    have "answered (dp_json D) ?tbl r'" using inv(1) that(1) by (auto simp: reply_ok_def)
    then have "stored_reply r' = stored_reply r"
      using row that(2) by (auto simp: answered_def)
    then show ?thesis using fit that(1) assms(3) by metis
  qed
  moreover have "cr_withdrawal_nullifier c \<noteq> rr_request_nullifier r" if "c \<in> set (wd_cleared w)" for c
    using inv(2) that row(1,2) by (auto simp: cleared_def)
  ultimately show ?thesis by blast
qed

theorem replies_consistent_witness:
  "\<exists>w r. reachable toy_deps ServerConfig_default w \<and> wd_replies w = [r] \<and>
    (\<forall>r' \<in> set (wd_replies w). rr_request_nullifier r' = rr_request_nullifier r \<longrightarrow> r' = r)"
proof -
  obtain st' r where run: "process_request toy_deps ServerConfig_default toy_env toy_state toy_request = (st', Inr r)"
    and w0: "reachable toy_deps ServerConfig_default (initial_world toy_state)"
    "wd_state (initial_world toy_state) = toy_state" "wd_jobs (initial_world toy_state) = []"
    by (rule toy_reply)
  let ?w = "after_request (initial_world toy_state) st' (Inr r)"
  have "reachable toy_deps ServerConfig_default ?w"
    by (rule process_request_reachable [OF w0(1,3)]) (use w0(2) run in simp_all)
  moreover have "wd_replies ?w = [r]" by (simp add: after_request_def initial_world_def)
  ultimately show ?thesis
    using replies_consistent [OF toy_deps_ok, of ServerConfig_default ?w r] by (force simp: charge_cap_def)
qed

text \<open>Claim C6. What a retry gets. After a request was handled from start to end with no other job in
  flight and answered, and whatever other requests, clearances, root updates and crashes happen in between,
  handling the same request again never changes the server's state. If validation refuses it by now (an
  expired note, a changed root or another failed check), its error is the outcome; if the lookup fails, the
  reservation refuses it; otherwise the outcome is the first reply with its charge as the signed 64-bit
  charge column gives it back, which is the identical reply when the charge cap is below \<open>2 ^ 63\<close>.\<close>

theorem retry_returns_same_reply:
  assumes "deps_ok D" "reachable D cfg w" "wd_jobs w = []" "inputs_canonical (aq_public_inputs req)"
    and "process_request D cfg env (wd_state w) req = (st', Inr r)"
    and "(srv_step D cfg)\<^sup>*\<^sup>* (after_request w st' (Inr r)) w'"
  shows "process_request D cfg env' (wd_state w') req = (wd_state w',
      case validate_request D cfg (ev_now env') (wd_state w') req of
        Inl e \<Rightarrow> Inl e
      | Inr _ \<Rightarrow> if \<not> ev_lookup_fault env' then Inr (stored_reply r)
                else Inl (Err (if ev_reserve_fault env' then Database else Replay))) \<and>
    (charge_cap cfg < 2 ^ 63 \<longrightarrow> stored_reply r = r)"
proof -
  let ?w = "after_request w st' (Inr r)"
  have can: "canonical (req_nullifier req)" using assms(4) by (simp add: inputs_canonical_def)
  have "table_inv (st_table (wd_state w))"
    using world_inv_reachable [OF assms(1,2)] by (simp add: world_inv_def Let_def)
  from process_request_inv [OF assms(1) this can assms(5)]
  have own: "owns (st_table (wd_state ?w)) req" "answered (dp_json D) (st_table (wd_state ?w)) r"
    and nul: "rr_request_nullifier r = req_nullifier req"
    and fit: "charges_fit D cfg \<longrightarrow> stored_reply r = r"
    by (simp_all add: after_request_def reply_ok_def)
  have "world_inv D cfg ?w"
    by (rule world_inv_reachable [OF assms(1) process_request_reachable [OF assms(2-5)]])
  from owned_answer_steps [OF assms(1) this assms(6) own]
  show ?thesis using process_request_again [OF _ _ nul] fit charges_fit_cap by blast
qed

theorem retry_returns_same_reply_witness:
  "\<exists>st' r. process_request toy_deps ServerConfig_default toy_env toy_state toy_request = (st', Inr r) \<and>
    process_request toy_deps ServerConfig_default toy_env st' toy_request = (st', Inr r)"
proof -
  obtain st' r where run: "process_request toy_deps ServerConfig_default toy_env toy_state toy_request = (st', Inr r)"
    and w0: "reachable toy_deps ServerConfig_default (initial_world toy_state)"
    "wd_state (initial_world toy_state) = toy_state" "wd_jobs (initial_world toy_state) = []"
    by (rule toy_reply)
  have "st_root st' = st_root toy_state"
    using run   by (auto simp: process_request_def finish_request_def Let_def
        split: sum.splits admission.splits prod.splits)
  then have "validate_request toy_deps ServerConfig_default 5 st' toy_request = Inr [1, 2]"
    by (simp add: toy_valid)
  then show ?thesis
    using retry_returns_same_reply [OF toy_deps_ok w0(1,3), of toy_request toy_env st' r
        "after_request (initial_world toy_state) st' (Inr r)" toy_env] run w0(2)
    by (auto simp: after_request_def charge_cap_def)
qed

text \<open>Claim C3. What a served request does to the note: the charge never exceeds the configured cap,
  the next commitment opens to the balance minus the charge under the blinding that the client's and
  the server's randomness add up to, and the signature over the next state verifies against the
  published root. With a solvency bound at least the cap, a charge cannot make the balance wrap.\<close>

theorem served_request_charges:
  fixes D :: "('f, 'g::ab_group_add) deps"
  defines "S \<equiv> dp_stark D"
  assumes "deps_ok D" "curve_ok (dp_curve D)" "keypair_inv S (state_keypair (st_signer st))"
    and "row_of (st_table st) (req_nullifier req) = None"
    and "process_request D cfg env st req = (st', Inr r)"
    and "reconstruct_affine_point D (r1_anon_commitment_x (aq_public_inputs req))
           (r1_anon_commitment_y (aq_public_inputs req)) = Some (commit S (dp_curve D) balance blinding)"
    and "r1_solvency_bound (aq_public_inputs req) \<le> balance"
  shows "rr_charge_applied r \<le> charge_cap cfg \<and> rr_charge_applied r \<le> balance \<and>
    reconstruct_affine_point D (cp_x (rr_next_commitment r)) (cp_y (rr_next_commitment r)) =
      Some (commit S (dp_curve D) (balance - rr_charge_applied r)
        (add_blinding S blinding (from_bytes_be S (rr_blind_delta_srv r)))) \<and>
    rr_next_state_sig_root r = signer_state_root S (st_signer st) \<and>
    xmss_verify S (rr_next_state_sig_root r)
      (compute_state_message S (cf_protocol_version cfg) (cf_chain_id cfg) (cf_contract_address cfg)
        (cp_x (rr_next_commitment r)) (cp_y (rr_next_commitment r)) (rr_next_anchor r))
      (rr_next_state_sig r)"
proof -
  have S: "stark_field_ok S" using assms(2) by (simp add: deps_ok_def S_def)
  note reply = served_reply [OF assms(2,3) assms(4) [unfolded S_def] assms(5-7), folded S_def]
  have "rr_charge_applied r \<le> balance" using reply(1,2) assms(8) by order
  then show ?thesis using reply(1,3,4,7) server_update_commit [OF S assms(3)] by simp
qed

theorem served_request_charges_witness:
  "\<exists>st' r. process_request toy_deps ServerConfig_default toy_env toy_state toy_request = (st', Inr r) \<and>
    rr_charge_applied r \<le> 1000000 \<and>
    reconstruct_affine_point toy_deps (cp_x (rr_next_commitment r)) (cp_y (rr_next_commitment r)) =
      Some (commit toy_stark scalar_curve (2000000 - rr_charge_applied r)
        (add_blinding toy_stark (felt_from_u128 toy_stark 0) (from_bytes_be toy_stark (rr_blind_delta_srv r))))"
proof -
  obtain st' r where run: "process_request toy_deps ServerConfig_default toy_env toy_state toy_request = (st', Inr r)"
    by (rule toy_reply)
  have D: "dp_stark toy_deps = toy_stark" "dp_curve toy_deps = scalar_curve" by (simp_all add: toy_deps_def)
  have kp: "keypair_inv toy_stark (state_keypair (st_signer toy_state))"
    by (simp add: toy_state_def with_height_def keypair_inv_generate)
  have "r1_solvency_bound (aq_public_inputs toy_request) \<le> 2000000"
    by (simp add: toy_request_def toy_inputs_def)
  then show ?thesis
    using served_request_charges [of toy_deps toy_state toy_request ServerConfig_default toy_env st' r 2000000
        "felt_from_u128 toy_stark 0"] run toy_deps_ok scalar_curve_ok kp toy_table toy_point
    by (simp add: D charge_cap_def)
qed

text \<open>Claim C31. The challenge planner can always answer a stale escape for a served request: from the
  moment of the reply on, whatever else the server does, it produces the request's own public inputs
  and proof bytes for that nullifier.\<close>

theorem challenge_action_available:
  assumes "deps_ok D" "reachable D cfg w" "wd_jobs w = []" "inputs_canonical (aq_public_inputs req)"
    and "row_of (st_table (wd_state w)) (req_nullifier req) = None"
    and "process_request D cfg env (wd_state w) req = (st', Inr r)"
    and "(srv_step D cfg)\<^sup>*\<^sup>* (after_request w st' (Inr r)) w'"
  shows "\<exists>proof. validate_request D cfg (ev_now env) (wd_state w) req = Inr proof \<and>
    build_challenge_action (dp_json D) False (st_table (wd_state w')) note_id (req_nullifier req) siblings =
      Inr \<lparr>ca_note_id = note_id, ca_request_inputs = aq_public_inputs req,
           ca_proof_artifact = proof, ca_siblings = siblings\<rparr>"
  using assms(5,6)
proof (cases rule: process_request_fresh)
  case (1 pf tbl1 sn' tr tbl2)
  let ?n = "req_nullifier req" and ?J = "dp_json D"
  have inv: "table_inv (st_table (wd_state w))"
    using world_inv_reachable [OF assms(1,2)] by (simp add: world_inv_def Let_def)
  obtain row where row: "row_of tbl1 ?n = Some row" using 1(2) assms(5)
      row_of_append [of "reserved_row (ev_now_reserve env) ?n (aq_client_request_id req) (aq_payload_hash req)" ?n]
    by (auto simp: reserve_cases split: if_splits)
  have tbl1: "table_inv tbl1" using reserve_evolves [OF inv 1(2)] by simp
  let ?row = "finalized_row ?J (ev_now_finalize env) tr row"
  have "row_of tbl2 ?n = Some ?row"
    using 1(4) row row_of_finalize [OF tbl1 row] by (auto simp: finalize_cases [OF tbl1] split: if_splits)
  moreover have "wd_state (after_request w st' (Inr r)) = (wd_state w)\<lparr>st_signer := sn', st_table := tbl2\<rparr>"
    using 1(5) by (simp add: after_request_def)
  ultimately have "row_of (st_table (wd_state w')) ?n = Some ?row"
    using finalized_row_stays [OF assms(1) world_inv_reachable [OF assms(1) process_request_reachable [OF assms(2-4,6)]]
        assms(7), of ?n ?row] by simp
  moreover have tr: "transcript_for D cfg req tr" by (rule execute_and_sign_transcript [OF assms(1) 1(3)])
  ultimately have "lookup_by_nullifier ?J False (st_table (wd_state w')) ?n = Some (row_to_record ?J ?row)"
    by (simp add: lookup_by_nullifier_def row_of_def)
  moreover have "tr_status (row_to_record ?J ?row) = Finalized \<and>
      tr_request_inputs_json (row_to_record ?J ?row) = tr_request_inputs_json tr \<and>
      tr_proof_blob (row_to_record ?J ?row) = tr_proof_blob tr"
    by (simp add: row_to_record_def finalized_row_def str_to_status_def)
  moreover have "tr_request_inputs_json tr = inputs_to_json ?J (aq_public_inputs req) \<and> tr_proof_blob tr = Some pf"
    using 1(3) by (cases rule: execute_and_sign_Inr) (simp add: request_transcript_def)
  moreover obtain t where "inputs_to_json ?J (aq_public_inputs req) = Some t" "inputs_of_json ?J t = Some (aq_public_inputs req)"
    using assms(1,4) unfolding deps_ok_def json_ok_def by blast
  ultimately show ?thesis using 1(1)
    by (simp add: build_challenge_action_def finalized_transcript_def bail_if_def ok_or_def)
qed

theorem challenge_action_available_witness:
  "\<exists>st' r. process_request toy_deps ServerConfig_default toy_env toy_state toy_request = (st', Inr r) \<and>
    build_challenge_action unary_json False (st_table st') 7 42 [] =
      Inr \<lparr>ca_note_id = 7, ca_request_inputs = toy_inputs, ca_proof_artifact = [1, 2], ca_siblings = []\<rparr>"
proof -
  obtain st' r where run: "process_request toy_deps ServerConfig_default toy_env toy_state toy_request = (st', Inr r)"
    and w0: "reachable toy_deps ServerConfig_default (initial_world toy_state)"
    "wd_state (initial_world toy_state) = toy_state" "wd_jobs (initial_world toy_state) = []"
    by (rule toy_reply)
  have "dp_json toy_deps = unary_json" "aq_public_inputs toy_request = toy_inputs"
    "r1_request_nullifier toy_inputs = 42"
    by (simp_all add: toy_deps_def toy_request_def toy_inputs_def)
  moreover have "inputs_canonical toy_inputs" using toy_fields(14) by (simp add: toy_request_def)
  ultimately show ?thesis
    using challenge_action_available [OF toy_deps_ok w0(1,3), of toy_request toy_env st' r
        "after_request (initial_world toy_state) st' (Inr r)" 7 "[]"] run w0(2) toy_valid [of toy_state] toy_table
    by (auto simp: after_request_def)
qed

text \<open>A client that lost a reply recovers it: in every reachable world a working lookup by
  the nullifier of a reply returns that very reply, marked finalized.\<close>

lemma recovery_returns_reply:
  assumes "deps_ok D" "reachable D cfg w" "r \<in> set (wd_replies w)"
  shows "recover_by_nullifier D False (wd_state w) (rr_request_nullifier r) =
    Inr \<lparr>rc_status = ''ok'', rc_nullifier_status = ''finalized'', rc_request_response = Some (stored_reply r)\<rparr> \<and>
    (charge_cap cfg < 2 ^ 63 \<longrightarrow> stored_reply r = r)"
proof -
  let ?tbl = "st_table (wd_state w)"
  have ok: "reply_ok D cfg ?tbl r"
    using world_inv_reachable [OF assms(1,2)] assms(3) by (simp add: world_inv_def Let_def)
  then obtain row where row: "row_of ?tbl (rr_request_nullifier r) = Some row" "row_status row = ''Finalized''"
    "row_client_request_id row = Some (rr_client_request_id r)"
    "stored_reply r = build_response_from_record (row_to_record (dp_json D) row) (rr_client_request_id r)"
    by (auto simp: reply_ok_def answered_def)
  moreover have "tr_client_request_id (row_to_record (dp_json D) row) = row_client_request_id row"
    "tr_status (row_to_record (dp_json D) row) = Finalized"
    using row(2) by (simp_all add: row_to_record_def str_to_status_def)
  ultimately show ?thesis
    using ok charges_fit_cap [of cfg D]
    by (simp add: recover_by_nullifier_def lookup_by_nullifier_def row_of_def build_recovery_response_def
        unwrap_or_def reply_ok_def)
qed

text \<open>Claim C32. A clearance is granted only for a nullifier the server has never seen when its lookup
  works: a granted clearance reserves the nullifier, its signature verifies over the clearance message
  against the clearance root, and a nullifier that has a row is refused without any change.\<close>

theorem clearance_guarded:
  fixes D :: "('f, 'g) deps"
  assumes "stark_ok (dp_stark D)" "keypair_inv (dp_stark D) (clear_keypair (st_signer st))"
    and "process_clearance D cfg env st creq = (st', out)" "\<not> ev_lookup_fault env"
  shows "case out of
      Inr c \<Rightarrow> row_of (st_table st) (cq_withdrawal_nullifier creq) = None \<and>
        cleared (st_table st') (cq_withdrawal_nullifier creq) \<and>
        cr_withdrawal_nullifier c = cq_withdrawal_nullifier creq \<and>
        xmss_verify (dp_stark D) (signer_clear_root (dp_stark D) (st_signer st))
          (compute_clearance_message (dp_stark D) (cf_protocol_version cfg) (cf_chain_id cfg)
             (cf_contract_address cfg) (cq_withdrawal_nullifier creq)) (cr_clear_sig c)
    | Inl e \<Rightarrow> st_table st' = st_table st \<and>
        (row_of (st_table st) (cq_withdrawal_nullifier creq) \<noteq> None \<longrightarrow> e = NullifierUsed \<and> st' = st)"
proof -
  let ?n = "cq_withdrawal_nullifier creq" and ?S = "dp_stark D"
  let ?m = "compute_clearance_message ?S (cf_protocol_version cfg) (cf_chain_id cfg) (cf_contract_address cfg) ?n"
  have look: "lookup_by_nullifier (dp_json D) (ev_lookup_fault env) (st_table st) ?n \<noteq> None
      \<longleftrightarrow> row_of (st_table st) ?n \<noteq> None"
    using assms(4) by (simp add: lookup_by_nullifier_def row_of_def)
  obtain sn' o1 where sign: "sign_clearance ?S (ev_sign_fault env) (st_signer st) ?m = (sn', o1)" by fastforce
  have sig: "xmss_verify ?S (signer_clear_root ?S (st_signer st)) ?m sg" if "o1 = Inr (sg, i)" for sg i
    using sign_clearance_Inr [OF assms(2), of "ev_sign_fault env" ?m sn' sg i] sign that
      leaf_signature_xmss_verify [OF assms(1,2), of i ?m] by (simp add: signer_clear_root_def)
  obtain tbl' o2 where res: "reserve_clearance (ev_reserve_fault env) (ev_now_reserve env) (st_table st) ?n = (tbl', o2)"
    by fastforce
  have "o2 = Inr u \<Longrightarrow> cleared tbl' ?n" "o2 = Inl e \<Longrightarrow> tbl' = st_table st" for u e
    using reserve_clearance_cleared res by (auto simp: reserve_clearance_cases split: if_splits)
  then show ?thesis using assms(3) look sign sig res
    by (cases o1; cases o2; cases "row_of (st_table st) ?n")
      (auto simp: process_clearance_def Let_def split: sum.splits)
qed

theorem clearance_guarded_witness:
  "case process_clearance toy_deps ServerConfig_default toy_env toy_state \<lparr>cq_withdrawal_nullifier = 9\<rparr> of
     (st', Inr c) \<Rightarrow> cleared (st_table st') 9 \<and> cr_withdrawal_nullifier c = 9
   | _ \<Rightarrow> False"
proof -
  let ?creq = "\<lparr>cq_withdrawal_nullifier = 9\<rparr>"
  obtain st' out where run: "process_clearance toy_deps ServerConfig_default toy_env toy_state ?creq = (st', out)"
    by fastforce
  have D: "dp_stark toy_deps = toy_stark" by (simp add: toy_deps_def)
  have kp: "keypair_inv toy_stark (clear_keypair (st_signer toy_state))"
    by (simp add: toy_state_def with_height_def keypair_inv_generate)
  have "kp_next_index (clear_keypair (st_signer toy_state)) = 0" "kp_height (clear_keypair (st_signer toy_state)) = 2"
    "durable_state (st_signer toy_state) = None" "\<not> operation_lock_poisoned (st_signer toy_state)"
    by (simp_all add: toy_state_def with_height_def generate_with_height_def Let_def)
  then have "\<exists>c. out = Inr c" using run
    by (auto simp: process_clearance_def Let_def lookup_by_nullifier_def sign_clearance_def xmss_sign_def
        sign_with_index_def reserve_clearance_cases row_of_def)
  then show ?thesis
    using clearance_guarded [of toy_deps toy_state ServerConfig_default toy_env ?creq st' out] run kp toy_stark_ok
    by (auto simp: D stark_field_ok_def)
qed

text \<open>The steps of a process that keeps running: everything but a crash.\<close>

inductive live_step :: "('f, 'g::ab_group_add) deps \<Rightarrow> ServerConfig \<Rightarrow> 'f world \<Rightarrow> 'f world \<Rightarrow> bool"
  for D cfg where
  "inputs_canonical (aq_public_inputs req) \<Longrightarrow> live_step D cfg w (w\<lparr>wd_jobs := JValidate req # wd_jobs w\<rparr>)"
| "live_step D cfg w (w\<lparr>wd_jobs := CLookup nul # wd_jobs w\<rparr>)"
| "wd_jobs w = before @ j # after \<Longrightarrow> job_step D cfg env (wd_state w) j = (st, v) \<Longrightarrow>
    live_step D cfg w (settle w st (before @ after) v)"
| "live_step D cfg w (w\<lparr>wd_state := update_root (wd_state w) r\<rparr>)"

lemma srv_step_live:
  "srv_step D cfg w w' \<longleftrightarrow> live_step D cfg w w' \<or>
     (\<exists>sn. w' = w\<lparr>wd_state := (wd_state w)\<lparr>st_signer := sn\<rparr>, wd_jobs := []\<rparr>)"
proof
  show "srv_step D cfg w w' \<Longrightarrow> live_step D cfg w w' \<or>
      (\<exists>sn. w' = w\<lparr>wd_state := (wd_state w)\<lparr>st_signer := sn\<rparr>, wd_jobs := []\<rparr>)"
    by (cases rule: srv_step.cases) (auto intro: live_step.intros)
  show "live_step D cfg w w' \<or> (\<exists>sn. w' = w\<lparr>wd_state := (wd_state w)\<lparr>st_signer := sn\<rparr>, wd_jobs := []\<rparr>) \<Longrightarrow>
      srv_step D cfg w w'"
    by (auto elim!: live_step.cases intro: srv_step.intros)
qed

text \<open>A job that holds a signature already.\<close>

fun signed_job :: "job \<Rightarrow> bool" where
  "signed_job (JFinalize req tr) \<longleftrightarrow> True"
| "signed_job j \<longleftrightarrow> False"

text \<open>The reply stored in a finalized row.\<close>

definition reply_of_row :: "json \<Rightarrow> nullifier_table \<Rightarrow> RequestResponse \<Rightarrow> bool" where
  "reply_of_row J tbl r \<longleftrightarrow> (\<exists>row \<in> set tbl. row_status row = ''Finalized'' \<and>
     r = build_response_from_record (row_to_record J row) (rr_client_request_id r))"

text \<open>After a panic under the lock no phase finalizes a row any more.\<close>

definition wedged :: "('f, 'g) deps \<Rightarrow> nullifier_table \<Rightarrow> RequestResponse list \<Rightarrow> 'f world \<Rightarrow> bool" where
  "wedged D tbl old w \<longleftrightarrow> operation_lock_poisoned (st_signer (wd_state w)) \<and>
     (\<forall>j \<in> set (wd_jobs w). \<not> signed_job j) \<and>
     (\<forall>row \<in> set (st_table (wd_state w)). row_status row = ''Finalized'' \<longrightarrow> row \<in> set tbl) \<and>
     (\<forall>r \<in> set (wd_replies w). r \<in> set old \<or> reply_of_row (dp_json D) tbl r)"

lemma poisoned_execute:
  assumes "operation_lock_poisoned sn" "execute_and_sign D cfg f now sn req pf = (sn', out)"
  shows "operation_lock_poisoned sn' \<and> (\<exists>e. out = Inl e)"
  using assms
  by (auto simp: execute_and_sign_def Let_def sign_next_state_def split: sum.splits option.splits if_splits)

lemma poisoned_clearance:
  assumes "operation_lock_poisoned sn" "sign_clearance S f sn m = (sn', out)"
  shows "operation_lock_poisoned sn'"
  using assms by (auto simp: sign_clearance_def Let_def split: sum.splits option.splits prod.splits if_splits)

lemma admit_stored_row:
  assumes "admit req (lookup_by_nullifier J f tbl n) = ReturnStored r"
  shows "reply_of_row J tbl r"
proof -
  obtain row where "row_of tbl n = Some row" "str_to_status (row_status row) = Finalized"
    "r = build_response_from_record (row_to_record J row) (aq_client_request_id req)"
    using assms by (auto simp: admit_def lookup_by_nullifier_def row_of_def row_to_record_def
        split: option.splits if_splits)
  then show ?thesis using row_of_Some_in [of tbl n row]
    by (auto simp: reply_of_row_def str_to_status_def build_response_from_record_def split: if_splits)
qed

lemma poisoned_phase:
  assumes "operation_lock_poisoned (st_signer st)" "\<not> signed_job j" "job_step D cfg env st j = (st', v)"
  shows "operation_lock_poisoned (st_signer st') \<and>
    (\<forall>row \<in> set (st_table st'). row_status row = ''Finalized'' \<longrightarrow> row \<in> set (st_table st)) \<and>
    (\<forall>j'. v = Continue j' \<longrightarrow> \<not> signed_job j') \<and> (\<forall>r. v = Reply r \<longrightarrow> reply_of_row (dp_json D) (st_table st) r)"
proof (cases j)
  case (JWork req pf)
  then show ?thesis using assms poisoned_execute [OF assms(1)]
    by (fastforce split: prod.splits sum.splits)
next
  case (CSign n)
  then show ?thesis using assms poisoned_clearance [OF assms(1)]
    by (fastforce split: prod.splits sum.splits)
next
  case (JLookup req pf)
  then show ?thesis using assms admit_stored_row by (fastforce split: admission.splits)
qed (use assms in \<open>auto simp: reserve_cases reserve_clearance_cases reserved_row_def empty_row_def
    split: sum.splits if_splits\<close>)

lemma wedged_live:
  assumes "wedged D tbl old w" "(live_step D cfg)\<^sup>*\<^sup>* w w'"
  shows "wedged D tbl old w'"
  using assms(2)
proof induction
  case (step y z)
  from step(2) show ?case
  proof cases
    case (3 before j after env st v)
    have "operation_lock_poisoned (st_signer (wd_state y))" "\<not> signed_job j"
      using step.IH 3(2) by (simp_all add: wedged_def)
    note phase = poisoned_phase [OF this 3(3)]
    have "reply_of_row (dp_json D) (st_table (wd_state y)) r \<Longrightarrow> reply_of_row (dp_json D) tbl r" for r
      using step.IH by (auto simp: wedged_def reply_of_row_def)
    then show ?thesis using phase step.IH 3(1,2)
      by (cases v) (auto simp: wedged_def settle_def)
  qed (use step.IH in \<open>auto simp: wedged_def update_root_def\<close>)
qed (rule assms(1))

lemma poisoned_request:
  assumes "operation_lock_poisoned (st_signer st)" "row_of (st_table st) (req_nullifier req) = None"
  shows "\<exists>e. snd (process_request D cfg env st req) = Inl e"
proof -
  have "lookup_by_nullifier (dp_json D) f (st_table st) (req_nullifier req) = None" for f
    using assms(2) by (simp add: lookup_by_nullifier_def row_of_def)
  moreover have "\<exists>e. snd (execute_and_sign D cfg f now (st_signer st) req pf) = Inl e" for f now pf
    using poisoned_execute [OF assms(1), of D cfg f now req pf]
    by (cases "execute_and_sign D cfg f now (st_signer st) req pf") auto
  ultimately show ?thesis
    by (auto simp: process_request_def admit_def reserve_cases finish_request_def Let_def
        split: sum.splits prod.splits) (metis Inl_not_Inr snd_conv)+
qed

text \<open>Claim C34. A commitment that the server's update turns into the point at infinity panics under the
  signer's lock. From then on, whatever requests, clearances, root updates and phases of other requests
  follow, the process answers nothing new: every reply that was not given before is the stored reply of a row
  that was finalized before the panic, and a request whose nullifier has no row fails. Requests that hold a
  signature at the moment of the panic are left out; a restart ends this. The client can arrange it: the
  blinding the server adds depends only on the nullifier and the leaf index, so a note holding exactly the
  charge can be rerandomised to cancel it.\<close>

theorem infinity_commitment_wedges_signer:
  fixes D :: "('f, 'g::ab_group_add) deps"
  assumes "stark_field_ok (dp_stark D)" "curve_ok (dp_curve D)"
    and "row_of (st_table st) (req_nullifier req) = None"
    and "validate_request D cfg (ev_now env) st req = Inr pf" "\<not> ev_reserve_fault env"
    and "dp_provider D (aq_client_request_id req) (aq_payload req) (aq_payload_hash req) = Inr prov"
    and "canonical_response_hash (dp_keccak D) (as_bytes_str (pr_payload prov)) = Some rh"
    and "pr_charge_applied prov \<le> charge_cap cfg"
    and "reconstruct_affine_point D (r1_anon_commitment_x (aq_public_inputs req))
           (r1_anon_commitment_y (aq_public_inputs req)) = Some p"
    and "sign_next_state (dp_stark D) (ev_sign_fault env) (st_signer st)
           (state_message_for D cfg (req_nullifier req) p (pr_charge_applied prov)) = (sn', Inr (sg, leaf, m))"
    and "p = commit (dp_stark D) (dp_curve D) (pr_charge_applied prov) r"
    and "(to_biguint (dp_stark D) r + to_biguint (dp_stark D) (from_bytes_be (dp_stark D)
            (compute_blind_delta (dp_stark D) (generate_server_rng2 (dp_stark D) (req_nullifier req))
              (req_nullifier req) leaf))) mod CURVE_ORDER = 0"
    and "process_request D cfg env st req = (st', out)"
  shows "out = Inl Panicked \<and>
    st_table st' = st_table st @ [reserved_row (ev_now_reserve env) (req_nullifier req)
      (aq_client_request_id req) (aq_payload_hash req)] \<and>
    (\<forall>w w'. wd_state w = st' \<longrightarrow> (\<forall>j \<in> set (wd_jobs w). \<not> signed_job j) \<longrightarrow> (live_step D cfg)\<^sup>*\<^sup>* w w' \<longrightarrow>
      (\<forall>r \<in> set (wd_replies w'). r \<in> set (wd_replies w) \<or> reply_of_row (dp_json D) (st_table st) r) \<and>
      (\<forall>env' req'. row_of (st_table (wd_state w')) (req_nullifier req') = None \<longrightarrow>
        (\<exists>e. snd (process_request D cfg env' (wd_state w') req') = Inl e)))"
proof -
  let ?S = "dp_stark D" and ?C = "dp_curve D" and ?c = "pr_charge_applied prov" and ?n = "req_nullifier req"
  let ?d = "from_bytes_be ?S (compute_blind_delta ?S (generate_server_rng2 ?S ?n) ?n leaf)"
  have "server_update ?S ?C p ?c ?d = commit ?S ?C (?c - ?c) (add_blinding ?S r ?d)"
    unfolding assms(11) by (rule server_update_commit [OF assms(1,2)]) simp
  also have "\<dots> = 0"
    using assms(12) by (simp add: commit_eq [OF assms(1)] to_biguint_add_blinding [OF assms(1)])
  finally have "to_affine ?C (server_update ?S ?C p ?c ?d) = None"
    using assms(2) unfolding curve_ok_def by metis
  then have "build_next_state D cfg ?n p ?c leaf = None" by (simp add: build_next_state_def Let_def)
  then have ex: "execute_and_sign D cfg (ev_sign_fault env) (ev_now_transcript env) (st_signer st) req pf
      = ((st_signer st)\<lparr>durable_state := durable_state sn', operation_lock_poisoned := True\<rparr>, Inl Panicked)"
    using assms(6-10) by (simp add: execute_and_sign_def Let_def)
  have look: "lookup_by_nullifier (dp_json D) f (st_table s) n = None" if "row_of (st_table s) n = None" for f s n
    using that by (simp add: lookup_by_nullifier_def row_of_def)
  have run: "out = Inl Panicked \<and> operation_lock_poisoned (st_signer st') \<and>
      st_table st' = st_table st @ [reserved_row (ev_now_reserve env) ?n (aq_client_request_id req) (aq_payload_hash req)]"
    using assms(3-5,13) ex look [OF assms(3)]
    by (auto simp: process_request_def admit_def reserve_cases finish_request_def Let_def)
  have "wedged D (st_table st) (wd_replies w) w"
    if "wd_state w = st'" "\<forall>j \<in> set (wd_jobs w). \<not> signed_job j" for w
    using run that by (auto simp: wedged_def reserved_row_def empty_row_def)
  then have "wedged D (st_table st) (wd_replies w) w'"
    if "wd_state w = st'" "\<forall>j \<in> set (wd_jobs w). \<not> signed_job j" "(live_step D cfg)\<^sup>*\<^sup>* w w'" for w w'
    using wedged_live that by blast
  then show ?thesis using run poisoned_request [of "wd_state w'" for w'] unfolding wedged_def by blast
qed

theorem infinity_commitment_wedges_signer_witness:
  "let D = toy_deps\<lparr>dp_provider := echo_execute 1000000\<rparr>;
       req = toy_request\<lparr>aq_public_inputs := toy_inputs\<lparr>r1_anon_commitment_x := 1000000\<rparr>\<rparr>;
       (st', out) = process_request D ServerConfig_default toy_env toy_state req
   in out = Inl Panicked \<and>
      wd_replies ` {w. (live_step D ServerConfig_default)\<^sup>*\<^sup>*
        \<lparr>wd_state = st', wd_jobs = [], wd_replies = [], wd_cleared = []\<rparr> w} = {[]} \<and>
      (\<exists>e. snd (process_request D ServerConfig_default toy_env st'
        (toy_request\<lparr>aq_public_inputs := toy_inputs\<lparr>r1_request_nullifier := 43\<rparr>\<rparr>)) = Inl e)"
proof -
  let ?D = "toy_deps\<lparr>dp_provider := echo_execute 1000000\<rparr>"
  let ?req = "toy_request\<lparr>aq_public_inputs := toy_inputs\<lparr>r1_anon_commitment_x := 1000000\<rparr>\<rparr>"
  let ?req' = "toy_request\<lparr>aq_public_inputs := toy_inputs\<lparr>r1_request_nullifier := 43\<rparr>\<rparr>"
  let ?cfg = ServerConfig_default and ?r = "felt_from_u128 toy_stark 0"
  obtain st' out where run: "process_request ?D ?cfg toy_env toy_state ?req = (st', out)" by fastforce
  have D: "dp_stark ?D = toy_stark" "dp_curve ?D = scalar_curve" "dp_keccak ?D = (\<lambda>_. replicate 32 0)"
    by (simp_all add: toy_deps_def)
  have valid: "validate_request ?D ?cfg (ev_now toy_env) toy_state ?req = Inr [1, 2]"
    by (simp add: validate_request_def toy_deps_def toy_request_def toy_inputs_def
        ServerConfig_default_def canonical_payload_hash_def toy_hash charge_cap_def ZERO_def
        validate_state_sig_root_def is_zero_def verify_request_proof_artifact_def r1_public_output_hash_def
        hash_felts_to_felt_def)
  have prov: "dp_provider ?D (aq_client_request_id ?req) (aq_payload ?req) (aq_payload_hash ?req)
      = Inr \<lparr>pr_status_code = 200, pr_payload = ''hello'', pr_charge_applied = 1000000,
          pr_policy_reason_code = None, pr_policy_evidence_hash = None\<rparr>"
    by (simp add: echo_execute_def toy_request_def)
  have point: "reconstruct_affine_point ?D 1000000 0 = Some (commit toy_stark scalar_curve 1000000 ?r)"
    using nsmul_generator [of 1000000]
    by (simp add: reconstruct_affine_point_def commit_eq [OF toy_stark_ok] to_biguint_from_u128 [OF toy_stark_ok])
      (simp add: toy_deps_def toy_stark_def mod_stark_def scalar_curve_def
        Abs_stark_felt_inverse STARK_PRIME_def CURVE_ORDER_def)
  let ?bm = "state_message_for ?D ?cfg 42 (commit toy_stark scalar_curve 1000000 ?r) 1000000"
  obtain sn' sg leaf m where sign: "sign_next_state toy_stark False (st_signer toy_state) ?bm = (sn', Inr (sg, leaf, m))"
    using toy_signs by blast
  have delta: "from_bytes_be toy_stark (compute_blind_delta toy_stark x y leaf) = Abs_stark_felt 0" for x y
    by (simp add: compute_blind_delta_def poseidon_hash_chain_def toy_stark_def mod_stark_def
        Abs_stark_felt_inverse STARK_PRIME_def)
  have zero: "to_biguint toy_stark (Abs_stark_felt 0) = 0" "to_biguint toy_stark ?r = 0"
    by (simp_all add: to_biguint_from_u128 [OF toy_stark_ok])
      (simp add: to_biguint_def toy_stark_def mod_stark_def Abs_stark_felt_inverse STARK_PRIME_def)
  have fields: "req_nullifier ?req = 42" "r1_anon_commitment_x (aq_public_inputs ?req) = 1000000"
    "r1_anon_commitment_y (aq_public_inputs ?req) = 0" "req_nullifier ?req' = 43"
    by (simp_all add: toy_inputs_def)
  have "row_of (st_table toy_state) (req_nullifier ?req) = None" by (rule toy_table(2))
  note wedges = infinity_commitment_wedges_signer [OF _ _ this valid _ prov _ _ _ _ refl _ run, of 0 ?r sn' sg leaf m]
  let ?w = "\<lparr>wd_state = st', wd_jobs = [], wd_replies = [], wd_cleared = []\<rparr>"
  have main: "out = Inl Panicked \<and>
      st_table st' = [] @ [reserved_row (ev_now_reserve toy_env) 42 (aq_client_request_id ?req) (aq_payload_hash ?req)] \<and>
      (\<forall>w w'. wd_state w = st' \<longrightarrow> (\<forall>j \<in> set (wd_jobs w). \<not> signed_job j) \<longrightarrow> (live_step ?D ?cfg)\<^sup>*\<^sup>* w w' \<longrightarrow>
        (\<forall>r \<in> set (wd_replies w'). r \<in> set (wd_replies w) \<or> reply_of_row (dp_json ?D) [] r) \<and>
        (\<forall>env' req'. row_of (st_table (wd_state w')) (req_nullifier req') = None \<longrightarrow>
          (\<exists>e. snd (process_request ?D ?cfg env' (wd_state w') req') = Inl e)))"
    using wedges toy_stark_ok scalar_curve_ok point sign
    by (simp only: D fields toy_hash canonical_response_hash_def toy_fields delta zero)
      (simp add: charge_cap_def)
  moreover have "row_of (st_table st') (req_nullifier ?req') = None"
    using main toy_table(2) row_of_append [of "reserved_row (ev_now_reserve toy_env) 42 (aq_client_request_id ?req)
        (aq_payload_hash ?req)" 42 "[]"] by (simp only: fields) simp
  moreover have later: "(\<forall>r \<in> set (wd_replies w'). r \<in> set [] \<or> reply_of_row (dp_json ?D) [] r) \<and>
      (\<forall>env' req'. row_of (st_table (wd_state w')) (req_nullifier req') = None \<longrightarrow>
        (\<exists>e. snd (process_request ?D ?cfg env' (wd_state w') req') = Inl e))"
    if "(live_step ?D ?cfg)\<^sup>*\<^sup>* ?w w'" for w'
    using conjunct2 [OF conjunct2 [OF main], THEN spec, of ?w, THEN spec, of w'] that by simp
  ultimately have "\<exists>e. snd (process_request ?D ?cfg toy_env st' ?req') = Inl e"
    using later [OF rtranclp.rtrancl_refl] by simp
  moreover have "wd_replies w = []" if "(live_step ?D ?cfg)\<^sup>*\<^sup>* ?w w" for w
    using later [OF that] by (cases "wd_replies w") (auto simp: reply_of_row_def)
  ultimately show ?thesis using main by (auto simp: run image_iff)
qed

end
