(* ===== verification/Server_App.thy ===== *)
theory Server_App
  imports Server_Properties
begin

text \<open>
  The server as a process: opening the store (\<open>nullifier_store.rs\<close>), the default provider
  (\<open>provider.rs\<close>), the processor's constructor and accessor (\<open>processor.rs\<close>), start-up, the router and
  the handlers (\<open>routes.rs\<close>).

  Both tables live in one SQLite file, and \<open>server_db\<close> is what that file holds. A path other than
  \<open>:memory:\<close> and the empty path is an ordinary file name (SQLite URIs are left out). Decoding a body and
  a path segment is axum's and serde's work and enters through the record \<open>web\<close>.
\<close>

section \<open>Database file\<close>

record server_db =
  db_nullifiers :: nullifier_table
  db_signer :: signer_table

type_synonym db_disk = "string \<rightharpoonup> server_db"

definition empty_db :: server_db where
  "empty_db = \<lparr>db_nullifiers = [], db_signer = []\<rparr>"

text \<open>SQLite keeps \<open>:memory:\<close> and the empty path in the process only.\<close>

definition persistent :: "string \<Rightarrow> bool" where
  "persistent path \<longleftrightarrow> path \<noteq> '':memory:'' \<and> path \<noteq> ''''"

definition open_db :: "db_disk \<Rightarrow> string \<Rightarrow> server_db" where
  "open_db d path = (if persistent path then unwrap_or empty_db (d path) else empty_db)"

definition write_db :: "string \<Rightarrow> server_db \<Rightarrow> db_disk \<Rightarrow> db_disk" where
  "write_db path db d = (if persistent path then d(path \<mapsto> db) else d)"

text \<open>\<open>CREATE TABLE IF NOT EXISTS\<close> keeps the rows of an existing table.\<close>

definition NullifierStore_new :: "bool \<Rightarrow> db_disk \<Rightarrow> string \<Rightarrow> db_disk \<times> (ServerError + nullifier_table)" where
  "NullifierStore_new fault d path =
     (if fault then (d, Inl Database)
      else (write_db path (open_db d path) d, Inr (db_nullifiers (open_db d path))))"

definition NullifierStore_in_memory :: "bool \<Rightarrow> db_disk \<Rightarrow> db_disk \<times> (ServerError + nullifier_table)" where
  "NullifierStore_in_memory fault d = NullifierStore_new fault d '':memory:''"


section \<open>Provider and processor\<close>

record EchoProvider =
  ep_fixed_charge :: u128

definition EchoProvider_new :: "u128 \<Rightarrow> EchoProvider" where
  "EchoProvider_new fixed_charge = \<lparr>ep_fixed_charge = fixed_charge\<rparr>"

definition EchoProvider_default :: EchoProvider where
  "EchoProvider_default = \<lparr>ep_fixed_charge = 1\<rparr>"

text \<open>The processor holds the configuration, the handles on the store and the signer, the provider and
  the root.\<close>

record ('f, 'g) RequestProcessor =
  rp_config :: ServerConfig
  rp_deps :: "('f, 'g) deps"
  rp_state :: "'f server_state"

definition RequestProcessor_new ::
    "('f, 'g) deps \<Rightarrow> ServerConfig \<Rightarrow> nullifier_table \<Rightarrow> 'f ServerSigner \<Rightarrow>
     (string \<Rightarrow> string \<Rightarrow> felt \<Rightarrow> ServerError + ProviderResponse) \<Rightarrow> felt \<Rightarrow> ('f, 'g) RequestProcessor" where
  "RequestProcessor_new D config store signer provider current_root =
     \<lparr>rp_config = config, rp_deps = D\<lparr>dp_provider := provider\<rparr>,
      rp_state = \<lparr>st_table = store, st_signer = signer, st_root = current_root\<rparr>\<rparr>"

definition processor_current_root :: "('f, 'g) RequestProcessor \<Rightarrow> felt" where
  "processor_current_root p = st_root (rp_state p)"


section \<open>Start-up\<close>

record boot_faults =
  bf_store :: bool
  bf_state_tree :: bool
  bf_clear_tree :: bool
  bf_bind :: bool

datatype start_error = StartFailed ServerError | BindFailed

text \<open>The file of a running server: both tables as the store and the signer see them.\<close>

definition processor_db :: "('f, 'g) RequestProcessor \<Rightarrow> server_db" where
  "processor_db p = \<lparr>db_nullifiers = st_table (rp_state p),
     db_signer = unwrap_or [] (durable_state (st_signer (rp_state p)))\<rparr>"

definition run_server ::
    "('f, 'g) deps \<Rightarrow> boot_faults \<Rightarrow> ServerConfig \<Rightarrow> db_disk \<Rightarrow>
     db_disk \<times> (start_error + ('f, 'g) RequestProcessor)" where
  "run_server D bf config d =
     (case NullifierStore_new (bf_store bf) d (cf_db_path config) of
        (d1, Inl e) \<Rightarrow> (d1, Inl (StartFailed e))
      | (d1, Inr store) \<Rightarrow>
          (let S = dp_stark D; db = open_db d1 (cf_db_path config) in
           case with_height_durable S (bf_state_tree bf) (bf_clear_tree bf)
                  (from_bytes_be S (cf_state_seed config)) (from_bytes_be S (cf_clear_seed config))
                  (cf_epoch config) (cf_xmss_height config) (db_signer db) of
             (tbl, Inl e) \<Rightarrow>
               (write_db (cf_db_path config) (db\<lparr>db_signer := tbl\<rparr>) d1, Inl (StartFailed e))
           | (tbl, Inr signer) \<Rightarrow>
               (let processor = RequestProcessor_new D config store signer
                      (echo_execute (ep_fixed_charge EchoProvider_default)) (cf_initial_root config)
                in (write_db (cf_db_path config) (db\<lparr>db_signer := tbl\<rparr>) d1,
                    if bf_bind bf then Inl BindFailed else Inr processor))))"


section \<open>Routes\<close>

datatype http_method = GET | HEAD | POST | OtherMethod string

record 'b http_request =
  hq_method :: http_method
  hq_path :: string
  hq_body :: 'b

datatype reply_body =
    RequestBody RequestResponse
  | ClearanceBody ClearanceResponse
  | RecoveryBody RecoveryResponse
  | ErrorBody ErrorResponse

text \<open>A reply written by a handler, or one that axum gives itself (no route, wrong method, a body or a
  segment that does not decode) or that lost its body to a \<open>HEAD\<close> request.\<close>

datatype http_response = JsonReply nat reply_body | PlainReply nat

record 'b web =
  wb_api_request :: "'b \<Rightarrow> nat + ApiRequest"
  wb_clearance_request :: "'b \<Rightarrow> nat + ClearanceRequest"
  wb_percent_decode :: "string \<Rightarrow> string option"
  wb_message :: "ServerError \<Rightarrow> string"

fun path_segments :: "string \<Rightarrow> string list" where
  "path_segments [] = [[]]"
| "path_segments (c # cs) =
     (if c = CHR ''/'' then [] # path_segments cs
      else case path_segments cs of s # ss \<Rightarrow> (c # s) # ss | [] \<Rightarrow> [[c]])"

datatype endpoint = PostRequest | PostClearance | GetRequest string | GetNullifier string
  | MethodNotAllowed | NoRoute

text \<open>The route table: two literal routes and two with one non-empty parameter segment; \<open>get\<close> also
  answers \<open>HEAD\<close>.\<close>

definition endpoint_of :: "http_method \<Rightarrow> string \<Rightarrow> endpoint" where
  "endpoint_of m path =
     (let segs = path_segments path; getting = (m = GET \<or> m = HEAD); seg = segs ! 3 in
      if segs = [[], ''v1'', ''requests''] then (if m = POST then PostRequest else MethodNotAllowed)
      else if segs = [[], ''v1'', ''withdraw'', ''clearance'']
        then (if m = POST then PostClearance else MethodNotAllowed)
      else if length segs = 4 \<and> take 3 segs = [[], ''v1'', ''requests''] \<and> seg \<noteq> []
        then (if getting then GetRequest seg else MethodNotAllowed)
      else if length segs = 4 \<and> take 3 segs = [[], ''v1'', ''nullifiers''] \<and> seg \<noteq> []
        then (if getting then GetNullifier seg else MethodNotAllowed)
      else NoRoute)"

text \<open>The clock of an error body and the environment of the handler; \<open>None\<close> is a panic, which ends the
  connection without a reply.\<close>

definition error_reply :: "nat \<times> ErrorResponse \<Rightarrow> http_response" where
  "error_reply = (\<lambda>(code, body). JsonReply code (ErrorBody body))"

definition handle_request ::
    "(ServerError \<Rightarrow> string) \<Rightarrow> request_env \<Rightarrow> u64 \<Rightarrow> ('f, 'g::ab_group_add) RequestProcessor \<Rightarrow> ApiRequest \<Rightarrow>
     ('f, 'g) RequestProcessor \<times> http_response option" where
  "handle_request message env now_ms p api_request =
     (case process_request (rp_deps p) (rp_config p) env (rp_state p) api_request of
        (st, out) \<Rightarrow>
          (p\<lparr>rp_state := st\<rparr>,
           case out of
             Inr r \<Rightarrow> Some (JsonReply 200 (RequestBody r))
           | Inl Panicked \<Rightarrow> None
           | Inl (Err e) \<Rightarrow> Some (error_reply
               (error_to_response message now_ms e (aq_client_request_id api_request) st))))"

definition handle_clearance ::
    "(ServerError \<Rightarrow> string) \<Rightarrow> request_env \<Rightarrow> u64 \<Rightarrow> ('f, 'g::ab_group_add) RequestProcessor \<Rightarrow>
     ClearanceRequest \<Rightarrow> ('f, 'g) RequestProcessor \<times> http_response option" where
  "handle_clearance message env now_ms p clearance_req =
     (case process_clearance (rp_deps p) (rp_config p) env (rp_state p) clearance_req of
        (st, out) \<Rightarrow>
          (p\<lparr>rp_state := st\<rparr>,
           Some (case out of
             Inr r \<Rightarrow> JsonReply 200 (ClearanceBody r)
           | Inl e \<Rightarrow> error_reply
               (error_to_response message now_ms e (to_hex (cq_withdrawal_nullifier clearance_req)) st))))"

definition recovery_reply :: "(nat \<times> ErrorResponse) + RecoveryResponse \<Rightarrow> http_response" where
  "recovery_reply out = (case out of Inr r \<Rightarrow> JsonReply 200 (RecoveryBody r) | Inl e \<Rightarrow> error_reply e)"

definition handle_recovery_by_id ::
    "(ServerError \<Rightarrow> string) \<Rightarrow> bool \<Rightarrow> u64 \<Rightarrow> ('f, 'g) RequestProcessor \<Rightarrow> string \<Rightarrow> http_response" where
  "handle_recovery_by_id message fault now_ms p client_request_id =
     recovery_reply (map_err (\<lambda>e. error_to_response message now_ms e client_request_id (rp_state p))
       (recover_by_client_id (rp_deps p) fault (rp_state p) client_request_id))"

definition strip_body :: "http_method \<Rightarrow> http_response \<Rightarrow> http_response" where
  "strip_body m r = (case r of JsonReply code body \<Rightarrow> if m = HEAD then PlainReply code else r | PlainReply _ \<Rightarrow> r)"

definition create_router ::
    "'b web \<Rightarrow> request_env \<Rightarrow> u64 \<Rightarrow> ('f, 'g::ab_group_add) RequestProcessor \<Rightarrow> 'b http_request \<Rightarrow>
     ('f, 'g) RequestProcessor \<times> http_response option" where
  "create_router W env now_ms p q =
     (let message = wb_message W in
      case endpoint_of (hq_method q) (hq_path q) of
        PostRequest \<Rightarrow>
          (case wb_api_request W (hq_body q) of
             Inl code \<Rightarrow> (p, Some (PlainReply code))
           | Inr req \<Rightarrow> handle_request message env now_ms p req)
      | PostClearance \<Rightarrow>
          (case wb_clearance_request W (hq_body q) of
             Inl code \<Rightarrow> (p, Some (PlainReply code))
           | Inr req \<Rightarrow> handle_clearance message env now_ms p req)
      | GetRequest seg \<Rightarrow>
          (p, case wb_percent_decode W seg of
                None \<Rightarrow> Some (PlainReply 400)
              | Some client_request_id \<Rightarrow>
                  Some (strip_body (hq_method q)
                    (handle_recovery_by_id message (ev_lookup_fault env) now_ms p client_request_id)))
      | GetNullifier seg \<Rightarrow>
          (p, case wb_percent_decode W seg of
                None \<Rightarrow> Some (PlainReply 400)
              | Some nullifier_hex \<Rightarrow>
                  map_option (strip_body (hq_method q) \<circ> recovery_reply)
                    (handle_recovery_by_nullifier (rp_deps p) message now_ms (ev_lookup_fault env)
                      (rp_state p) nullifier_hex))
      | MethodNotAllowed \<Rightarrow> (p, Some (PlainReply 405))
      | NoRoute \<Rightarrow> (p, Some (PlainReply 404)))"

text \<open>Requests served one after the other, each with its own environment and clock.\<close>

fun serve_all ::
    "'b web \<Rightarrow> ('f, 'g::ab_group_add) RequestProcessor \<Rightarrow> (request_env \<times> u64 \<times> 'b http_request) list \<Rightarrow>
     ('f, 'g) RequestProcessor \<times> http_response option list" where
  "serve_all W p [] = (p, [])"
| "serve_all W p ((env, now_ms, q) # qs) =
     (case create_router W env now_ms p q of
        (p1, r) \<Rightarrow> (case serve_all W p1 qs of (p2, rs) \<Rightarrow> (p2, r # rs)))"

section \<open>Invariant of a running server\<close>

text \<open>What axum and serde promise: a decoded field element is canonical (\<open>felt.rs\<close> refuses the others).\<close>

definition web_ok :: "'b web \<Rightarrow> bool" where
  "web_ok W \<longleftrightarrow> (\<forall>b req. wb_api_request W b = Inr req \<longrightarrow> inputs_canonical (aq_public_inputs req)) \<and>
     (\<forall>b creq. wb_clearance_request W b = Inr creq \<longrightarrow> canonical (cq_withdrawal_nullifier creq))"

definition signer_cfg :: "'f stark \<Rightarrow> ServerConfig \<Rightarrow> 'f signer_config" where
  "signer_cfg S cfg = \<lparr>cfg_state_seed = from_bytes_be S (cf_state_seed cfg),
     cfg_clear_seed = from_bytes_be S (cf_clear_seed cfg), cfg_epoch = cf_epoch cfg,
     cfg_height = cf_xmss_height cfg\<rparr>"

definition server_deps :: "('f, 'g) deps \<Rightarrow> ('f, 'g) deps" where
  "server_deps D = D\<lparr>dp_provider := echo_execute (ep_fixed_charge EchoProvider_default)\<rparr>"

definition processor_inv :: "('f, 'g) deps \<Rightarrow> ServerConfig \<Rightarrow> ('f, 'g) RequestProcessor \<Rightarrow> bool" where
  "processor_inv D cfg p \<longleftrightarrow>
     rp_config p = cfg \<and> rp_deps p = server_deps D \<and> st_root (rp_state p) = cf_initial_root cfg \<and>
     table_inv (st_table (rp_state p)) \<and>
     durable_inv (dp_stark D) (signer_cfg (dp_stark D) cfg) (st_signer (rp_state p))"

text \<open>A file that no server has used, or that a server with this configuration left behind.\<close>

definition db_inv :: "('f, 'g) deps \<Rightarrow> ServerConfig \<Rightarrow> server_db \<Rightarrow> bool" where
  "db_inv D cfg db \<longleftrightarrow> db = empty_db \<or> (\<exists>p. processor_inv D cfg p \<and> db = processor_db p)"

lemma server_deps_stark [simp]: "dp_stark (server_deps D) = dp_stark D" "dp_json (server_deps D) = dp_json D"
  by (simp_all add: server_deps_def)

text \<open>The signer after the part of a request that signs.\<close>

lemma durable_inv_poisoned:
  assumes "durable_inv S c sn" "durable_inv S c sn'"
  shows "durable_inv S c (sn\<lparr>durable_state := durable_state sn', operation_lock_poisoned := True\<rparr>)"
  using assms by (auto simp: durable_inv_def signer_state_root_def signer_clear_root_def keys_ok_def)

lemma sign_next_state_durable:
  assumes "durable_inv S c sn" "sign_next_state S f sn bm = (sn', out)"
  shows "durable_inv S c sn'"
  using sign_next_state_effect [OF assms(1), of bm f] assms(2)
  by (auto simp: step_effect_def split: sum.splits prod.splits)

lemma sign_clearance_durable:
  assumes "durable_inv S c sn" "sign_clearance S f sn m = (sn', out)"
  shows "durable_inv S c sn'"
  using sign_clearance_effect [OF assms(1), of m f] assms(2)
  by (auto simp: step_effect_def split: sum.splits prod.splits)

lemma execute_and_sign_durable:
  assumes "durable_inv (dp_stark D) c sn" "execute_and_sign D cfg f now sn req pf = (sn', out)"
  shows "durable_inv (dp_stark D) c sn'"
  using assms durable_inv_poisoned sign_next_state_durable
  by (fastforce simp: execute_and_sign_def Let_def split: sum.splits option.splits prod.splits if_splits)

lemma process_request_durable:
  assumes "durable_inv (dp_stark D) c (st_signer st)" "process_request D cfg env st req = (st', out)"
  shows "durable_inv (dp_stark D) c (st_signer st')" "st_root st' = st_root st"
  using assms execute_and_sign_durable
  by (fastforce simp: process_request_def finish_request_def Let_def
      split: sum.splits admission.splits prod.splits)+

lemma process_clearance_durable:
  assumes "durable_inv (dp_stark D) c (st_signer st)" "process_clearance D cfg env st creq = (st', out)"
  shows "durable_inv (dp_stark D) c (st_signer st')" "st_root st' = st_root st"
  using assms sign_clearance_durable
  by (fastforce simp: process_clearance_def Let_def split: sum.splits prod.splits if_splits)+

lemma process_clearance_table:
  assumes "table_inv (st_table st)" "process_clearance D cfg env st creq = (st', out)"
  shows "table_inv (st_table st') \<and> table_evolves (st_table st) (st_table st')"
  using assms reserve_clearance_evolves
  by (fastforce simp: process_clearance_def Let_def split: sum.splits prod.splits if_splits)

lemma reply_shapes [simp]:
  "error_reply e \<noteq> JsonReply c (RequestBody r)" "recovery_reply o1 \<noteq> JsonReply c (RequestBody r)"
  "strip_body m (recovery_reply o1) \<noteq> JsonReply c (RequestBody r)"
  by (auto simp: error_reply_def recovery_reply_def strip_body_def split: prod.splits sum.splits)

lemma processor_inv_state:
  assumes "processor_inv D cfg p" "table_inv (st_table st)" "st_root st = st_root (rp_state p)"
    and "durable_inv (dp_stark D) (signer_cfg (dp_stark D) cfg) (st_signer st)"
  shows "processor_inv D cfg (p\<lparr>rp_state := st\<rparr>)"
  using assms by (simp add: processor_inv_def)

text \<open>The request a served reply belongs to: it was validated, and the table holds its answer.\<close>

definition on_record :: "('f, 'g) deps \<Rightarrow> nullifier_table \<Rightarrow> ApiRequest \<Rightarrow> RequestResponse \<Rightarrow> bool" where
  "on_record D tbl req r \<longleftrightarrow> owns tbl req \<and> answered (dp_json D) tbl r \<and> stored_reply r = r \<and>
     rr_request_nullifier r = req_nullifier req"

text \<open>The provider the server starts with charges one unit, so its charges fit the column under any cap.\<close>

lemma server_charges_fit: "charges_fit (server_deps D) cfg"
  by (simp add: charges_fit_def server_deps_def echo_execute_def EchoProvider_default_def stored_charge_small)

lemma on_record_evolves: "on_record D tbl req r \<Longrightarrow> table_evolves tbl tbl' \<Longrightarrow> on_record D tbl' req r"
  using owns_evolves answered_evolves by (fastforce simp: on_record_def)

lemma handle_request_step:
  assumes "processor_inv D cfg p" "deps_ok (server_deps D)" "inputs_canonical (aq_public_inputs req)"
    and "handle_request message env now_ms p req = (p', resp)"
  shows "processor_inv D cfg p'" "table_evolves (st_table (rp_state p)) (st_table (rp_state p'))"
    and "resp = Some (JsonReply 200 (RequestBody r)) \<Longrightarrow> on_record D (st_table (rp_state p')) req r \<and>
      (\<exists>pf. validate_request (server_deps D) cfg (ev_now env) (rp_state p) req = Inr pf)"
proof -
  obtain st out where run: "process_request (server_deps D) cfg env (rp_state p) req = (st, out)" by fastforce
  have p': "p' = p\<lparr>rp_state := st\<rparr>" and resp: "resp = (case out of
      Inr r \<Rightarrow> Some (JsonReply 200 (RequestBody r)) | Inl Panicked \<Rightarrow> None
    | Inl (Err e) \<Rightarrow> Some (error_reply (error_to_response message now_ms e (aq_client_request_id req) st)))"
    using assms(1,4) run by (auto simp: handle_request_def processor_inv_def)
  have inv: "table_inv (st_table (rp_state p))" "canonical (req_nullifier req)"
    "durable_inv (dp_stark (server_deps D)) (signer_cfg (dp_stark D) cfg) (st_signer (rp_state p))"
    using assms(1,3) by (simp_all add: processor_inv_def inputs_canonical_def)
  note step = process_request_inv [OF assms(2) inv(1,2) run] process_request_durable [OF inv(3) run]
  show "processor_inv D cfg p'" unfolding p' using step by (intro processor_inv_state [OF assms(1)]) simp_all
  show "table_evolves (st_table (rp_state p)) (st_table (rp_state p'))" using step p' by simp
  show "on_record D (st_table (rp_state p')) req r \<and>
      (\<exists>pf. validate_request (server_deps D) cfg (ev_now env) (rp_state p) req = Inr pf)"
    if "resp = Some (JsonReply 200 (RequestBody r))"
  proof -
    have out: "out = Inr r" using that resp by (auto split: sum.splits failure.splits)
    moreover have "\<exists>pf. validate_request (server_deps D) cfg (ev_now env) (rp_state p) req = Inr pf"
      using run out by (auto simp: process_request_def split: sum.splits)
    ultimately show ?thesis using step p' server_charges_fit [of D cfg] by (simp add: on_record_def reply_ok_def)
  qed
qed

lemma handle_clearance_step:
  assumes "processor_inv D cfg p" "handle_clearance message env now_ms p creq = (p', resp)"
  shows "processor_inv D cfg p' \<and> table_evolves (st_table (rp_state p)) (st_table (rp_state p')) \<and>
    resp \<noteq> Some (JsonReply c (RequestBody r))"
proof -
  obtain st out where run: "process_clearance (server_deps D) cfg env (rp_state p) creq = (st, out)" by fastforce
  have p': "p' = p\<lparr>rp_state := st\<rparr>" and "resp \<noteq> Some (JsonReply c (RequestBody r))"
    using assms run by (auto simp: handle_clearance_def processor_inv_def split: sum.splits)
  moreover have inv: "table_inv (st_table (rp_state p))"
    "durable_inv (dp_stark (server_deps D)) (signer_cfg (dp_stark D) cfg) (st_signer (rp_state p))"
    using assms(1) by (simp_all add: processor_inv_def)
  note process_clearance_table [OF inv(1) run] process_clearance_durable [OF inv(2) run]
  ultimately show ?thesis using processor_inv_state [OF assms(1), of st] by simp
qed

lemma create_router_step:
  assumes "processor_inv D cfg p" "deps_ok (server_deps D)" "web_ok W"
    and "create_router W env now_ms p q = (p', resp)"
  shows "processor_inv D cfg p' \<and> table_evolves (st_table (rp_state p)) (st_table (rp_state p')) \<and>
    (\<forall>r. resp = Some (JsonReply 200 (RequestBody r)) \<longrightarrow>
      endpoint_of (hq_method q) (hq_path q) = PostRequest \<and>
      (\<exists>req pf. wb_api_request W (hq_body q) = Inr req \<and> on_record D (st_table (rp_state p')) req r \<and>
        validate_request (server_deps D) cfg (ev_now env) (rp_state p) req = Inr pf))"
proof (cases "endpoint_of (hq_method q) (hq_path q)")
  case PostRequest
  show ?thesis
  proof (cases "wb_api_request W (hq_body q)")
    case (Inr req)
    moreover have "inputs_canonical (aq_public_inputs req)" using assms(3) Inr by (auto simp: web_ok_def)
    ultimately show ?thesis
      using handle_request_step [OF assms(1,2), of req "wb_message W" env now_ms p' resp] assms(4) PostRequest
      by (fastforce simp: create_router_def Let_def)
  qed (use assms(1,4) PostRequest in \<open>auto simp: create_router_def Let_def\<close>)
next
  case PostClearance
  then show ?thesis using assms(1,4) handle_clearance_step [OF assms(1)]
    by (fastforce simp: create_router_def Let_def split: sum.splits)
next
  case (GetRequest seg)
  then show ?thesis using assms(1,4)
    by (auto simp: create_router_def Let_def handle_recovery_by_id_def split: option.splits)
next
  case (GetNullifier seg)
  then show ?thesis using assms(1,4) by (auto simp: create_router_def Let_def split: option.splits)
qed (use assms(1,4) in \<open>auto simp: create_router_def Let_def\<close>)

text \<open>Validation reads only what the configuration fixes, and the clock.\<close>

lemma validate_request_stable:
  assumes "processor_inv D cfg p" "processor_inv D cfg p'"
    and "validate_request (server_deps D) cfg now (rp_state p) req = Inr pf"
    and "now' < r1_expiry_ts (aq_public_inputs req)"
  shows "validate_request (server_deps D) cfg now' (rp_state p') req = Inr pf"
proof -
  have "signer_state_root (dp_stark D) (st_signer (rp_state p)) = signer_state_root (dp_stark D) (st_signer (rp_state p'))"
    using assms(1,2) by (simp add: processor_inv_def durable_inv_def keys_ok_def signer_state_root_def)
  moreover have "st_root (rp_state p) = st_root (rp_state p')" using assms(1,2) by (simp add: processor_inv_def)
  ultimately show ?thesis using assms(3,4)
    by (auto simp: validate_request_def validate_state_sig_root_def Let_def not_le split: option.splits if_splits)
qed

lemma handle_request_again:
  assumes "processor_inv D cfg p" "on_record D (st_table (rp_state p)) req r"
    and "validate_request (server_deps D) cfg (ev_now env) (rp_state p) req = Inr pf" "\<not> ev_lookup_fault env"
  shows "handle_request message env now_ms p req = (p, Some (JsonReply 200 (RequestBody r)))"
proof -
  have "process_request (server_deps D) cfg env (rp_state p) req = (rp_state p, Inr r)"
    using process_request_again [of "rp_state p" req "server_deps D" r cfg env] assms(2-4) by (auto simp: on_record_def)
  then show ?thesis using assms(1) by (simp add: handle_request_def processor_inv_def)
qed

lemma serve_all_step:
  assumes "deps_ok (server_deps D)" "web_ok W" "processor_inv D cfg p" "serve_all W p qs = (p', rs)"
  shows "processor_inv D cfg p' \<and> table_evolves (st_table (rp_state p)) (st_table (rp_state p')) \<and>
    (\<forall>((env, now_ms, q), resp) \<in> set (zip qs rs). \<forall>r. resp = Some (JsonReply 200 (RequestBody r)) \<longrightarrow>
      endpoint_of (hq_method q) (hq_path q) = PostRequest \<and>
      (\<exists>req pf p0. wb_api_request W (hq_body q) = Inr req \<and> on_record D (st_table (rp_state p')) req r \<and>
        processor_inv D cfg p0 \<and>
        validate_request (server_deps D) cfg (ev_now env) (rp_state p0) req = Inr pf))"
  using assms(3,4)
proof (induction qs arbitrary: p rs)
  case (Cons x qs)
  obtain env now_ms q where x: "x = (env, now_ms, q)" by (cases x)
  obtain p1 resp where one: "create_router W env now_ms p q = (p1, resp)" by fastforce
  obtain rs1 where rest: "serve_all W p1 qs = (p', rs1)" and rs: "rs = resp # rs1"
    using Cons.prems(2) x one by (auto split: prod.splits)
  note step = create_router_step [OF Cons.prems(1) assms(1,2) one]
  note IH = Cons.IH [OF conjunct1 [OF step] rest]
  have "table_evolves (st_table (rp_state p)) (st_table (rp_state p'))"
    using step IH table_evolves_trans by blast
  then show ?case using IH step on_record_evolves Cons.prems(1) by (fastforce simp: x rs)
qed simp


section \<open>Restarts\<close>

definition no_boot_faults :: boot_faults where
  "no_boot_faults = \<lparr>bf_store = False, bf_state_tree = False, bf_clear_tree = False, bf_bind = False\<rparr>"

lemma with_height_durable_reopens:
  assumes "durable_inv S c sn" "durable_state sn = Some tbl"
  shows "\<exists>sn'. with_height_durable S False False (cfg_state_seed c) (cfg_clear_seed c) (cfg_epoch c)
      (cfg_height c) tbl = (tbl, Inr sn')"
    and "with_height_durable S f1 f2 (cfg_state_seed c) (cfg_clear_seed c) (cfg_epoch c) (cfg_height c) tbl
      = (tbl', Inr sn') \<Longrightarrow> tbl' = tbl \<and> durable_inv S c sn' \<and> durable_state sn' = Some tbl"
  using assms
  by (auto simp: with_height_durable_def SignerStateStore_new_def Let_def ensure_tree_ok durable_inv_def
      keys_ok_def signer_state_root_def signer_clear_root_def keypair_inv_generate split: if_splits)
    (auto simp: generate_with_height_def Let_def)

lemma with_height_durable_opens:
  assumes "cfg_height c < 32" "tbl = [] \<or> (\<exists>sn. durable_inv S c sn \<and> durable_state sn = Some tbl)"
  shows "\<exists>tbl' sn'. with_height_durable S False False (cfg_state_seed c) (cfg_clear_seed c) (cfg_epoch c)
      (cfg_height c) tbl = (tbl', Inr sn')"
    and "with_height_durable S f1 f2 (cfg_state_seed c) (cfg_clear_seed c) (cfg_epoch c) (cfg_height c) tbl
      = (tbl', Inr sn') \<Longrightarrow> durable_inv S c sn' \<and> durable_state sn' = Some tbl'"
proof -
  show "\<exists>tbl' sn'. with_height_durable S False False (cfg_state_seed c) (cfg_clear_seed c) (cfg_epoch c)
      (cfg_height c) tbl = (tbl', Inr sn')"
  proof (cases "tbl = []")
    case True
    then show ?thesis
      by (simp add: with_height_durable_def SignerStateStore_new_def ensure_tree_def signer_row_def Let_def)
  qed (use assms(2) with_height_durable_reopens(1) in blast)
  assume run: "with_height_durable S f1 f2 (cfg_state_seed c) (cfg_clear_seed c) (cfg_epoch c) (cfg_height c) tbl
      = (tbl', Inr sn')"
  show "durable_inv S c sn' \<and> durable_state sn' = Some tbl'"
  proof (cases "tbl = []")
    case True
    then show ?thesis using durable_inv_fresh(1) [OF assms(1)] run
      by (auto simp: with_height_durable_def Let_def split: prod.splits sum.splits)
  qed (use assms(2) with_height_durable_reopens(2) run in blast)
qed

lemma open_written: "persistent path \<Longrightarrow> open_db (write_db path db d) path = db"
  by (simp add: open_db_def write_db_def)

text \<open>Starting on a file in order gives a processor in order, on the rows of the file.\<close>

lemma db_inv_parts:
  assumes "db_inv D cfg db"
  shows "table_inv (db_nullifiers db)"
    and "db_signer db = [] \<or> (\<exists>sn. durable_inv (dp_stark D) (signer_cfg (dp_stark D) cfg) sn \<and>
      durable_state sn = Some (db_signer db))"
  using assms
  by (auto simp: db_inv_def empty_db_def processor_db_def processor_inv_def durable_inv_def table_inv_def)

lemma run_server_starts:
  assumes "cf_xmss_height cfg < 32" "persistent (cf_db_path cfg)" "db_inv D cfg (open_db d (cf_db_path cfg))"
  shows "\<exists>d' p. run_server D no_boot_faults cfg d = (d', Inr p)"
    and "run_server D bf cfg d = (d', Inr p) \<Longrightarrow> processor_inv D cfg p \<and>
      st_table (rp_state p) = db_nullifiers (open_db d (cf_db_path cfg)) \<and>
      open_db d' (cf_db_path cfg) = processor_db p"
proof -
  let ?S = "dp_stark D" and ?path = "cf_db_path cfg"
  let ?db = "open_db d ?path" and ?c = "signer_cfg ?S cfg"
  have c: "cfg_state_seed ?c = from_bytes_be ?S (cf_state_seed cfg)"
    "cfg_clear_seed ?c = from_bytes_be ?S (cf_clear_seed cfg)" "cfg_epoch ?c = cf_epoch cfg"
    "cfg_height ?c = cf_xmss_height cfg" by (simp_all add: signer_cfg_def)
  have h: "cfg_height ?c < 32" using assms(1) c by simp
  note opens = with_height_durable_opens [OF h db_inv_parts(2) [OF assms(3)], unfolded c]
  note reopen = open_written [OF assms(2)]
  show "\<exists>d' p. run_server D no_boot_faults cfg d = (d', Inr p)"
    using opens(1) reopen by (auto simp: run_server_def no_boot_faults_def NullifierStore_new_def Let_def)
  assume run: "run_server D bf cfg d = (d', Inr p)"
  then obtain tbl sn where sn: "with_height_durable ?S (bf_state_tree bf) (bf_clear_tree bf)
      (from_bytes_be ?S (cf_state_seed cfg)) (from_bytes_be ?S (cf_clear_seed cfg)) (cf_epoch cfg)
      (cf_xmss_height cfg) (db_signer ?db) = (tbl, Inr sn)"
    and p: "p = RequestProcessor_new D cfg (db_nullifiers ?db) sn
      (echo_execute (ep_fixed_charge EchoProvider_default)) (cf_initial_root cfg)"
    and d': "d' = write_db ?path (?db\<lparr>db_signer := tbl\<rparr>) (write_db ?path ?db d)"
    by (auto simp: run_server_def NullifierStore_new_def Let_def reopen split: if_splits prod.splits sum.splits)
  from opens(2) [OF sn] show "processor_inv D cfg p \<and> st_table (rp_state p) = db_nullifiers ?db \<and>
      open_db d' ?path = processor_db p"
    using db_inv_parts(1) [OF assms(3)] unfolding d' reopen
    by (simp add: p RequestProcessor_new_def processor_inv_def server_deps_def processor_db_def unwrap_or_def)
qed

section \<open>Property\<close>

text \<open>Claim C7. Replies survive restarts. A server is started on a fresh database file, or on one that
  a server with the same configuration left behind, and serves any traffic over HTTP. If a request was
  answered with status 200, then the server starts again on that file, and posting the same body again
  before the note expires, with a nullifier lookup that does not fail, gives status 200 and the identical
  response, with no change of state: no second charge and no second signature. The charge cap may be
  anything: the started server's provider charges one unit, which the signed 64-bit charge column holds.
  With a provider of large charges the replayed charge is the one that column gives (C6).\<close>

theorem answered_request_survives_restart:
  assumes "web_ok W" "deps_ok (server_deps D)" "cf_xmss_height cfg < 32" "persistent (cf_db_path cfg)"
    and "db_inv D cfg (open_db d (cf_db_path cfg))" "run_server D bf cfg d = (d1, Inr p1)"
    and "serve_all W p1 traffic = (p2, replies)"
    and "((env, now_ms, q), Some (JsonReply 200 (RequestBody r))) \<in> set (zip traffic replies)"
  shows "\<exists>d3 p3 req. run_server D no_boot_faults cfg (write_db (cf_db_path cfg) (processor_db p2) d1) = (d3, Inr p3) \<and>
    wb_api_request W (hq_body q) = Inr req \<and>
    (\<forall>env' now_ms'. ev_now env' < r1_expiry_ts (aq_public_inputs req) \<longrightarrow> \<not> ev_lookup_fault env' \<longrightarrow>
      create_router W env' now_ms' p3 q = (p3, Some (JsonReply 200 (RequestBody r))))"
proof -
  let ?d2 = "write_db (cf_db_path cfg) (processor_db p2) d1"
  have p1: "processor_inv D cfg p1" using run_server_starts(2) [OF assms(3,4,5,6)] by simp
  note served = serve_all_step [OF assms(2,1) p1 assms(7)]
  then have p2: "processor_inv D cfg p2" by simp
  obtain req pf p0 where q: "endpoint_of (hq_method q) (hq_path q) = PostRequest"
    and req: "wb_api_request W (hq_body q) = Inr req" and rec: "on_record D (st_table (rp_state p2)) req r"
    and p0: "processor_inv D cfg p0" "validate_request (server_deps D) cfg (ev_now env) (rp_state p0) req = Inr pf"
    using served assms(8) by fastforce
  have db: "db_inv D cfg (open_db ?d2 (cf_db_path cfg))"
    using p2 by (auto simp: open_written [OF assms(4)] db_inv_def)
  obtain d3 p3 where run: "run_server D no_boot_faults cfg ?d2 = (d3, Inr p3)"
    using run_server_starts(1) [OF assms(3,4) db] by blast
  from run_server_starts(2) [OF assms(3,4) db run]
  have p3: "processor_inv D cfg p3" "on_record D (st_table (rp_state p3)) req r"
    using rec by (simp_all add: open_written [OF assms(4)] processor_db_def)
  have "create_router W env' now_ms' p3 q = (p3, Some (JsonReply 200 (RequestBody r)))"
    if "ev_now env' < r1_expiry_ts (aq_public_inputs req)" "\<not> ev_lookup_fault env'" for env' now_ms'
    using handle_request_again [OF p3 validate_request_stable [OF p0(1) p3(1) p0(2) that(1)] that(2)] q req
    by (simp add: create_router_def)
  then show ?thesis using run req by blast
qed

text \<open>For the witness: a decoder that knows one request, and a database in a file of its own.\<close>

definition toy_web :: "ApiRequest web" where
  "toy_web = \<lparr>wb_api_request = (\<lambda>b. if b = toy_request then Inr b else Inl 422),
     wb_clearance_request = (\<lambda>_. Inl 422), wb_percent_decode = Some, wb_message = (\<lambda>_. ''error'')\<rparr>"

definition toy_config :: ServerConfig where
  "toy_config = ServerConfig_default\<lparr>cf_xmss_height := 2\<rparr>"

definition toy_post :: "ApiRequest http_request" where
  "toy_post = \<lparr>hq_method = POST, hq_path = ''/v1/requests'', hq_body = toy_request\<rparr>"

text \<open>A durable signer with leaves left signs.\<close>

lemma sign_next_state_available:
  assumes "durable_inv S c sn" "durable_count sn StateTree < 2 ^ cfg_height c" "\<not> operation_lock_poisoned sn"
  shows "\<exists>sn' sg leaf m. sign_next_state S False sn bm = (sn', Inr (sg, leaf, m))"
proof -
  obtain tbl where tbl: "durable_state sn = Some tbl"
    "tree_ok tbl StateTree (state_epoch sn) (signer_state_root S sn) (cfg_height c)"
    and keys: "keys_ok S (cfg_state_seed c) (cfg_height c) (state_keypair sn)" "cfg_height c < 32"
    using assms(1) by (auto simp: durable_inv_def)
  let ?n = "leaf_count tbl StateTree"
  have n: "?n < 2 ^ cfg_height c" using assms(2) tbl(1) by (simp add: durable_count_def)
  then have "unat (of_nat ?n :: u32) < 2 ^ cfg_height c"
    using power_31 [OF keys(2)] by (simp add: unat_of_nat)
  then obtain kp' where "sign_reserved S (state_keypair sn) (of_nat ?n) (bm (of_nat ?n)) =
      (kp', Some (leaf_signature S (state_keypair sn) (of_nat ?n) (bm (of_nat ?n))))"
    using sign_reserved_keys [OF keys(1)] by blast
  then show ?thesis
    using reserve_leaf_cases [OF tbl(2) keys(2) keys_ok_capacity [OF keys(1)], of False] n assms(3) tbl(1)
    by (simp add: sign_next_state_def Let_def)
qed

lemma toy_deps_config [simp]:
  "validate_request (server_deps D) toy_config = validate_request D ServerConfig_default"
  "build_next_state (server_deps D) toy_config = build_next_state D ServerConfig_default"
  "reconstruct_affine_point (server_deps D) = reconstruct_affine_point D"
proof -
  have fields: "dp_keccak (server_deps D) = dp_keccak D" "dp_curve (server_deps D) = dp_curve D"
    "dp_base64_decode (server_deps D) = dp_base64_decode D" "dp_verify_artifact (server_deps D) = dp_verify_artifact D"
    "cf_proof_mode toy_config = cf_proof_mode ServerConfig_default"
    "cf_trusted_epoch_roots toy_config = cf_trusted_epoch_roots ServerConfig_default"
    "charge_cap toy_config = charge_cap ServerConfig_default"
    "cf_protocol_version toy_config = cf_protocol_version ServerConfig_default"
    "cf_chain_id toy_config = cf_chain_id ServerConfig_default"
    "cf_contract_address toy_config = cf_contract_address ServerConfig_default"
    by (simp_all add: server_deps_def toy_config_def charge_cap_def)
  show "validate_request (server_deps D) toy_config = validate_request D ServerConfig_default"
    "build_next_state (server_deps D) toy_config = build_next_state D ServerConfig_default"
    "reconstruct_affine_point (server_deps D) = reconstruct_affine_point D"
    by (intro ext, simp only: validate_request_def validate_state_sig_root_def verify_request_proof_artifact_def
        build_next_state_def reconstruct_affine_point_def fields server_deps_stark)+
qed

lemma toy_cap [simp]: "charge_cap toy_config = 1000000"
  by (simp add: charge_cap_def toy_config_def)

lemma toy_app_ok: "web_ok toy_web" "deps_ok (server_deps toy_deps)" "cf_xmss_height toy_config < 32"
  "persistent (cf_db_path toy_config)" "db_inv toy_deps toy_config (open_db Map.empty (cf_db_path toy_config))"
  using toy_deps_ok
  by (simp_all add: web_ok_def toy_web_def toy_config_def persistent_def ServerConfig_default_def db_inv_def
      open_db_def)
    (simp add: deps_ok_def provider_ok_def server_deps_def echo_execute_def)

lemma toy_started:
  obtains d1 p1 where "run_server toy_deps no_boot_faults toy_config Map.empty = (d1, Inr p1)"
    "processor_inv toy_deps toy_config p1" "st_table (rp_state p1) = []"
    "\<not> operation_lock_poisoned (st_signer (rp_state p1))" "durable_count (st_signer (rp_state p1)) StateTree = 0"
proof -
  obtain d1 p1 where run: "run_server toy_deps no_boot_faults toy_config Map.empty = (d1, Inr p1)"
    using run_server_starts(1) [OF toy_app_ok(3,4,5)] by blast
  have "st_table (rp_state p1) = [] \<and> processor_inv toy_deps toy_config p1"
    using run_server_starts(2) [OF toy_app_ok(3,4,5) run] by (simp add: open_db_def empty_db_def)
  moreover have "\<not> operation_lock_poisoned (st_signer (rp_state p1)) \<and>
      durable_count (st_signer (rp_state p1)) StateTree = 0"
    using run by (auto simp: run_server_def NullifierStore_new_def RequestProcessor_new_def Let_def
        with_height_durable_def SignerStateStore_new_def ensure_tree_def signer_row_def open_db_def write_db_def
        empty_db_def durable_count_def leaf_count_def split: if_splits)
  ultimately show ?thesis using that run by blast
qed

lemma toy_posted:
  assumes "processor_inv toy_deps toy_config p" "st_table (rp_state p) = []"
    and "\<not> operation_lock_poisoned (st_signer (rp_state p))" "durable_count (st_signer (rp_state p)) StateTree = 0"
  shows "\<exists>p' r. create_router toy_web toy_env 0 p toy_post = (p', Some (JsonReply 200 (RequestBody r)))"
proof -
  let ?D = "server_deps toy_deps" and ?sn = "st_signer (rp_state p)"
  let ?p = "commit toy_stark scalar_curve 2000000 (felt_from_u128 toy_stark 0)"
  have inv: "durable_inv (dp_stark ?D) (signer_cfg (dp_stark toy_deps) toy_config) ?sn"
    and root: "st_root (rp_state p) = 0"
    using assms(1) by (simp_all add: processor_inv_def toy_config_def ServerConfig_default_def ZERO_def)
  obtain sn' sg leaf m where sign: "sign_next_state (dp_stark ?D) False ?sn
      (state_message_for ?D toy_config 42 ?p 1) = (sn', Inr (sg, leaf, m))"
    using sign_next_state_available [OF inv, of "state_message_for ?D toy_config 42 ?p 1"] assms(3,4) by auto
  obtain ns where ns: "build_next_state toy_deps ServerConfig_default 42 ?p 1 leaf = Some ns"
    using toy_next_state [of 1] by blast
  have prov: "dp_provider ?D (aq_client_request_id toy_request) (aq_payload toy_request) (aq_payload_hash toy_request)
      = Inr \<lparr>pr_status_code = 200, pr_payload = ''hello'', pr_charge_applied = 1,
             pr_policy_reason_code = None, pr_policy_evidence_hash = None\<rparr>"
    by (simp add: server_deps_def echo_execute_def toy_request_def EchoProvider_default_def)
  have keccak: "dp_keccak ?D = (\<lambda>_. replicate 32 0)" by (simp add: server_deps_def toy_deps_def)
  have tbl: "table_inv (st_table (rp_state p))" "row_of (st_table (rp_state p)) (req_nullifier toy_request) = None"
    using assms(2) by (simp_all add: table_inv_def row_of_def)
  have "\<exists>st' r. process_request ?D toy_config toy_env (rp_state p) toy_request = (st', Inr r)"
    using process_request_serves [where cfg = toy_config and env = toy_env, OF tbl _ _ _ prov, of "[1, 2]" 0]
      sign ns toy_valid [OF root] toy_point
    by (simp add: canonical_response_hash_def toy_hash keccak) blast
  then show ?thesis using assms(1)
    by (auto simp: create_router_def toy_post_def endpoint_of_def toy_web_def handle_request_def processor_inv_def)
qed

theorem answered_request_survives_restart_witness:
  "\<exists>d1 p1 p2 r d3 p3. run_server toy_deps no_boot_faults toy_config Map.empty = (d1, Inr p1) \<and>
     create_router toy_web toy_env 0 p1 toy_post = (p2, Some (JsonReply 200 (RequestBody r))) \<and>
     run_server toy_deps no_boot_faults toy_config (write_db (cf_db_path toy_config) (processor_db p2) d1) = (d3, Inr p3) \<and>
     create_router toy_web toy_env 0 p3 toy_post = (p3, Some (JsonReply 200 (RequestBody r)))"
proof -
  obtain d1 p1 where run: "run_server toy_deps no_boot_faults toy_config Map.empty = (d1, Inr p1)"
    and p1: "processor_inv toy_deps toy_config p1" "st_table (rp_state p1) = []"
      "\<not> operation_lock_poisoned (st_signer (rp_state p1))" "durable_count (st_signer (rp_state p1)) StateTree = 0"
    by (rule toy_started)
  obtain p2 r where post: "create_router toy_web toy_env 0 p1 toy_post = (p2, Some (JsonReply 200 (RequestBody r)))"
    using toy_posted [OF p1] by blast
  then have "serve_all toy_web p1 [(toy_env, 0, toy_post)] = (p2, [Some (JsonReply 200 (RequestBody r))])" by simp
  from answered_request_survives_restart [OF toy_app_ok run this, of toy_env 0 toy_post r]
  obtain d3 p3 req where "run_server toy_deps no_boot_faults toy_config
      (write_db (cf_db_path toy_config) (processor_db p2) d1) = (d3, Inr p3)"
    and req: "wb_api_request toy_web (hq_body toy_post) = Inr req"
    and again: "\<forall>env' now_ms'. ev_now env' < r1_expiry_ts (aq_public_inputs req) \<longrightarrow> \<not> ev_lookup_fault env' \<longrightarrow>
      create_router toy_web env' now_ms' p3 toy_post = (p3, Some (JsonReply 200 (RequestBody r)))"
    by auto
  moreover have "req = toy_request" using req by (simp add: toy_web_def toy_post_def)
  then have "create_router toy_web toy_env 0 p3 toy_post = (p3, Some (JsonReply 200 (RequestBody r)))"
    using again by (simp add: toy_request_def toy_inputs_def)
  ultimately show ?thesis using run post by blast
qed

end
