(* ===== verification/Groth16.thy ===== *)
theory Groth16
  imports Merkle Pedersen
begin

text \<open>
  The version 2 statements of \<open>zkapi-proof/src/groth16.rs\<close>: native hashes, balance commitments on the
  Baby-JubJub curve, Schnorr state signatures, and the constraint systems of the request and the
  withdrawal circuit.

  Circuit field elements are their values below the modulus. The curve library is the record
  \<open>edwards\<close>: points form an abelian group \<open>'e\<close>, \<open>mul_bigint\<close> is repeated addition, and every point
  has affine coordinates. A circuit is modelled by the assignment its \<open>new_witness\<close> calls make and
  the conjunction of the constraints \<open>generate_constraints\<close> enforces; scalars are assigned bit by bit,
  so a prover may choose any 251 bits. The proof system itself is not modelled.
\<close>

section \<open>Curve and generators\<close>

record 'e edwards =
  ed_generator :: 'e
  ed_H :: 'e
  ed_J :: 'e
  ed_x :: "'e \<Rightarrow> nat"
  ed_y :: "'e \<Rightarrow> nat"
  ed_new_unchecked :: "nat \<Rightarrow> nat \<Rightarrow> 'e"
  ed_on_curve :: "nat \<Rightarrow> nat \<Rightarrow> bool"
  ed_coeff_d :: nat
  ed_cofactor :: nat
  ed_in_subgroup :: "'e \<Rightarrow> bool"
  fr_inverse :: "nat \<Rightarrow> nat option"
  fr_sqrt :: "nat \<Rightarrow> nat option"

definition SCALAR_MODULUS :: nat where
  "SCALAR_MODULUS = 2736030358979909402780800718157159386076813972158567259200215660948447373041"

definition SCALAR_BITS :: nat where
  "SCALAR_BITS = 251"

definition fr_sub :: "nat \<Rightarrow> nat \<Rightarrow> nat" where
  "fr_sub a b = (a + (field_modulus - b mod field_modulus)) mod field_modulus"

text \<open>One attempt of the hash-to-curve loop; \<open>None\<close> is \<open>continue\<close>.\<close>

definition generator_attempt :: "'e::ab_group_add edwards \<Rightarrow> keccak256 \<Rightarrow> u8 list \<Rightarrow> u32 \<Rightarrow> 'e option" where
  "generator_attempt E keccak label counter =
     (let x = from_be_bytes_mod_order (keccak (label @ be_digits 4 (unat counter)));
          x_squared = (x * x) mod field_modulus;
          numerator = fr_sub 1 x_squared;
          denominator = fr_sub 1 ((ed_coeff_d E * x_squared) mod field_modulus)
      in case fr_inverse E denominator of
           None \<Rightarrow> None
         | Some denominator_inverse \<Rightarrow>
             (case fr_sqrt E ((numerator * denominator_inverse) mod field_modulus) of
                None \<Rightarrow> None
              | Some y0 \<Rightarrow>
                  let y = (if odd y0 then fr_sub 0 y0 else y0);
                      point = nsmul (ed_cofactor E) (ed_new_unchecked E x y)
                  in if point \<noteq> 0 \<and> ed_in_subgroup E point then Some point else None))"

primrec generator_loop :: "'e::ab_group_add edwards \<Rightarrow> keccak256 \<Rightarrow> u8 list \<Rightarrow> nat \<Rightarrow> u32 \<Rightarrow> 'e option" where
  "generator_loop E keccak label 0 counter = None"
| "generator_loop E keccak label (Suc n) counter =
     (case generator_attempt E keccak label counter of
        Some p \<Rightarrow> Some p
      | None \<Rightarrow> generator_loop E keccak label n (counter + 1))"

text \<open>\<open>None\<close> is the \<open>unreachable!\<close> after all counters.\<close>

definition derive_generator :: "'e::ab_group_add edwards \<Rightarrow> keccak256 \<Rightarrow> u8 list \<Rightarrow> 'e option" where
  "derive_generator E keccak label = generator_loop E keccak label (2 ^ 32 - 1) 0"

definition balance_blinding_generator :: "'e::ab_group_add edwards \<Rightarrow> keccak256 \<Rightarrow> 'e option" where
  "balance_blinding_generator E keccak =
     derive_generator E keccak (as_bytes_str ''zkapi.v2.balance.blinding.generator'')"

definition note_binding_generator :: "'e::ab_group_add edwards \<Rightarrow> keccak256 \<Rightarrow> 'e option" where
  "note_binding_generator E keccak =
     derive_generator E keccak (as_bytes_str ''zkapi.v2.note-binding.generator.v1'')"


section \<open>Native hashes and commitments\<close>

definition G16_DOMAIN_SIGNATURE :: string where "G16_DOMAIN_SIGNATURE = ''zkapi.v2.sig''"

definition g16_registration :: "poseidon \<Rightarrow> nat \<Rightarrow> nat" where
  "g16_registration P secret = P [v2_domain V2_DOMAIN_REG, secret, 0]"

definition g16_note_leaf :: "poseidon \<Rightarrow> u32 \<Rightarrow> nat \<Rightarrow> u128 \<Rightarrow> u64 \<Rightarrow> nat" where
  "g16_note_leaf P note_id registration deposit_amount expiry =
     P [v2_domain V2_DOMAIN_LEAF, unat note_id, registration, unat deposit_amount, unat expiry]"

definition g16_merkle_root :: "poseidon \<Rightarrow> u32 \<Rightarrow> nat \<Rightarrow> nat list \<Rightarrow> nat" where
  "g16_merkle_root P note_id leaf siblings =
     fold (\<lambda>(level, sibling) current.
             if and (drop_bit level note_id) 1 = 0
             then P [v2_domain V2_DOMAIN_NODE, current, sibling]
             else P [v2_domain V2_DOMAIN_NODE, sibling, current])
          (List.enumerate 0 siblings) leaf"

definition g16_nullifier :: "poseidon \<Rightarrow> nat \<Rightarrow> nat \<Rightarrow> nat" where
  "g16_nullifier P secret anchor = P [v2_domain V2_DOMAIN_NULLIFIER, secret, anchor]"

definition g16_authorization_tag :: "poseidon \<Rightarrow> nat \<Rightarrow> nat \<Rightarrow> nat" where
  "g16_authorization_tag P nul context = P [v2_domain V2_DOMAIN_AUTHORIZATION, nul, context]"

definition g16_withdrawal_tag :: "poseidon \<Rightarrow> nat \<Rightarrow> nat \<Rightarrow> u128 \<Rightarrow> bool \<Rightarrow> nat" where
  "g16_withdrawal_tag P nul destination final_balance has_clearance =
     P [v2_domain V2_DOMAIN_WITHDRAWAL, nul, destination, unat final_balance, of_bool has_clearance]"

definition g16_state_message ::
    "'e edwards \<Rightarrow> poseidon \<Rightarrow> u16 \<Rightarrow> u64 \<Rightarrow> nat \<Rightarrow> 'e \<Rightarrow> nat \<Rightarrow> nat" where
  "g16_state_message E P protocol_version chain_id contract_address commitment anchor =
     P [v2_domain V2_DOMAIN_STATE, unat protocol_version, unat chain_id, contract_address,
        ed_x E commitment, ed_y E commitment, anchor]"

definition g16_clearance_message :: "poseidon \<Rightarrow> u16 \<Rightarrow> u64 \<Rightarrow> nat \<Rightarrow> nat \<Rightarrow> nat" where
  "g16_clearance_message P protocol_version chain_id contract_address withdrawal_nullifier =
     P [v2_domain V2_DOMAIN_CLEARANCE, unat protocol_version, unat chain_id, contract_address,
        withdrawal_nullifier]"

text \<open>Scalars of the curve's prime-order subgroup are values below \<open>SCALAR_MODULUS\<close>.\<close>

definition balance_commitment :: "'e::ab_group_add edwards \<Rightarrow> u128 \<Rightarrow> nat \<Rightarrow> nat \<Rightarrow> 'e" where
  "balance_commitment E balance blinding leaf =
     nsmul (unat balance mod SCALAR_MODULUS) (ed_generator E) + nsmul blinding (ed_H E) + nsmul leaf (ed_J E)"

definition rerandomize_commitment :: "'e::ab_group_add edwards \<Rightarrow> 'e \<Rightarrow> nat \<Rightarrow> 'e" where
  "rerandomize_commitment E commitment rerandomization = commitment + nsmul rerandomization (ed_H E)"


section \<open>State signatures\<close>

record 'e StateSigningKey =
  sk_secret :: nat
  sk_public :: 'e

record 'e StateSignature =
  ss_r :: 'e
  ss_s :: nat

definition from_secret :: "'e::ab_group_add edwards \<Rightarrow> nat \<Rightarrow> 'e StateSigningKey" where
  "from_secret E secret =
     (let secret = (if secret = 0 then 1 else secret)
      in \<lparr>sk_secret = secret, sk_public = nsmul secret (ed_generator E)\<rparr>)"

definition signature_challenge :: "'e edwards \<Rightarrow> poseidon \<Rightarrow> 'e \<Rightarrow> nat \<Rightarrow> nat" where
  "signature_challenge E P r message =
     P [v2_domain G16_DOMAIN_SIGNATURE, ed_x E r, ed_y E r, message] mod SCALAR_MODULUS"

text \<open>The nonce drawn from the random generator is an argument.\<close>

definition state_key_sign ::
    "'e::ab_group_add edwards \<Rightarrow> poseidon \<Rightarrow> 'e StateSigningKey \<Rightarrow> nat \<Rightarrow> nat \<Rightarrow> 'e StateSignature" where
  "state_key_sign E P key nonce message =
     (let r = nsmul nonce (ed_generator E); challenge = signature_challenge E P r message
      in \<lparr>ss_r = r, ss_s = (nonce + challenge * sk_secret key) mod SCALAR_MODULUS\<rparr>)"

definition verify_state_signature ::
    "'e::ab_group_add edwards \<Rightarrow> poseidon \<Rightarrow> 'e \<Rightarrow> nat \<Rightarrow> 'e StateSignature \<Rightarrow> bool" where
  "verify_state_signature E P public message sig \<longleftrightarrow>
     nsmul (ss_s sig) (ed_generator E)
       = ss_r sig + nsmul (signature_challenge E P (ss_r sig) message) public"


section \<open>The request circuit\<close>

record 'e RequestPublic =
  rp_protocol_version :: u16
  rp_chain_id :: u64
  rp_contract_address :: nat
  rp_active_root :: nat
  rp_state_signing_key :: 'e
  rp_request_time :: u64
  rp_solvency_bound :: u128
  rp_request_nullifier :: nat
  rp_authorization_tag :: nat
  rp_anonymous_commitment :: 'e

definition rp_to_field_elements :: "'e edwards \<Rightarrow> 'e RequestPublic \<Rightarrow> nat list" where
  "rp_to_field_elements E p =
     [unat (rp_protocol_version p), unat (rp_chain_id p), rp_contract_address p, rp_active_root p,
      ed_x E (rp_state_signing_key p), ed_y E (rp_state_signing_key p), unat (rp_request_time p),
      unat (rp_solvency_bound p), rp_request_nullifier p, rp_authorization_tag p,
      ed_x E (rp_anonymous_commitment p), ed_y E (rp_anonymous_commitment p)]"

record 'e RequestWitness =
  rw_secret :: nat
  rw_request_context :: nat
  rw_note_id :: u32
  rw_deposit_amount :: u128
  rw_expiry :: u64
  rw_merkle_siblings :: "nat list"
  rw_current_balance :: u128
  rw_current_blinding :: nat
  rw_rerandomization :: nat
  rw_current_anchor :: nat
  rw_is_genesis :: bool
  rw_state_signature :: "'e StateSignature"

text \<open>\<open>scalar_bits_witness\<close>: the little-endian bits of the value, padded or cut to 251.\<close>

definition scalar_bits :: "nat \<Rightarrow> bool list" where
  "scalar_bits value = map (\<lambda>i. bit value i) [0..<SCALAR_BITS]"

definition scalar_mul_le :: "bool list \<Rightarrow> 'e::ab_group_add \<Rightarrow> 'e" where
  "scalar_mul_le bits p = nsmul (bits_value bits) p"

text \<open>The variables \<open>generate_constraints\<close> allocates: the witness with scalars as bits, and the
  integer forms of the public time and bound.\<close>

record 'e RequestAssignment =
  ra_secret :: nat
  ra_request_context :: nat
  ra_note_id :: u32
  ra_deposit_amount :: u128
  ra_expiry :: u64
  ra_balance :: u128
  ra_request_time :: u64
  ra_solvency_bound :: u128
  ra_siblings :: "nat list"
  ra_is_genesis :: bool
  ra_anchor :: nat
  ra_blinding_bits :: "bool list"
  ra_sig_r :: 'e
  ra_sig_s_bits :: "bool list"
  ra_rerandomization_bits :: "bool list"

definition request_assignment :: "'e RequestPublic \<Rightarrow> 'e RequestWitness \<Rightarrow> 'e RequestAssignment" where
  "request_assignment p w =
     \<lparr>ra_secret = rw_secret w, ra_request_context = rw_request_context w, ra_note_id = rw_note_id w,
      ra_deposit_amount = rw_deposit_amount w, ra_expiry = rw_expiry w,
      ra_balance = rw_current_balance w, ra_request_time = rp_request_time p,
      ra_solvency_bound = rp_solvency_bound p, ra_siblings = rw_merkle_siblings w,
      ra_is_genesis = rw_is_genesis w, ra_anchor = rw_current_anchor w,
      ra_blinding_bits = scalar_bits (rw_current_blinding w),
      ra_sig_r = ss_r (rw_state_signature w), ra_sig_s_bits = scalar_bits (ss_s (rw_state_signature w)),
      ra_rerandomization_bits = scalar_bits (rw_rerandomization w)\<rparr>"

text \<open>The Merkle path with \<open>bit.select\<close> at each level.\<close>

definition merkle_path_var :: "poseidon \<Rightarrow> u32 \<Rightarrow> nat \<Rightarrow> nat list \<Rightarrow> nat" where
  "merkle_path_var P note_id leaf siblings =
     fold (\<lambda>(level, sibling) current.
             let b = bit note_id level;
                 left = (if b then sibling else current);
                 right = (if b then current else sibling)
             in P [v2_domain V2_DOMAIN_NODE, left, right])
          (List.enumerate 0 siblings) leaf"

definition commitment_var :: "'e::ab_group_add edwards \<Rightarrow> u128 \<Rightarrow> bool list \<Rightarrow> nat \<Rightarrow> 'e" where
  "commitment_var E balance blinding_bits leaf =
     nsmul (unat balance) (ed_generator E) + scalar_mul_le blinding_bits (ed_H E) + nsmul leaf (ed_J E)"

definition enforce_signature ::
    "'e::ab_group_add edwards \<Rightarrow> poseidon \<Rightarrow> 'e \<Rightarrow> nat \<Rightarrow> 'e \<Rightarrow> bool list \<Rightarrow> bool \<Rightarrow> bool" where
  "enforce_signature E P public_key message r s_bits condition \<longleftrightarrow>
     (let challenge_hash = P [v2_domain G16_DOMAIN_SIGNATURE, ed_x E r, ed_y E r, message];
          lhs = scalar_mul_le s_bits (ed_generator E);
          rhs = r + nsmul challenge_hash public_key
      in condition \<longrightarrow> lhs = rhs)"

definition request_constraints ::
    "'e::ab_group_add edwards \<Rightarrow> poseidon \<Rightarrow> 'e RequestPublic \<Rightarrow> 'e RequestAssignment \<Rightarrow> bool" where
  "request_constraints E P p a \<longleftrightarrow>
     (let registration = P [v2_domain V2_DOMAIN_REG, ra_secret a, 0];
          leaf = P [v2_domain V2_DOMAIN_LEAF, unat (ra_note_id a), registration,
                    unat (ra_deposit_amount a), unat (ra_expiry a)];
          current_commitment = commitment_var E (ra_balance a) (ra_blinding_bits a) leaf;
          message = P [v2_domain V2_DOMAIN_STATE, unat (rp_protocol_version p), unat (rp_chain_id p),
                       rp_contract_address p, ed_x E current_commitment, ed_y E current_commitment,
                       ra_anchor a]
      in ra_secret a \<noteq> 0 \<and>
         unat (ra_request_time a) = unat (rp_request_time p) \<and>
         ra_expiry a \<ge> ra_request_time a \<and>
         unat (ra_solvency_bound a) = unat (rp_solvency_bound p) \<and>
         ra_balance a \<ge> ra_solvency_bound a \<and>
         length (ra_siblings a) = MERKLE_DEPTH \<and>
         merkle_path_var P (ra_note_id a) leaf (ra_siblings a) = rp_active_root p \<and>
         (ra_is_genesis a \<longrightarrow> ra_anchor a = 1) \<and>
         (ra_is_genesis a \<longrightarrow> unat (ra_balance a) = unat (ra_deposit_amount a)) \<and>
         length (ra_blinding_bits a) = SCALAR_BITS \<and> length (ra_sig_s_bits a) = SCALAR_BITS \<and>
         length (ra_rerandomization_bits a) = SCALAR_BITS \<and>
         enforce_signature E P (rp_state_signing_key p) message (ra_sig_r a) (ra_sig_s_bits a)
           (\<not> ra_is_genesis a) \<and>
         current_commitment + scalar_mul_le (ra_rerandomization_bits a) (ed_H E)
           = rp_anonymous_commitment p \<and>
         P [v2_domain V2_DOMAIN_NULLIFIER, ra_secret a, ra_anchor a] = rp_request_nullifier p \<and>
         P [v2_domain V2_DOMAIN_AUTHORIZATION, rp_request_nullifier p, ra_request_context a]
           = rp_authorization_tag p)"

section \<open>The withdrawal circuit\<close>

record 'e WithdrawalPublic =
  wp_protocol_version :: u16
  wp_chain_id :: u64
  wp_contract_address :: nat
  wp_active_root :: nat
  wp_state_signing_key :: 'e
  wp_clearance_signing_key :: 'e
  wp_note_id :: u32
  wp_final_balance :: u128
  wp_destination :: nat
  wp_withdrawal_nullifier :: nat
  wp_has_clearance :: bool
  wp_withdrawal_tag :: nat

definition wp_to_field_elements :: "'e edwards \<Rightarrow> 'e WithdrawalPublic \<Rightarrow> nat list" where
  "wp_to_field_elements E p =
     [unat (wp_protocol_version p), unat (wp_chain_id p), wp_contract_address p, wp_active_root p,
      ed_x E (wp_state_signing_key p), ed_y E (wp_state_signing_key p),
      ed_x E (wp_clearance_signing_key p), ed_y E (wp_clearance_signing_key p),
      unat (wp_note_id p), unat (wp_final_balance p), wp_destination p, wp_withdrawal_nullifier p,
      of_bool (wp_has_clearance p), wp_withdrawal_tag p]"

record 'e WithdrawalWitness =
  ww_secret :: nat
  ww_deposit_amount :: u128
  ww_expiry :: u64
  ww_merkle_siblings :: "nat list"
  ww_final_blinding :: nat
  ww_current_anchor :: nat
  ww_is_genesis :: bool
  ww_state_signature :: "'e StateSignature"
  ww_clearance_signature :: "'e StateSignature"

record 'e WithdrawalAssignment =
  wa_secret :: nat
  wa_note_id :: u32
  wa_deposit_amount :: u128
  wa_final_balance :: u128
  wa_expiry :: u64
  wa_siblings :: "nat list"
  wa_is_genesis :: bool
  wa_anchor :: nat
  wa_blinding_bits :: "bool list"
  wa_sig_r :: 'e
  wa_sig_s_bits :: "bool list"
  wa_clear_r :: 'e
  wa_clear_s_bits :: "bool list"

definition withdrawal_assignment :: "'e WithdrawalPublic \<Rightarrow> 'e WithdrawalWitness \<Rightarrow> 'e WithdrawalAssignment" where
  "withdrawal_assignment p w =
     \<lparr>wa_secret = ww_secret w, wa_note_id = wp_note_id p, wa_deposit_amount = ww_deposit_amount w,
      wa_final_balance = wp_final_balance p, wa_expiry = ww_expiry w,
      wa_siblings = ww_merkle_siblings w, wa_is_genesis = ww_is_genesis w,
      wa_anchor = ww_current_anchor w, wa_blinding_bits = scalar_bits (ww_final_blinding w),
      wa_sig_r = ss_r (ww_state_signature w), wa_sig_s_bits = scalar_bits (ss_s (ww_state_signature w)),
      wa_clear_r = ss_r (ww_clearance_signature w),
      wa_clear_s_bits = scalar_bits (ss_s (ww_clearance_signature w))\<rparr>"

definition withdrawal_constraints ::
    "'e::ab_group_add edwards \<Rightarrow> poseidon \<Rightarrow> 'e WithdrawalPublic \<Rightarrow> 'e WithdrawalAssignment \<Rightarrow> bool" where
  "withdrawal_constraints E P p a \<longleftrightarrow>
     (let registration = P [v2_domain V2_DOMAIN_REG, wa_secret a, 0];
          leaf = P [v2_domain V2_DOMAIN_LEAF, unat (wa_note_id a), registration,
                    unat (wa_deposit_amount a), unat (wa_expiry a)];
          current_commitment = commitment_var E (wa_final_balance a) (wa_blinding_bits a) leaf;
          message = P [v2_domain V2_DOMAIN_STATE, unat (wp_protocol_version p), unat (wp_chain_id p),
                       wp_contract_address p, ed_x E current_commitment, ed_y E current_commitment,
                       wa_anchor a];
          clear_message = P [v2_domain V2_DOMAIN_CLEARANCE, unat (wp_protocol_version p),
                             unat (wp_chain_id p), wp_contract_address p, wp_withdrawal_nullifier p]
      in wa_secret a \<noteq> 0 \<and>
         unat (wa_note_id a) = unat (wp_note_id p) \<and>
         unat (wa_final_balance a) = unat (wp_final_balance p) \<and>
         wa_deposit_amount a \<ge> wa_final_balance a \<and>
         length (wa_siblings a) = MERKLE_DEPTH \<and>
         merkle_path_var P (wa_note_id a) leaf (wa_siblings a) = wp_active_root p \<and>
         (wa_is_genesis a \<longrightarrow> wa_anchor a = 1) \<and>
         (wa_is_genesis a \<longrightarrow> unat (wa_final_balance a) = unat (wa_deposit_amount a)) \<and>
         length (wa_blinding_bits a) = SCALAR_BITS \<and> length (wa_sig_s_bits a) = SCALAR_BITS \<and>
         length (wa_clear_s_bits a) = SCALAR_BITS \<and>
         enforce_signature E P (wp_state_signing_key p) message (wa_sig_r a) (wa_sig_s_bits a)
           (\<not> wa_is_genesis a) \<and>
         P [v2_domain V2_DOMAIN_NULLIFIER, wa_secret a, wa_anchor a] = wp_withdrawal_nullifier p \<and>
         P [v2_domain V2_DOMAIN_WITHDRAWAL, wp_withdrawal_nullifier p, wp_destination p,
            unat (wp_final_balance p), (if wp_has_clearance p then 1 else 0)] = wp_withdrawal_tag p \<and>
         enforce_signature E P (wp_clearance_signing_key p) clear_message (wa_clear_r a)
           (wa_clear_s_bits a) (wp_has_clearance p))"


section \<open>The statements\<close>

text \<open>What the two circuits are meant to prove, over the native functions. Scalars of a witness are
  canonical.\<close>

definition request_relation ::
    "'e::ab_group_add edwards \<Rightarrow> poseidon \<Rightarrow> 'e RequestPublic \<Rightarrow> 'e RequestWitness \<Rightarrow> bool" where
  "request_relation E P p w \<longleftrightarrow>
     (let leaf = g16_note_leaf P (rw_note_id w) (g16_registration P (rw_secret w))
                   (rw_deposit_amount w) (rw_expiry w);
          commitment = balance_commitment E (rw_current_balance w) (rw_current_blinding w) leaf
      in rw_secret w \<noteq> 0 \<and>
         rp_request_time p \<le> rw_expiry w \<and> rp_solvency_bound p \<le> rw_current_balance w \<and>
         length (rw_merkle_siblings w) = MERKLE_DEPTH \<and>
         g16_merkle_root P (rw_note_id w) leaf (rw_merkle_siblings w) = rp_active_root p \<and>
         rw_current_blinding w < SCALAR_MODULUS \<and> rw_rerandomization w < SCALAR_MODULUS \<and>
         ss_s (rw_state_signature w) < SCALAR_MODULUS \<and>
         (if rw_is_genesis w
          then rw_current_anchor w = 1 \<and> rw_current_balance w = rw_deposit_amount w
          else verify_state_signature E P (rp_state_signing_key p)
                 (g16_state_message E P (rp_protocol_version p) (rp_chain_id p) (rp_contract_address p)
                    commitment (rw_current_anchor w)) (rw_state_signature w)) \<and>
         rerandomize_commitment E commitment (rw_rerandomization w) = rp_anonymous_commitment p \<and>
         g16_nullifier P (rw_secret w) (rw_current_anchor w) = rp_request_nullifier p \<and>
         g16_authorization_tag P (rp_request_nullifier p) (rw_request_context w) = rp_authorization_tag p)"

definition withdrawal_relation ::
    "'e::ab_group_add edwards \<Rightarrow> poseidon \<Rightarrow> 'e WithdrawalPublic \<Rightarrow> 'e WithdrawalWitness \<Rightarrow> bool" where
  "withdrawal_relation E P p w \<longleftrightarrow>
     (let leaf = g16_note_leaf P (wp_note_id p) (g16_registration P (ww_secret w))
                   (ww_deposit_amount w) (ww_expiry w);
          commitment = balance_commitment E (wp_final_balance p) (ww_final_blinding w) leaf
      in ww_secret w \<noteq> 0 \<and> wp_final_balance p \<le> ww_deposit_amount w \<and>
         length (ww_merkle_siblings w) = MERKLE_DEPTH \<and>
         g16_merkle_root P (wp_note_id p) leaf (ww_merkle_siblings w) = wp_active_root p \<and>
         ww_final_blinding w < SCALAR_MODULUS \<and> ss_s (ww_state_signature w) < SCALAR_MODULUS \<and>
         ss_s (ww_clearance_signature w) < SCALAR_MODULUS \<and>
         (if ww_is_genesis w
          then ww_current_anchor w = 1 \<and> wp_final_balance p = ww_deposit_amount w
          else verify_state_signature E P (wp_state_signing_key p)
                 (g16_state_message E P (wp_protocol_version p) (wp_chain_id p) (wp_contract_address p)
                    commitment (ww_current_anchor w)) (ww_state_signature w)) \<and>
         g16_nullifier P (ww_secret w) (ww_current_anchor w) = wp_withdrawal_nullifier p \<and>
         g16_withdrawal_tag P (wp_withdrawal_nullifier p) (wp_destination p) (wp_final_balance p)
           (wp_has_clearance p) = wp_withdrawal_tag p \<and>
         (wp_has_clearance p \<longrightarrow> verify_state_signature E P (wp_clearance_signing_key p)
            (g16_clearance_message P (wp_protocol_version p) (wp_chain_id p) (wp_contract_address p)
               (wp_withdrawal_nullifier p)) (ww_clearance_signature w)))"


section \<open>Gadgets compute the native functions\<close>

text \<open>The documented laws of the curve: \<open>SCALAR_MODULUS\<close> annihilates the generators and every point
  that passes the subgroup check.\<close>

definition edwards_ok :: "'e::ab_group_add edwards \<Rightarrow> bool" where
  "edwards_ok E \<longleftrightarrow> nsmul SCALAR_MODULUS (ed_generator E) = 0 \<and>
     (\<forall>p. ed_in_subgroup E p \<longrightarrow> nsmul SCALAR_MODULUS p = 0) \<and> ed_in_subgroup E (ed_H E)"

lemma merkle_path_var_eq: "merkle_path_var P note_id leaf siblings = g16_merkle_root P note_id leaf siblings"
proof -
  have "and (drop_bit k note_id) 1 = 0 \<longleftrightarrow> \<not> bit note_id k" for k
    by (simp add: and_one_eq mod_2_eq_odd bit_iff_odd_drop_bit)
  then show ?thesis unfolding merkle_path_var_def g16_merkle_root_def
    by (intro fold_cong refl) (auto simp: Let_def)
qed

lemma scalar_bits_value: "v < SCALAR_MODULUS \<Longrightarrow> bits_value (scalar_bits v) = v"
proof -
  assume "v < SCALAR_MODULUS"
  then have "v < 2 ^ SCALAR_BITS" by (simp add: SCALAR_MODULUS_def SCALAR_BITS_def)
  then show ?thesis using bits_value_drop_bit [of v 0 SCALAR_BITS] by (simp add: scalar_bits_def take_bit_nat_eq_self)
qed

lemma nsmul_scalar_mod: "nsmul SCALAR_MODULUS p = 0 \<Longrightarrow> nsmul (n mod SCALAR_MODULUS) p = nsmul n p"
  by (metis nsmul_mod)

lemma commitment_var_eq:
  assumes "edwards_ok E"
  shows "commitment_var E balance bits leaf
    = balance_commitment E balance (bits_value bits mod SCALAR_MODULUS) leaf"
proof -
  have "nsmul SCALAR_MODULUS (ed_generator E) = 0" "nsmul SCALAR_MODULUS (ed_H E) = 0"
    using assms by (simp_all add: edwards_ok_def)
  then show ?thesis
    by (simp add: commitment_var_def balance_commitment_def scalar_mul_le_def nsmul_scalar_mod)
qed

lemma enforce_signature_eq:
  assumes "edwards_ok E" "nsmul SCALAR_MODULUS key = 0"
  shows "enforce_signature E P key m r s_bits c \<longleftrightarrow>
    (c \<longrightarrow> verify_state_signature E P key m \<lparr>ss_r = r, ss_s = bits_value s_bits mod SCALAR_MODULUS\<rparr>)"
proof -
  have "nsmul SCALAR_MODULUS (ed_generator E) = 0" using assms(1) by (simp add: edwards_ok_def)
  then show ?thesis using assms(2)
    by (simp add: enforce_signature_def verify_state_signature_def signature_challenge_def
        scalar_mul_le_def Let_def nsmul_scalar_mod)
qed

definition extract_request :: "'e RequestAssignment \<Rightarrow> 'e RequestWitness" where
  "extract_request a =
     \<lparr>rw_secret = ra_secret a, rw_request_context = ra_request_context a, rw_note_id = ra_note_id a,
      rw_deposit_amount = ra_deposit_amount a, rw_expiry = ra_expiry a, rw_merkle_siblings = ra_siblings a,
      rw_current_balance = ra_balance a,
      rw_current_blinding = bits_value (ra_blinding_bits a) mod SCALAR_MODULUS,
      rw_rerandomization = bits_value (ra_rerandomization_bits a) mod SCALAR_MODULUS,
      rw_current_anchor = ra_anchor a, rw_is_genesis = ra_is_genesis a,
      rw_state_signature = \<lparr>ss_r = ra_sig_r a, ss_s = bits_value (ra_sig_s_bits a) mod SCALAR_MODULUS\<rparr>\<rparr>"

definition extract_withdrawal :: "'e WithdrawalAssignment \<Rightarrow> 'e WithdrawalWitness" where
  "extract_withdrawal a =
     \<lparr>ww_secret = wa_secret a, ww_deposit_amount = wa_deposit_amount a, ww_expiry = wa_expiry a,
      ww_merkle_siblings = wa_siblings a,
      ww_final_blinding = bits_value (wa_blinding_bits a) mod SCALAR_MODULUS,
      ww_current_anchor = wa_anchor a, ww_is_genesis = wa_is_genesis a,
      ww_state_signature = \<lparr>ss_r = wa_sig_r a, ss_s = bits_value (wa_sig_s_bits a) mod SCALAR_MODULUS\<rparr>,
      ww_clearance_signature = \<lparr>ss_r = wa_clear_r a, ss_s = bits_value (wa_clear_s_bits a) mod SCALAR_MODULUS\<rparr>\<rparr>"

lemma SCALAR_MODULUS_pos [simp]: "0 < SCALAR_MODULUS"
  by (simp add: SCALAR_MODULUS_def)

lemma scalar_mul_le_mod:
  "nsmul SCALAR_MODULUS q = 0 \<Longrightarrow> scalar_mul_le bits q = nsmul (bits_value bits mod SCALAR_MODULUS) q"
  by (simp add: scalar_mul_le_def nsmul_scalar_mod)

lemma native_simps:
  "P [v2_domain V2_DOMAIN_REG, s, 0] = g16_registration P s"
  "P [v2_domain V2_DOMAIN_LEAF, unat i, reg, unat d, unat e] = g16_note_leaf P i reg d e"
  "P [v2_domain V2_DOMAIN_STATE, unat v, unat c, addr, ed_x E q, ed_y E q, anc]
     = g16_state_message E P v c addr q anc"
  "P [v2_domain V2_DOMAIN_CLEARANCE, unat v, unat c, addr, nul] = g16_clearance_message P v c addr nul"
  "P [v2_domain V2_DOMAIN_NULLIFIER, s, anc] = g16_nullifier P s anc"
  "P [v2_domain V2_DOMAIN_AUTHORIZATION, nul, ctx] = g16_authorization_tag P nul ctx"
  "P [v2_domain V2_DOMAIN_WITHDRAWAL, nul, dest, unat b, if h then 1 else 0] = g16_withdrawal_tag P nul dest b h"
  by (simp_all add: g16_registration_def g16_note_leaf_def g16_state_message_def g16_clearance_message_def
      g16_nullifier_def g16_authorization_tag_def g16_withdrawal_tag_def of_bool_def)

text \<open>The constraints, rewritten to the native functions.\<close>

lemma request_constraints_eq:
  assumes "edwards_ok E" "nsmul SCALAR_MODULUS (rp_state_signing_key p) = 0"
  shows "request_constraints E P p a \<longleftrightarrow>
    request_relation E P p (extract_request a) \<and>
    ra_request_time a = rp_request_time p \<and> ra_solvency_bound a = rp_solvency_bound p \<and>
    (ra_is_genesis a \<longrightarrow> ra_anchor a = 1 \<and> ra_balance a = ra_deposit_amount a) \<and>
    length (ra_blinding_bits a) = SCALAR_BITS \<and> length (ra_sig_s_bits a) = SCALAR_BITS \<and>
    length (ra_rerandomization_bits a) = SCALAR_BITS"
proof -
  have H: "nsmul SCALAR_MODULUS (ed_H E) = 0" using assms(1) by (simp add: edwards_ok_def)
  show ?thesis
    unfolding request_constraints_def native_simps merkle_path_var_eq commitment_var_eq [OF assms(1)]
      enforce_signature_eq [OF assms] scalar_mul_le_mod [OF H] request_relation_def Let_def
    by (auto simp: extract_request_def rerandomize_commitment_def word_unat_eq_iff [symmetric])
qed

lemma withdrawal_constraints_eq:
  assumes "edwards_ok E" "nsmul SCALAR_MODULUS (wp_state_signing_key p) = 0"
    and "nsmul SCALAR_MODULUS (wp_clearance_signing_key p) = 0"
  shows "withdrawal_constraints E P p a \<longleftrightarrow>
    withdrawal_relation E P p (extract_withdrawal a) \<and>
    wa_note_id a = wp_note_id p \<and> wa_final_balance a = wp_final_balance p \<and>
    (wa_is_genesis a \<longrightarrow> wa_anchor a = 1 \<and> wa_final_balance a = wa_deposit_amount a) \<and>
    length (wa_blinding_bits a) = SCALAR_BITS \<and> length (wa_sig_s_bits a) = SCALAR_BITS \<and>
    length (wa_clear_s_bits a) = SCALAR_BITS"
  unfolding withdrawal_constraints_def native_simps merkle_path_var_eq commitment_var_eq [OF assms(1)]
    enforce_signature_eq [OF assms(1,2)] enforce_signature_eq [OF assms(1,3)] withdrawal_relation_def Let_def
  by (auto simp: extract_withdrawal_def word_unat_eq_iff [symmetric])

lemma extract_request_assignment:
  assumes "request_relation E P p w"
  shows "extract_request (request_assignment p w) = w"
  using assms
  by (cases w; cases "rw_state_signature w")
    (simp add: extract_request_def request_assignment_def request_relation_def Let_def scalar_bits_value)

lemma extract_withdrawal_assignment:
  assumes "withdrawal_relation E P p w"
  shows "extract_withdrawal (withdrawal_assignment p w) = w"
  using assms
  by (cases w; cases "ww_state_signature w"; cases "ww_clearance_signature w")
    (simp add: extract_withdrawal_def withdrawal_assignment_def withdrawal_relation_def Let_def scalar_bits_value)

lemma length_scalar_bits [simp]: "length (scalar_bits v) = SCALAR_BITS"
  by (simp add: scalar_bits_def)

lemma request_complete:
  assumes "edwards_ok E" "nsmul SCALAR_MODULUS (rp_state_signing_key p) = 0" "request_relation E P p w"
  shows "request_constraints E P p (request_assignment p w)"
  using extract_request_assignment [OF assms(3)] assms(3) unfolding request_constraints_eq [OF assms(1,2)]
  by (auto simp: request_assignment_def request_relation_def Let_def)

lemma withdrawal_complete:
  assumes "edwards_ok E" "nsmul SCALAR_MODULUS (wp_state_signing_key p) = 0"
    and "nsmul SCALAR_MODULUS (wp_clearance_signing_key p) = 0" "withdrawal_relation E P p w"
  shows "withdrawal_constraints E P p (withdrawal_assignment p w)"
  using extract_withdrawal_assignment [OF assms(4)] assms(4) unfolding withdrawal_constraints_eq [OF assms(1-3)]
  by (auto simp: withdrawal_assignment_def withdrawal_relation_def Let_def)

text \<open>An explicit collision of the Poseidon hash.\<close>

definition poseidon_collision :: "poseidon \<Rightarrow> nat list \<Rightarrow> nat list \<Rightarrow> bool" where
  "poseidon_collision P xs ys \<longleftrightarrow> xs \<noteq> ys \<and> P xs = P ys"

lemma state_key_sign_verifies:
  assumes "edwards_ok E"
  shows "verify_state_signature E P (sk_public (from_secret E secret)) m
    (state_key_sign E P (from_secret E secret) nonce m)"
proof -
  let ?G = "ed_generator E" and ?s = "sk_secret (from_secret E secret)"
  have "nsmul SCALAR_MODULUS ?G = 0" using assms by (simp add: edwards_ok_def)
  moreover have "sk_public (from_secret E secret) = nsmul ?s ?G" by (simp add: from_secret_def Let_def)
  ultimately show ?thesis
    by (simp add: verify_state_signature_def state_key_sign_def Let_def nsmul_scalar_mod nsmul_add nsmul_mult)
qed

text \<open>A derived generator is a nonzero point of the prime-order subgroup.\<close>

lemma derive_generator_Some:
  assumes "derive_generator E keccak label = Some p"
  shows "p \<noteq> 0 \<and> ed_in_subgroup E p"
proof -
  have "q \<noteq> 0 \<and> ed_in_subgroup E q" if "generator_attempt E keccak label c = Some q" for c q
    using that by (auto simp: generator_attempt_def Let_def split: option.splits if_splits)
  then have "generator_loop E keccak label n c = Some p \<Longrightarrow> p \<noteq> 0 \<and> ed_in_subgroup E p" for n c
    by (induction n arbitrary: c) (auto split: option.splits)
  then show ?thesis using assms by (auto simp: derive_generator_def)
qed


section \<open>Agreement with the core hashes\<close>

lemma felt_to_field_hash_domain:
  "poseidon_ok P \<Longrightarrow> felt_to_field (hash_domain P label xs) = P (v2_domain label # map felt_to_field xs)"
  by (simp add: hash_domain_def field_felt_round_trip poseidon_ok_def)

lemma felt_to_field_small:
  "felt_to_field (from_u64 v) = unat v" "felt_to_field (from_u128 b) = unat b" "felt_to_field 0 = 0"
  by (simp_all add: felt_to_field_canonical unat_from_u64 unat_from_u128)

lemma felt_to_field_merkle_root:
  assumes "poseidon_ok P"
  shows "felt_to_field (merkle_root P i leaf ss) = g16_merkle_root P i (felt_to_field leaf) (map felt_to_field ss)"
proof -
  have "felt_to_field (fold (\<lambda>(level, sibling) current.
            if and (drop_bit level i) 1 = 0 then merkle_node P current sibling
            else merkle_node P sibling current) (List.enumerate k ss) leaf)
      = fold (\<lambda>(level, sibling) current.
            if and (drop_bit level i) 1 = 0 then P [v2_domain V2_DOMAIN_NODE, current, sibling]
            else P [v2_domain V2_DOMAIN_NODE, sibling, current])
          (List.enumerate k (map felt_to_field ss)) (felt_to_field leaf)" for k
  proof (induction ss arbitrary: leaf k)
    case (Cons s ss)
    from Cons [of "Suc k" "merkle_node P leaf s"] Cons [of "Suc k" "merkle_node P s leaf"] show ?case
      by (simp add: merkle_node_def felt_to_field_hash_domain [OF assms])
  qed simp
  then show ?thesis by (simp add: merkle_root_def g16_merkle_root_def)
qed


lemma felt_to_field_core:
  assumes "poseidon_ok P"
  shows "felt_to_field (registration_commitment P secret) = g16_registration P (felt_to_field secret)"
    "felt_to_field (note_leaf P i reg deposit expiry) = g16_note_leaf P i (felt_to_field reg) deposit expiry"
    "felt_to_field (nullifier P secret anchor) = g16_nullifier P (felt_to_field secret) (felt_to_field anchor)"
    "felt_to_field (authorization_tag P nul ctx) = g16_authorization_tag P (felt_to_field nul) (felt_to_field ctx)"
    "felt_to_field (withdrawal_tag P nul dest balance clear)
      = g16_withdrawal_tag P (felt_to_field nul) (felt_to_field dest) balance clear"
    "felt_to_field (clearance_message P v chain addr nul)
      = g16_clearance_message P v chain (felt_to_field addr) (felt_to_field nul)"
    "felt_to_field cx = ed_x E point \<Longrightarrow> felt_to_field cy = ed_y E point \<Longrightarrow>
      felt_to_field (state_message P v chain addr cx cy anchor)
        = g16_state_message E P v chain (felt_to_field addr) point (felt_to_field anchor)"
proof -
  have word: "unat (ucast i :: u64) = unat i" "unat (ucast v :: u64) = unat v"
    by (simp_all add: unat_ucast_up)
  note core = registration_commitment_def note_leaf_def nullifier_def authorization_tag_def withdrawal_tag_def
    clearance_message_def state_message_def
  note g16 = g16_registration_def g16_note_leaf_def g16_nullifier_def g16_authorization_tag_def
    g16_withdrawal_tag_def g16_clearance_message_def g16_state_message_def
  show "felt_to_field (registration_commitment P secret) = g16_registration P (felt_to_field secret)"
    "felt_to_field (note_leaf P i reg deposit expiry) = g16_note_leaf P i (felt_to_field reg) deposit expiry"
    "felt_to_field (nullifier P secret anchor) = g16_nullifier P (felt_to_field secret) (felt_to_field anchor)"
    "felt_to_field (authorization_tag P nul ctx) = g16_authorization_tag P (felt_to_field nul) (felt_to_field ctx)"
    "felt_to_field (withdrawal_tag P nul dest balance clear)
      = g16_withdrawal_tag P (felt_to_field nul) (felt_to_field dest) balance clear"
    "felt_to_field (clearance_message P v chain addr nul)
      = g16_clearance_message P v chain (felt_to_field addr) (felt_to_field nul)"
    by (simp_all add: core g16 felt_to_field_hash_domain [OF assms] felt_to_field_small word)
  show "felt_to_field (state_message P v chain addr cx cy anchor)
      = g16_state_message E P v chain (felt_to_field addr) point (felt_to_field anchor)"
    if "felt_to_field cx = ed_x E point" "felt_to_field cy = ed_y E point"
    using that by (simp add: core g16 felt_to_field_hash_domain [OF assms] felt_to_field_small word)
qed


section \<open>A concrete curve group\<close>

typedef jub_group = "{n :: int. 0 \<le> n \<and> n < int SCALAR_MODULUS}"
  by (rule exI [of _ 0]) simp

setup_lifting type_definition_jub_group

instantiation jub_group :: ab_group_add
begin

lift_definition zero_jub_group :: jub_group is 0 by simp
lift_definition plus_jub_group :: "jub_group \<Rightarrow> jub_group \<Rightarrow> jub_group"
  is "\<lambda>a b. (a + b) mod int SCALAR_MODULUS" by simp
lift_definition uminus_jub_group :: "jub_group \<Rightarrow> jub_group"
  is "\<lambda>a. (- a) mod int SCALAR_MODULUS" by simp
lift_definition minus_jub_group :: "jub_group \<Rightarrow> jub_group \<Rightarrow> jub_group"
  is "\<lambda>a b. (a - b) mod int SCALAR_MODULUS" by simp

instance
  by standard (transfer; simp add: mod_simps algebra_simps)+

end

lemma nsmul_scalar_modulus [simp]: "nsmul SCALAR_MODULUS (p :: jub_group) = 0"
proof -
  have "Rep_jub_group (nsmul n p) = (int n * Rep_jub_group p) mod int SCALAR_MODULUS" for n
    by (induction n) (simp_all add: zero_jub_group.rep_eq plus_jub_group.rep_eq mod_simps algebra_simps)
  then show ?thesis by (simp add: Rep_jub_group_inject [symmetric] zero_jub_group.rep_eq)
qed

definition jub_curve :: "jub_group edwards" where
  "jub_curve = \<lparr>ed_generator = Abs_jub_group 1, ed_H = Abs_jub_group 2, ed_J = Abs_jub_group 3,
     ed_x = (\<lambda>p. nat (Rep_jub_group p)), ed_y = (\<lambda>_. 1), ed_new_unchecked = (\<lambda>x y. Abs_jub_group (int x)),
     ed_on_curve = (\<lambda>x y. x < SCALAR_MODULUS \<and> y = 1), ed_coeff_d = 1, ed_cofactor = 8, ed_in_subgroup = (\<lambda>_. True), fr_inverse = Some, fr_sqrt = Some\<rparr>"

lemma jub_curve_ok: "edwards_ok jub_curve"
  by (simp add: edwards_ok_def jub_curve_def)

definition toy_request_public :: "jub_group RequestPublic" where
  "toy_request_public = \<lparr>rp_protocol_version = 2, rp_chain_id = 1, rp_contract_address = 7,
     rp_active_root = 0, rp_state_signing_key = 0, rp_request_time = 3, rp_solvency_bound = 5,
     rp_request_nullifier = 0, rp_authorization_tag = 0,
     rp_anonymous_commitment = rerandomize_commitment jub_curve (balance_commitment jub_curve 10 4 0) 6\<rparr>"

definition toy_request_witness :: "jub_group RequestWitness" where
  "toy_request_witness = \<lparr>rw_secret = 42, rw_request_context = 9, rw_note_id = 6, rw_deposit_amount = 10,
     rw_expiry = 3, rw_merkle_siblings = replicate 32 0, rw_current_balance = 10, rw_current_blinding = 4,
     rw_rerandomization = 6, rw_current_anchor = 1, rw_is_genesis = True,
     rw_state_signature = \<lparr>ss_r = 0, ss_s = 0\<rparr>\<rparr>"

lemma g16_merkle_root_zero: "g16_merkle_root (\<lambda>_. 0) i 0 ss = 0"
proof -
  have "fold (\<lambda>(level :: nat, sibling :: nat) (current :: nat). 0 :: nat) xs 0 = 0" for xs
    by (induction xs) auto
  then show ?thesis by (simp add: g16_merkle_root_def)
qed

lemma toy_relation: "request_relation jub_curve (\<lambda>_. 0) toy_request_public toy_request_witness"
  by (simp add: request_relation_def toy_request_public_def toy_request_witness_def g16_note_leaf_def
      g16_nullifier_def g16_authorization_tag_def g16_merkle_root_zero MERKLE_DEPTH_def SCALAR_MODULUS_def)


section \<open>Properties\<close>

text \<open>Claim C10. The request circuit proves exactly the request statement: every satisfying assignment,
  whatever bits a prover chooses for the scalars, contains a witness of the statement over the native
  functions, and the assignment built from any such witness satisfies all constraints.\<close>

theorem request_circuit_correct:
  assumes "edwards_ok E" "nsmul SCALAR_MODULUS (rp_state_signing_key p) = 0"
  shows "(request_constraints E P p a \<longrightarrow> request_relation E P p (extract_request a)) \<and>
    (request_relation E P p w \<longrightarrow> request_constraints E P p (request_assignment p w))"
  using request_complete [OF assms] by (simp add: request_constraints_eq [OF assms])

theorem request_circuit_correct_witness:
  "request_constraints jub_curve (\<lambda>_. 0) toy_request_public (request_assignment toy_request_public toy_request_witness)"
  using request_circuit_correct [OF jub_curve_ok, of toy_request_public "\<lambda>_. 0" undefined toy_request_witness]
    toy_relation by simp

text \<open>Claim C11. The withdrawal circuit proves exactly the withdrawal statement, and no satisfying
  assignment pays out more than was deposited: the final balance is at most the deposit of a note in
  the tree, equals it for an unused note, and otherwise is the balance the server signed.\<close>

theorem withdrawal_circuit_correct:
  assumes "edwards_ok E" "nsmul SCALAR_MODULUS (wp_state_signing_key p) = 0"
    and "nsmul SCALAR_MODULUS (wp_clearance_signing_key p) = 0"
  shows "(withdrawal_constraints E P p a \<longrightarrow>
      withdrawal_relation E P p (extract_withdrawal a) \<and> wp_final_balance p \<le> wa_deposit_amount a) \<and>
    (withdrawal_relation E P p w \<longrightarrow> withdrawal_constraints E P p (withdrawal_assignment p w))"
proof (rule conjI; rule impI)
  assume "withdrawal_relation E P p w"
  then show "withdrawal_constraints E P p (withdrawal_assignment p w)" by (rule withdrawal_complete [OF assms])
next
  assume "withdrawal_constraints E P p a"
  then show "withdrawal_relation E P p (extract_withdrawal a) \<and> wp_final_balance p \<le> wa_deposit_amount a"
    unfolding withdrawal_constraints_eq [OF assms]
    by (auto simp: withdrawal_relation_def Let_def extract_withdrawal_def)
qed

theorem withdrawal_circuit_correct_witness:
  "let p = \<lparr>wp_protocol_version = 2, wp_chain_id = 1, wp_contract_address = 7, wp_active_root = 0,
         wp_state_signing_key = 0, wp_clearance_signing_key = 0, wp_note_id = 6, wp_final_balance = 10,
         wp_destination = 8, wp_withdrawal_nullifier = 0, wp_has_clearance = False, wp_withdrawal_tag = 0\<rparr>;
       w = \<lparr>ww_secret = 42, ww_deposit_amount = 10, ww_expiry = 3, ww_merkle_siblings = replicate 32 0,
         ww_final_blinding = 4, ww_current_anchor = 1, ww_is_genesis = True,
         ww_state_signature = \<lparr>ss_r = 0, ss_s = 0\<rparr>, ww_clearance_signature = \<lparr>ss_r = 0, ss_s = 0\<rparr>\<rparr>
   in withdrawal_constraints jub_curve (\<lambda>_. 0) p (withdrawal_assignment p w)"
proof -
  let ?p = "\<lparr>wp_protocol_version = 2, wp_chain_id = 1, wp_contract_address = 7, wp_active_root = 0,
         wp_state_signing_key = 0, wp_clearance_signing_key = 0, wp_note_id = 6, wp_final_balance = 10,
         wp_destination = 8, wp_withdrawal_nullifier = 0, wp_has_clearance = False, wp_withdrawal_tag = 0\<rparr>
         :: jub_group WithdrawalPublic"
  let ?w = "\<lparr>ww_secret = 42, ww_deposit_amount = 10, ww_expiry = 3, ww_merkle_siblings = replicate 32 0,
         ww_final_blinding = 4, ww_current_anchor = 1, ww_is_genesis = True,
         ww_state_signature = \<lparr>ss_r = 0, ss_s = 0\<rparr>, ww_clearance_signature = \<lparr>ss_r = 0, ss_s = 0\<rparr>\<rparr>
         :: jub_group WithdrawalWitness"
  have "withdrawal_relation jub_curve (\<lambda>_. 0) ?p ?w"
    by (simp add: withdrawal_relation_def g16_note_leaf_def g16_nullifier_def g16_withdrawal_tag_def
        g16_merkle_root_zero MERKLE_DEPTH_def SCALAR_MODULUS_def)
  then have "withdrawal_constraints jub_curve (\<lambda>_. 0) ?p (withdrawal_assignment ?p ?w)"
    using withdrawal_circuit_correct [OF jub_curve_ok, of ?p "\<lambda>_. 0" undefined ?w] by simp
  then show ?thesis by (simp only: Let_def)
qed

text \<open>Claim C28. A state authorises one request only: two accepted requests with the same nullifier come
  from the same secret and anchor, and if their authorization tags agree too they carry the same request
  context; otherwise they exhibit a collision of the hash.\<close>

theorem request_nullifier_binding:
  assumes "request_constraints E P p a" "request_constraints E P p' a'"
    and "rp_request_nullifier p = rp_request_nullifier p'"
  shows "((ra_secret a = ra_secret a' \<and> ra_anchor a = ra_anchor a') \<or>
      poseidon_collision P [v2_domain V2_DOMAIN_NULLIFIER, ra_secret a, ra_anchor a]
        [v2_domain V2_DOMAIN_NULLIFIER, ra_secret a', ra_anchor a']) \<and>
    (rp_authorization_tag p = rp_authorization_tag p' \<longrightarrow>
      ra_request_context a = ra_request_context a' \<or>
      poseidon_collision P [v2_domain V2_DOMAIN_AUTHORIZATION, rp_request_nullifier p, ra_request_context a]
        [v2_domain V2_DOMAIN_AUTHORIZATION, rp_request_nullifier p', ra_request_context a'])"
  using assms by (auto simp: request_constraints_def Let_def poseidon_collision_def)

theorem request_nullifier_binding_witness:
  "poseidon_collision (\<lambda>_. 0) [v2_domain V2_DOMAIN_AUTHORIZATION, 0, 9] [v2_domain V2_DOMAIN_AUTHORIZATION, 0, 8]"
proof -
  let ?a = "request_assignment toy_request_public toy_request_witness"
  have sat: "request_constraints jub_curve (\<lambda>_. 0) toy_request_public ?a"
    "request_constraints jub_curve (\<lambda>_. 0) toy_request_public (?a\<lparr>ra_request_context := 8\<rparr>)"
    using request_complete [OF jub_curve_ok, of toy_request_public "\<lambda>_. 0" toy_request_witness] toy_relation
    by (simp_all add: request_constraints_def toy_request_public_def)
  from request_nullifier_binding [OF this] show ?thesis
    by (simp add: request_assignment_def toy_request_witness_def toy_request_public_def)
qed

text \<open>The wallet's hashes and the circuit's are the same functions: the core derivations of
  registration, leaf, Merkle root, nullifier, tags and messages, read as field elements, are the native
  functions of the proof crate.\<close>

lemma core_hashes_agree:
  assumes "poseidon_ok P"
  shows "felt_to_field (registration_commitment P secret) = g16_registration P (felt_to_field secret) \<and>
    felt_to_field (note_leaf P i reg deposit expiry) = g16_note_leaf P i (felt_to_field reg) deposit expiry \<and>
    felt_to_field (merkle_root P i leaf siblings)
      = g16_merkle_root P i (felt_to_field leaf) (map felt_to_field siblings) \<and>
    felt_to_field (nullifier P secret anchor) = g16_nullifier P (felt_to_field secret) (felt_to_field anchor) \<and>
    felt_to_field (authorization_tag P nul ctx) = g16_authorization_tag P (felt_to_field nul) (felt_to_field ctx) \<and>
    felt_to_field (withdrawal_tag P nul dest balance clear)
      = g16_withdrawal_tag P (felt_to_field nul) (felt_to_field dest) balance clear \<and>
    felt_to_field (clearance_message P v chain addr nul)
      = g16_clearance_message P v chain (felt_to_field addr) (felt_to_field nul) \<and>
    (felt_to_field cx = ed_x E point \<and> felt_to_field cy = ed_y E point \<longrightarrow>
      felt_to_field (state_message P v chain addr cx cy anchor)
        = g16_state_message E P v chain (felt_to_field addr) point (felt_to_field anchor))"
  by (simp add: felt_to_field_core [OF assms] felt_to_field_merkle_root [OF assms])

text \<open>State signatures are correct and generators sound: a signature made with any nonce under a
  key derived from any secret verifies, and a derived generator is a nonzero point of the prime-order
  subgroup.\<close>

lemma state_signature_verifies:
  assumes "edwards_ok E"
  shows "verify_state_signature E P (sk_public (from_secret E secret)) m
      (state_key_sign E P (from_secret E secret) nonce m) \<and>
    (derive_generator E keccak label = Some h \<longrightarrow> h \<noteq> 0 \<and> nsmul SCALAR_MODULUS h = 0)"
  using state_key_sign_verifies [OF assms] derive_generator_Some [of E keccak label h] assms
  by (auto simp: edwards_ok_def)

end
