(* ===== verification/Compact.thy ===== *)
theory Compact
  imports Groth16 Wire
begin

text \<open>
  The wire interface of the version 2 proofs (\<open>zkapi-proof/src/compact.rs\<close>): points, scalars,
  signatures, public inputs and proofs as they are sent, the provers and verifiers around the two
  circuits, and the versioned key files. Base64, the compressed key encoding and the Groth16 prover
  and verifier are parameters. The setup command is in \<open>Setup\<close>, the Solidity sources it writes are in
  \<open>Solidity_Poseidon\<close> and \<open>Solidity_Verifier\<close>.
\<close>

section \<open>Field elements, scalars and points on the wire\<close>

datatype compact_error =
    InvalidPoint | WrongBackend | BadBase64 | BadProofLength | NonCanonicalCoordinate
  | InvalidProofPoint | InvalidWitness | ProvingFailed | VerificationError
  | IncompatibleSetup | DeserializeFailed | TrailingKeyBytes

definition scalar :: "felt \<Rightarrow> nat" where
  "scalar value = be_value (as_bytes value) mod SCALAR_MODULUS"

definition scalar_to_felt :: "nat \<Rightarrow> felt" where
  "scalar_to_felt value =
     (let raw = be_digits 32 value in felt_of_bytes (replicate (32 - length raw) 0 @ raw))"

definition point_from_wire :: "'e edwards \<Rightarrow> CurvePointWire \<Rightarrow> compact_error + 'e" where
  "point_from_wire E point =
     (let x = felt_to_field (cp_x point); y = felt_to_field (cp_y point); p = ed_new_unchecked E x y
      in if \<not> ed_on_curve E x y \<or> \<not> ed_in_subgroup E p then Inl InvalidPoint else Inr p)"

definition point_to_wire :: "'e edwards \<Rightarrow> 'e \<Rightarrow> CurvePointWire" where
  "point_to_wire E p = \<lparr>cp_x = field_to_felt (ed_x E p), cp_y = field_to_felt (ed_y E p)\<rparr>"

definition signature_from_wire :: "'e edwards \<Rightarrow> SchnorrSignature \<Rightarrow> compact_error + 'e StateSignature" where
  "signature_from_wire E sig =
     and_then (point_from_wire E \<lparr>cp_x = r_x sig, cp_y = r_y sig\<rparr>)
       (\<lambda>r. Inr \<lparr>ss_r = r, ss_s = scalar (sig_s sig)\<rparr>)"

definition signature_to_wire :: "'e edwards \<Rightarrow> 'e StateSignature \<Rightarrow> SchnorrSignature" where
  "signature_to_wire E sig =
     (let point = point_to_wire E (ss_r sig)
      in \<lparr>r_x = cp_x point, r_y = cp_y point, sig_s = scalar_to_felt (ss_s sig)\<rparr>)"

definition compact_balance_commitment :: "'e::ab_group_add edwards \<Rightarrow> u128 \<Rightarrow> felt \<Rightarrow> felt \<Rightarrow> CurvePointWire" where
  "compact_balance_commitment E balance blinding leaf =
     point_to_wire E (balance_commitment E balance (scalar blinding) (felt_to_field leaf))"

definition compact_rerandomize ::
    "'e::ab_group_add edwards \<Rightarrow> CurvePointWire \<Rightarrow> felt \<Rightarrow> compact_error + CurvePointWire" where
  "compact_rerandomize E commitment rerandomization =
     and_then (point_from_wire E commitment)
       (\<lambda>p. Inr (point_to_wire E (rerandomize_commitment E p (scalar rerandomization))))"

definition add_blindings :: "felt \<Rightarrow> felt \<Rightarrow> felt" where
  "add_blindings left right = scalar_to_felt ((scalar left + scalar right) mod SCALAR_MODULUS)"

definition compact_server_update ::
    "'e::ab_group_add edwards \<Rightarrow> CurvePointWire \<Rightarrow> u128 \<Rightarrow> felt \<Rightarrow> compact_error + CurvePointWire" where
  "compact_server_update E anonymous charge bdelta =
     and_then (point_from_wire E anonymous)
       (\<lambda>p. Inr (point_to_wire E
          (p - nsmul (unat charge mod SCALAR_MODULUS) (ed_generator E) + nsmul (scalar bdelta) (ed_H E))))"

definition compact_verify_signature ::
    "'e::ab_group_add edwards \<Rightarrow> poseidon \<Rightarrow> CurvePointWire \<Rightarrow> felt \<Rightarrow> SchnorrSignature \<Rightarrow> compact_error + bool" where
  "compact_verify_signature E P public_key message sig =
     and_then (point_from_wire E public_key) (\<lambda>key.
     and_then (signature_from_wire E sig) (\<lambda>sg.
     Inr (verify_state_signature E P key (felt_to_field message) sg)))"


section \<open>Signer\<close>

record 'e CompactSigner =
  cs_key :: "'e StateSigningKey"

definition from_seed :: "'e::ab_group_add edwards \<Rightarrow> felt \<Rightarrow> 'e CompactSigner" where
  "from_seed E seed = \<lparr>cs_key = from_secret E (scalar seed)\<rparr>"

definition signer_public_key :: "'e edwards \<Rightarrow> 'e CompactSigner \<Rightarrow> CurvePointWire" where
  "signer_public_key E cs = point_to_wire E (sk_public (cs_key cs))"

definition compact_sign ::
    "'e::ab_group_add edwards \<Rightarrow> poseidon \<Rightarrow> 'e CompactSigner \<Rightarrow> nat \<Rightarrow> felt \<Rightarrow> SchnorrSignature" where
  "compact_sign E P cs nonce message =
     signature_to_wire E (state_key_sign E P (cs_key cs) nonce (felt_to_field message))"

definition signer_verify ::
    "'e::ab_group_add edwards \<Rightarrow> poseidon \<Rightarrow> 'e CompactSigner \<Rightarrow> felt \<Rightarrow> SchnorrSignature \<Rightarrow> compact_error + bool" where
  "signer_verify E P cs message sig =
     and_then (signature_from_wire E sig) (\<lambda>sg.
     Inr (verify_state_signature E P (sk_public (cs_key cs)) (felt_to_field message) sg))"


section \<open>Proof encoding\<close>

definition FQ_MODULUS :: nat where
  "FQ_MODULUS = 21888242871839275222246405745257275088696311157297823662689037894645226208583"

record Groth16Proof =
  pf_a :: "nat \<times> nat"
  pf_b :: "(nat \<times> nat) \<times> (nat \<times> nat)"
  pf_c :: "nat \<times> nat"

text \<open>Base64 and the curve checks of the two proof groups.\<close>

record codec =
  b64_encode :: "u8 list \<Rightarrow> string"
  b64_decode :: "string \<Rightarrow> u8 list option"
  g1_valid :: "nat \<times> nat \<Rightarrow> bool"
  g2_valid :: "(nat \<times> nat) \<times> (nat \<times> nat) \<Rightarrow> bool"

definition prime_field_bytes :: "nat \<Rightarrow> u8 list" where
  "prime_field_bytes value =
     (let raw = be_digits 32 value in replicate (32 - length raw) 0 @ raw)"

definition canonical_fq :: "u8 list \<Rightarrow> compact_error + nat" where
  "canonical_fq bytes =
     (let value = be_value bytes mod FQ_MODULUS
      in if prime_field_bytes value \<noteq> bytes then Inl NonCanonicalCoordinate else Inr value)"

definition proof_bytes :: "Groth16Proof \<Rightarrow> u8 list" where
  "proof_bytes pf = concat (map prime_field_bytes
     [fst (pf_a pf), snd (pf_a pf), fst (fst (pf_b pf)), snd (fst (pf_b pf)),
      fst (snd (pf_b pf)), snd (snd (pf_b pf)), fst (pf_c pf), snd (pf_c pf)])"

definition proof_to_wire :: "codec \<Rightarrow> Groth16Proof \<Rightarrow> Groth16ProofWire" where
  "proof_to_wire K pf = \<lparr>gw_backend = Groth16Bn254, gw_proof = b64_encode K (proof_bytes pf)\<rparr>"

definition proof_from_wire :: "codec \<Rightarrow> Groth16ProofWire \<Rightarrow> compact_error + Groth16Proof" where
  "proof_from_wire K wire =
     and_then (ok_or BadBase64 (b64_decode K (gw_proof wire))) (\<lambda>bytes.
     and_then (bail_if (length bytes \<noteq> 256) BadProofLength) (\<lambda>_.
     and_then (try_map canonical_fq (chunks 32 8 bytes)) (\<lambda>cs.
       let a = (cs ! 0, cs ! 1); b = ((cs ! 2, cs ! 3), (cs ! 4, cs ! 5)); c = (cs ! 6, cs ! 7)
       in if \<not> g1_valid K a \<or> \<not> g2_valid K b \<or> \<not> g1_valid K c then Inl InvalidProofPoint
          else Inr \<lparr>pf_a = a, pf_b = b, pf_c = c\<rparr>)))"

definition ensure_backend :: "Groth16ProofWire \<Rightarrow> compact_error + unit" where
  "ensure_backend wire = bail_if (gw_backend wire \<noteq> Groth16Bn254) WrongBackend"


section \<open>Key files\<close>

definition KEY_HEADER :: "u8 list" where
  "KEY_HEADER = as_bytes_str ''zkapi-v2-note-bound-v1'' @ [0]"

text \<open>\<open>deserialize\<close> returns the value and the bytes it left unread.\<close>

definition decode_compressed ::
    "(u8 list \<Rightarrow> ('k \<times> u8 list) option) \<Rightarrow> u8 list \<Rightarrow> compact_error + 'k" where
  "decode_compressed deserialize bytes =
     and_then (ok_or IncompatibleSetup (strip_prefix KEY_HEADER bytes)) (\<lambda>body.
     and_then (ok_or DeserializeFailed (deserialize body)) (\<lambda>(value, rest).
     and_then (bail_if (rest \<noteq> []) TrailingKeyBytes) (\<lambda>_. Inr value)))"

definition write_compressed :: "('k \<Rightarrow> u8 list) \<Rightarrow> 'k \<Rightarrow> u8 list" where
  "write_compressed serialize value = KEY_HEADER @ serialize value"


section \<open>Provers and verifiers\<close>

record RequestWitnessData =
  rd_secret :: felt
  rd_request_context :: felt
  rd_note_id :: u32
  rd_deposit_amount :: u128
  rd_expiry :: u64
  rd_merkle_siblings :: "felt list"
  rd_current_balance :: u128
  rd_current_blinding :: felt
  rd_rerandomization :: felt
  rd_current_anchor :: felt
  rd_is_genesis :: bool
  rd_state_signature :: "SchnorrSignature option"

record WithdrawalWitnessData =
  wd_secret :: felt
  wd_deposit_amount :: u128
  wd_expiry :: u64
  wd_merkle_siblings :: "felt list"
  wd_final_blinding :: felt
  wd_current_anchor :: felt
  wd_is_genesis :: bool
  wd_state_signature :: "SchnorrSignature option"
  wd_clearance_signature :: "SchnorrSignature option"

definition request_public_from_wire ::
    "'e edwards \<Rightarrow> RequestPublicInputsV2 \<Rightarrow> compact_error + 'e RequestPublic" where
  "request_public_from_wire E pub =
     and_then (point_from_wire E \<lparr>cp_x = r2_state_signing_key_x pub, cp_y = r2_state_signing_key_y pub\<rparr>) (\<lambda>key.
     and_then (point_from_wire E \<lparr>cp_x = r2_anonymous_commitment_x pub, cp_y = r2_anonymous_commitment_y pub\<rparr>) (\<lambda>anon.
     Inr \<lparr>rp_protocol_version = r2_protocol_version pub, rp_chain_id = r2_chain_id pub,
          rp_contract_address = felt_to_field (r2_contract_address pub),
          rp_active_root = felt_to_field (r2_active_root pub), rp_state_signing_key = key,
          rp_request_time = r2_request_time pub, rp_solvency_bound = r2_solvency_bound pub,
          rp_request_nullifier = felt_to_field (r2_request_nullifier pub),
          rp_authorization_tag = felt_to_field (r2_authorization_tag pub),
          rp_anonymous_commitment = anon\<rparr>))"

definition withdrawal_public_from_wire ::
    "'e edwards \<Rightarrow> WithdrawalPublicInputsV2 \<Rightarrow> compact_error + 'e WithdrawalPublic" where
  "withdrawal_public_from_wire E pub =
     and_then (point_from_wire E \<lparr>cp_x = w2_state_signing_key_x pub, cp_y = w2_state_signing_key_y pub\<rparr>) (\<lambda>key.
     and_then (point_from_wire E \<lparr>cp_x = w2_clearance_signing_key_x pub, cp_y = w2_clearance_signing_key_y pub\<rparr>) (\<lambda>clear_key.
     Inr \<lparr>wp_protocol_version = w2_protocol_version pub, wp_chain_id = w2_chain_id pub,
          wp_contract_address = felt_to_field (w2_contract_address pub),
          wp_active_root = felt_to_field (w2_active_root pub), wp_state_signing_key = key,
          wp_clearance_signing_key = clear_key, wp_note_id = w2_note_id pub,
          wp_final_balance = w2_final_balance pub,
          wp_destination = felt_to_field (destination_field (w2_destination pub)),
          wp_withdrawal_nullifier = felt_to_field (w2_withdrawal_nullifier pub),
          wp_has_clearance = w2_has_clearance pub,
          wp_withdrawal_tag = felt_to_field (w2_withdrawal_tag pub)\<rparr>))"

text \<open>The Groth16 prover of the library, with its randomness, as a function of key and circuit.\<close>

definition request_prove ::
    "'e::ab_group_add edwards \<Rightarrow> poseidon \<Rightarrow> codec \<Rightarrow>
     ('e RequestPublic \<Rightarrow> 'e RequestWitness \<Rightarrow> Groth16Proof option) \<Rightarrow>
     RequestPublicInputsV2 \<Rightarrow> RequestWitnessData \<Rightarrow> compact_error + Groth16ProofWire" where
  "request_prove E P K prover pub wit =
     and_then (request_public_from_wire E pub) (\<lambda>p.
     and_then (signature_from_wire E (unwrap_or SchnorrSignature_IDENTITY (rd_state_signature wit))) (\<lambda>sg.
       let w = \<lparr>rw_secret = felt_to_field (rd_secret wit),
                rw_request_context = felt_to_field (rd_request_context wit),
                rw_note_id = rd_note_id wit, rw_deposit_amount = rd_deposit_amount wit,
                rw_expiry = rd_expiry wit,
                rw_merkle_siblings = map felt_to_field (rd_merkle_siblings wit),
                rw_current_balance = rd_current_balance wit,
                rw_current_blinding = scalar (rd_current_blinding wit),
                rw_rerandomization = scalar (rd_rerandomization wit),
                rw_current_anchor = felt_to_field (rd_current_anchor wit),
                rw_is_genesis = rd_is_genesis wit, rw_state_signature = sg\<rparr>
       in if \<not> request_constraints E P p (request_assignment p w) then Inl InvalidWitness
          else case prover p w of
              None \<Rightarrow> Inl ProvingFailed
            | Some pf \<Rightarrow> Inr (proof_to_wire K pf)))"

definition withdrawal_prove ::
    "'e::ab_group_add edwards \<Rightarrow> poseidon \<Rightarrow> codec \<Rightarrow>
     ('e WithdrawalPublic \<Rightarrow> 'e WithdrawalWitness \<Rightarrow> Groth16Proof option) \<Rightarrow>
     WithdrawalPublicInputsV2 \<Rightarrow> WithdrawalWitnessData \<Rightarrow> compact_error + Groth16ProofWire" where
  "withdrawal_prove E P K prover pub wit =
     and_then (withdrawal_public_from_wire E pub) (\<lambda>p.
     and_then (signature_from_wire E (unwrap_or SchnorrSignature_IDENTITY (wd_state_signature wit))) (\<lambda>sg.
     and_then (signature_from_wire E (unwrap_or SchnorrSignature_IDENTITY (wd_clearance_signature wit))) (\<lambda>csg.
       let w = \<lparr>ww_secret = felt_to_field (wd_secret wit), ww_deposit_amount = wd_deposit_amount wit,
                ww_expiry = wd_expiry wit,
                ww_merkle_siblings = map felt_to_field (wd_merkle_siblings wit),
                ww_final_blinding = scalar (wd_final_blinding wit),
                ww_current_anchor = felt_to_field (wd_current_anchor wit),
                ww_is_genesis = wd_is_genesis wit, ww_state_signature = sg,
                ww_clearance_signature = csg\<rparr>
       in if \<not> withdrawal_constraints E P p (withdrawal_assignment p w) then Inl InvalidWitness
          else case prover p w of
              None \<Rightarrow> Inl ProvingFailed
            | Some pf \<Rightarrow> Inr (proof_to_wire K pf))))"

definition request_verify ::
    "'e edwards \<Rightarrow> codec \<Rightarrow> (nat list \<Rightarrow> Groth16Proof \<Rightarrow> bool option) \<Rightarrow>
     RequestPublicInputsV2 \<Rightarrow> Groth16ProofWire \<Rightarrow> compact_error + bool" where
  "request_verify E K groth16_verify pub wire =
     and_then (ensure_backend wire) (\<lambda>_.
     and_then (proof_from_wire K wire) (\<lambda>pf.
     and_then (request_public_from_wire E pub) (\<lambda>p.
     ok_or VerificationError (groth16_verify (rp_to_field_elements E p) pf))))"

definition withdrawal_verify ::
    "'e edwards \<Rightarrow> codec \<Rightarrow> (nat list \<Rightarrow> Groth16Proof \<Rightarrow> bool option) \<Rightarrow>
     WithdrawalPublicInputsV2 \<Rightarrow> Groth16ProofWire \<Rightarrow> compact_error + bool" where
  "withdrawal_verify E K groth16_verify pub wire =
     and_then (ensure_backend wire) (\<lambda>_.
     and_then (proof_from_wire K wire) (\<lambda>pf.
     and_then (withdrawal_public_from_wire E pub) (\<lambda>p.
     ok_or VerificationError (groth16_verify (wp_to_field_elements E p) pf))))"

section \<open>Wire laws\<close>

text \<open>The documented laws of the point type: coordinates are canonical and determine the point, the
  identity is \<open>(0, 1)\<close>, and the prime-order subgroup is a subgroup with the three generators.\<close>

definition edwards_wire_ok :: "'e::ab_group_add edwards \<Rightarrow> bool" where
  "edwards_wire_ok E \<longleftrightarrow> edwards_ok E \<and>
     (\<forall>p. ed_x E p < field_modulus \<and> ed_y E p < field_modulus \<and> ed_on_curve E (ed_x E p) (ed_y E p) \<and>
        ed_new_unchecked E (ed_x E p) (ed_y E p) = p) \<and>
     (\<forall>x y. ed_on_curve E x y \<longrightarrow>
        ed_x E (ed_new_unchecked E x y) = x \<and> ed_y E (ed_new_unchecked E x y) = y) \<and>
     ed_x E 0 = 0 \<and> ed_y E 0 = 1 \<and>
     ed_in_subgroup E 0 \<and> ed_in_subgroup E (ed_generator E) \<and> ed_in_subgroup E (ed_H E) \<and>
     ed_in_subgroup E (ed_J E) \<and>
     (\<forall>p q. ed_in_subgroup E p \<longrightarrow> ed_in_subgroup E q \<longrightarrow>
        ed_in_subgroup E (p + q) \<and> ed_in_subgroup E (p - q))"

lemma edwards_wire_okD:
  assumes "edwards_wire_ok E"
  shows "edwards_ok E" "ed_x E p < field_modulus" "ed_y E p < field_modulus"
    "ed_on_curve E (ed_x E p) (ed_y E p)" "ed_new_unchecked E (ed_x E p) (ed_y E p) = p"
    "ed_in_subgroup E (ed_generator E)" "ed_in_subgroup E (ed_H E)" "ed_in_subgroup E (ed_J E)"
    "ed_in_subgroup E p \<Longrightarrow> ed_in_subgroup E q \<Longrightarrow> ed_in_subgroup E (p + q)"
    "ed_in_subgroup E p \<Longrightarrow> ed_in_subgroup E q \<Longrightarrow> ed_in_subgroup E (p - q)"
    "ed_in_subgroup E p \<Longrightarrow> nsmul SCALAR_MODULUS p = 0" "ed_in_subgroup E 0"
  using assms unfolding edwards_wire_ok_def edwards_ok_def by blast+

lemma in_subgroup_nsmul:
  assumes "edwards_wire_ok E" "ed_in_subgroup E p"
  shows "ed_in_subgroup E (nsmul n p)"
  using assms by (induction n) (simp_all add: edwards_wire_okD)

lemma in_subgroup_commitment: "edwards_wire_ok E \<Longrightarrow> ed_in_subgroup E (balance_commitment E b r leaf)"
  unfolding balance_commitment_def by (intro edwards_wire_okD(9) in_subgroup_nsmul edwards_wire_okD)

lemma point_round_trip:
  assumes "edwards_wire_ok E" "ed_in_subgroup E p"
  shows "point_from_wire E (point_to_wire E p) = Inr p"
  using assms edwards_wire_okD(2-5) [OF assms(1)]
  by (simp add: point_from_wire_def point_to_wire_def Let_def field_felt_round_trip)

lemma point_from_wire_Inr:
  assumes "edwards_wire_ok E" "point_from_wire E w = Inr p"
  shows "ed_in_subgroup E p" "ed_x E p = felt_to_field (cp_x w)" "ed_y E p = felt_to_field (cp_y w)"
    "nsmul SCALAR_MODULUS p = 0"
  using assms edwards_wire_okD(11) [OF assms(1)] unfolding edwards_wire_ok_def
  by (auto simp: point_from_wire_def Let_def split: if_splits)

lemma point_to_wire_inject: "edwards_wire_ok E \<Longrightarrow> point_to_wire E p = point_to_wire E q \<longleftrightarrow> p = q"
proof
  assume E: "edwards_wire_ok E" and eq: "point_to_wire E p = point_to_wire E q"
  then have "ed_x E p = ed_x E q" "ed_y E p = ed_y E q"
    using edwards_wire_okD(2,3) [OF E] by (simp_all add: point_to_wire_def field_to_felt_inject)
  then show "p = q" using edwards_wire_okD(5) [OF E] by metis
qed simp

lemma scalar_less: "scalar f < SCALAR_MODULUS"
  by (simp add: scalar_def)

lemma scalar_to_felt_eq: "scalar_to_felt v = field_to_felt v"
  by (simp add: scalar_to_felt_def field_to_felt_def)

lemma SCALAR_MODULUS_less: "SCALAR_MODULUS < field_modulus"
  by (simp add: SCALAR_MODULUS_def field_modulus_def)

lemma scalar_round_trip:
  assumes "v < SCALAR_MODULUS"
  shows "scalar (scalar_to_felt v) = v"
proof -
  have "v < field_modulus" using assms SCALAR_MODULUS_less by simp
  then have "unat (scalar_to_felt v) = v" by (simp add: scalar_to_felt_eq unat_field_to_felt)
  then show ?thesis using assms by (simp add: scalar_def be_value_as_bytes)
qed

lemma canonical_scalar_to_felt: "v < SCALAR_MODULUS \<Longrightarrow> canonical (scalar_to_felt v)"
  using SCALAR_MODULUS_less by (simp add: scalar_to_felt_eq canonical_def unat_field_to_felt)

lemma scalar_add_blindings: "scalar (add_blindings a b) = (scalar a + scalar b) mod SCALAR_MODULUS"
  by (simp add: add_blindings_def scalar_round_trip)

lemma signature_round_trip:
  assumes "edwards_wire_ok E" "ed_in_subgroup E (ss_r sg)" "ss_s sg < SCALAR_MODULUS"
  shows "signature_from_wire E (signature_to_wire E sg) = Inr sg"
proof -
  have "point_from_wire E \<lparr>cp_x = cp_x (point_to_wire E (ss_r sg)), cp_y = cp_y (point_to_wire E (ss_r sg))\<rparr> = Inr (ss_r sg)"
    using point_round_trip [OF assms(1,2)] by (simp add: point_to_wire_def)
  then show ?thesis using assms(3)
    by (simp add: signature_from_wire_def signature_to_wire_def Let_def scalar_round_trip)
qed


section \<open>The commitment scheme\<close>

definition group_server_update :: "'e::ab_group_add edwards \<Rightarrow> 'e \<Rightarrow> u128 \<Rightarrow> nat \<Rightarrow> 'e" where
  "group_server_update E p charge d =
     p - nsmul (unat charge mod SCALAR_MODULUS) (ed_generator E) + nsmul d (ed_H E)"

lemma unat_u128_scalar: "unat (b :: u128) mod SCALAR_MODULUS = unat b"
proof -
  have "unat b < 2 ^ 128" using unsigned_less [of b, where ?'a = nat] by simp
  also have "(2 :: nat) ^ 128 < SCALAR_MODULUS" by (simp add: SCALAR_MODULUS_def)
  finally show ?thesis by simp
qed

lemma rerandomize_balance_commitment:
  assumes "edwards_ok E"
  shows "rerandomize_commitment E (balance_commitment E b r leaf) rho
    = balance_commitment E b ((r + rho) mod SCALAR_MODULUS) leaf"
proof -
  have "nsmul SCALAR_MODULUS (ed_H E) = 0" using assms by (simp add: edwards_ok_def)
  then show ?thesis
    by (simp add: rerandomize_commitment_def balance_commitment_def nsmul_scalar_mod nsmul_add algebra_simps)
qed

lemma group_update_commitment:
  assumes "edwards_ok E" "c \<le> b"
  shows "group_server_update E (balance_commitment E b r leaf) c d
    = balance_commitment E (b - c) ((r + d) mod SCALAR_MODULUS) leaf"
proof -
  have "nsmul SCALAR_MODULUS (ed_H E) = 0" using assms(1) by (simp add: edwards_ok_def)
  moreover have "nsmul (unat (b - c)) (ed_generator E) = nsmul (unat b) (ed_generator E) - nsmul (unat c) (ed_generator E)"
    using assms(2) by (simp add: unat_sub word_le_nat_alt nsmul_diff)
  ultimately show ?thesis
    by (simp add: group_server_update_def balance_commitment_def unat_u128_scalar
        nsmul_scalar_mod nsmul_add algebra_simps)
qed

text \<open>The version 2 commitment implements the interface of the version 1 one, for each note.\<close>

interpretation gc: homomorphic_commitment "\<lambda>(E, leaf). edwards_ok E"
  "\<lambda>(E, leaf) b r. balance_commitment E b r leaf" "\<lambda>(E, leaf). rerandomize_commitment E"
  "\<lambda>(E, leaf). group_server_update E" "\<lambda>_ a b. (a + b) mod SCALAR_MODULUS"
  by unfold_locales (auto simp: rerandomize_balance_commitment group_update_commitment)

text \<open>One request on the wire: what the client and the server compute is the commitment of the next
  balance.\<close>

lemma compact_rerandomize_commitment:
  assumes "edwards_wire_ok E"
  shows "compact_rerandomize E (compact_balance_commitment E b r leaf) rho
    = Inr (compact_balance_commitment E b (add_blindings r rho) leaf)"
  using point_round_trip [OF assms in_subgroup_commitment [OF assms]]
    gc.rerand_com [of "(E, felt_to_field leaf)" b "scalar r" "scalar rho"] edwards_wire_okD(1) [OF assms]
  by (simp add: compact_rerandomize_def compact_balance_commitment_def scalar_add_blindings)

lemma compact_update_commitment:
  assumes "edwards_wire_ok E" "c \<le> b"
  shows "compact_server_update E (compact_balance_commitment E b r leaf) c d
    = Inr (compact_balance_commitment E (b - c) (add_blindings r d) leaf)"
  using point_round_trip [OF assms(1) in_subgroup_commitment [OF assms(1)]]
    gc.upd_com [of "(E, felt_to_field leaf)" c b "scalar r" "scalar d"] edwards_wire_okD(1) [OF assms(1)] assms(2)
  by (simp add: compact_server_update_def compact_balance_commitment_def scalar_add_blindings group_server_update_def)

lemma compact_signature_verifies:
  assumes "edwards_wire_ok E"
  shows "compact_verify_signature E P (signer_public_key E (from_seed E seed)) m
    (compact_sign E P (from_seed E seed) nonce m) = Inr True"
proof -
  let ?key = "from_secret E (scalar seed)"
  let ?sg = "state_key_sign E P ?key nonce (felt_to_field m)"
  have "ed_in_subgroup E (sk_public ?key)" "ed_in_subgroup E (ss_r ?sg)" "ss_s ?sg < SCALAR_MODULUS"
    using in_subgroup_nsmul [OF assms edwards_wire_okD(6) [OF assms]]
    by (simp_all add: from_secret_def state_key_sign_def Let_def)
  then show ?thesis
    using point_round_trip [OF assms] signature_round_trip [OF assms] state_key_sign_verifies edwards_wire_okD(1) [OF assms]
    by (simp add: compact_verify_signature_def signer_public_key_def compact_sign_def from_seed_def)
qed


section \<open>Proofs and keys on the wire\<close>

definition codec_ok :: "codec \<Rightarrow> bool" where
  "codec_ok K \<longleftrightarrow> (\<forall>bs. b64_decode K (b64_encode K bs) = Some bs)"

definition proof_valid :: "codec \<Rightarrow> Groth16Proof \<Rightarrow> bool" where
  "proof_valid K pf \<longleftrightarrow> g1_valid K (pf_a pf) \<and> g2_valid K (pf_b pf) \<and> g1_valid K (pf_c pf) \<and>
     (\<forall>c \<in> {fst (pf_a pf), snd (pf_a pf), fst (fst (pf_b pf)), snd (fst (pf_b pf)),
             fst (snd (pf_b pf)), snd (snd (pf_b pf)), fst (pf_c pf), snd (pf_c pf)}. c < FQ_MODULUS)"

lemma prime_field_bytes_eq: "prime_field_bytes v = be_digits 32 v"
  by (simp add: prime_field_bytes_def)

lemma FQ_MODULUS_256: "FQ_MODULUS < 256 ^ 32"
  by (simp add: FQ_MODULUS_def)

lemma canonical_fq_bytes: "v < FQ_MODULUS \<Longrightarrow> canonical_fq (prime_field_bytes v) = Inr v"
  using FQ_MODULUS_256 be_value_digits_id [of v 32]
  by (simp add: canonical_fq_def prime_field_bytes_eq Let_def)

lemma canonical_fq_Inr: "canonical_fq bs = Inr v \<Longrightarrow> v < FQ_MODULUS \<and> bs = prime_field_bytes v"
  by (auto simp: canonical_fq_def Let_def FQ_MODULUS_def split: if_splits)

lemma concat_chunks: "length bs = k * n \<Longrightarrow> concat (chunks n k bs) = bs"
  by (induction k arbitrary: bs) (simp_all add: algebra_simps)

lemma try_map_canonical_fq:
  assumes "try_map canonical_fq cs = Inr vs"
  shows "cs = map prime_field_bytes vs \<and> (\<forall>v \<in> set vs. v < FQ_MODULUS)"
  using try_map_InrD [OF assms]
  by (induction rule: list_all2_induct) (auto dest: canonical_fq_Inr)

lemma list_of_eight:
  assumes "length xs = 8"
  shows "xs = [xs ! 0, xs ! 1, xs ! 2, xs ! 3, xs ! 4, xs ! 5, xs ! 6, xs ! 7]"
  by (rule nth_equalityI) (use assms in \<open>auto simp: less_Suc_eq numeral_eq_Suc\<close>)

lemma proof_from_wire_to_wire:
  assumes "codec_ok K" "proof_valid K pf"
  shows "proof_from_wire K (proof_to_wire K pf) = Inr pf"
proof -
  let ?cs = "[fst (pf_a pf), snd (pf_a pf), fst (fst (pf_b pf)), snd (fst (pf_b pf)),
      fst (snd (pf_b pf)), snd (snd (pf_b pf)), fst (pf_c pf), snd (pf_c pf)]"
  have "chunks 32 (length (map prime_field_bytes ?cs)) (concat (map prime_field_bytes ?cs)) = map prime_field_bytes ?cs"
    by (rule chunks_concat) (auto simp: prime_field_bytes_eq)
  moreover have len: "length (map prime_field_bytes ?cs) = 8" by simp
  ultimately have "chunks 32 8 (proof_bytes pf) = map prime_field_bytes ?cs"
    unfolding proof_bytes_def by (simp only: len)
  moreover have "canonical_fq (prime_field_bytes c) = Inr c" if "c \<in> set ?cs" for c
    using assms(2) that canonical_fq_bytes by (auto simp: proof_valid_def)
  then have "try_map (canonical_fq \<circ> prime_field_bytes) ?cs = Inr (map id ?cs)"
    by (intro try_map_map_Inr) auto
  moreover have "try_map canonical_fq (map prime_field_bytes xs) = try_map (canonical_fq \<circ> prime_field_bytes) xs" for xs
    by (induction xs) auto
  ultimately have cs: "try_map canonical_fq (chunks 32 8 (proof_bytes pf)) = Inr ?cs"
    by (simp only: map_ident id_def)
  have "length (proof_bytes pf) = 256" by (simp add: proof_bytes_def prime_field_bytes_eq)
  moreover have "b64_decode K (b64_encode K (proof_bytes pf)) = Some (proof_bytes pf)"
    using assms(1) by (simp add: codec_ok_def)
  moreover have "g1_valid K (pf_a pf)" "g2_valid K (pf_b pf)" "g1_valid K (pf_c pf)"
    using assms(2) by (simp_all add: proof_valid_def)
  ultimately show ?thesis
    by (simp add: proof_from_wire_def proof_to_wire_def ok_or_def bail_if_def cs)
qed

lemma proof_from_wire_Inr:
  assumes "proof_from_wire K wire = Inr pf"
  shows "b64_decode K (gw_proof wire) = Some (proof_bytes pf) \<and> proof_valid K pf"
proof -
  obtain bytes cs where dec: "b64_decode K (gw_proof wire) = Some bytes" "length bytes = 256"
    and cs: "try_map canonical_fq (chunks 32 8 bytes) = Inr cs"
    and pf: "pf = \<lparr>pf_a = (cs ! 0, cs ! 1), pf_b = ((cs ! 2, cs ! 3), (cs ! 4, cs ! 5)), pf_c = (cs ! 6, cs ! 7)\<rparr>"
    and ok: "g1_valid K (pf_a pf)" "g2_valid K (pf_b pf)" "g1_valid K (pf_c pf)"
    using assms
    by (auto simp: proof_from_wire_def and_then_eq_Inr ok_or_def bail_if_def Let_def split: option.splits if_splits)
  note canon = try_map_canonical_fq [OF cs]
  have len: "length cs = 8" using canon length_chunks [of 32 8 bytes] by (metis length_map)
  have "bytes = concat (chunks 32 8 bytes)" using dec(2) by (simp add: concat_chunks)
  also have "\<dots> = concat (map prime_field_bytes cs)" using canon by simp
  also have "\<dots> = proof_bytes pf"
    by (subst list_of_eight [OF len]) (simp add: pf proof_bytes_def)
  finally have "bytes = proof_bytes pf" .
  moreover have "cs ! i < FQ_MODULUS" if "i < 8" for i using canon that len by simp
  ultimately show ?thesis using dec ok by (simp add: proof_valid_def) (simp add: pf)
qed

lemma jub_curve_wire_ok: "edwards_wire_ok jub_curve"
proof -
  have rep: "0 \<le> Rep_jub_group p" "Rep_jub_group p < int SCALAR_MODULUS" for p
    using Rep_jub_group [of p] by simp_all
  have "nat (Rep_jub_group p) < SCALAR_MODULUS" for p using rep [of p] by (simp add: nat_less_iff)
  moreover have "nat (Rep_jub_group p) < field_modulus" for p
    using \<open>nat (Rep_jub_group p) < SCALAR_MODULUS\<close> SCALAR_MODULUS_less by simp
  moreover have "Rep_jub_group (Abs_jub_group (int x)) = int x" if "x < SCALAR_MODULUS" for x
    using that by (intro Abs_jub_group_inverse) simp
  ultimately show ?thesis using jub_curve_ok rep
    by (auto simp: edwards_wire_ok_def jub_curve_def Rep_jub_group_inverse zero_jub_group.rep_eq field_modulus_def)
qed


section \<open>Properties\<close>

text \<open>Proofs survive the wire and have one encoding: decoding an encoded valid proof gives the
  proof back, and whatever is accepted decodes to exactly the 256 canonical bytes of a valid proof, so
  no second byte string is accepted for the same proof.\<close>

lemma proof_wire_round_trip:
  assumes "codec_ok K"
  shows "(proof_valid K pf \<longrightarrow> proof_from_wire K (proof_to_wire K pf) = Inr pf) \<and>
    (proof_from_wire K wire = Inr pf' \<longrightarrow>
       proof_valid K pf' \<and> b64_decode K (gw_proof wire) = Some (proof_bytes pf') \<and> length (proof_bytes pf') = 256)"
  using proof_from_wire_to_wire [OF assms] proof_from_wire_Inr [of K wire pf']
  by (simp add: proof_bytes_def prime_field_bytes_eq)

text \<open>Key files are bound to the circuit revision: a written key is read back, and a file
  without the revision header, or with bytes after the key, is refused.\<close>

lemma key_file_round_trip:
  assumes "\<forall>v rest. deserialize (serialize v @ rest) = Some (v, rest)"
  shows "decode_compressed deserialize (write_compressed serialize v) = Inr v \<and>
    (rest \<noteq> [] \<longrightarrow> decode_compressed deserialize (write_compressed serialize v @ rest) = Inl TrailingKeyBytes) \<and>
    (take (length KEY_HEADER) bytes \<noteq> KEY_HEADER \<longrightarrow> decode_compressed deserialize bytes = Inl IncompatibleSetup)"
  using spec [OF spec [OF assms], of v "[]"] spec [OF spec [OF assms], of v rest]
  by (auto simp: decode_compressed_def write_compressed_def strip_prefix_def ok_or_def bail_if_def)

end
