(* ===== verification/Client_Store.thy ===== *)
theory Client_Store
  imports Compact
begin

text \<open>
  The client's durable state (\<open>zkapi-client\<close>: \<open>error.rs\<close>, \<open>config.rs\<close>, \<open>journal.rs\<close>,
  \<open>note_state.rs\<close>): the note state file, the write-ahead journal, and both on a disk that may fail.

  A disk maps paths to file contents of an abstract type \<open>'d\<close>; JSON encoding and decoding are the
  record \<open>client_json\<close>. Directories and permissions only matter through their failure. Every
  operation takes the failures that occur during it as a value of \<open>io_faults\<close>: a failed write leaves
  arbitrary contents in the file it was writing. A crash at an I/O step leaves the disk that the
  failure of that step leaves.
\<close>

section \<open>Errors and configuration\<close>

text \<open>Texts made by libraries or by formatting are \<open>External\<close>; \<open>ClientPanicked\<close> is a panic.\<close>

datatype reason = Msg string | CompactFailure compact_error | FeltFailure felt_error | External

datatype ClientError =
    NoActiveNote
  | NoteAlreadyExists
  | InsufficientBalance u128 u128
  | StaleRoot
  | ServerError reason
  | InvalidResponse reason
  | PendingRequest
  | Io
  | Serialization reason
  | ProofGeneration reason
  | VerificationFailed reason
  | ClientPanicked

datatype ClientProofMode = Groth16 string

record ClientConfig =
  cc_protocol_version :: u16
  cc_chain_id :: u64
  cc_contract_address :: felt
  cc_request_charge_cap :: u128
  cc_policy_charge_cap :: u128
  cc_policy_enabled :: bool
  cc_server_url :: string
  cc_state_dir :: "string list"
  cc_trusted_epoch_roots :: "EpochRoots list"
  cc_proof_mode :: ClientProofMode
  cc_state_signing_key :: CurvePointWire
  cc_clearance_signing_key :: CurvePointWire


section \<open>Paths and files\<close>

text \<open>A path is the list of its components; \<open>with_extension\<close> replaces what follows the last dot of
  the file name, a leading dot not counting.\<close>

type_synonym path = "string list"
type_synonym 'd disk = "path \<Rightarrow> 'd option"

definition file_stem :: "string \<Rightarrow> string" where
  "file_stem name =
     (let before = dropWhile (\<lambda>c. c \<noteq> CHR ''.'') (rev name)
      in if length before \<le> 1 then name else rev (tl before))"

definition with_extension :: "path \<Rightarrow> string \<Rightarrow> path" where
  "with_extension p ext = butlast p @ [file_stem (last p) @ ''.'' @ ext]"

text \<open>\<open>f_write\<close> is \<open>None\<close> when the write succeeds, \<open>Some None\<close> when the file could not be opened, and
  \<open>Some (Some left)\<close> when the contents \<open>left\<close> were left behind.\<close>

record 'd io_faults =
  f_dir :: bool
  f_write :: "'d option option"
  f_rename :: bool
  f_read :: bool
  f_remove :: bool

definition no_faults :: "'d io_faults" where
  "no_faults = \<lparr>f_dir = False, f_write = None, f_rename = False, f_read = False, f_remove = False\<rparr>"

text \<open>Sequencing of disk operations: the first error ends the operation.\<close>

definition st_then :: "'s \<times> ('err + 'a) \<Rightarrow> ('a \<Rightarrow> 's \<Rightarrow> 's \<times> ('err + 'b)) \<Rightarrow> 's \<times> ('err + 'b)" where
  "st_then m k = (case snd m of Inl e \<Rightarrow> (fst m, Inl e) | Inr x \<Rightarrow> k x (fst m))"

definition write_private_file :: "'d io_faults \<Rightarrow> path \<Rightarrow> 'd \<Rightarrow> 'd disk \<Rightarrow> 'd disk \<times> (ClientError + unit)" where
  "write_private_file io p bytes disk =
     (case f_write io of
        None \<Rightarrow> (disk(p \<mapsto> bytes), Inr ())
      | Some None \<Rightarrow> (disk, Inl Io)
      | Some (Some left) \<Rightarrow> (disk(p \<mapsto> left), Inl Io))"

definition fs_rename :: "'d io_faults \<Rightarrow> path \<Rightarrow> path \<Rightarrow> 'd disk \<Rightarrow> 'd disk \<times> (ClientError + unit)" where
  "fs_rename io from to disk =
     (if f_rename io \<or> disk from = None then (disk, Inl Io) else (disk(to := disk from, from := None), Inr ()))"

definition remove_file :: "'d io_faults \<Rightarrow> path \<Rightarrow> 'd disk \<Rightarrow> 'd disk \<times> (ClientError + unit)" where
  "remove_file io p disk = (if f_remove io then (disk, Inl Io) else (disk(p := None), Inr ()))"

definition read_to_string :: "'d io_faults \<Rightarrow> path \<Rightarrow> 'd disk \<Rightarrow> ClientError + 'd" where
  "read_to_string io p disk = (if f_read io then Inl Io else ok_or Io (disk p))"

definition create_dir_all :: "'d io_faults \<Rightarrow> ClientError + unit" where
  "create_dir_all io = bail_if (f_dir io) Io"


section \<open>Note state\<close>

record NoteState =
  ns_protocol_version :: u16
  ns_chain_id :: u64
  ns_contract_address :: felt
  ns_note_id :: u32
  ns_secret_s :: felt
  ns_deposit_amount :: u128
  ns_expiry_ts :: u64
  ns_current_balance :: u128
  ns_balance_blinding :: string
  ns_current_commitment_x :: felt
  ns_current_commitment_y :: felt
  ns_current_anchor :: felt
  ns_is_genesis :: bool
  ns_state_signature :: "SchnorrSignature option"

record PendingRequestJournal =
  pj_exists :: bool
  pj_client_request_id :: string
  pj_nullifier :: felt
  pj_payload_hash :: felt
  pj_user_rerandomization :: felt
  pj_created_at_ms :: u64
  pj_prepared_request :: "ApiRequestV2 option"

text \<open>The common end of the two writers: a temporary file beside the target, then a rename.\<close>

definition replace_file :: "'d io_faults \<Rightarrow> path \<Rightarrow> 'd \<Rightarrow> 'd disk \<Rightarrow> 'd disk \<times> (ClientError + unit)" where
  "replace_file io p json disk =
     st_then (disk, create_dir_all io) (\<lambda>_ disk.
     st_then (write_private_file io (with_extension p ''tmp'') json disk) (\<lambda>_ disk.
     fs_rename io (with_extension p ''tmp'') p disk))"

text \<open>\<open>serde_json\<close> on the types the client stores and receives.\<close>

record 'd client_json =
  state_to_json :: "NoteState \<Rightarrow> 'd option"
  state_from_json :: "'d \<Rightarrow> NoteState option"
  journal_to_json :: "PendingRequestJournal \<Rightarrow> 'd option"
  journal_from_json :: "'d \<Rightarrow> PendingRequestJournal option"
  response_from_json :: "'d \<Rightarrow> RequestResponseV2 option"
  error_from_json :: "'d \<Rightarrow> ErrorResponse option"
  recovery_from_json :: "'d \<Rightarrow> RecoveryResponseV2 option"
  clearance_from_json :: "'d \<Rightarrow> ClearanceResponseV2 option"

definition new_from_deposit ::
    "u16 \<Rightarrow> u64 \<Rightarrow> felt \<Rightarrow> u32 \<Rightarrow> felt \<Rightarrow> u128 \<Rightarrow> u64 \<Rightarrow> string \<Rightarrow> felt \<Rightarrow> felt \<Rightarrow> NoteState" where
  "new_from_deposit version chain contract note_id secret deposit_amount expiry blinding x y =
     \<lparr>ns_protocol_version = version, ns_chain_id = chain, ns_contract_address = contract,
      ns_note_id = note_id, ns_secret_s = secret, ns_deposit_amount = deposit_amount,
      ns_expiry_ts = expiry, ns_current_balance = deposit_amount, ns_balance_blinding = blinding,
      ns_current_commitment_x = x, ns_current_commitment_y = y, ns_current_anchor = ONE,
      ns_is_genesis = True, ns_state_signature = None\<rparr>"

definition solvency_bound :: "NoteState \<Rightarrow> bool \<Rightarrow> u128 \<Rightarrow> u128 \<Rightarrow> u128" where
  "solvency_bound state policy_enabled charge_cap policy_cap =
     (if policy_enabled then policy_cap else charge_cap)"

definition state_save ::
    "'d client_json \<Rightarrow> 'd io_faults \<Rightarrow> path \<Rightarrow> NoteState \<Rightarrow> 'd disk \<Rightarrow> 'd disk \<times> (ClientError + unit)" where
  "state_save J io p state disk =
     st_then (disk, ok_or (Serialization External) (state_to_json J state)) (\<lambda>json disk.
     replace_file io p json disk)"

definition state_load :: "'d client_json \<Rightarrow> 'd io_faults \<Rightarrow> path \<Rightarrow> 'd disk \<Rightarrow> ClientError + NoteState" where
  "state_load J io p disk =
     and_then (read_to_string io p disk) (\<lambda>data. ok_or (Serialization External) (state_from_json J data))"

fun decimal :: "nat \<Rightarrow> string" where
  "decimal n = (if n < 10 then [char_of (48 + n)] else decimal (n div 10) @ [char_of (48 + n mod 10)])"

declare decimal.simps [simp del]

definition archive_path :: "path \<Rightarrow> u32 \<Rightarrow> path" where
  "archive_path p note_id =
     butlast p @ [''archive'', ''note_'' @ decimal (unat note_id) @ ''_closed.json'']"

definition state_archive ::
    "'d client_json \<Rightarrow> 'd io_faults \<Rightarrow> path \<Rightarrow> NoteState \<Rightarrow> 'd disk \<Rightarrow> 'd disk \<times> (ClientError + unit)" where
  "state_archive J io p state disk =
     st_then (disk, create_dir_all io) (\<lambda>_ disk.
     st_then (state_save J io (archive_path p (ns_note_id state)) state disk) (\<lambda>_ disk.
     if disk p \<noteq> None then remove_file io p disk else (disk, Inr ())))"


section \<open>The journal\<close>

definition journal_write ::
    "'d client_json \<Rightarrow> 'd io_faults \<Rightarrow> path \<Rightarrow> PendingRequestJournal \<Rightarrow> 'd disk \<Rightarrow> 'd disk \<times> (ClientError + unit)" where
  "journal_write J io p journal disk =
     st_then (disk, ok_or (Serialization External) (journal_to_json J journal)) (\<lambda>json disk.
     replace_file io p json disk)"

definition journal_read ::
    "'d client_json \<Rightarrow> 'd io_faults \<Rightarrow> path \<Rightarrow> 'd disk \<Rightarrow> ClientError + PendingRequestJournal option" where
  "journal_read J io p disk =
     (if disk p = None then Inr None
      else and_then (read_to_string io p disk) (\<lambda>data.
           and_then (ok_or (Serialization External) (journal_from_json J data)) (\<lambda>journal.
           Inr (if pj_exists journal then Some journal else None))))"

definition journal_clear :: "'d io_faults \<Rightarrow> path \<Rightarrow> 'd disk \<Rightarrow> 'd disk \<times> (ClientError + unit)" where
  "journal_clear io p disk = (if disk p \<noteq> None then remove_file io p disk else (disk, Inr ()))"

section \<open>Replacing a file\<close>

lemma st_then_simps [simp]:
  "st_then (s, Inl e) k = (s, Inl e)" "st_then (s, Inr x) k = k x s"
  by (simp_all add: st_then_def)

lemma st_then_eq_Inr [res]:
  "st_then m k = (s', Inr y) \<longleftrightarrow> (\<exists>s x. m = (s, Inr x) \<and> k x s = (s', Inr y))"
  by (cases m; cases "snd m") auto

lemma length_with_extension: "p \<noteq> [] \<Longrightarrow> length (with_extension p ext) = length p"
  by (simp add: with_extension_def)

text \<open>What both the state file and the journal promise: a replacement that fails leaves the file as it
  was, one that succeeds stores the value, and only the file and its temporary neighbour are touched.\<close>

locale durable_file =
  fixes put :: "'d client_json \<Rightarrow> 'd io_faults \<Rightarrow> path \<Rightarrow> 'v \<Rightarrow> 'd disk \<Rightarrow> 'd disk \<times> (ClientError + unit)"
    and dec :: "'d client_json \<Rightarrow> 'd \<Rightarrow> 'v option"
    and encodable :: "'d client_json \<Rightarrow> 'v \<Rightarrow> bool"
  assumes put_frame: "q \<noteq> p \<Longrightarrow> q \<noteq> with_extension p ''tmp'' \<Longrightarrow> fst (put J io p v disk) q = disk q"
    and put_fails: "snd (put J io p v disk) = Inl e \<Longrightarrow> p \<noteq> with_extension p ''tmp'' \<Longrightarrow>
      fst (put J io p v disk) p = disk p"
    and put_stores: "snd (put J io p v disk) = Inr u \<Longrightarrow> p \<noteq> with_extension p ''tmp'' \<Longrightarrow> encodable J v \<Longrightarrow>
      \<exists>d. fst (put J io p v disk) p = Some d \<and> dec J d = Some v"
    and put_works: "encodable J v \<Longrightarrow> snd (put J no_faults p v disk) = Inr ()"
begin

lemma old_or_new:
  assumes "p \<noteq> with_extension p ''tmp''" "encodable J v"
  shows "fst (put J io p v disk) p = disk p \<or> (\<exists>d. fst (put J io p v disk) p = Some d \<and> dec J d = Some v)"
  using put_fails [OF _ assms(1)] put_stores [OF _ assms] by (cases "snd (put J io p v disk)") blast+

lemma put_cases:
  assumes "put J io p v disk = (disk', r)" "p \<noteq> with_extension p ''tmp''" "encodable J v"
  obtains e where "r = Inl e" "disk' p = disk p"
  | d where "r = Inr ()" "disk' p = Some d" "dec J d = Some v"
  using put_fails [OF _ assms(2), of J io v disk] put_stores [OF _ assms(2,3), of io disk] assms(1)
  by (cases r) auto

end

lemma replace_frame:
  assumes "q \<noteq> p" "q \<noteq> with_extension p ''tmp''"
  shows "fst (replace_file io p json disk) q = disk q"
  using assms
  by (simp add: replace_file_def create_dir_all_def bail_if_def write_private_file_def fs_rename_def split: option.splits)

lemma replace_cases:
  assumes "p \<noteq> with_extension p ''tmp''"
  obtains e where "snd (replace_file io p json disk) = Inl e" "fst (replace_file io p json disk) p = disk p"
  | "snd (replace_file io p json disk) = Inr ()" "fst (replace_file io p json disk) p = Some json"
proof (cases "f_dir io \<or> f_rename io \<or> f_write io \<noteq> None")
  case True
  then have "\<exists>e. snd (replace_file io p json disk) = Inl e \<and> fst (replace_file io p json disk) p = disk p"
    using assms by (auto simp: replace_file_def create_dir_all_def bail_if_def write_private_file_def fs_rename_def
        split: option.splits)
  with that(1) show ?thesis by blast
next
  case False
  with assms that(2) show ?thesis
    by (simp add: replace_file_def create_dir_all_def bail_if_def write_private_file_def fs_rename_def)
qed

lemma replace_works: "snd (replace_file no_faults p json disk) = Inr ()"
  by (simp add: replace_file_def create_dir_all_def bail_if_def write_private_file_def fs_rename_def no_faults_def)

definition state_encodable :: "'d client_json \<Rightarrow> NoteState \<Rightarrow> bool" where
  "state_encodable J s \<longleftrightarrow> (\<exists>d. state_to_json J s = Some d \<and> state_from_json J d = Some s)"

definition journal_encodable :: "'d client_json \<Rightarrow> PendingRequestJournal \<Rightarrow> bool" where
  "journal_encodable J j \<longleftrightarrow> (\<exists>d. journal_to_json J j = Some d \<and> journal_from_json J d = Some j)"

interpretation sf: durable_file state_save state_from_json state_encodable
proof
  fix q p :: path and J :: "'d client_json" and io v disk e u
  show "q \<noteq> p \<Longrightarrow> q \<noteq> with_extension p ''tmp'' \<Longrightarrow> fst (state_save J io p v disk) q = disk q"
    by (cases "state_to_json J v") (simp_all add: state_save_def replace_frame)
  show "fst (state_save J io p v disk) p = disk p"
    if "snd (state_save J io p v disk) = Inl e" "p \<noteq> with_extension p ''tmp''"
  proof (cases "state_to_json J v")
    case (Some json)
    with that show ?thesis by (auto simp: state_save_def elim: replace_cases [of p io json disk])
  qed (simp add: state_save_def)
  show "\<exists>d. fst (state_save J io p v disk) p = Some d \<and> state_from_json J d = Some v"
    if ok: "snd (state_save J io p v disk) = Inr u" "p \<noteq> with_extension p ''tmp''" "state_encodable J v"
  proof -
    obtain d where "state_to_json J v = Some d" "state_from_json J d = Some v"
      using ok(3) by (auto simp: state_encodable_def)
    with ok show ?thesis by (auto simp: state_save_def elim: replace_cases [of p io d disk])
  qed
  show "state_encodable J v \<Longrightarrow> snd (state_save J no_faults p v disk) = Inr ()"
    by (auto simp: state_save_def state_encodable_def replace_works)
qed

interpretation jf: durable_file journal_write journal_from_json journal_encodable
proof
  fix q p :: path and J :: "'d client_json" and io v disk e u
  show "q \<noteq> p \<Longrightarrow> q \<noteq> with_extension p ''tmp'' \<Longrightarrow> fst (journal_write J io p v disk) q = disk q"
    by (cases "journal_to_json J v") (simp_all add: journal_write_def replace_frame)
  show "fst (journal_write J io p v disk) p = disk p"
    if "snd (journal_write J io p v disk) = Inl e" "p \<noteq> with_extension p ''tmp''"
  proof (cases "journal_to_json J v")
    case (Some json)
    with that show ?thesis by (auto simp: journal_write_def elim: replace_cases [of p io json disk])
  qed (simp add: journal_write_def)
  show "\<exists>d. fst (journal_write J io p v disk) p = Some d \<and> journal_from_json J d = Some v"
    if ok: "snd (journal_write J io p v disk) = Inr u" "p \<noteq> with_extension p ''tmp''" "journal_encodable J v"
  proof -
    obtain d where "journal_to_json J v = Some d" "journal_from_json J d = Some v"
      using ok(3) by (auto simp: journal_encodable_def)
    with ok show ?thesis by (auto simp: journal_write_def elim: replace_cases [of p io d disk])
  qed
  show "journal_encodable J v \<Longrightarrow> snd (journal_write J no_faults p v disk) = Inr ()"
    by (auto simp: journal_write_def journal_encodable_def replace_works)
qed

end
