(* ===== verification/Wallet_V2.thy ===== *)
theory Wallet_V2
  imports Client_Store
begin

text \<open>
  The version 2 wallet (\<open>zkapi-client/src/wallet_v2.rs\<close>, the module \<open>wallet\<close> of the crate): deposits,
  requests with their write-ahead journal, server responses, recovery and the two withdrawals.

  The wallet in memory is the record \<open>Wallet\<close>; the disk is passed beside it. Random draws, clock
  readings and the request identifier are arguments, the server is a function from a message to an
  HTTP outcome, and hash functions, curve, JSON and provers are the record \<open>client_env\<close>.
\<close>

section \<open>The wallet and its environment\<close>

record ('e, 'd) client_env =
  ce_curve :: "'e edwards"
  ce_poseidon :: poseidon
  ce_keccak :: keccak256
  ce_codec :: codec
  ce_json :: "'d client_json"
  ce_request_prover :: "string \<Rightarrow> ('e RequestPublic \<Rightarrow> 'e RequestWitness \<Rightarrow> Groth16Proof option) option"
  ce_withdrawal_prover :: "string \<Rightarrow> ('e WithdrawalPublic \<Rightarrow> 'e WithdrawalWitness \<Rightarrow> Groth16Proof option) option"

record Wallet =
  w_config :: ClientConfig
  w_state :: "NoteState option"
  w_state_path :: path
  w_journal_path :: path

text \<open>What a request draws: the clock for the request and for the journal, the identifier, and the
  rerandomization.\<close>

record request_draws =
  dr_now :: u64
  dr_now_journal :: u64
  dr_uuid :: string
  dr_rerandomization :: felt

datatype 'd http = SendFailed | BodyFailed u16 | Reply u16 'd

definition is_success :: "u16 \<Rightarrow> bool" where
  "is_success status \<longleftrightarrow> 200 \<le> status \<and> status < 300"

text \<open>\<open>send\<close> and \<open>text\<close>, with every library error a server error.\<close>

definition http_text :: "'d http \<Rightarrow> ClientError + u16 \<times> 'd" where
  "http_text h = (case h of Reply status body \<Rightarrow> Inr (status, body) | _ \<Rightarrow> Inl (ServerError External))"

definition trim_end_matches :: "char \<Rightarrow> string \<Rightarrow> string" where
  "trim_end_matches c s = rev (dropWhile (\<lambda>d. d = c) (rev s))"

definition endpoint :: "ClientConfig \<Rightarrow> string \<Rightarrow> string" where
  "endpoint config suffix = trim_end_matches CHR ''/'' (cc_server_url config) @ suffix"

definition now_ms :: "u64 \<Rightarrow> u64" where
  "now_ms secs = (if unat secs * 1000 < 2 ^ 64 then secs * 1000 else - 1)"

definition setup_dir :: "ClientConfig \<Rightarrow> string" where
  "setup_dir config = (case cc_proof_mode config of Groth16 dir \<Rightarrow> dir)"


section \<open>Helpers\<close>

definition ensure_stored_commitment :: "NoteState \<Rightarrow> CurvePointWire \<Rightarrow> ClientError + unit" where
  "ensure_stored_commitment state commitment =
     bail_if (cp_x commitment \<noteq> ns_current_commitment_x state \<or> cp_y commitment \<noteq> ns_current_commitment_y state)
       (VerificationFailed (Msg ''persisted balance commitment is inconsistent''))"

definition parse_scalar :: "string \<Rightarrow> ClientError + felt" where
  "parse_scalar value =
     map_err (\<lambda>e. if e = SlicePanic then ClientPanicked else Serialization (FeltFailure e)) (from_hex value)"

definition siblings_array :: "felt list \<Rightarrow> ClientError + felt list" where
  "siblings_array values =
     (if length values = MERKLE_DEPTH then Inr values else Inl (ProofGeneration External))"

definition state_note_leaf :: "poseidon \<Rightarrow> NoteState \<Rightarrow> felt" where
  "state_note_leaf P state =
     note_leaf P (ns_note_id state) (registration_commitment P (ns_secret_s state))
       (ns_deposit_amount state) (ns_expiry_ts state)"


section \<open>Opening, deposits, pending requests\<close>

definition wallet_new ::
    "('e, 'd) client_env \<Rightarrow> 'd io_faults \<Rightarrow> ClientConfig \<Rightarrow> 'd disk \<Rightarrow> ClientError + Wallet" where
  "wallet_new env io config disk =
     and_then (create_dir_all io) (\<lambda>_.
       let state_path = cc_state_dir config @ [''note_state.json''];
           journal_path = cc_state_dir config @ [''pending_journal.json'']
       in and_then (if disk state_path \<noteq> None
                    then and_then (state_load (ce_json env) io state_path disk) (\<lambda>s. Inr (Some s))
                    else Inr None) (\<lambda>state.
          Inr \<lparr>w_config = config, w_state = state, w_state_path = state_path, w_journal_path = journal_path\<rparr>))"

definition has_pending_request :: "('e, 'd) client_env \<Rightarrow> 'd io_faults \<Rightarrow> Wallet \<Rightarrow> 'd disk \<Rightarrow> bool" where
  "has_pending_request env io w disk \<longleftrightarrow>
     (case res_ok (journal_read (ce_json env) io (w_journal_path w) disk) of
        Some (Some _) \<Rightarrow> True
      | _ \<Rightarrow> False)"

definition get_pending_journal ::
    "('e, 'd) client_env \<Rightarrow> 'd io_faults \<Rightarrow> Wallet \<Rightarrow> 'd disk \<Rightarrow> ClientError + PendingRequestJournal option" where
  "get_pending_journal env io w disk = journal_read (ce_json env) io (w_journal_path w) disk"

definition pending_api_request ::
    "('e, 'd) client_env \<Rightarrow> 'd io_faults \<Rightarrow> Wallet \<Rightarrow> 'd disk \<Rightarrow> ClientError + ApiRequestV2 option" where
  "pending_api_request env io w disk =
     and_then (journal_read (ce_json env) io (w_journal_path w) disk) (\<lambda>journal.
     Inr (Option.bind journal pj_prepared_request))"

text \<open>The loop over fresh random field elements, as a list of draws; \<open>None\<close> means that they ran out.\<close>

fun generate_deposit_params :: "poseidon \<Rightarrow> felt list \<Rightarrow> (felt \<times> felt) option" where
  "generate_deposit_params P [] = None"
| "generate_deposit_params P (secret # draws) =
     (if \<not> is_zero secret then Some (secret, registration_commitment P secret)
      else generate_deposit_params P draws)"

definition confirm_deposit ::
    "('e::ab_group_add, 'd) client_env \<Rightarrow> 'd io_faults \<Rightarrow> felt \<Rightarrow> felt \<Rightarrow> u32 \<Rightarrow> u128 \<Rightarrow> u64 \<Rightarrow>
     Wallet \<Rightarrow> 'd disk \<Rightarrow> (Wallet \<times> 'd disk) \<times> (ClientError + unit)" where
  "confirm_deposit env io blinding secret note_id deposit_amount expiry w disk =
     (if w_state w \<noteq> None then ((w, disk), Inl NoteAlreadyExists)
      else
        let commitment = compact_balance_commitment (ce_curve env) deposit_amount blinding
              (note_leaf (ce_poseidon env) note_id (registration_commitment (ce_poseidon env) secret)
                 deposit_amount expiry);
            state = new_from_deposit (cc_protocol_version (w_config w)) (cc_chain_id (w_config w))
              (cc_contract_address (w_config w)) note_id secret deposit_amount expiry (to_hex blinding)
              (cp_x commitment) (cp_y commitment)
        in (case state_save (ce_json env) io (w_state_path w) state disk of
              (disk', Inl e) \<Rightarrow> ((w, disk'), Inl e)
            | (disk', Inr _) \<Rightarrow> ((w\<lparr>w_state := Some state\<rparr>, disk'), Inr ())))"


section \<open>Requests\<close>

text \<open>Everything of \<open>prepare_request\<close> between the pending check and the journal write.\<close>

definition build_request ::
    "('e::ab_group_add, 'd) client_env \<Rightarrow> request_draws \<Rightarrow> string \<Rightarrow> felt \<Rightarrow> felt \<Rightarrow> felt list \<Rightarrow>
     Wallet \<Rightarrow> ClientError + ApiRequestV2 \<times> PendingRequestJournal" where
  "build_request env dr payload payload_hash active_root merkle_siblings w =
     (let E = ce_curve env; P = ce_poseidon env; config = w_config w in
      and_then (ok_or ClientPanicked (canonical_payload_hash (ce_keccak env) (as_bytes_str payload))) (\<lambda>h.
      and_then (bail_if (h \<noteq> payload_hash)
        (InvalidResponse (Msg ''payload_hash does not match payload bytes''))) (\<lambda>_.
      and_then (ok_or NoActiveNote (w_state w)) (\<lambda>state.
        let bound = solvency_bound state (cc_policy_enabled config) (cc_request_charge_cap config)
              (cc_policy_charge_cap config) in
      and_then (bail_if (ns_current_balance state < bound)
        (InsufficientBalance bound (ns_current_balance state))) (\<lambda>_.
      and_then (siblings_array merkle_siblings) (\<lambda>siblings.
      and_then (parse_scalar (ns_balance_blinding state)) (\<lambda>current_blinding.
        let expected_current = compact_balance_commitment E (ns_current_balance state) current_blinding
              (state_note_leaf P state) in
      and_then (ensure_stored_commitment state expected_current) (\<lambda>_.
      and_then (map_err (\<lambda>e. ProofGeneration (CompactFailure e))
        (compact_rerandomize E expected_current (dr_rerandomization dr))) (\<lambda>anonymous.
        let nul = nullifier P (ns_secret_s state) (ns_current_anchor state) in
      and_then (ok_or ClientPanicked
        (canonical_request_context (ce_keccak env) (dr_uuid dr) payload_hash)) (\<lambda>request_context.
        let public_inputs =
              \<lparr>r2_protocol_version = ns_protocol_version state, r2_chain_id = ns_chain_id state,
               r2_contract_address = ns_contract_address state, r2_active_root = active_root,
               r2_state_signing_key_x = cp_x (cc_state_signing_key config),
               r2_state_signing_key_y = cp_y (cc_state_signing_key config),
               r2_request_time = dr_now dr, r2_solvency_bound = bound, r2_request_nullifier = nul,
               r2_authorization_tag = authorization_tag P nul request_context,
               r2_anonymous_commitment_x = cp_x anonymous, r2_anonymous_commitment_y = cp_y anonymous\<rparr> in
      and_then (ok_or (ProofGeneration External) (ce_request_prover env (setup_dir config))) (\<lambda>prover.
      and_then (map_err (\<lambda>e. ProofGeneration (CompactFailure e))
        (request_prove E P (ce_codec env) prover public_inputs
           \<lparr>rd_secret = ns_secret_s state, rd_request_context = request_context,
            rd_note_id = ns_note_id state, rd_deposit_amount = ns_deposit_amount state,
            rd_expiry = ns_expiry_ts state, rd_merkle_siblings = siblings,
            rd_current_balance = ns_current_balance state, rd_current_blinding = current_blinding,
            rd_rerandomization = dr_rerandomization dr, rd_current_anchor = ns_current_anchor state,
            rd_is_genesis = ns_is_genesis state, rd_state_signature = ns_state_signature state\<rparr>)) (\<lambda>pf.
        let request = \<lparr>aq2_client_request_id = dr_uuid dr, aq2_payload = payload,
              aq2_payload_hash = payload_hash, aq2_public_inputs = public_inputs, aq2_proof = pf\<rparr>
        in Inr (request,
             \<lparr>pj_exists = True, pj_client_request_id = dr_uuid dr, pj_nullifier = nul,
              pj_payload_hash = payload_hash, pj_user_rerandomization = dr_rerandomization dr,
              pj_created_at_ms = now_ms (dr_now_journal dr), pj_prepared_request = Some request\<rparr>)))))))))))))"

definition prepare_request ::
    "('e::ab_group_add, 'd) client_env \<Rightarrow> 'd io_faults \<Rightarrow> request_draws \<Rightarrow> string \<Rightarrow> felt \<Rightarrow> felt \<Rightarrow> felt list \<Rightarrow>
     Wallet \<Rightarrow> 'd disk \<Rightarrow> 'd disk \<times> (ClientError + ApiRequestV2)" where
  "prepare_request env io dr payload payload_hash active_root merkle_siblings w disk =
     (if has_pending_request env io w disk then (disk, Inl PendingRequest)
      else st_then (disk, build_request env dr payload payload_hash active_root merkle_siblings w)
        (\<lambda>(request, journal) disk.
           st_then (journal_write (ce_json env) io (w_journal_path w) journal disk)
             (\<lambda>_ disk. (disk, Inr request))))"


section \<open>Responses\<close>

text \<open>The checks of \<open>apply_response\<close> and the next note state.\<close>

definition response_next_state ::
    "('e::ab_group_add, 'd) client_env \<Rightarrow> RequestResponseV2 \<Rightarrow> string \<Rightarrow> felt \<Rightarrow> CurvePointWire \<Rightarrow> felt \<Rightarrow>
     Wallet \<Rightarrow> ClientError + NoteState" where
  "response_next_state env response request_id nul anonymous rerandomization w =
     (let E = ce_curve env; P = ce_poseidon env; config = w_config w;
          failed = (\<lambda>text. VerificationFailed (Msg text));
          inner = (\<lambda>e. VerificationFailed (CompactFailure e));
          cap = (if cc_policy_enabled config then cc_policy_charge_cap config else cc_request_charge_cap config) in
      and_then (bail_if (rr2_client_request_id response \<noteq> request_id \<or> rr2_request_nullifier response \<noteq> nul)
        (failed ''response request identity mismatch'')) (\<lambda>_.
      and_then (ok_or ClientPanicked
        (canonical_response_hash (ce_keccak env) (as_bytes_str (rr2_response_payload response)))) (\<lambda>h.
      and_then (bail_if (h \<noteq> rr2_response_hash response) (failed ''response payload hash mismatch'')) (\<lambda>_.
      and_then (bail_if (rr2_charge_applied response > cap \<or> is_zero (rr2_next_anchor response))
        (failed ''invalid charge or next anchor'')) (\<lambda>_.
      and_then (map_err inner (compact_server_update E anonymous (rr2_charge_applied response)
        (rr2_blind_delta_srv response))) (\<lambda>expected.
      and_then (bail_if (expected \<noteq> rr2_next_commitment response)
        (failed ''next commitment algebra mismatch'')) (\<lambda>_.
      and_then (ok_or NoActiveNote (w_state w)) (\<lambda>state.
      and_then (map_err inner (compact_verify_signature E P (cc_state_signing_key config)
        (state_message P (ns_protocol_version state) (ns_chain_id state) (ns_contract_address state)
           (cp_x (rr2_next_commitment response)) (cp_y (rr2_next_commitment response))
           (rr2_next_anchor response))
        (rr2_next_state_signature response))) (\<lambda>valid.
      and_then (bail_if (\<not> valid) (failed ''invalid next-state signature'')) (\<lambda>_.
      and_then (parse_scalar (ns_balance_blinding state)) (\<lambda>current_blinding.
      and_then (ok_or (failed ''charge exceeds balance'')
        (checked_sub (ns_current_balance state) (rr2_charge_applied response))) (\<lambda>balance.
      Inr (state
        \<lparr>ns_current_balance := balance,
         ns_balance_blinding := to_hex (add_blindings (add_blindings current_blinding rerandomization)
           (rr2_blind_delta_srv response)),
         ns_current_commitment_x := cp_x (rr2_next_commitment response),
         ns_current_commitment_y := cp_y (rr2_next_commitment response),
         ns_current_anchor := rr2_next_anchor response, ns_is_genesis := False,
         ns_state_signature := Some (rr2_next_state_signature response)\<rparr>)))))))))))))"

definition apply_response ::
    "('e::ab_group_add, 'd) client_env \<Rightarrow> 'd io_faults \<Rightarrow> RequestResponseV2 \<Rightarrow> string \<Rightarrow> felt \<Rightarrow> CurvePointWire \<Rightarrow>
     felt \<Rightarrow> Wallet \<times> 'd disk \<Rightarrow> (Wallet \<times> 'd disk) \<times> (ClientError + unit)" where
  "apply_response env io response request_id nul anonymous rerandomization = (\<lambda>(w, disk).
     case response_next_state env response request_id nul anonymous rerandomization w of
       Inl e \<Rightarrow> ((w, disk), Inl e)
     | Inr nxt \<Rightarrow>
         (case state_save (ce_json env) io (w_state_path w) nxt disk of
            (disk', Inl e) \<Rightarrow> ((w, disk'), Inl e)
          | (disk', Inr _) \<Rightarrow> ((w\<lparr>w_state := Some nxt\<rparr>, disk'), Inr ())))"

definition clear_pending_request ::
    "'d io_faults \<Rightarrow> Wallet \<Rightarrow> 'd disk \<Rightarrow> 'd disk \<times> (ClientError + unit)" where
  "clear_pending_request io w disk = journal_clear io (w_journal_path w) disk"

text \<open>The start of \<open>complete_pending_response\<close>: journal, state and anonymous commitment.\<close>

definition pending_context ::
    "('e::ab_group_add, 'd) client_env \<Rightarrow> 'd io_faults \<Rightarrow> Wallet \<Rightarrow> 'd disk \<Rightarrow>
     ClientError + PendingRequestJournal \<times> CurvePointWire" where
  "pending_context env io w disk =
     and_then (journal_read (ce_json env) io (w_journal_path w) disk) (\<lambda>pending.
     and_then (ok_or PendingRequest pending) (\<lambda>journal.
     and_then (ok_or NoActiveNote (w_state w)) (\<lambda>state.
     and_then (parse_scalar (ns_balance_blinding state)) (\<lambda>blinding.
       let current = compact_balance_commitment (ce_curve env) (ns_current_balance state) blinding
             (state_note_leaf (ce_poseidon env) state) in
     and_then (ensure_stored_commitment state current) (\<lambda>_.
     and_then (map_err (\<lambda>e. VerificationFailed (CompactFailure e))
       (compact_rerandomize (ce_curve env) current (pj_user_rerandomization journal))) (\<lambda>anonymous.
     Inr (journal, anonymous)))))))"

definition complete_pending_response ::
    "('e::ab_group_add, 'd) client_env \<Rightarrow> 'd io_faults \<Rightarrow> RequestResponseV2 \<Rightarrow> Wallet \<Rightarrow> 'd disk \<Rightarrow>
     (Wallet \<times> 'd disk) \<times> (ClientError + unit)" where
  "complete_pending_response env io response w disk =
     st_then ((w, disk), pending_context env io w disk) (\<lambda>(journal, anonymous) s.
     st_then (apply_response env io response (pj_client_request_id journal) (pj_nullifier journal) anonymous
       (pj_user_rerandomization journal) s) (\<lambda>_ (w, disk).
     case journal_clear io (w_journal_path w) disk of (disk', r) \<Rightarrow> ((w, disk'), r)))"

text \<open>The failures \<open>io\<close> belong to the preparation, \<open>io'\<close> to what follows the reply.\<close>

definition request_flow ::
    "('e::ab_group_add, 'd) client_env \<Rightarrow> 'd io_faults \<Rightarrow> 'd io_faults \<Rightarrow> request_draws \<Rightarrow> (string \<Rightarrow> ApiRequestV2 \<Rightarrow> 'd http) \<Rightarrow>
     string \<Rightarrow> felt \<Rightarrow> felt \<Rightarrow> felt list \<Rightarrow> Wallet \<Rightarrow> 'd disk \<Rightarrow>
     (Wallet \<times> 'd disk) \<times> (ClientError + RequestResponseV2)" where
  "request_flow env io io' dr server payload payload_hash active_root merkle_siblings w disk =
     st_then (case prepare_request env io dr payload payload_hash active_root merkle_siblings w disk of
                (disk', r) \<Rightarrow> ((w, disk'), r)) (\<lambda>request s.
     st_then (s, http_text (server (endpoint (w_config w) ''/v2/requests'') request)) (\<lambda>(status, body) (w, disk).
     if \<not> is_success status then
       (case error_from_json (ce_json env) body of
          Some err \<Rightarrow>
            (if ee_error_code err = ''stale_root''
             then (case clear_pending_request io' w disk of
                     (disk', Inl e) \<Rightarrow> ((w, disk'), Inl e)
                   | (disk', Inr _) \<Rightarrow> ((w, disk'), Inl StaleRoot))
             else ((w, disk), Inl (ServerError
                    (Msg (ee_error_code err @ '': '' @ ee_error_message err)))))
        | None \<Rightarrow> ((w, disk), Inl (ServerError External)))
     else
       st_then ((w, disk), ok_or (InvalidResponse External) (response_from_json (ce_json env) body))
         (\<lambda>response (w, disk).
          st_then (complete_pending_response env io' response w disk) (\<lambda>_ s. (s, Inr response)))))"

text \<open>\<open>error_for_status\<close> refuses the codes from 400 to 599.\<close>

definition recover ::
    "('e::ab_group_add, 'd) client_env \<Rightarrow> 'd io_faults \<Rightarrow> (string \<Rightarrow> 'd http) \<Rightarrow> Wallet \<Rightarrow> 'd disk \<Rightarrow>
     (Wallet \<times> 'd disk) \<times> (ClientError + RequestResponseV2 option)" where
  "recover env io server w disk =
     st_then ((w, disk), journal_read (ce_json env) io (w_journal_path w) disk) (\<lambda>pending (w, disk).
     case pending of
       None \<Rightarrow> ((w, disk), Inr None)
     | Some journal \<Rightarrow>
         (let reply = server (endpoint (w_config w) (''/v2/requests/'' @ pj_client_request_id journal));
              status = (case reply of SendFailed \<Rightarrow> None | BodyFailed c \<Rightarrow> Some c | Reply c _ \<Rightarrow> Some c)
          in case status of
               None \<Rightarrow> ((w, disk), Inl (ServerError External))
             | Some code \<Rightarrow>
                 (if code = 404 then ((w, disk), Inr None)
                  else if 400 \<le> code \<and> code < 600 then ((w, disk), Inl (ServerError External))
                  else
                    st_then ((w, disk), ok_or (InvalidResponse External)
                      (case reply of Reply _ body \<Rightarrow> recovery_from_json (ce_json env) body | _ \<Rightarrow> None))
                      (\<lambda>recovery (w, disk).
                       case rc2_request_response recovery of
                         None \<Rightarrow> ((w, disk), Inr None)
                       | Some response \<Rightarrow>
                           st_then (complete_pending_response env io response w disk)
                             (\<lambda>_ s. (s, Inr (Some response)))))))"


section \<open>Withdrawals\<close>

definition build_withdrawal ::
    "('e::ab_group_add, 'd) client_env \<Rightarrow> address \<Rightarrow> felt \<Rightarrow> felt list \<Rightarrow> bool \<Rightarrow> SchnorrSignature option \<Rightarrow>
     Wallet \<Rightarrow> ClientError + WithdrawalPublicInputsV2 \<times> Groth16ProofWire" where
  "build_withdrawal env destination active_root merkle_siblings has_clearance clearance_signature w =
     (let P = ce_poseidon env; config = w_config w in
      and_then (ok_or NoActiveNote (w_state w)) (\<lambda>state.
        let nul = nullifier P (ns_secret_s state) (ns_current_anchor state);
            destination_felt = felt_of_bytes (replicate 12 0 @ addr_bytes destination);
            pub = \<lparr>w2_protocol_version = ns_protocol_version state, w2_chain_id = ns_chain_id state,
              w2_contract_address = ns_contract_address state, w2_active_root = active_root,
              w2_state_signing_key_x = cp_x (cc_state_signing_key config),
              w2_state_signing_key_y = cp_y (cc_state_signing_key config),
              w2_clearance_signing_key_x = cp_x (cc_clearance_signing_key config),
              w2_clearance_signing_key_y = cp_y (cc_clearance_signing_key config),
              w2_note_id = ns_note_id state, w2_final_balance = ns_current_balance state,
              w2_destination = destination, w2_withdrawal_nullifier = nul, w2_has_clearance = has_clearance,
              w2_withdrawal_tag = withdrawal_tag P nul destination_felt (ns_current_balance state) has_clearance\<rparr> in
      and_then (ok_or (ProofGeneration External) (ce_withdrawal_prover env (setup_dir config))) (\<lambda>prover.
      and_then (siblings_array merkle_siblings) (\<lambda>siblings.
      and_then (parse_scalar (ns_balance_blinding state)) (\<lambda>blinding.
      and_then (map_err (\<lambda>e. ProofGeneration (CompactFailure e))
        (withdrawal_prove (ce_curve env) P (ce_codec env) prover pub
           \<lparr>wd_secret = ns_secret_s state, wd_deposit_amount = ns_deposit_amount state,
            wd_expiry = ns_expiry_ts state, wd_merkle_siblings = siblings, wd_final_blinding = blinding,
            wd_current_anchor = ns_current_anchor state, wd_is_genesis = ns_is_genesis state,
            wd_state_signature = ns_state_signature state,
            wd_clearance_signature = clearance_signature\<rparr>)) (\<lambda>pf.
      Inr (pub, pf)))))))"

definition request_clearance ::
    "('e, 'd) client_env \<Rightarrow> (string \<Rightarrow> ClearanceRequest \<Rightarrow> 'd http) \<Rightarrow> felt \<Rightarrow> Wallet \<Rightarrow>
     ClientError + ClearanceResponseV2" where
  "request_clearance env server nul w =
     and_then (http_text (server (endpoint (w_config w) ''/v2/withdraw/clearance'')
       \<lparr>cq_withdrawal_nullifier = nul\<rparr>)) (\<lambda>(status, body).
     and_then (bail_if (\<not> is_success status) (ServerError External)) (\<lambda>_.
     ok_or (InvalidResponse External) (clearance_from_json (ce_json env) body)))"

definition withdrawal_mutual_close ::
    "('e::ab_group_add, 'd) client_env \<Rightarrow> (string \<Rightarrow> ClearanceRequest \<Rightarrow> 'd http) \<Rightarrow> address \<Rightarrow> felt \<Rightarrow> felt list \<Rightarrow>
     Wallet \<Rightarrow> ClientError + WithdrawalPublicInputsV2 \<times> Groth16ProofWire" where
  "withdrawal_mutual_close env server destination active_root merkle_siblings w =
     and_then (ok_or NoActiveNote (w_state w)) (\<lambda>state.
       let nul = nullifier (ce_poseidon env) (ns_secret_s state) (ns_current_anchor state) in
     and_then (request_clearance env server nul w) (\<lambda>clearance.
     and_then (map_err (\<lambda>e. VerificationFailed (CompactFailure e))
       (compact_verify_signature (ce_curve env) (ce_poseidon env) (cc_clearance_signing_key (w_config w))
          (clearance_message (ce_poseidon env) (ns_protocol_version state) (ns_chain_id state)
             (ns_contract_address state) nul) (cr2_signature clearance))) (\<lambda>valid.
     and_then (bail_if (\<not> valid) (VerificationFailed (Msg ''invalid clearance signature''))) (\<lambda>_.
     build_withdrawal env destination active_root merkle_siblings True (Some (cr2_signature clearance)) w))))"

definition withdrawal_escape_hatch ::
    "('e::ab_group_add, 'd) client_env \<Rightarrow> address \<Rightarrow> felt \<Rightarrow> felt list \<Rightarrow> Wallet \<Rightarrow>
     ClientError + WithdrawalPublicInputsV2 \<times> Groth16ProofWire" where
  "withdrawal_escape_hatch env destination active_root merkle_siblings w =
     build_withdrawal env destination active_root merkle_siblings False None w"

text \<open>The journal is cleared with its own failures \<open>io'\<close>.\<close>

definition archive_note ::
    "('e, 'd) client_env \<Rightarrow> 'd io_faults \<Rightarrow> 'd io_faults \<Rightarrow> Wallet \<Rightarrow> 'd disk \<Rightarrow>
     (Wallet \<times> 'd disk) \<times> (ClientError + unit)" where
  "archive_note env io io' w disk =
     st_then (case w_state w of
                None \<Rightarrow> ((w, disk), Inr ())
              | Some state \<Rightarrow>
                  (case state_archive (ce_json env) io (w_state_path w) state disk of (disk', r) \<Rightarrow> ((w, disk'), r)))
       (\<lambda>_ (w, disk).
        case journal_clear io' (w_journal_path w) disk of
          (disk', r) \<Rightarrow> ((w\<lparr>w_state := None\<rparr>, disk'), r))"

end
