(* ===== verification/Solidity_Poseidon.thy ===== *)
theory Solidity_Poseidon
  imports Compact
begin

text \<open>
  The hash library that \<open>compact.rs\<close> writes for the vault contract (\<open>poseidon_solidity_source\<close>,
  \<open>Bn254Poseidon.sol\<close>) and the configuration it is generated from (\<open>poseidon_config\<close> of
  \<open>groth16.rs\<close>).

  The generated file is a fixed text with the round constants and the matrix filled in as hexadecimal
  literals. The model has the literals as strings, their reading by the compiler, and every function of
  the fixed text as a function on 256-bit words. \<open>poseidon_sponge\<close> is the documented algorithm of the
  sponge the native code calls; the emitted library is shown to compute it.
\<close>

section \<open>Configuration\<close>

record PoseidonConfig =
  pc_full_rounds :: nat
  pc_partial_rounds :: nat
  pc_alpha :: nat
  pc_mds :: "nat list list"
  pc_ark :: "nat list list"
  pc_rate :: nat
  pc_capacity :: nat

text \<open>\<open>find_poseidon_ark_and_mds\<close> of the library, on modulus bits, rate, rounds and skipped matrices.\<close>

type_synonym find_ark_and_mds = "nat \<Rightarrow> nat \<Rightarrow> nat \<Rightarrow> nat \<Rightarrow> nat \<Rightarrow> nat list list \<times> nat list list"

definition poseidon_config :: "find_ark_and_mds \<Rightarrow> PoseidonConfig" where
  "poseidon_config find_poseidon_ark_and_mds =
     (let full_rounds = 8; partial_rounds = 57; rate = 2;
          (ark, mds) = find_poseidon_ark_and_mds 254 rate full_rounds partial_rounds 0
      in \<lparr>pc_full_rounds = full_rounds, pc_partial_rounds = partial_rounds, pc_alpha = 5, pc_mds = mds,
          pc_ark = ark, pc_rate = rate, pc_capacity = 1\<rparr>)"

text \<open>\<open>config\<close> of \<open>zkapi-core/src/v2.rs\<close>, written out a second time: the hashes of the core crate and of the
  circuits have the same parameters.\<close>

definition core_config :: "find_ark_and_mds \<Rightarrow> PoseidonConfig" where
  "core_config find_poseidon_ark_and_mds =
     (let full_rounds = 8; partial_rounds = 57; rate = 2;
          (ark, mds) = find_poseidon_ark_and_mds 254 rate full_rounds partial_rounds 0
      in \<lparr>pc_full_rounds = full_rounds, pc_partial_rounds = partial_rounds, pc_alpha = 5, pc_mds = mds,
          pc_ark = ark, pc_rate = rate, pc_capacity = 1\<rparr>)"

lemma core_config_same: "core_config finder = poseidon_config finder"
  by (simp add: core_config_def poseidon_config_def)

text \<open>One row of constants per round and a square matrix, all of field elements.\<close>

definition matrix_ok :: "nat \<Rightarrow> nat \<Rightarrow> nat list list \<Rightarrow> bool" where
  "matrix_ok rows cols m \<longleftrightarrow>
     length m = rows \<and> list_all (\<lambda>row. length row = cols \<and> list_all (\<lambda>v. v < field_modulus) row) m"

definition finder_ok :: "find_ark_and_mds \<Rightarrow> bool" where
  "finder_ok finder \<longleftrightarrow> (\<forall>bits rate full partial skip.
     matrix_ok (full + partial) (rate + 1) (fst (finder bits rate full partial skip)) \<and>
     matrix_ok (rate + 1) (rate + 1) (snd (finder bits rate full partial skip)))"


section \<open>The sponge\<close>

definition pos_add_constants :: "PoseidonConfig \<Rightarrow> nat \<Rightarrow> nat list \<Rightarrow> nat list" where
  "pos_add_constants cfg r xs = map2 (\<lambda>a k. (a + k) mod field_modulus) xs (pc_ark cfg ! r)"

definition pos_sbox :: "PoseidonConfig \<Rightarrow> bool \<Rightarrow> nat list \<Rightarrow> nat list" where
  "pos_sbox cfg full xs =
     (if full then map (\<lambda>a. a ^ pc_alpha cfg mod field_modulus) xs
      else (hd xs ^ pc_alpha cfg mod field_modulus) # tl xs)"

definition pos_mix :: "PoseidonConfig \<Rightarrow> nat list \<Rightarrow> nat list" where
  "pos_mix cfg xs = map (\<lambda>row. (\<Sum>(a, m) \<leftarrow> zip xs row. a * m) mod field_modulus) (pc_mds cfg)"

definition pos_round :: "PoseidonConfig \<Rightarrow> bool \<Rightarrow> nat \<Rightarrow> nat list \<Rightarrow> nat list" where
  "pos_round cfg full r xs = pos_mix cfg (pos_sbox cfg full (pos_add_constants cfg r xs))"

definition pos_full :: "PoseidonConfig \<Rightarrow> nat \<Rightarrow> bool" where
  "pos_full cfg r \<longleftrightarrow> r < pc_full_rounds cfg div 2 \<or> r \<ge> pc_full_rounds cfg div 2 + pc_partial_rounds cfg"

definition pos_permute :: "PoseidonConfig \<Rightarrow> nat list \<Rightarrow> nat list" where
  "pos_permute cfg xs =
     fold (\<lambda>r. pos_round cfg (pos_full cfg r) r) [0..<pc_full_rounds cfg + pc_partial_rounds cfg] xs"

definition pos_add_input :: "PoseidonConfig \<Rightarrow> nat list \<Rightarrow> nat list \<Rightarrow> nat list" where
  "pos_add_input cfg st xs =
     (let c = pc_capacity cfg
      in take c st @ map2 (\<lambda>a x. (a + x) mod field_modulus) (take (length xs) (drop c st)) xs @
         drop (c + length xs) st)"

fun pos_absorb :: "PoseidonConfig \<Rightarrow> nat list \<Rightarrow> nat list \<Rightarrow> nat list" where
  "pos_absorb cfg st xs =
     (if pc_rate cfg = 0 \<or> length xs \<le> pc_rate cfg then pos_add_input cfg st xs
      else pos_absorb cfg (pos_permute cfg (pos_add_input cfg st (take (pc_rate cfg) xs))) (drop (pc_rate cfg) xs))"

declare pos_absorb.simps [simp del]

text \<open>A fresh state, the inputs absorbed in blocks of the rate, and the first rate element after a last
  permutation.\<close>

definition poseidon_sponge :: "PoseidonConfig \<Rightarrow> poseidon" where
  "poseidon_sponge cfg xs =
     pos_permute cfg (pos_absorb cfg (replicate (pc_rate cfg + pc_capacity cfg) 0) xs) ! pc_capacity cfg"


section \<open>The generated literals\<close>

definition hex_encode :: "u8 list \<Rightarrow> string" where
  "hex_encode bytes = concat (map byte_hex bytes)"

definition field_hex :: "nat \<Rightarrow> string" where
  "field_hex value = ''0x'' @ hex_encode (prime_field_bytes value)"

record BnPoseidonSource =
  src_round_constants :: string
  src_mds :: "string list"

definition poseidon_solidity_source :: "PoseidonConfig \<Rightarrow> BnPoseidonSource" where
  "poseidon_solidity_source cfg =
     \<lparr>src_round_constants = concat (map (\<lambda>value. hex_encode (prime_field_bytes value)) (concat (pc_ark cfg))),
      src_mds = map field_hex (concat (pc_mds cfg))\<rparr>"

text \<open>How the compiler reads \<open>hex"..."\<close> and a hexadecimal number; \<open>None\<close> is a compile-time error.\<close>

fun sol_hex_literal :: "string \<Rightarrow> u8 list option" where
  "sol_hex_literal [] = Some []"
| "sol_hex_literal [c] = None"
| "sol_hex_literal (c # d # s) =
     (case (hex_digit c, hex_digit d, sol_hex_literal s) of
        (Some h, Some l, Some bs) \<Rightarrow> Some (of_nat (16 * h + l) # bs)
      | _ \<Rightarrow> None)"

definition sol_number :: "string \<Rightarrow> felt option" where
  "sol_number s =
     Option.bind (strip_prefix ''0x'' s) (\<lambda>digits.
     Option.bind (sol_hex_literal digits) (\<lambda>bs. if length bs \<le> 32 then Some (felt_of_bytes bs) else None))"

fun sol_numbers :: "string list \<Rightarrow> felt list option" where
  "sol_numbers [] = Some []"
| "sol_numbers (s # ss) =
     Option.bind (sol_number s) (\<lambda>v. Option.bind (sol_numbers ss) (\<lambda>vs. Some (v # vs)))"

record PoseidonLibrary =
  lib_constants :: "u8 list"
  lib_m :: "felt list"

definition compile_poseidon :: "BnPoseidonSource \<Rightarrow> PoseidonLibrary option" where
  "compile_poseidon src =
     Option.bind (sol_hex_literal (src_round_constants src)) (\<lambda>constants.
     Option.bind (sol_numbers (src_mds src)) (\<lambda>m. Some \<lparr>lib_constants = constants, lib_m = m\<rparr>))"


section \<open>The emitted functions\<close>

text \<open>\<open>addmod\<close> and \<open>mulmod\<close> of the virtual machine do not wrap before they reduce.\<close>

definition addmod :: "felt \<Rightarrow> felt \<Rightarrow> felt \<Rightarrow> felt" where
  "addmod a b m = (if m = 0 then 0 else of_nat ((unat a + unat b) mod unat m))"

definition mulmod :: "felt \<Rightarrow> felt \<Rightarrow> felt \<Rightarrow> felt" where
  "mulmod a b m = (if m = 0 then 0 else of_nat ((unat a * unat b) mod unat m))"

definition SOL_FIELD_MODULUS :: felt where
  "SOL_FIELD_MODULUS = 21888242871839275222246405745257275088548364400416034343698204186575808495617"

type_synonym sol_state = "felt \<times> felt \<times> felt"

text \<open>\<open>mload\<close> of the word at an index of the constant; every index the rounds use is inside it.\<close>

definition sol_constant :: "u8 list \<Rightarrow> nat \<Rightarrow> felt" where
  "sol_constant constants index = felt_of_bytes (take 32 (drop (index * 32) constants))"

definition sol_pow5 :: "felt \<Rightarrow> felt" where
  "sol_pow5 value =
     (let square = mulmod value value SOL_FIELD_MODULUS
      in mulmod (mulmod square square SOL_FIELD_MODULUS) value SOL_FIELD_MODULUS)"

definition sol_row :: "felt list \<Rightarrow> nat \<Rightarrow> felt \<Rightarrow> felt \<Rightarrow> felt \<Rightarrow> felt" where
  "sol_row m i x y z =
     addmod (addmod (mulmod x (m ! i) SOL_FIELD_MODULUS) (mulmod y (m ! (i + 1)) SOL_FIELD_MODULUS) SOL_FIELD_MODULUS)
       (mulmod z (m ! (i + 2)) SOL_FIELD_MODULUS) SOL_FIELD_MODULUS"

definition sol_round :: "PoseidonLibrary \<Rightarrow> nat \<Rightarrow> bool \<Rightarrow> sol_state \<Rightarrow> sol_state" where
  "sol_round lib rnd full = (\<lambda>(s0, s1, s2).
     let offset = rnd * 3;
         t0 = addmod s0 (sol_constant (lib_constants lib) offset) SOL_FIELD_MODULUS;
         t1 = addmod s1 (sol_constant (lib_constants lib) (offset + 1)) SOL_FIELD_MODULUS;
         t2 = addmod s2 (sol_constant (lib_constants lib) (offset + 2)) SOL_FIELD_MODULUS;
         x = sol_pow5 t0;
         y = (if full then sol_pow5 t1 else t1);
         z = (if full then sol_pow5 t2 else t2)
     in (sol_row (lib_m lib) 0 x y z, sol_row (lib_m lib) 3 x y z, sol_row (lib_m lib) 6 x y z))"

definition sol_permute :: "PoseidonLibrary \<Rightarrow> sol_state \<Rightarrow> sol_state" where
  "sol_permute lib st =
     fold (\<lambda>rnd. sol_round lib rnd True) [61..<65]
       (fold (\<lambda>rnd. sol_round lib rnd False) [4..<61]
         (fold (\<lambda>rnd. sol_round lib rnd True) [0..<4] st))"

definition sol_hash3 :: "PoseidonLibrary \<Rightarrow> felt \<Rightarrow> felt \<Rightarrow> felt \<Rightarrow> felt" where
  "sol_hash3 lib a b c =
     (case sol_permute lib (0, a, b) of (s0, s1, s2) \<Rightarrow>
        fst (snd (sol_permute lib (s0, addmod s1 c SOL_FIELD_MODULUS, s2))))"

definition sol_hash5 :: "PoseidonLibrary \<Rightarrow> felt \<Rightarrow> felt \<Rightarrow> felt \<Rightarrow> felt \<Rightarrow> felt \<Rightarrow> felt" where
  "sol_hash5 lib a b c d e =
     (case sol_permute lib (0, a, b) of (s0, s1, s2) \<Rightarrow>
        (case sol_permute lib (s0, addmod s1 c SOL_FIELD_MODULUS, addmod s2 d SOL_FIELD_MODULUS) of (t0, t1, t2) \<Rightarrow>
           fst (snd (sol_permute lib (t0, addmod t1 e SOL_FIELD_MODULUS, t2)))))"

definition hash3PairPath32 ::
    "PoseidonLibrary \<Rightarrow> felt \<Rightarrow> u32 \<Rightarrow> felt \<Rightarrow> felt \<Rightarrow> felt list \<Rightarrow> felt \<times> felt" where
  "hash3PairPath32 lib tag index oldLeaf newLeaf siblings =
     fold (\<lambda>level (oldRoot, newRoot).
             let sibling = siblings ! level
             in if and (drop_bit level index) 1 = 0
                then (sol_hash3 lib tag oldRoot sibling, sol_hash3 lib tag newRoot sibling)
                else (sol_hash3 lib tag sibling oldRoot, sol_hash3 lib tag sibling newRoot))
       [0..<32] (oldLeaf, newLeaf)"

section \<open>Reading the literals back\<close>

lemma sol_hex_literal_byte: "sol_hex_literal (byte_hex b @ s) = map_option ((#) b) (sol_hex_literal s)"
proof -
  note nibbles_less [of b]
  moreover have "16 * (unat b div 16) + unat b mod 16 = unat b" by (rule mult_div_mod_eq)
  ultimately show ?thesis
    by (simp add: byte_hex_def hex_char_facts split: option.splits)
qed

lemma sol_hex_literal_encode: "sol_hex_literal (hex_encode bs) = Some bs"
  by (induction bs) (simp_all add: hex_encode_def sol_hex_literal_byte)

lemma hex_encode_concat: "concat (map (\<lambda>v. hex_encode (f v)) vs) = hex_encode (concat (map f vs))"
  by (induction vs) (simp_all add: hex_encode_def)

lemma sol_number_field_hex: "sol_number (field_hex v) = Some (field_to_felt v)"
  by (simp add: sol_number_def field_hex_def strip_prefix_def sol_hex_literal_encode prime_field_bytes_def
      field_to_felt_def)

lemma sol_numbers_field_hex: "sol_numbers (map field_hex vs) = Some (map field_to_felt vs)"
  by (induction vs) (simp_all add: sol_number_field_hex)

definition library_of :: "PoseidonConfig \<Rightarrow> PoseidonLibrary" where
  "library_of cfg = \<lparr>lib_constants = concat (map prime_field_bytes (concat (pc_ark cfg))),
     lib_m = map field_to_felt (concat (pc_mds cfg))\<rparr>"

lemma compile_poseidon_source: "compile_poseidon (poseidon_solidity_source cfg) = Some (library_of cfg)"
  by (simp add: compile_poseidon_def poseidon_solidity_source_def library_of_def hex_encode_concat
      sol_hex_literal_encode sol_numbers_field_hex)

section \<open>Word arithmetic and the field\<close>

lemma unat_SOL_FIELD_MODULUS [simp]: "unat SOL_FIELD_MODULUS = field_modulus"
  by (simp add: SOL_FIELD_MODULUS_def field_modulus_def)

lemma unat_of_nat_mod_field [simp]: "unat (of_nat (n mod field_modulus) :: felt) = n mod field_modulus"
proof -
  have "n mod field_modulus < field_modulus" by (simp add: field_modulus_def)
  also have "field_modulus < 2 ^ 256" by (simp add: field_modulus_def)
  finally show ?thesis by (simp add: unat_of_nat)
qed

lemma SOL_FIELD_MODULUS_nonzero [simp]: "SOL_FIELD_MODULUS \<noteq> 0"
  by (simp add: SOL_FIELD_MODULUS_def)

lemma unat_addmod [simp]: "unat (addmod a b SOL_FIELD_MODULUS) = (unat a + unat b) mod field_modulus"
  by (simp add: addmod_def)

lemma unat_mulmod [simp]: "unat (mulmod a b SOL_FIELD_MODULUS) = (unat a * unat b) mod field_modulus"
  by (simp add: mulmod_def)

lemma unat_sol_pow5: "unat (sol_pow5 v) = unat v ^ 5 mod field_modulus"
proof -
  let ?sq = "mulmod v v SOL_FIELD_MODULUS"
  have "unat (mulmod ?sq ?sq SOL_FIELD_MODULUS) = (unat v * unat v) * (unat v * unat v) mod field_modulus"
    by (simp only: unat_mulmod mod_mult_eq)
  then have "unat (sol_pow5 v) = (unat v * unat v) * (unat v * unat v) * unat v mod field_modulus"
    unfolding sol_pow5_def Let_def unat_mulmod [of _ v] by (simp only: mod_mult_left_eq)
  also have "(unat v * unat v) * (unat v * unat v) * unat v = unat v ^ 5"
    by (simp add: eval_nat_numeral algebra_simps)
  finally show ?thesis .
qed

lemma unat_sol_row:
  "unat (sol_row m i x y z) =
     (unat x * unat (m ! i) + (unat y * unat (m ! (i + 1)) + unat z * unat (m ! (i + 2)))) mod field_modulus"
  by (simp add: sol_row_def mod_simps add.assoc)


section \<open>The library implements the sponge\<close>

definition state_values :: "sol_state \<Rightarrow> nat list" where
  "state_values = (\<lambda>(s0, s1, s2). [felt_to_field s0, felt_to_field s1, felt_to_field s2])"

lemma concat_nth_rows:
  assumes "\<And>row. row \<in> set m \<Longrightarrow> length row = n" "r < length m" "j < n"
  shows "concat m ! (r * n + j) = m ! r ! j"
  using assms
proof (induction m arbitrary: r)
  case (Cons row m)
  then show ?case by (cases r) (simp_all add: nth_append)
qed simp

lemma length_concat_rows: "(\<And>row. row \<in> set m \<Longrightarrow> length row = n) \<Longrightarrow> length (concat m) = length m * n"
  by (induction m) simp_all

lemma sol_constant_nth:
  assumes "i < length vs"
  shows "sol_constant (concat (map prime_field_bytes vs)) i = field_to_felt (vs ! i)"
proof -
  have "take 32 (drop (i * 32) (concat (map prime_field_bytes vs))) = prime_field_bytes (vs ! i)"
    using assms
  proof (induction vs arbitrary: i)
    case (Cons v vs)
    then show ?case by (cases i) (simp_all add: prime_field_bytes_eq)
  qed simp
  then show ?thesis by (simp add: sol_constant_def field_to_felt_def prime_field_bytes_def)
qed

definition config_valid :: "PoseidonConfig \<Rightarrow> bool" where
  "config_valid cfg \<longleftrightarrow> pc_full_rounds cfg = 8 \<and> pc_partial_rounds cfg = 57 \<and> pc_alpha cfg = 5 \<and>
     pc_rate cfg = 2 \<and> pc_capacity cfg = 1 \<and> matrix_ok 65 3 (pc_ark cfg) \<and> matrix_ok 3 3 (pc_mds cfg)"

lemma config_valid_poseidon_config:
  assumes "finder_ok finder"
  shows "config_valid (poseidon_config finder)"
proof -
  obtain ark mds where f: "finder 254 2 8 57 0 = (ark, mds)" by (cases "finder 254 2 8 57 0")
  have "matrix_ok (8 + 57) (2 + 1) (fst (finder 254 2 8 57 0))" "matrix_ok (2 + 1) (2 + 1) (snd (finder 254 2 8 57 0))"
    using assms unfolding finder_ok_def by blast+
  then have "matrix_ok 65 3 ark" "matrix_ok 3 3 mds" by (simp_all add: f)
  then show ?thesis by (simp add: config_valid_def poseidon_config_def f)
qed

lemma matrix_okD:
  assumes "matrix_ok n k m"
  shows "length m = n" "row \<in> set m \<Longrightarrow> length row = k" "i < n \<Longrightarrow> length (m ! i) = k"
    "i < n \<Longrightarrow> j < k \<Longrightarrow> m ! i ! j < field_modulus"
proof -
  show len: "length m = n" and "row \<in> set m \<Longrightarrow> length row = k"
    using assms by (auto simp: matrix_ok_def list_all_iff)
  assume i: "i < n"
  then have "m ! i \<in> set m" using len by simp
  then have "length (m ! i) = k" "\<forall>v \<in> set (m ! i). v < field_modulus"
    using assms by (simp_all add: matrix_ok_def list_all_iff)
  then show "length (m ! i) = k" "j < k \<Longrightarrow> m ! i ! j < field_modulus" by simp_all
qed

lemma matrix_literal_nth:
  assumes "matrix_ok n k m" "i < n" "j < k"
  shows "i * k + j < length (concat m)" "unat (field_to_felt (concat m ! (i * k + j))) = m ! i ! j"
proof -
  note m = matrix_okD [OF assms(1)]
  have "i * k + j < (i + 1) * k" using assms(3) by simp
  also have "\<dots> \<le> n * k" using assms(2) by (intro mult_right_mono) auto
  finally show "i * k + j < length (concat m)" using m(1,2) by (simp add: length_concat_rows)
  show "unat (field_to_felt (concat m ! (i * k + j))) = m ! i ! j"
    using concat_nth_rows [of m k i j] m assms(2,3) by (simp add: unat_field_to_felt)
qed

lemma library_of_entries:
  assumes "config_valid cfg"
  shows "r < 65 \<Longrightarrow> j < 3 \<Longrightarrow> unat (sol_constant (lib_constants (library_of cfg)) (r * 3 + j)) = pc_ark cfg ! r ! j"
    and "i < 3 \<Longrightarrow> j < 3 \<Longrightarrow> unat (lib_m (library_of cfg) ! (i * 3 + j)) = pc_mds cfg ! i ! j"
  using assms matrix_literal_nth [of 65 3 "pc_ark cfg" r j] matrix_literal_nth [of 3 3 "pc_mds cfg" i j]
  by (simp_all add: config_valid_def library_of_def sol_constant_nth)

lemma obtain_three:
  assumes "length xs = 3"
  obtains a b c where "xs = [a, b, c]"
  using assms by (auto simp: length_Suc_conv numeral_eq_Suc)

lemma sol_round_simulates:
  assumes "config_valid cfg" "r < 65"
  shows "state_values (sol_round (library_of cfg) r full st) = pos_round cfg full r (state_values st)"
proof -
  obtain s0 s1 s2 where st: "st = (s0, s1, s2)" by (cases st)
  have ok: "matrix_ok 65 3 (pc_ark cfg)" "matrix_ok 3 3 (pc_mds cfg)" "pc_alpha cfg = 5"
    using assms(1) by (simp_all add: config_valid_def)
  obtain k0 k1 k2 where k: "pc_ark cfg ! r = [k0, k1, k2]"
    using matrix_okD(3) [OF ok(1) assms(2)] by (rule obtain_three)
  obtain r0 r1 r2 where rows: "pc_mds cfg = [r0, r1, r2]" using matrix_okD(1) [OF ok(2)] by (rule obtain_three)
  have "length r0 = 3" "length r1 = 3" "length r2 = 3" using matrix_okD(2) [OF ok(2)] by (simp_all add: rows)
  then obtain a0 a1 a2 b0 b1 b2 c0 c1 c2 where r: "r0 = [a0, a1, a2]" "r1 = [b0, b1, b2]" "r2 = [c0, c1, c2]"
    by (metis obtain_three)
  note c = library_of_entries(1) [OF assms, of 0] library_of_entries(1) [OF assms, of 1]
    library_of_entries(1) [OF assms, of 2]
  note e = library_of_entries(2) [OF assms(1)]
  note m = e [of 0 0] e [of 0 1] e [of 0 2] e [of 1 0] e [of 1 1] e [of 1 2] e [of 2 0] e [of 2 1] e [of 2 2]
  show ?thesis using c m
    by (simp add: st state_values_def sol_round_def Let_def unat_sol_row unat_sol_pow5 felt_to_field_unat
        pos_round_def pos_mix_def pos_sbox_def pos_add_constants_def ok(3) k rows r mod_simps)
qed

lemma sol_rounds_simulate:
  assumes "config_valid cfg" "\<forall>r \<in> set rs. r < 65 \<and> pos_full cfg r = full"
  shows "state_values (fold (\<lambda>r. sol_round (library_of cfg) r full) rs st)
    = fold (\<lambda>r. pos_round cfg (pos_full cfg r) r) rs (state_values st)"
  using assms(2) by (induction rs arbitrary: st) (simp_all add: sol_round_simulates [OF assms(1)])

lemma upt_65: "[0..<65] = [0..<4] @ [4..<61] @ [61..<65]"
  using upt_add_eq_append [of 0 4 61] upt_add_eq_append [of 4 61 4] by (simp del: upt_rec_numeral)

lemma sol_permute_simulates:
  assumes "config_valid cfg"
  shows "state_values (sol_permute (library_of cfg) st) = pos_permute cfg (state_values st)"
proof -
  have cfg: "pc_full_rounds cfg + pc_partial_rounds cfg = 65" "pos_full cfg r \<longleftrightarrow> r < 4 \<or> r \<ge> 61" for r
    using assms by (simp_all add: config_valid_def pos_full_def)
  let ?sim = "\<lambda>rs full. \<forall>st. state_values (fold (\<lambda>r. sol_round (library_of cfg) r full) rs st)
    = fold (\<lambda>r. pos_round cfg (pos_full cfg r) r) rs (state_values st)"
  have "?sim [0..<4] True" "?sim [4..<61] False" "?sim [61..<65] True"
    by (rule allI, rule sol_rounds_simulate [OF assms], simp add: cfg(2) del: upt_rec_numeral)+
  then show ?thesis
    by (simp only: sol_permute_def pos_permute_def cfg(1) upt_65 fold_append comp_def)
qed

text \<open>Every element of a permuted state is reduced.\<close>

lemma sol_round_reduced: "sol_round lib r full st = (a, b, c) \<Longrightarrow> unat a < field_modulus \<and> unat b < field_modulus \<and> unat c < field_modulus"
  by (auto simp: sol_round_def Let_def unat_sol_row field_modulus_def split: prod.splits)

lemma sol_permute_reduced:
  assumes "sol_permute lib st = (a, b, c)"
  shows "unat a < field_modulus \<and> unat b < field_modulus \<and> unat c < field_modulus"
proof -
  have "[61..<65] = [61..<64] @ [64]" using upt_Suc_append [of 61 64] by simp
  then have "sol_round lib 64 True (fold (\<lambda>rnd. sol_round lib rnd True) [61..<64]
       (fold (\<lambda>rnd. sol_round lib rnd False) [4..<61]
         (fold (\<lambda>rnd. sol_round lib rnd True) [0..<4] st))) = (a, b, c)"
    using assms unfolding sol_permute_def by (simp only: fold_append comp_def fold.simps id_def)
  then show ?thesis using sol_round_reduced by blast
qed

lemma sponge_blocks:
  assumes "config_valid cfg"
  shows "poseidon_sponge cfg [a, b, c] =
      pos_permute cfg (pos_add_input cfg (pos_permute cfg (pos_add_input cfg [0, 0, 0] [a, b])) [c]) ! 1"
    and "poseidon_sponge cfg [a, b, c, d, e] =
      pos_permute cfg (pos_add_input cfg (pos_permute cfg (pos_add_input cfg
        (pos_permute cfg (pos_add_input cfg [0, 0, 0] [a, b])) [c, d])) [e]) ! 1"
  using assms by (simp_all add: poseidon_sponge_def pos_absorb.simps config_valid_def numeral_eq_Suc)

lemma state_values_add:
  assumes "config_valid cfg"
  shows "pos_add_input cfg [0, 0, 0] [felt_to_field a, felt_to_field b] = state_values (0, a, b)"
    and "pos_add_input cfg (state_values (s0, s1, s2)) [felt_to_field c]
      = state_values (s0, addmod s1 c SOL_FIELD_MODULUS, s2)"
    and "pos_add_input cfg (state_values (s0, s1, s2)) [felt_to_field c, felt_to_field d]
      = state_values (s0, addmod s1 c SOL_FIELD_MODULUS, addmod s2 d SOL_FIELD_MODULUS)"
  using assms by (simp_all add: pos_add_input_def state_values_def felt_to_field_unat config_valid_def mod_simps)

lemma sol_squeeze:
  assumes "config_valid cfg"
  shows "unat (fst (snd (sol_permute (library_of cfg) st))) = pos_permute cfg (state_values st) ! 1"
proof -
  obtain t0 t1 t2 where t: "sol_permute (library_of cfg) st = (t0, t1, t2)" by (cases "sol_permute (library_of cfg) st")
  have "state_values (t0, t1, t2) ! 1 = unat t1"
    using sol_permute_reduced [OF t] by (simp add: state_values_def felt_to_field_unat)
  then show ?thesis by (simp add: t flip: sol_permute_simulates [OF assms])
qed

lemma sol_hash3_sponge:
  assumes "config_valid cfg"
  shows "unat (sol_hash3 (library_of cfg) a b c) = poseidon_sponge cfg (map felt_to_field [a, b, c])"
  using assms
  by (simp add: sol_hash3_def sponge_blocks sol_squeeze state_values_add split: prod.splits
      flip: sol_permute_simulates)

lemma sol_hash5_sponge:
  assumes "config_valid cfg"
  shows "unat (sol_hash5 (library_of cfg) a b c d e) = poseidon_sponge cfg (map felt_to_field [a, b, c, d, e])"
  using assms
  by (simp add: sol_hash5_def sponge_blocks sol_squeeze state_values_add split: prod.splits
      flip: sol_permute_simulates)

section \<open>The path function\<close>

lemma unat_eq_field_to_felt: "unat f = v \<Longrightarrow> f = field_to_felt v"
  using unat_felt_less [of f] be_value_digits_id [of v 32]
  by (simp add: field_to_felt_def word_unat_eq_iff unat_felt_of_bytes)

lemma sol_merkle_node:
  assumes "config_valid cfg" "felt_to_field tag = v2_domain V2_DOMAIN_NODE"
  shows "sol_hash3 (library_of cfg) tag left right = merkle_node (poseidon_sponge cfg) left right"
  using unat_eq_field_to_felt [OF sol_hash3_sponge [OF assms(1), of tag left right]]
  by (simp add: merkle_node_def hash_domain_def assms(2))

lemma path_fold_pair:
  assumes "\<And>l r. h l r = merkle_node P l r"
  shows "fold (\<lambda>level (oldRoot, newRoot).
             let sibling = siblings ! level
             in if and (drop_bit level index) 1 = (0 :: u32)
                then (h oldRoot sibling, h newRoot sibling)
                else (h sibling oldRoot, h sibling newRoot)) [0..<n] (a, b)
    = (fold (\<lambda>level current. if and (drop_bit level index) 1 = 0 then merkle_node P current (siblings ! level)
               else merkle_node P (siblings ! level) current) [0..<n] a,
       fold (\<lambda>level current. if and (drop_bit level index) 1 = 0 then merkle_node P current (siblings ! level)
               else merkle_node P (siblings ! level) current) [0..<n] b)"
  by (induction n) (simp_all add: assms Let_def)

lemma merkle_root_upt:
  assumes "length siblings = n"
  shows "merkle_root P index leaf siblings =
    fold (\<lambda>level current. if and (drop_bit level index) 1 = 0 then merkle_node P current (siblings ! level)
            else merkle_node P (siblings ! level) current) [0..<n] leaf"
proof -
  have "List.enumerate 0 siblings = map (\<lambda>i. (i, siblings ! i)) [0..<n]"
    using assms by (intro nth_equalityI) (simp_all add: nth_enumerate_eq)
  then show ?thesis by (simp add: merkle_root_def fold_map comp_def)
qed

lemma hash3PairPath32_roots:
  assumes "config_valid cfg" "felt_to_field tag = v2_domain V2_DOMAIN_NODE" "length siblings = 32"
  shows "hash3PairPath32 (library_of cfg) tag index oldLeaf newLeaf siblings =
    (merkle_root (poseidon_sponge cfg) index oldLeaf siblings, merkle_root (poseidon_sponge cfg) index newLeaf siblings)"
  unfolding hash3PairPath32_def merkle_root_upt [OF assms(3)]
  by (rule path_fold_pair) (rule sol_merkle_node [OF assms(1,2)])


section \<open>A concrete configuration\<close>

definition zero_finder :: find_ark_and_mds where
  "zero_finder bits rate full partial skip =
     (replicate (full + partial) (replicate (rate + 1) 0), replicate (rate + 1) (replicate (rate + 1) 0))"

lemma zero_finder_ok: "finder_ok zero_finder"
  by (simp add: finder_ok_def zero_finder_def matrix_ok_def list_all_iff field_modulus_def)


section \<open>Properties\<close>

text \<open>Claim C13. The library emitted for the contract compiles and computes the hash of the native code:
  for arbitrary 256-bit arguments, reduced or not, \<open>hash3\<close> and \<open>hash5\<close> return the sponge of the reduced
  arguments, and the result is a reduced field element.\<close>

theorem emitted_poseidon_correct:
  assumes "finder_ok finder" "cfg = poseidon_config finder"
  shows "\<exists>lib. compile_poseidon (poseidon_solidity_source cfg) = Some lib \<and>
    (\<forall>a b c. unat (sol_hash3 lib a b c) = poseidon_sponge cfg (map felt_to_field [a, b, c]) \<and>
       canonical (sol_hash3 lib a b c)) \<and>
    (\<forall>a b c d e. unat (sol_hash5 lib a b c d e) = poseidon_sponge cfg (map felt_to_field [a, b, c, d, e]) \<and>
       canonical (sol_hash5 lib a b c d e))"
proof -
  have valid: "config_valid cfg" using config_valid_poseidon_config assms by simp
  have "canonical (fst (snd (sol_permute lib st)))" for lib st
    using sol_permute_reduced [of lib st] by (cases "sol_permute lib st") (simp add: canonical_def)
  then have "canonical (sol_hash3 lib a b c)" "canonical (sol_hash5 lib a b c d e)" for lib a b c d e
    by (simp_all add: sol_hash3_def sol_hash5_def split: prod.splits)
  then show ?thesis
    using compile_poseidon_source [of cfg] sol_hash3_sponge [OF valid] sol_hash5_sponge [OF valid] by blast
qed

theorem emitted_poseidon_correct_witness:
  "\<exists>lib. compile_poseidon (poseidon_solidity_source (poseidon_config zero_finder)) = Some lib \<and>
     canonical (sol_hash3 lib (- 1) 2 3) \<and> canonical (sol_hash5 lib 1 2 3 4 (- 1))"
  using emitted_poseidon_correct [OF zero_finder_ok refl] by blast

text \<open>Claim C18. The contract and the indexer compute the same roots: given the siblings the tree serves
  for an index, the emitted path function returns the current root for the current leaf and, for any
  new leaf, the root of the tree with that leaf set.\<close>

theorem emitted_path_updates_tree:
  assumes "finder_ok finder" "P = poseidon_sponge (poseidon_config finder)" "merkle_inv P t"
    and "compile_poseidon (poseidon_solidity_source (poseidon_config finder)) = Some lib"
    and "felt_to_field tag = v2_domain V2_DOMAIN_NODE"
  shows "hash3PairPath32 lib tag index (get_leaf t index) leaf (get_siblings t index)
    = (tree_root t, tree_root (set_leaf P t index leaf))"
proof -
  let ?cfg = "poseidon_config finder"
  have lib: "lib = library_of ?cfg" using assms(4) compile_poseidon_source [of ?cfg] by simp
  have len: "length (get_siblings t index) = MERKLE_DEPTH" by (simp add: MERKLE_DEPTH_def)
  have "hash3PairPath32 lib tag index (get_leaf t index) leaf (get_siblings t index)
    = (merkle_root P index (get_leaf t index) (get_siblings t index), merkle_root P index leaf (get_siblings t index))"
    unfolding lib assms(2)
    by (rule hash3PairPath32_roots [OF config_valid_poseidon_config [OF assms(1)] assms(5)]) simp
  also have "\<dots> = (compute_root P index (get_leaf t index) (get_siblings t index), compute_root P index leaf (get_siblings t index))"
    using merkle_root_eq_compute_root [OF len] by simp
  also have "\<dots> = (tree_root t, tree_root (set_leaf P t index leaf))"
    using mt.member [OF assms(3)] mt.root_store [OF assms(3)] by simp
  finally show ?thesis .
qed

theorem emitted_path_updates_tree_witness:
  "let P = poseidon_sponge (poseidon_config zero_finder); t = set_leaf P (MerkleTree_new P) 5 7 in
     \<exists>lib. compile_poseidon (poseidon_solidity_source (poseidon_config zero_finder)) = Some lib \<and>
     hash3PairPath32 lib (field_to_felt (v2_domain V2_DOMAIN_NODE)) 5 (get_leaf t 5) 9 (get_siblings t 5)
       = (tree_root t, tree_root (set_leaf P t 5 9))"
proof -
  let ?P = "poseidon_sponge (poseidon_config zero_finder)"
  have "merkle_inv ?P (set_leaf ?P (MerkleTree_new ?P) 5 7)" by (intro merkle_inv_set_leaf merkle_inv_new)
  moreover have "felt_to_field (field_to_felt (v2_domain V2_DOMAIN_NODE)) = v2_domain V2_DOMAIN_NODE"
    by (rule field_felt_round_trip) (simp add: v2_domain_def from_be_bytes_mod_order_def field_modulus_def)
  ultimately show ?thesis
    using emitted_path_updates_tree [OF zero_finder_ok refl _ compile_poseidon_source] compile_poseidon_source
    by (simp add: Let_def)
qed

end
