(* ===== verification/Legacy_Wallet.thy ===== *)
theory Legacy_Wallet
  imports Server_App Wallet_V2 Solidity_Poseidon
begin

text \<open>
  The version 1 wallet (\<open>zkapi-client/src/wallet.rs\<close>), the client of the version 1 server: Pedersen
  commitments, Merkle-tree signatures and Cairo proofs. The file is kept in the tree outside the crate's
  modules. It uses the \<open>NoteState\<close> of \<open>note_state.rs\<close> with three more fields, and proof builders and a
  Cairo prover that are not in the repository: these are functions of the record \<open>legacy_env\<close>.
\<close>

section \<open>State and environment\<close>

record LegacyNoteState = NoteState +
  ns_state_sig_epoch :: "u32 option"
  ns_state_sig_root :: "felt option"
  ns_state_sig :: "XmssSignature option"

record LegacyWallet =
  lw_config :: ClientConfig
  lw_cairo_dir :: string
  lw_state :: "LegacyNoteState option"
  lw_state_path :: path
  lw_journal_path :: path

text \<open>The arguments of \<open>RequestProofBuilder::new\<close> and \<open>WithdrawalProofBuilder::new\<close>.\<close>

record 'f RequestProofBuilder =
  pb_secret_s :: felt
  pb_note_id :: u32
  pb_deposit_amount :: u128
  pb_expiry_ts :: u64
  pb_siblings :: "felt list"
  pb_balance :: u128
  pb_current_blinding :: 'f
  pb_user_rerandomization :: 'f
  pb_current_anchor :: felt
  pb_is_genesis :: bool
  pb_state_sig_epoch :: u32
  pb_state_sig_root :: felt
  pb_active_root :: felt
  pb_protocol_version :: u16
  pb_chain_id :: u64
  pb_contract_address :: felt
  pb_solvency :: u128

record 'f WithdrawalProofBuilder =
  wb_secret_s :: felt
  wb_note_id :: u32
  wb_deposit_amount :: u128
  wb_expiry_ts :: u64
  wb_siblings :: "felt list"
  wb_balance :: u128
  wb_current_blinding :: 'f
  wb_current_anchor :: felt
  wb_is_genesis :: bool
  wb_state_sig_epoch :: u32
  wb_state_sig_root :: felt
  wb_has_clearance :: bool
  wb_clear_sig_epoch :: u32
  wb_clear_sig_root :: felt
  wb_destination :: address
  wb_active_root :: felt
  wb_protocol_version :: u16
  wb_chain_id :: u64
  wb_contract_address :: felt

record ('f, 'g, 'a, 'd) legacy_env =
  le_stark :: "'f stark"
  le_curve :: "('f, 'g) curve"
  le_poseidon :: poseidon
  le_keccak :: keccak256
  le_json :: "'d client_json"
  le_state_to_json :: "LegacyNoteState \<Rightarrow> 'd option"
  le_state_from_json :: "'d \<Rightarrow> LegacyNoteState option"
  le_response_from_json :: "'d \<Rightarrow> RequestResponse option"
  le_recovery_from_json :: "'d \<Rightarrow> RecoveryResponse option"
  le_clearance_from_json :: "'d \<Rightarrow> ClearanceResponse option"
  le_request_inputs :: "'f RequestProofBuilder \<Rightarrow> RequestPublicInputs option"
  le_request_args :: "'f RequestProofBuilder \<Rightarrow> XmssSignature option \<Rightarrow> 'a option"
  le_withdrawal_inputs :: "'f WithdrawalProofBuilder \<Rightarrow> WithdrawalPublicInputs"
  le_withdrawal_args :: "'f WithdrawalProofBuilder \<Rightarrow> XmssSignature option \<Rightarrow> XmssSignature option \<Rightarrow> 'a option"
  le_prove :: "string \<Rightarrow> string \<Rightarrow> felt \<Rightarrow> 'a \<Rightarrow> (felt \<times> u8 list) option"
  le_base64_encode :: "u8 list \<Rightarrow> string"

text \<open>What a request draws: 32 random bytes, the identifier and the clock.\<close>

record legacy_draws =
  ld_bytes :: felt
  ld_uuid :: string
  ld_now_ms :: u64


section \<open>Helpers\<close>

text \<open>\<open>bytes[0] &= 0x07\<close> keeps 251 bits.\<close>

fun sample_nonzero_felt :: "felt list \<Rightarrow> felt option" where
  "sample_nonzero_felt [] = None"
| "sample_nonzero_felt (bytes # draws) =
     (let f = take_bit 251 bytes in if \<not> is_zero f then Some f else sample_nonzero_felt draws)"

definition sample_field_element :: "'f stark \<Rightarrow> felt \<Rightarrow> 'f" where
  "sample_field_element S bytes = reduce_blinding S (from_bytes_be S (take_bit 251 bytes))"

text \<open>\<open>hex::decode_to_slice\<close> into 32 bytes, and the text of a blinding.\<close>

definition decode_to_slice :: "string \<Rightarrow> u8 list option" where
  "decode_to_slice s = (if length s = 64 then sol_hex_literal s else None)"

definition parse_blinding :: "'f stark \<Rightarrow> string \<Rightarrow> ClientError + 'f" where
  "parse_blinding S hex_str =
     (let s = unwrap_or hex_str (strip_prefix ''0x'' hex_str);
          s = unwrap_or s (strip_prefix ''0X'' s);
          padded = pad_left0 64 s in
      and_then (ok_or (Serialization External) (decode_to_slice padded)) (\<lambda>bytes.
      Inr (from_bytes_be S (felt_of_bytes bytes))))"

definition blinding_hex :: "'f stark \<Rightarrow> 'f \<Rightarrow> string" where
  "blinding_hex S r = ''0x'' @ hex_encode (as_bytes (to_bytes_be S r))"

definition siblings_from_vec :: "felt list \<Rightarrow> ClientError + felt list" where
  "siblings_from_vec siblings =
     (if length siblings = MERKLE_DEPTH then Inr siblings else Inl (ProofGeneration External))"

definition proof_artifact_to_wire :: "('f, 'g, 'a, 'd) legacy_env \<Rightarrow> felt \<times> u8 list \<Rightarrow> ProofArtifactWire" where
  "proof_artifact_to_wire env = (\<lambda>(public_output_hash, proof).
     \<lparr>pa_backend = StwoCairo, pa_public_output_hash = public_output_hash,
      pa_proof = le_base64_encode env proof\<rparr>)"

text \<open>\<open>to_affine\<close> of a commitment; \<open>unwrap\<close> panics at infinity.\<close>

definition commitment_felts :: "('f, 'g, 'a, 'd) legacy_env \<Rightarrow> 'g \<Rightarrow> ClientError + felt \<times> felt" where
  "commitment_felts env point =
     map_sum id (map_prod (to_bytes_be (le_stark env)) (to_bytes_be (le_stark env)))
       (ok_or ClientPanicked (to_affine (le_curve env) point))"


section \<open>Files\<close>

definition legacy_save ::
    "('f, 'g, 'a, 'd) legacy_env \<Rightarrow> 'd io_faults \<Rightarrow> path \<Rightarrow> LegacyNoteState \<Rightarrow> 'd disk \<Rightarrow>
     'd disk \<times> (ClientError + unit)" where
  "legacy_save env io p state disk =
     st_then (disk, ok_or (Serialization External) (le_state_to_json env state)) (\<lambda>json disk.
     replace_file io p json disk)"

definition legacy_load ::
    "('f, 'g, 'a, 'd) legacy_env \<Rightarrow> 'd io_faults \<Rightarrow> path \<Rightarrow> 'd disk \<Rightarrow> ClientError + LegacyNoteState" where
  "legacy_load env io p disk =
     and_then (read_to_string io p disk) (\<lambda>data. ok_or (Serialization External) (le_state_from_json env data))"

definition legacy_new ::
    "('f, 'g, 'a, 'd) legacy_env \<Rightarrow> 'd io_faults \<Rightarrow> ClientConfig \<Rightarrow> string \<Rightarrow> 'd disk \<Rightarrow> ClientError + LegacyWallet" where
  "legacy_new env io config cairo_dir disk =
     and_then (create_dir_all io) (\<lambda>_.
       let state_path = cc_state_dir config @ [''note_state.json''];
           journal_path = cc_state_dir config @ [''pending_journal.json''] in
       and_then (if disk state_path \<noteq> None
                 then and_then (legacy_load env io state_path disk) (\<lambda>s. Inr (Some s))
                 else Inr None) (\<lambda>state.
       Inr \<lparr>lw_config = config, lw_cairo_dir = cairo_dir, lw_state = state,
            lw_state_path = state_path, lw_journal_path = journal_path\<rparr>))"

definition legacy_has_pending_request ::
    "('f, 'g, 'a, 'd) legacy_env \<Rightarrow> 'd io_faults \<Rightarrow> LegacyWallet \<Rightarrow> 'd disk \<Rightarrow> bool" where
  "legacy_has_pending_request env io w disk \<longleftrightarrow>
     (case res_ok (journal_read (le_json env) io (lw_journal_path w) disk) of
        Some (Some _) \<Rightarrow> True
      | _ \<Rightarrow> False)"

definition legacy_get_pending_journal ::
    "('f, 'g, 'a, 'd) legacy_env \<Rightarrow> 'd io_faults \<Rightarrow> LegacyWallet \<Rightarrow> 'd disk \<Rightarrow>
     ClientError + PendingRequestJournal option" where
  "legacy_get_pending_journal env io w disk = journal_read (le_json env) io (lw_journal_path w) disk"

text \<open>\<open>take\<close> empties the wallet before the archive is written.\<close>

definition legacy_archive_note ::
    "('f, 'g, 'a, 'd) legacy_env \<Rightarrow> 'd io_faults \<Rightarrow> LegacyWallet \<times> 'd disk \<Rightarrow>
     (LegacyWallet \<times> 'd disk) \<times> (ClientError + unit)" where
  "legacy_archive_note env io = (\<lambda>(w, disk).
     case lw_state w of
       None \<Rightarrow> ((w, disk), Inr ())
     | Some state \<Rightarrow>
         (case st_then (disk, create_dir_all io) (\<lambda>_ disk.
               st_then (legacy_save env io (archive_path (lw_state_path w) (ns_note_id state)) state disk) (\<lambda>_ disk.
               if disk (lw_state_path w) \<noteq> None then remove_file io (lw_state_path w) disk else (disk, Inr ()))) of
            (disk', r) \<Rightarrow> ((w\<lparr>lw_state := None\<rparr>, disk'), r)))"


section \<open>Deposits\<close>

definition legacy_generate_deposit_params :: "poseidon \<Rightarrow> felt list \<Rightarrow> (felt \<times> felt) option" where
  "legacy_generate_deposit_params P draws =
     map_option (\<lambda>secret_s. (secret_s, compute_registration_commitment P secret_s)) (sample_nonzero_felt draws)"

text \<open>\<open>NoteState::new_from_deposit\<close>: no signature has been issued yet.\<close>

definition legacy_genesis ::
    "ClientConfig \<Rightarrow> u32 \<Rightarrow> felt \<Rightarrow> u128 \<Rightarrow> u64 \<Rightarrow> string \<Rightarrow> felt \<Rightarrow> felt \<Rightarrow> LegacyNoteState" where
  "legacy_genesis config note_id secret_s deposit_amount expiry_ts blinding cx cy =
     NoteState.extend (new_from_deposit (cc_protocol_version config) (cc_chain_id config)
       (cc_contract_address config) note_id secret_s deposit_amount expiry_ts blinding cx cy)
       \<lparr>ns_state_sig_epoch = None, ns_state_sig_root = None, ns_state_sig = None\<rparr>"

definition legacy_confirm_deposit ::
    "('f, 'g::ab_group_add, 'a, 'd) legacy_env \<Rightarrow> 'd io_faults \<Rightarrow> felt \<Rightarrow> felt \<Rightarrow> u32 \<Rightarrow> u128 \<Rightarrow> u64 \<Rightarrow>
     LegacyWallet \<times> 'd disk \<Rightarrow> (LegacyWallet \<times> 'd disk) \<times> (ClientError + unit)" where
  "legacy_confirm_deposit env io bytes secret_s note_id deposit_amount expiry_ts = (\<lambda>(w, disk).
     if lw_state w \<noteq> None then ((w, disk), Inl NoteAlreadyExists)
     else
       let S = le_stark env; r0 = sample_field_element S bytes;
           commitment = commit S (le_curve env) deposit_amount r0 in
       st_then ((w, disk), commitment_felts env commitment) (\<lambda>(cx, cy) (w, disk).
         let note_state = legacy_genesis (lw_config w) note_id secret_s deposit_amount expiry_ts
               (blinding_hex S r0) cx cy in
         (case legacy_save env io (lw_state_path w) note_state disk of
            (disk', Inl e) \<Rightarrow> ((w, disk'), Inl e)
          | (disk', Inr _) \<Rightarrow> ((w\<lparr>lw_state := Some note_state\<rparr>, disk'), Inr ()))))"

section \<open>Proof artifacts\<close>

definition generate_request_proof_artifact ::
    "('f, 'g, 'a, 'd) legacy_env \<Rightarrow> LegacyWallet \<Rightarrow> 'f RequestProofBuilder \<Rightarrow> XmssSignature option \<Rightarrow>
     ClientError + ProofArtifactWire" where
  "generate_request_proof_artifact env w builder state_sig =
     and_then (ok_or (ProofGeneration External) (le_request_inputs env builder)) (\<lambda>public_inputs.
     and_then (ok_or (ProofGeneration External) (le_request_args env builder state_sig)) (\<lambda>args.
     and_then (ok_or ClientPanicked (r1_public_output_hash (le_keccak env) public_inputs)) (\<lambda>h.
     and_then (ok_or (ProofGeneration External)
       (le_prove env (lw_cairo_dir w) ''request_from_args'' h args)) (\<lambda>artifact.
     Inr (proof_artifact_to_wire env artifact)))))"

definition generate_withdrawal_proof_artifact ::
    "('f, 'g, 'a, 'd) legacy_env \<Rightarrow> LegacyWallet \<Rightarrow> 'f WithdrawalProofBuilder \<Rightarrow> XmssSignature option \<Rightarrow>
     XmssSignature option \<Rightarrow> ClientError + ProofArtifactWire" where
  "generate_withdrawal_proof_artifact env w builder state_sig clear_sig =
     and_then (ok_or (ProofGeneration External) (le_withdrawal_args env builder state_sig clear_sig)) (\<lambda>args.
     and_then (ok_or ClientPanicked (w1_public_output_hash (le_keccak env) (le_withdrawal_inputs env builder))) (\<lambda>h.
     and_then (ok_or (ProofGeneration External)
       (le_prove env (lw_cairo_dir w) ''withdrawal_from_args'' h args)) (\<lambda>artifact.
     Inr (proof_artifact_to_wire env artifact))))"

text \<open>The signing epoch and root the proof refers to.\<close>

definition state_sig_reference :: "LegacyNoteState \<Rightarrow> ClientError + u32 \<times> felt" where
  "state_sig_reference state =
     (if ns_is_genesis state then Inr (0, ZERO)
      else and_then (ok_or (ProofGeneration (Msg ''missing state_sig_epoch'')) (ns_state_sig_epoch state)) (\<lambda>ep.
           and_then (ok_or (ProofGeneration (Msg ''missing state_sig_root'')) (ns_state_sig_root state)) (\<lambda>root.
           Inr (ep, root))))"


section \<open>Requests\<close>

record ('f, 'g) built_request =
  br_request :: ApiRequest
  br_journal :: PendingRequestJournal
  br_anon_commitment :: 'g
  br_user_rerandomization :: 'f
  br_current_blinding :: 'f

text \<open>Everything of \<open>request_flow\<close> between the pending check and the journal write.\<close>

definition legacy_build_request ::
    "('f, 'g::ab_group_add, 'a, 'd) legacy_env \<Rightarrow> legacy_draws \<Rightarrow> string \<Rightarrow> felt \<Rightarrow> felt \<Rightarrow> felt list \<Rightarrow>
     LegacyWallet \<Rightarrow> ClientError + ('f, 'g) built_request" where
  "legacy_build_request env dr payload payload_hash active_root merkle_siblings w =
     (let S = le_stark env; config = lw_config w in
      and_then (ok_or ClientPanicked (canonical_payload_hash (le_keccak env) (as_bytes_str payload))) (\<lambda>h.
      and_then (bail_if (payload_hash \<noteq> h)
        (InvalidResponse (Msg ''payload_hash does not match actual payload bytes''))) (\<lambda>_.
      and_then (ok_or NoActiveNote (lw_state w)) (\<lambda>state.
        let solvency = solvency_bound (NoteState.truncate state) (cc_policy_enabled config)
              (cc_request_charge_cap config) (cc_policy_charge_cap config) in
      and_then (bail_if (ns_current_balance state < solvency)
        (InsufficientBalance solvency (ns_current_balance state))) (\<lambda>_.
      and_then (parse_blinding S (ns_balance_blinding state)) (\<lambda>current_blinding.
        let user_rerandomization = sample_field_element S (ld_bytes dr) in
      and_then (siblings_from_vec merkle_siblings) (\<lambda>siblings.
        let anon_blinding = add_blinding S current_blinding user_rerandomization;
            anon_commitment = commit S (le_curve env) (ns_current_balance state) anon_blinding in
      and_then (commitment_felts env anon_commitment) (\<lambda>(anon_cx, anon_cy).
        let request_nullifier = compute_nullifier (le_poseidon env) (ns_secret_s state) (ns_current_anchor state) in
      and_then (state_sig_reference state) (\<lambda>(state_sig_epoch, state_sig_root).
        let public_inputs =
              \<lparr>r1_statement_type = STATEMENT_TYPE_REQUEST, r1_protocol_version = ns_protocol_version state,
               r1_chain_id = ns_chain_id state, r1_contract_address = ns_contract_address state,
               r1_active_root = active_root, r1_state_sig_epoch = state_sig_epoch,
               r1_state_sig_root = state_sig_root, r1_request_nullifier = request_nullifier,
               r1_anon_commitment_x = anon_cx, r1_anon_commitment_y = anon_cy,
               r1_expiry_ts = ns_expiry_ts state, r1_solvency_bound = solvency\<rparr>;
            proof_builder =
              \<lparr>pb_secret_s = ns_secret_s state, pb_note_id = ns_note_id state,
               pb_deposit_amount = ns_deposit_amount state, pb_expiry_ts = ns_expiry_ts state,
               pb_siblings = siblings, pb_balance = ns_current_balance state,
               pb_current_blinding = current_blinding, pb_user_rerandomization = user_rerandomization,
               pb_current_anchor = ns_current_anchor state, pb_is_genesis = ns_is_genesis state,
               pb_state_sig_epoch = state_sig_epoch, pb_state_sig_root = state_sig_root,
               pb_active_root = active_root, pb_protocol_version = ns_protocol_version state,
               pb_chain_id = ns_chain_id state, pb_contract_address = ns_contract_address state,
               pb_solvency = solvency\<rparr> in
      and_then (generate_request_proof_artifact env w proof_builder (ns_state_sig state)) (\<lambda>proof.
      Inr \<lparr>br_request =
             \<lparr>aq_client_request_id = ld_uuid dr, aq_payload = payload, aq_payload_hash = payload_hash,
              aq_public_inputs = public_inputs, aq_proof = proof\<rparr>,
           br_journal =
             \<lparr>pj_exists = True, pj_client_request_id = ld_uuid dr, pj_nullifier = request_nullifier,
              pj_payload_hash = payload_hash, pj_user_rerandomization = to_bytes_be S user_rerandomization,
              pj_created_at_ms = ld_now_ms dr, pj_prepared_request = None\<rparr>,
           br_anon_commitment = anon_commitment, br_user_rerandomization = user_rerandomization,
           br_current_blinding = current_blinding\<rparr>))))))))))"


section \<open>Responses\<close>

definition verify_request_response ::
    "('f, 'g::ab_group_add, 'a, 'd) legacy_env \<Rightarrow> LegacyWallet \<Rightarrow> RequestResponse \<Rightarrow> 'g \<Rightarrow> ClientError + unit" where
  "verify_request_response env w resp anon_commitment =
     (let S = le_stark env; config = lw_config w; failed = (\<lambda>text. VerificationFailed (Msg text)) in
      and_then (ok_or NoActiveNote (lw_state w)) (\<lambda>state.
      and_then (ok_or ClientPanicked
        (canonical_response_hash (le_keccak env) (as_bytes_str (rr_response_payload resp)))) (\<lambda>h.
      and_then (bail_if (rr_response_hash resp \<noteq> h)
        (failed ''response_hash does not match response_payload'')) (\<lambda>_.
        let max_charge = (if cc_policy_enabled config then cc_policy_charge_cap config
                          else cc_request_charge_cap config) in
      and_then (bail_if (rr_charge_applied resp > max_charge) (VerificationFailed External)) (\<lambda>_.
      and_then (bail_if (is_zero (rr_next_anchor resp)) (InvalidResponse (Msg ''zero next anchor''))) (\<lambda>_.
        let blind_delta = from_bytes_be S (rr_blind_delta_srv resp);
            expected = server_update S (le_curve env) anon_commitment (rr_charge_applied resp) blind_delta in
      and_then (commitment_felts env expected) (\<lambda>(exp_x, exp_y).
      and_then (bail_if (exp_x \<noteq> cp_x (rr_next_commitment resp) \<or> exp_y \<noteq> cp_y (rr_next_commitment resp))
        (failed ''next_commitment algebra mismatch'')) (\<lambda>_.
      and_then (map_err (\<lambda>_. VerificationFailed External)
        (validate_for_height (rr_next_state_sig resp) (length (auth_path (rr_next_state_sig resp))))) (\<lambda>_.
      and_then (bail_if (rr_next_state_sig_epoch resp = 0 \<or> is_zero (rr_next_state_sig_root resp))
        (InvalidResponse (Msg ''missing non-genesis state signature root/epoch''))) (\<lambda>_.
      and_then (case lookup_state_root (cc_trusted_epoch_roots config) (rr_next_state_sig_epoch resp) of
                  Some root \<Rightarrow> bail_if (root \<noteq> rr_next_state_sig_root resp)
                    (failed ''state signature root does not match trusted epoch registry'')
                | None \<Rightarrow> Inl (failed ''state signature epoch is not trusted'')) (\<lambda>_.
      and_then (bail_if (sig_epoch (rr_next_state_sig resp) \<noteq> rr_next_state_sig_epoch resp)
        (VerificationFailed External)) (\<lambda>_.
        let state_msg = compute_state_message S (ns_protocol_version state) (ns_chain_id state)
              (ns_contract_address state) (cp_x (rr_next_commitment resp)) (cp_y (rr_next_commitment resp))
              (rr_next_anchor resp) in
      bail_if (\<not> xmss_verify S (rr_next_state_sig_root resp) state_msg (rr_next_state_sig resp))
        (failed ''state signature XMSS verification failed'')))))))))))))"

text \<open>The next state, as \<open>request_flow\<close> and \<open>recover\<close> both compute it.\<close>

definition legacy_next_state ::
    "'f stark \<Rightarrow> LegacyNoteState \<Rightarrow> RequestResponse \<Rightarrow> 'f \<Rightarrow> 'f \<Rightarrow> ClientError + LegacyNoteState" where
  "legacy_next_state S state resp current_blinding user_rerandomization =
     and_then (ok_or (InvalidResponse (Msg ''charge exceeds balance''))
       (checked_sub (ns_current_balance state) (rr_charge_applied resp))) (\<lambda>next_balance.
       let next_blinding = add_blinding S (add_blinding S current_blinding user_rerandomization)
             (from_bytes_be S (rr_blind_delta_srv resp)) in
     Inr (state
       \<lparr>ns_current_balance := next_balance, ns_balance_blinding := blinding_hex S next_blinding,
        ns_current_commitment_x := cp_x (rr_next_commitment resp),
        ns_current_commitment_y := cp_y (rr_next_commitment resp),
        ns_current_anchor := rr_next_anchor resp, ns_is_genesis := False,
        ns_state_sig_epoch := Some (rr_next_state_sig_epoch resp),
        ns_state_sig_root := Some (rr_next_state_sig_root resp),
        ns_state_sig := Some (rr_next_state_sig resp)\<rparr>))"

text \<open>Verification, the next state, its file, and the end of the journal.\<close>

definition legacy_install ::
    "('f, 'g::ab_group_add, 'a, 'd) legacy_env \<Rightarrow> 'd io_faults \<Rightarrow> RequestResponse \<Rightarrow> 'g \<Rightarrow> 'f \<Rightarrow> 'f \<Rightarrow>
     LegacyWallet \<times> 'd disk \<Rightarrow> (LegacyWallet \<times> 'd disk) \<times> (ClientError + unit)" where
  "legacy_install env io resp anon_commitment user_rerandomization current_blinding = (\<lambda>(w, disk).
     case and_then (verify_request_response env w resp anon_commitment) (\<lambda>_.
          and_then (ok_or NoActiveNote (lw_state w)) (\<lambda>state.
          legacy_next_state (le_stark env) state resp current_blinding user_rerandomization)) of
       Inl e \<Rightarrow> ((w, disk), Inl e)
     | Inr next_state \<Rightarrow>
         (case legacy_save env io (lw_state_path w) next_state disk of
            (disk', Inl e) \<Rightarrow> ((w, disk'), Inl e)
          | (disk', Inr _) \<Rightarrow>
              (case journal_clear io (lw_journal_path w) disk' of
                 (disk'', r) \<Rightarrow> ((w\<lparr>lw_state := Some next_state\<rparr>, disk''), r))))"

text \<open>The status and body of the reply to a posted request.\<close>

definition legacy_receive ::
    "('f, 'g::ab_group_add, 'a, 'd) legacy_env \<Rightarrow> 'd io_faults \<Rightarrow> ('f, 'g) built_request \<Rightarrow> u16 \<times> 'd \<Rightarrow>
     LegacyWallet \<times> 'd disk \<Rightarrow> (LegacyWallet \<times> 'd disk) \<times> (ClientError + RequestResponse)" where
  "legacy_receive env io built = (\<lambda>(status, body) (w, disk).
     if \<not> is_success status then
       (case error_from_json (le_json env) body of
          Some err \<Rightarrow>
            (if ee_error_code err = ''stale_root''
             then (case journal_clear io (lw_journal_path w) disk of
                     (disk', Inl e) \<Rightarrow> ((w, disk'), Inl e)
                   | (disk', Inr _) \<Rightarrow> ((w, disk'), Inl ClientError.StaleRoot))
             else ((w, disk), Inl (ServerError (Msg (ee_error_code err @ '': '' @ ee_error_message err)))))
        | None \<Rightarrow> ((w, disk), Inl (ServerError External)))
     else
       st_then ((w, disk), ok_or (InvalidResponse External) (le_response_from_json env body)) (\<lambda>resp s.
       st_then (legacy_install env io resp (br_anon_commitment built) (br_user_rerandomization built)
         (br_current_blinding built) s) (\<lambda>_ s. (s, Inr resp))))"

text \<open>The failures \<open>io\<close> belong to the preparation, \<open>io'\<close> to what follows the reply.\<close>

definition legacy_request_flow ::
    "('f, 'g::ab_group_add, 'a, 'd) legacy_env \<Rightarrow> 'd io_faults \<Rightarrow> 'd io_faults \<Rightarrow> legacy_draws \<Rightarrow>
     (string \<Rightarrow> ApiRequest \<Rightarrow> 'd http) \<Rightarrow> string \<Rightarrow> felt \<Rightarrow> felt \<Rightarrow> felt list \<Rightarrow> LegacyWallet \<times> 'd disk \<Rightarrow>
     (LegacyWallet \<times> 'd disk) \<times> (ClientError + RequestResponse)" where
  "legacy_request_flow env io io' dr server payload payload_hash active_root merkle_siblings = (\<lambda>(w, disk).
     st_then ((w, disk), journal_read (le_json env) io (lw_journal_path w) disk) (\<lambda>pending (w, disk).
     st_then ((w, disk), bail_if (pending \<noteq> None) PendingRequest) (\<lambda>_ (w, disk).
     st_then ((w, disk), legacy_build_request env dr payload payload_hash active_root merkle_siblings w)
       (\<lambda>built (w, disk).
     st_then (case journal_write (le_json env) io (lw_journal_path w) (br_journal built) disk of
                (disk', r) \<Rightarrow> ((w, disk'), r)) (\<lambda>_ (w, disk).
     st_then ((w, disk), http_text (server (cc_server_url (lw_config w) @ ''/v1/requests'') (br_request built)))
       (legacy_receive env io' built))))))"

definition legacy_recover ::
    "('f, 'g::ab_group_add, 'a, 'd) legacy_env \<Rightarrow> 'd io_faults \<Rightarrow> (string \<Rightarrow> 'd http) \<Rightarrow> LegacyWallet \<times> 'd disk \<Rightarrow>
     (LegacyWallet \<times> 'd disk) \<times> (ClientError + RequestResponse option)" where
  "legacy_recover env io server = (\<lambda>(w, disk).
     st_then ((w, disk), journal_read (le_json env) io (lw_journal_path w) disk) (\<lambda>pending (w, disk).
     case pending of
       None \<Rightarrow> ((w, disk), Inr None)
     | Some journal \<Rightarrow>
         st_then ((w, disk), http_text (server
             (cc_server_url (lw_config w) @ ''/v1/requests/'' @ pj_client_request_id journal))) (\<lambda>(_, body) (w, disk).
         st_then ((w, disk), ok_or (InvalidResponse External) (le_recovery_from_json env body)) (\<lambda>recovery (w, disk).
         if rc_nullifier_status recovery = ''finalized'' then
           st_then ((w, disk), ok_or (InvalidResponse (Msg ''finalized recovery missing request_response''))
             (rc_request_response recovery)) (\<lambda>resp (w, disk).
           st_then ((w, disk), ok_or NoActiveNote (lw_state w)) (\<lambda>state (w, disk).
             let S = le_stark env;
                 user_rerandomization = from_bytes_be S (pj_user_rerandomization journal) in
           st_then ((w, disk), parse_blinding S (ns_balance_blinding state)) (\<lambda>current_blinding s.
             let anon_blinding = add_blinding S current_blinding user_rerandomization;
                 anon_commitment = commit S (le_curve env) (ns_current_balance state) anon_blinding in
           st_then (legacy_install env io resp anon_commitment user_rerandomization current_blinding s)
             (\<lambda>_ s. (s, Inr (Some resp))))))
         else if rc_nullifier_status recovery = ''reserved'' then
           ((w, disk), Inl (ServerError (Msg ''request still reserved on server, retry later'')))
         else ((w, disk), Inl (InvalidResponse External))))))"


section \<open>Withdrawals\<close>

definition legacy_request_clearance ::
    "('f, 'g, 'a, 'd) legacy_env \<Rightarrow> (string \<Rightarrow> ClearanceRequest \<Rightarrow> 'd http) \<Rightarrow> LegacyWallet \<Rightarrow> felt \<Rightarrow>
     ClientError + ClearanceResponse" where
  "legacy_request_clearance env server w withdrawal_nullifier =
     (let S = le_stark env; config = lw_config w; failed = (\<lambda>text. VerificationFailed (Msg text)) in
      and_then (http_text (server (cc_server_url config @ ''/v1/withdraw/clearance'')
        \<lparr>cq_withdrawal_nullifier = withdrawal_nullifier\<rparr>)) (\<lambda>(status, body).
      and_then (bail_if (\<not> is_success status) (ServerError External)) (\<lambda>_.
      and_then (ok_or (InvalidResponse External) (le_clearance_from_json env body)) (\<lambda>clearance.
      and_then (bail_if (is_zero (cr_clear_sig_root clearance))
        (InvalidResponse (Msg ''clearance response missing clear_sig_root''))) (\<lambda>_.
      and_then (case lookup_clear_root (cc_trusted_epoch_roots config) (cr_clear_sig_epoch clearance) of
                  Some root \<Rightarrow> bail_if (root \<noteq> cr_clear_sig_root clearance)
                    (failed ''clearance root does not match trusted epoch registry'')
                | None \<Rightarrow> Inl (failed ''clearance epoch is not trusted'')) (\<lambda>_.
      and_then (bail_if (sig_epoch (cr_clear_sig clearance) \<noteq> cr_clear_sig_epoch clearance)
        (VerificationFailed External)) (\<lambda>_.
        let clear_msg = compute_clearance_message S (cc_protocol_version config) (cc_chain_id config)
              (cc_contract_address config) withdrawal_nullifier in
      and_then (bail_if (\<not> xmss_verify S (cr_clear_sig_root clearance) clear_msg (cr_clear_sig clearance))
        (failed ''clearance XMSS verification failed'')) (\<lambda>_.
      Inr clearance))))))))"

text \<open>Both withdrawals, once the clearance is known.\<close>

definition legacy_build_withdrawal ::
    "('f, 'g, 'a, 'd) legacy_env \<Rightarrow> LegacyWallet \<Rightarrow> LegacyNoteState \<Rightarrow> ClearanceResponse option \<Rightarrow> address \<Rightarrow> felt \<Rightarrow>
     felt list \<Rightarrow> ClientError + WithdrawalPublicInputs \<times> ProofArtifactWire" where
  "legacy_build_withdrawal env w state clearance destination active_root siblings =
     (let S = le_stark env; has_clearance = (clearance \<noteq> None);
          clear_epoch = (case clearance of Some c \<Rightarrow> cr_clear_sig_epoch c | None \<Rightarrow> 0);
          clear_root = (case clearance of Some c \<Rightarrow> cr_clear_sig_root c | None \<Rightarrow> ZERO) in
      and_then (state_sig_reference state) (\<lambda>(state_sig_epoch, state_sig_root).
        let public_inputs =
              \<lparr>w1_statement_type = STATEMENT_TYPE_WITHDRAWAL, w1_protocol_version = ns_protocol_version state,
               w1_chain_id = ns_chain_id state, w1_contract_address = ns_contract_address state,
               w1_active_root = active_root, w1_note_id = ns_note_id state,
               w1_final_balance = ns_current_balance state, w1_destination = destination,
               w1_withdrawal_nullifier =
                 compute_nullifier (le_poseidon env) (ns_secret_s state) (ns_current_anchor state),
               w1_is_genesis = ns_is_genesis state, w1_has_clearance = has_clearance,
               w1_state_sig_epoch = state_sig_epoch, w1_state_sig_root = state_sig_root,
               w1_clear_sig_epoch = clear_epoch, w1_clear_sig_root = clear_root\<rparr> in
      and_then (parse_blinding S (ns_balance_blinding state)) (\<lambda>current_blinding.
        let proof_builder =
              \<lparr>wb_secret_s = ns_secret_s state, wb_note_id = ns_note_id state,
               wb_deposit_amount = ns_deposit_amount state, wb_expiry_ts = ns_expiry_ts state,
               wb_siblings = siblings, wb_balance = ns_current_balance state,
               wb_current_blinding = current_blinding, wb_current_anchor = ns_current_anchor state,
               wb_is_genesis = ns_is_genesis state, wb_state_sig_epoch = state_sig_epoch,
               wb_state_sig_root = state_sig_root, wb_has_clearance = has_clearance,
               wb_clear_sig_epoch = clear_epoch, wb_clear_sig_root = clear_root,
               wb_destination = destination, wb_active_root = active_root,
               wb_protocol_version = ns_protocol_version state, wb_chain_id = ns_chain_id state,
               wb_contract_address = ns_contract_address state\<rparr> in
      and_then (generate_withdrawal_proof_artifact env w proof_builder (ns_state_sig state)
        (map_option cr_clear_sig clearance)) (\<lambda>proof.
      Inr (public_inputs, proof)))))"

definition legacy_withdrawal_mutual_close ::
    "('f, 'g, 'a, 'd) legacy_env \<Rightarrow> (string \<Rightarrow> ClearanceRequest \<Rightarrow> 'd http) \<Rightarrow> LegacyWallet \<Rightarrow> address \<Rightarrow> felt \<Rightarrow>
     felt list \<Rightarrow> ClientError + WithdrawalPublicInputs \<times> ProofArtifactWire" where
  "legacy_withdrawal_mutual_close env server w destination active_root merkle_siblings =
     and_then (ok_or NoActiveNote (lw_state w)) (\<lambda>state.
     and_then (siblings_from_vec merkle_siblings) (\<lambda>siblings.
     and_then (legacy_request_clearance env server w
       (compute_nullifier (le_poseidon env) (ns_secret_s state) (ns_current_anchor state))) (\<lambda>clearance.
     legacy_build_withdrawal env w state (Some clearance) destination active_root siblings)))"

definition legacy_withdrawal_escape_hatch ::
    "('f, 'g, 'a, 'd) legacy_env \<Rightarrow> LegacyWallet \<Rightarrow> address \<Rightarrow> felt \<Rightarrow> felt list \<Rightarrow>
     ClientError + WithdrawalPublicInputs \<times> ProofArtifactWire" where
  "legacy_withdrawal_escape_hatch env w destination active_root merkle_siblings =
     and_then (ok_or NoActiveNote (lw_state w)) (\<lambda>state.
     and_then (siblings_from_vec merkle_siblings) (\<lambda>siblings.
     legacy_build_withdrawal env w state None destination active_root siblings))"

end
