(* ===== verification/Legacy_Properties.thy ===== *)
theory Legacy_Properties
  imports Legacy_Wallet
begin

text \<open>
  The version 1 wallet against the version 1 server, through the server's HTTP router: a reply is
  accepted, and a wallet that lost the reply recovers to the same state.
\<close>

section \<open>Blindings as text\<close>

lemma hex_encode_chars:
  assumes "c \<in> set (hex_encode bs)"
  shows "c \<in> set ''0123456789abcdef''"
proof -
  have "hex_char n \<in> set ''0123456789abcdef''" if "n < 16" for n
    using that nth_mem [of n "''0123456789abcdef''"] by (simp add: hex_char_def)
  moreover have "unat b div 16 < 16" for b :: u8
  proof -
    have "unat b < 256" using unsigned_less [of b, where ?'a = nat] by simp
    then show ?thesis by linarith
  qed
  moreover obtain b where "c \<in> set (byte_hex b)" using assms by (auto simp: hex_encode_def)
  then have "c = hex_char (unat b div 16) \<or> c = hex_char (unat b mod 16)" by (simp add: byte_hex_def)
  ultimately show ?thesis by (metis mod_less_divisor zero_less_numeral)
qed

lemma length_hex_encode [simp]: "length (hex_encode bs) = 2 * length bs"
  by (induction bs) (simp_all add: hex_encode_def byte_hex_def)

lemma parse_blinding_hex:
  assumes "stark_ok S"
  shows "parse_blinding S (blinding_hex S r) = Inr r"
proof -
  let ?h = "hex_encode (as_bytes (to_bytes_be S r))"
  have len: "length ?h = 64" by simp
  have "CHR ''X'' \<notin> set ?h" using hex_encode_chars by force
  then have "strip_prefix ''0X'' ?h = None" by (cases ?h; cases "tl ?h") (auto simp: strip_prefix_def)
  moreover have "\<not> continuation c" if "c \<in> set ?h" for c
    using hex_encode_chars [OF that] by (auto simp: continuation_def)
  then have "char_count ?h = 64" using len by (simp add: char_count_def)
  ultimately have "parse_blinding S (blinding_hex S r) = Inr (from_bytes_be S (to_bytes_be S r))"
    using len by (simp add: parse_blinding_def blinding_hex_def pad_left0_def decode_to_slice_def
        sol_hex_literal_encode strip_prefix_def ok_or_def Let_def)
  then show ?thesis using assms by (simp add: stark_ok_def)
qed


section \<open>Paths of the router\<close>

lemma path_segments_plain: "CHR ''/'' \<notin> set s \<Longrightarrow> path_segments s = [s]"
  by (induction s) auto

lemma endpoint_post_request: "endpoint_of POST ''/v1/requests'' = PostRequest"
  by (simp add: endpoint_of_def)

lemma endpoint_get_request:
  assumes "CHR ''/'' \<notin> set i" "i \<noteq> []"
  shows "endpoint_of GET (''/v1/requests/'' @ i) = GetRequest i"
  using assms by (simp add: endpoint_of_def path_segments_plain Let_def)

section \<open>Installing a reply\<close>

text \<open>The two files of a wallet and their temporary neighbours do not overlap.\<close>

definition legacy_paths_ok :: "LegacyWallet \<Rightarrow> bool" where
  "legacy_paths_ok w \<longleftrightarrow>
     (let s = lw_state_path w; j = lw_journal_path w in
      s \<noteq> j \<and> s \<noteq> with_extension s ''tmp'' \<and> j \<noteq> with_extension j ''tmp'' \<and>
      j \<noteq> with_extension s ''tmp'' \<and> s \<noteq> with_extension j ''tmp'')"

lemma legacy_new_paths_ok:
  assumes "legacy_new env io config dir disk = Inr w"
  shows "legacy_paths_ok w"
  using assms by (auto simp: legacy_new_def legacy_paths_ok_def with_extension_def file_stem_def Let_def res)

lemma replace_file_works:
  assumes "p \<noteq> with_extension p ''tmp''"
  obtains disk' where "replace_file no_faults p json disk = (disk', Inr ())" "disk' p = Some json"
    "\<And>q. q \<noteq> p \<Longrightarrow> q \<noteq> with_extension p ''tmp'' \<Longrightarrow> disk' q = disk q"
proof -
  obtain disk' where rep: "replace_file no_faults p json disk = (disk', Inr ())"
    using replace_works [of p json disk] by (cases "replace_file no_faults p json disk") simp
  moreover have "disk' p = Some json" using replace_cases [OF assms, of no_faults json disk] rep by auto
  moreover have "disk' q = disk q" if "q \<noteq> p" "q \<noteq> with_extension p ''tmp''" for q
    using replace_frame [OF that, of no_faults json disk] rep by simp
  ultimately show ?thesis using that by blast
qed

lemma legacy_install_works:
  assumes "legacy_paths_ok w" "lw_state w = Some state" "verify_request_response env w r anon = Inr ()"
    and "legacy_next_state (le_stark env) state r blinding rerand = Inr nxt"
    and "le_state_to_json env nxt = Some d"
  shows "\<exists>disk'. legacy_install env no_faults r anon rerand blinding (w, disk) =
      ((w\<lparr>lw_state := Some nxt\<rparr>, disk'), Inr ()) \<and>
    disk' (lw_journal_path w) = None \<and> disk' (lw_state_path w) = Some d"
proof -
  let ?s = "lw_state_path w" and ?j = "lw_journal_path w"
  have "?s \<noteq> with_extension ?s ''tmp''" using assms(1) by (simp add: legacy_paths_ok_def Let_def)
  then obtain disk1 where save: "replace_file no_faults ?s d disk = (disk1, Inr ())" "disk1 ?s = Some d"
    by (rule replace_file_works [where json = d and disk = disk]) blast
  have "?s \<noteq> ?j" using assms(1) by (simp add: legacy_paths_ok_def Let_def)
  then show ?thesis using assms(2-5) save
    by (auto simp: legacy_install_def legacy_save_def journal_clear_def remove_file_def no_faults_def ok_or_def)
qed


section \<open>Client and server\<close>

text \<open>What deploying the two together means: the same hash functions and curve, the same caps, and the
  server's signing root published to the client.\<close>

definition legacy_trusts :: "('f, 'g, 'a, 'd) legacy_env \<Rightarrow> LegacyWallet \<Rightarrow> ('f, 'g) RequestProcessor \<Rightarrow> bool" where
  "legacy_trusts env w p \<longleftrightarrow>
     (let D = rp_deps p; config = lw_config w; cfg = rp_config p; sn = st_signer (rp_state p) in
      le_stark env = dp_stark D \<and> le_curve env = dp_curve D \<and> le_keccak env = dp_keccak D \<and>
      cc_policy_enabled config = cf_policy_enabled cfg \<and>
      cc_policy_charge_cap config = cf_policy_charge_cap cfg \<and>
      cc_request_charge_cap config = cf_request_charge_cap cfg \<and>
      state_epoch sn \<noteq> 0 \<and> \<not> is_zero (signer_state_root (dp_stark D) sn) \<and>
      lookup_state_root (cc_trusted_epoch_roots config) (state_epoch sn) =
        Some (signer_state_root (dp_stark D) sn))"

lemma legacy_build_request_Inr:
  assumes "legacy_build_request env dr payload h root siblings w = Inr b"
  obtains state where "lw_state w = Some state"
    "parse_blinding (le_stark env) (ns_balance_blinding state) = Inr (br_current_blinding b)"
    "br_anon_commitment b = commit (le_stark env) (le_curve env) (ns_current_balance state)
       (add_blinding (le_stark env) (br_current_blinding b) (br_user_rerandomization b))"
    "commitment_felts env (br_anon_commitment b) = Inr (r1_anon_commitment_x (aq_public_inputs (br_request b)),
       r1_anon_commitment_y (aq_public_inputs (br_request b)))"
    "r1_protocol_version (aq_public_inputs (br_request b)) = ns_protocol_version state"
    "r1_chain_id (aq_public_inputs (br_request b)) = ns_chain_id state"
    "r1_contract_address (aq_public_inputs (br_request b)) = ns_contract_address state"
    "r1_solvency_bound (aq_public_inputs (br_request b)) \<le> ns_current_balance state"
    "aq_client_request_id (br_request b) = ld_uuid dr" "pj_exists (br_journal b)"
    "pj_client_request_id (br_journal b) = ld_uuid dr"
    "pj_user_rerandomization (br_journal b) = to_bytes_be (le_stark env) (br_user_rerandomization b)"
proof -
  note parts = assms [unfolded legacy_build_request_def Let_def and_then_eq_Inr prod.case_eq_if]
  have funds: "bail_if c e = Inr u \<longleftrightarrow> \<not> c" for c and e :: ClientError and u by (simp add: bail_if_def)
  have some: "ok_or e m = Inr v \<longleftrightarrow> m = Some v" for e :: ClientError and m and v :: 'z by (cases m) simp_all
  show ?thesis using parts unfolding funds some sum.inject
    by (elim exE conjE) (rule that, assumption, auto simp: not_less)
qed

lemma commitment_felts_point:
  assumes "commitment_felts env point = Inr (x, y)" "stark_ok (le_stark env)" "curve_ok (le_curve env)"
  shows "from_affine (le_curve env) (from_bytes_be (le_stark env) x) (from_bytes_be (le_stark env) y) = Some point"
proof -
  obtain ab where ab: "to_affine (le_curve env) point = Some ab"
    using assms(1) by (cases "to_affine (le_curve env) point") (simp_all add: commitment_felts_def)
  then have "x = to_bytes_be (le_stark env) (fst ab)" "y = to_bytes_be (le_stark env) (snd ab)"
    using assms(1) by (simp_all add: commitment_felts_def map_prod_def split_beta)
  moreover have "from_affine (le_curve env) (fst ab) (snd ab) = Some point"
    using assms(3) ab unfolding curve_ok_def by (metis prod.collapse)
  ultimately show ?thesis using assms(2) by (simp add: stark_ok_def)
qed

text \<open>The wallet accepts what the server returns for its request.\<close>

lemma legacy_verify_accepts:
  assumes "deps_ok (rp_deps p)" "curve_ok (dp_curve (rp_deps p))"
    and "keypair_inv (dp_stark (rp_deps p)) (state_keypair (st_signer (rp_state p)))"
    and "legacy_trusts env w p" "legacy_build_request env dr payload h root siblings w = Inr b"
    and "row_of (st_table (rp_state p)) (req_nullifier (br_request b)) = None"
    and "process_request (rp_deps p) (rp_config p) renv (rp_state p) (br_request b) = (st', Inr r)"
    and "\<not> is_zero (rr_next_anchor r)"
  obtains state nxt where "lw_state w = Some state" "verify_request_response env w r (br_anon_commitment b) = Inr ()"
    "legacy_next_state (le_stark env) state r (br_current_blinding b) (br_user_rerandomization b) = Inr nxt"
    "rr_charge_applied r \<le> ns_current_balance state"
    "ns_current_balance nxt = ns_current_balance state - rr_charge_applied r"
    "\<exists>blinding. parse_blinding (le_stark env) (ns_balance_blinding nxt) = Inr blinding \<and>
       commitment_felts env (commit (le_stark env) (le_curve env) (ns_current_balance nxt) blinding) =
         Inr (ns_current_commitment_x nxt, ns_current_commitment_y nxt)"
    "parse_blinding (le_stark env) (ns_balance_blinding state) = Inr (br_current_blinding b)"
    "br_anon_commitment b = commit (le_stark env) (le_curve env) (ns_current_balance state)
       (add_blinding (le_stark env) (br_current_blinding b) (br_user_rerandomization b))"
proof -
  let ?S = "le_stark env" and ?C = "le_curve env" and ?sn = "st_signer (rp_state p)"
  let ?delta = "from_bytes_be ?S (rr_blind_delta_srv r)"
  have same: "dp_stark (rp_deps p) = ?S" "dp_curve (rp_deps p) = ?C" "dp_keccak (rp_deps p) = le_keccak env"
    using assms(4) by (simp_all add: legacy_trusts_def Let_def)
  have S: "stark_field_ok ?S" "stark_ok ?S" using assms(1) same by (simp_all add: deps_ok_def stark_field_ok_def)
  have C: "curve_ok ?C" using assms(2) same by simp
  obtain state where st: "lw_state w = Some state"
    and parse: "parse_blinding ?S (ns_balance_blinding state) = Inr (br_current_blinding b)"
    and anon: "br_anon_commitment b = commit ?S ?C (ns_current_balance state)
       (add_blinding ?S (br_current_blinding b) (br_user_rerandomization b))"
    and felts: "commitment_felts env (br_anon_commitment b) = Inr (r1_anon_commitment_x (aq_public_inputs (br_request b)),
       r1_anon_commitment_y (aq_public_inputs (br_request b)))"
    and ident: "r1_protocol_version (aq_public_inputs (br_request b)) = ns_protocol_version state"
      "r1_chain_id (aq_public_inputs (br_request b)) = ns_chain_id state"
      "r1_contract_address (aq_public_inputs (br_request b)) = ns_contract_address state"
    and funds: "r1_solvency_bound (aq_public_inputs (br_request b)) \<le> ns_current_balance state"
    using assms(5) by (rule legacy_build_request_Inr)
  have point: "reconstruct_affine_point (rp_deps p) (r1_anon_commitment_x (aq_public_inputs (br_request b)))
      (r1_anon_commitment_y (aq_public_inputs (br_request b))) = Some (br_anon_commitment b)"
    using commitment_felts_point [OF felts S(2) C] by (simp add: reconstruct_affine_point_def same)
  note reply = served_reply [OF assms(1-3,6,7) point, unfolded same]
  have felts': "commitment_felts env (server_update ?S ?C (br_anon_commitment b) (rr_charge_applied r) ?delta)
      = Inr (cp_x (rr_next_commitment r), cp_y (rr_next_commitment r))"
    using reply(9) by (auto simp: commitment_felts_def)
  have charge: "rr_charge_applied r \<le> ns_current_balance state" using reply(1,2) funds by order
  have trust: "(if cc_policy_enabled (lw_config w) then cc_policy_charge_cap (lw_config w)
      else cc_request_charge_cap (lw_config w)) = charge_cap (rp_config p)"
    "state_epoch ?sn \<noteq> 0" "\<not> is_zero (signer_state_root ?S ?sn)"
    "lookup_state_root (cc_trusted_epoch_roots (lw_config w)) (state_epoch ?sn) = Some (signer_state_root ?S ?sn)"
    using assms(4) same by (simp_all add: legacy_trusts_def charge_cap_def Let_def)
  have shape: "validate_for_height (rr_next_state_sig r) (length (auth_path (rr_next_state_sig r))) = Inr ()"
    using reply(7) by (simp add: xmss_verify_def split: sum.splits)
  have verify: "verify_request_response env w r (br_anon_commitment b) = Inr ()"
    using st reply(1,4-8,10-12) assms(8) felts' trust shape
    by (simp add: verify_request_response_def bail_if_def Let_def ident not_less)
  let ?next = "add_blinding ?S (add_blinding ?S (br_current_blinding b) (br_user_rerandomization b)) ?delta"
  obtain nxt where nxt: "legacy_next_state ?S state r (br_current_blinding b) (br_user_rerandomization b) = Inr nxt"
    "ns_current_balance nxt = ns_current_balance state - rr_charge_applied r"
    "ns_balance_blinding nxt = blinding_hex ?S ?next"
    "ns_current_commitment_x nxt = cp_x (rr_next_commitment r)" "ns_current_commitment_y nxt = cp_y (rr_next_commitment r)"
    using charge by (simp add: legacy_next_state_def checked_sub_def)
  have "commitment_felts env (commit ?S ?C (ns_current_balance nxt) ?next) =
      Inr (ns_current_commitment_x nxt, ns_current_commitment_y nxt)"
    using felts' server_update_commit [OF S(1) C charge] by (simp add: anon nxt)
  then show ?thesis
    using that [OF st verify nxt(1) charge nxt(2) _ parse anon] parse_blinding_hex [OF S(2), of ?next] nxt(3) by simp
qed

text \<open>Recovery by identifier finds the reply, when the identifier was not used before.\<close>

lemma recover_by_client_id_served:
  assumes "deps_ok D" "charge_cap cfg < 2 ^ 63" "table_inv (st_table st)" "canonical (req_nullifier req)"
    and "row_of (st_table st) (req_nullifier req) = None"
    and "\<forall>row \<in> set (st_table st). row_client_request_id row \<noteq> Some (aq_client_request_id req)"
    and "process_request D cfg env st req = (st', Inr r)"
  shows "recover_by_client_id D False st' (aq_client_request_id req) =
    Inr \<lparr>rc_status = ''ok'', rc_nullifier_status = ''finalized'', rc_request_response = Some r\<rparr>"
proof -
  let ?n = "req_nullifier req" and ?id = "aq_client_request_id req"
  let ?rsv = "reserved_row (ev_now_reserve env) ?n ?id (aq_payload_hash req)"
  obtain tbl1 tr tbl2 where
      res: "reserve (ev_reserve_fault env) (ev_now_reserve env) (st_table st) ?n ?id (aq_payload_hash req) = (tbl1, Inr ())"
    and fin: "finalize (dp_json D) (ev_finalize_fault env) (ev_now_finalize env) tbl1 ?n tr = (tbl2, Inr ())"
    and tbl2: "st_table st' = tbl2"
    using assms(5,7) by (rule process_request_fresh) simp
  have tbl1: "tbl1 = st_table st @ [?rsv]" using res assms(5) by (simp add: reserve_cases split: if_splits)
  have inv1: "table_inv tbl1" using reserve_evolves [OF assms(3) res] by simp
  have "row_nullifier ?rsv = to_hex ?n" by (simp add: reserved_row_def empty_row_def)
  then have "row_of tbl1 ?n = Some ?rsv" using row_of_append [of ?rsv ?n "st_table st"] assms(5) by (simp add: tbl1)
  then have map: "tbl2 = map (\<lambda>r. if r = ?rsv then finalized_row (dp_json D) (ev_now_finalize env) tr r else r) tbl1"
    using fin by (auto simp: finalize_cases [OF inv1] split: if_splits)
  have reply: "owns tbl2 req" "answered (dp_json D) tbl2 r" "rr_request_nullifier r = ?n" "stored_reply r = r"
    using process_request_inv [OF assms(1,3,4,7)] charges_fit_cap [OF assms(2), of D] tbl2
    by (simp_all add: reply_ok_def)
  from reply(1-3) obtain row where row: "row_of tbl2 ?n = Some row" "row_status row = ''Finalized''"
    "row_client_request_id row = Some ?id" "rr_client_request_id r = ?id"
    "stored_reply r = build_response_from_record (row_to_record (dp_json D) row) ?id"
    by (auto simp: owns_def answered_def)
  note row = row(1-4) row(5) [unfolded reply(4)]
  have unique: "r1 = r2" if "r1 \<in> set tbl2" "row_client_request_id r1 = Some ?id" "r2 \<in> set tbl2"
      "row_client_request_id r2 = Some ?id" for r1 r2
  proof -
    have "r' = finalized_row (dp_json D) (ev_now_finalize env) tr ?rsv"
      if "r' \<in> set tbl2" "row_client_request_id r' = Some ?id" for r'
      using that assms(6) by (auto simp: map tbl1 split: if_splits)
    then show ?thesis using that by blast
  qed
  have mem: "row \<in> set tbl2" using row(1) by (auto simp: row_of_def find_Some_iff)
  obtain row' where "find (\<lambda>row. row_client_request_id row = Some ?id) tbl2 = Some row'"
    using mem row(3) by (cases "find (\<lambda>row. row_client_request_id row = Some ?id) tbl2") (auto simp: find_None_iff)
  moreover from this have "row' \<in> set tbl2" "row_client_request_id row' = Some ?id" by (auto simp: find_Some_iff)
  ultimately have "lookup_by_client_id (dp_json D) False tbl2 ?id = Some (row_to_record (dp_json D) row)"
    using unique mem row(3) by (auto simp: lookup_by_client_id_def)
  moreover have "tr_status (row_to_record (dp_json D) row) = Finalized"
    "tr_client_request_id (row_to_record (dp_json D) row) = Some ?id"
    using row(2,3) by (simp_all add: row_to_record_def str_to_status_def)
  ultimately show ?thesis using row(5) tbl2
    by (simp add: recover_by_client_id_def build_recovery_response_def)
qed

text \<open>The two routes of an exchange.\<close>

lemma post_request_served:
  assumes "wb_api_request W body = Inr req"
    and "create_router W env clock p \<lparr>hq_method = POST, hq_path = ''/v1/requests'', hq_body = body\<rparr> =
      (p', Some (JsonReply 200 (RequestBody r)))"
  obtains st' where "process_request (rp_deps p) (rp_config p) env (rp_state p) req = (st', Inr r)"
    "p' = p\<lparr>rp_state := st'\<rparr>"
  using assms by (auto simp: create_router_def endpoint_post_request handle_request_def Let_def
      split: prod.splits sum.splits failure.splits)

lemma get_request_recovers:
  assumes "CHR ''/'' \<notin> set i" "i \<noteq> []" "wb_percent_decode W i = Some i" "\<not> ev_lookup_fault env"
    and "recover_by_client_id (rp_deps p) False (rp_state p) i = Inr rec"
  shows "snd (create_router W env clock p \<lparr>hq_method = GET, hq_path = ''/v1/requests/'' @ i, hq_body = body\<rparr>) =
    Some (JsonReply 200 (RecoveryBody rec))"
  using endpoint_get_request [OF assms(1,2)] assms(3-5)
  by (simp add: create_router_def handle_recovery_by_id_def recovery_reply_def strip_body_def)

text \<open>How a reply reaches the client: as a status and a body, or not at all.\<close>

definition deliver :: "(reply_body \<Rightarrow> 'd) \<Rightarrow> 'd \<Rightarrow> http_response option \<Rightarrow> 'd http" where
  "deliver enc plain resp =
     (case resp of
        None \<Rightarrow> SendFailed
      | Some (JsonReply code body) \<Rightarrow> http.Reply (of_nat code) (enc body)
      | Some (PlainReply code) \<Rightarrow> http.Reply (of_nat code) plain)"

lemma legacy_flow_upto_send:
  assumes "legacy_paths_ok w" "disk (lw_journal_path w) = None"
    and "legacy_build_request env dr payload h root siblings w = Inr b" "journal_encodable (le_json env) (br_journal b)"
  obtains disk1 where "journal_read (le_json env) no_faults (lw_journal_path w) disk1 = Inr (Some (br_journal b))"
    "\<And>io' server. legacy_request_flow env no_faults io' dr server payload h root siblings (w, disk) =
       st_then ((w, disk1), http_text (server (cc_server_url (lw_config w) @ ''/v1/requests'') (br_request b)))
       (legacy_receive env io' b)"
proof -
  let ?j = "lw_journal_path w"
  obtain d where d: "journal_to_json (le_json env) (br_journal b) = Some d"
    "journal_from_json (le_json env) d = Some (br_journal b)" using assms(4) by (auto simp: journal_encodable_def)
  have "?j \<noteq> with_extension ?j ''tmp''" using assms(1) by (simp add: legacy_paths_ok_def Let_def)
  then obtain disk1 where disk1: "replace_file no_faults ?j d disk = (disk1, Inr ())" "disk1 ?j = Some d"
    by (rule replace_file_works [where json = d and disk = disk]) blast
  have "pj_exists (br_journal b)" using assms(3) by (rule legacy_build_request_Inr)
  then have "journal_read (le_json env) no_faults ?j disk1 = Inr (Some (br_journal b))"
    using disk1(2) d(2) by (simp add: journal_read_def read_to_string_def no_faults_def)
  moreover have "journal_read (le_json env) no_faults ?j disk = Inr None" using assms(2) by (simp add: journal_read_def)
  moreover have "journal_write (le_json env) no_faults ?j (br_journal b) disk = (disk1, Inr ())"
    using d(1) disk1(1) by (simp add: journal_write_def)
  ultimately show ?thesis using that [of disk1] assms(3) by (simp add: legacy_request_flow_def bail_if_def)
qed

text \<open>What the wallet does with a reply it accepts: the flow that receives it and the recovery after a loss.\<close>

lemma legacy_outcomes:
  assumes "stark_ok (le_stark env)" "legacy_paths_ok w" "disk (lw_journal_path w) = None"
    and built: "legacy_build_request env dr payload h root siblings w = Inr b"
    and "journal_encodable (le_json env) (br_journal b)" "lw_state w = Some state"
    and accepted: "verify_request_response env w r (br_anon_commitment b) = Inr ()"
      "legacy_next_state (le_stark env) state r (br_current_blinding b) (br_user_rerandomization b) = Inr nxt"
    and "le_state_to_json env nxt = Some d" "le_response_from_json env (enc (RequestBody r)) = Some r"
    and "le_recovery_from_json env (enc (RecoveryBody rec)) = Some rec"
    and "rc_nullifier_status rec = ''finalized''" "rc_request_response rec = Some r"
  obtains disk1 disk' where
    "legacy_request_flow env no_faults no_faults dr
       (\<lambda>_ _. deliver enc plain (Some (JsonReply 200 (RequestBody r)))) payload h root siblings (w, disk) =
       ((w\<lparr>lw_state := Some nxt\<rparr>, disk'), Inr r)"
    "legacy_request_flow env no_faults no_faults dr (\<lambda>_ _. deliver enc plain None) payload h root siblings (w, disk) =
       ((w, disk1), Inl (ServerError External))"
    "legacy_recover env no_faults (\<lambda>_. deliver enc plain (Some (JsonReply 200 (RecoveryBody rec)))) (w, disk1) =
       ((w\<lparr>lw_state := Some nxt\<rparr>, disk'), Inr (Some r))"
    "disk' (lw_journal_path w) = None" "disk' (lw_state_path w) = le_state_to_json env nxt"
proof -
  obtain disk1 where journal: "journal_read (le_json env) no_faults (lw_journal_path w) disk1 = Inr (Some (br_journal b))"
    and flow: "\<And>io' server. legacy_request_flow env no_faults io' dr server payload h root siblings (w, disk) =
       st_then ((w, disk1), http_text (server (cc_server_url (lw_config w) @ ''/v1/requests'') (br_request b)))
         (legacy_receive env io' b)"
    by (rule legacy_flow_upto_send [where disk = disk, OF assms(2,3) built assms(5)]) blast
  obtain disk' where install: "legacy_install env no_faults r (br_anon_commitment b) (br_user_rerandomization b)
      (br_current_blinding b) (w, disk1) = ((w\<lparr>lw_state := Some nxt\<rparr>, disk'), Inr ())"
    and files: "disk' (lw_journal_path w) = None" "disk' (lw_state_path w) = Some d"
    using legacy_install_works [OF assms(2,6) accepted assms(9), of disk1] by blast
  have "parse_blinding (le_stark env) (ns_balance_blinding state) = Inr (br_current_blinding b)"
    "br_anon_commitment b = commit (le_stark env) (le_curve env) (ns_current_balance state)
       (add_blinding (le_stark env) (br_current_blinding b) (br_user_rerandomization b))"
    "from_bytes_be (le_stark env) (pj_user_rerandomization (br_journal b)) = br_user_rerandomization b"
    using built assms(1,6) by (auto elim: legacy_build_request_Inr simp: stark_ok_def)
  then show ?thesis
    using that [of disk' disk1] install files journal assms(6,9-13)
    by (simp add: flow deliver_def http_text_def legacy_receive_def is_success_def legacy_recover_def Let_def)
qed

section \<open>The exchange\<close>

text \<open>The version 1 wallet and server complete an exchange. A wallet whose journal is absent and whose
  configuration trusts the server builds a request and posts it; its nullifier and its identifier are new to
  the server, the cap is below \<open>2 ^ 63\<close>, and the router answers with status 200 and a nonzero next anchor.
  If the reply arrives and no disk operation fails, the wallet accepts it: the charge is within the balance,
  the new balance is the old one less the charge, the stored commitment opens to it under the stored
  blinding, the state is on disk and the journal is gone. If the reply is lost on the way, the wallet keeps
  its old state and the journal, and recovering by the request's identifier leads to the very same state. The
  wallet of \<open>wallet.rs\<close> is not among its crate's modules and uses note fields that \<open>note_state.rs\<close> lacks, so
  this is a lemma about unused code.\<close>

lemma legacy_exchange_completes:
  fixes env :: "('f, 'g::ab_group_add, 'a, 'd) legacy_env"
  assumes "deps_ok (rp_deps p)" "curve_ok (dp_curve (rp_deps p))"
    and "keypair_inv (dp_stark (rp_deps p)) (state_keypair (st_signer (rp_state p)))"
    and "table_inv (st_table (rp_state p))" "legacy_trusts env w p"
    and "legacy_paths_ok w" "disk (lw_journal_path w) = None"
    and "\<forall>s. le_state_to_json env s \<noteq> None" "journal_encodable (le_json env) (br_journal b)"
    and "legacy_build_request env dr payload h root siblings w = Inr b"
    and "wb_api_request W body = Inr (br_request b)" "canonical (req_nullifier (br_request b))"
    and "row_of (st_table (rp_state p)) (req_nullifier (br_request b)) = None"
    and "\<forall>row \<in> set (st_table (rp_state p)). row_client_request_id row \<noteq> Some (ld_uuid dr)"
    and "create_router W renv clock p \<lparr>hq_method = POST, hq_path = ''/v1/requests'', hq_body = body\<rparr> =
           (p', Some (JsonReply 200 (RequestBody r)))"
    and "\<not> is_zero (rr_next_anchor r)" "le_response_from_json env (enc (RequestBody r)) = Some r"
    and "\<forall>rec. rc_request_response rec = Some r \<longrightarrow> le_recovery_from_json env (enc (RecoveryBody rec)) = Some rec"
    and "CHR ''/'' \<notin> set (ld_uuid dr)" "ld_uuid dr \<noteq> []" "wb_percent_decode W (ld_uuid dr) = Some (ld_uuid dr)"
    and "\<not> ev_lookup_fault renv'" "charge_cap (rp_config p) < 2 ^ 63"
  shows "\<exists>state nxt. lw_state w = Some state \<and> rr_charge_applied r \<le> ns_current_balance state \<and>
    ns_current_balance nxt = ns_current_balance state - rr_charge_applied r \<and>
    (\<exists>blinding. parse_blinding (le_stark env) (ns_balance_blinding nxt) = Inr blinding \<and>
       commitment_felts env (commit (le_stark env) (le_curve env) (ns_current_balance nxt) blinding) =
         Inr (ns_current_commitment_x nxt, ns_current_commitment_y nxt)) \<and>
    (\<exists>disk'. legacy_request_flow env no_faults no_faults dr
         (\<lambda>_ _. deliver enc plain (Some (JsonReply 200 (RequestBody r)))) payload h root siblings (w, disk) =
         ((w\<lparr>lw_state := Some nxt\<rparr>, disk'), Inr r) \<and>
       disk' (lw_journal_path w) = None \<and> disk' (lw_state_path w) = le_state_to_json env nxt) \<and>
    (\<exists>disk1 disk2. legacy_request_flow env no_faults no_faults dr
         (\<lambda>_ _. deliver enc plain None) payload h root siblings (w, disk) =
         ((w, disk1), Inl (ServerError External)) \<and>
       legacy_recover env no_faults (\<lambda>_. deliver enc plain (snd (create_router W renv' clock' p'
           \<lparr>hq_method = GET, hq_path = ''/v1/requests/'' @ ld_uuid dr, hq_body = body\<rparr>))) (w, disk1) =
         ((w\<lparr>lw_state := Some nxt\<rparr>, disk2), Inr (Some r)) \<and>
       disk2 (lw_journal_path w) = None \<and> disk2 (lw_state_path w) = le_state_to_json env nxt)"
proof -
  let ?D = "rp_deps p" and ?S = "le_stark env" and ?req = "br_request b"
  obtain st' where run: "process_request ?D (rp_config p) renv (rp_state p) ?req = (st', Inr r)"
    and p': "p' = p\<lparr>rp_state := st'\<rparr>"
    using assms(11,15) by (rule post_request_served)
  obtain state nxt where st: "lw_state w = Some state"
    and verify: "verify_request_response env w r (br_anon_commitment b) = Inr ()"
    and nxt: "legacy_next_state ?S state r (br_current_blinding b) (br_user_rerandomization b) = Inr nxt"
    and facts: "rr_charge_applied r \<le> ns_current_balance state"
      "ns_current_balance nxt = ns_current_balance state - rr_charge_applied r"
      "\<exists>blinding. parse_blinding ?S (ns_balance_blinding nxt) = Inr blinding \<and>
         commitment_felts env (commit ?S (le_curve env) (ns_current_balance nxt) blinding) =
           Inr (ns_current_commitment_x nxt, ns_current_commitment_y nxt)"
    by (rule legacy_verify_accepts [OF assms(1-3,5,10,13) run assms(16)]) blast
  obtain d where d: "le_state_to_json env nxt = Some d" using assms(8) by auto
  let ?rec = "\<lparr>rc_status = ''ok'', rc_nullifier_status = ''finalized'', rc_request_response = Some r\<rparr>"
  have id: "aq_client_request_id ?req = ld_uuid dr" using assms(10) by (auto elim: legacy_build_request_Inr)
  have "recover_by_client_id (rp_deps p') False (rp_state p') (ld_uuid dr) = Inr ?rec"
    using recover_by_client_id_served [OF assms(1,23,4,12,13) _ run] assms(14) id by (simp add: p')
  note get = get_request_recovers [OF assms(19-22) this, of clock' body]
  have "stark_ok ?S" using assms(1,5) by (simp add: deps_ok_def stark_field_ok_def legacy_trusts_def Let_def)
  then obtain disk1 disk' where outcomes: "legacy_request_flow env no_faults no_faults dr
      (\<lambda>_ _. deliver enc plain (Some (JsonReply 200 (RequestBody r)))) payload h root siblings (w, disk) =
      ((w\<lparr>lw_state := Some nxt\<rparr>, disk'), Inr r)"
    "legacy_request_flow env no_faults no_faults dr (\<lambda>_ _. deliver enc plain None) payload h root siblings (w, disk) =
      ((w, disk1), Inl (ServerError External))"
    "legacy_recover env no_faults (\<lambda>_. deliver enc plain (Some (JsonReply 200 (RecoveryBody ?rec)))) (w, disk1) =
      ((w\<lparr>lw_state := Some nxt\<rparr>, disk'), Inr (Some r))"
    "disk' (lw_journal_path w) = None" "disk' (lw_state_path w) = le_state_to_json env nxt"
    by (rule legacy_outcomes [where rec = ?rec and enc = enc and disk = disk and plain = plain,
        OF _ assms(6,7,10,9) st verify nxt d assms(17)])
      (use assms(18) in auto)
  show ?thesis unfolding get using st facts outcomes by blast
qed

text \<open>For the witness: documents that keep what was written, a prover that always succeeds, and a wallet
  whose note and request are those of the server's example.\<close>

datatype toy_doc = StateDoc LegacyNoteState | JournalDoc PendingRequestJournal | BodyDoc reply_body | NoDoc

definition toy_legacy_json :: "toy_doc client_json" where
  "toy_legacy_json = \<lparr>state_to_json = (\<lambda>_. None), state_from_json = (\<lambda>_. None),
     journal_to_json = (\<lambda>j. Some (JournalDoc j)),
     journal_from_json = (\<lambda>d. case d of JournalDoc j \<Rightarrow> Some j | _ \<Rightarrow> None),
     response_from_json = (\<lambda>_. None), error_from_json = (\<lambda>_. None), recovery_from_json = (\<lambda>_. None),
     clearance_from_json = (\<lambda>_. None)\<rparr>"

definition toy_legacy :: "(stark_felt, scalar_group, unit, toy_doc) legacy_env" where
  "toy_legacy = \<lparr>le_stark = toy_stark, le_curve = scalar_curve, le_poseidon = (\<lambda>_. 42),
     le_keccak = (\<lambda>_. replicate 32 0), le_json = toy_legacy_json,
     le_state_to_json = (\<lambda>s. Some (StateDoc s)),
     le_state_from_json = (\<lambda>d. case d of StateDoc s \<Rightarrow> Some s | _ \<Rightarrow> None),
     le_response_from_json = (\<lambda>d. case d of BodyDoc (RequestBody r) \<Rightarrow> Some r | _ \<Rightarrow> None),
     le_recovery_from_json = (\<lambda>d. case d of BodyDoc (RecoveryBody r) \<Rightarrow> Some r | _ \<Rightarrow> None),
     le_clearance_from_json = (\<lambda>d. case d of BodyDoc (ClearanceBody r) \<Rightarrow> Some r | _ \<Rightarrow> None),
     le_request_inputs = (\<lambda>_. Some toy_inputs), le_request_args = (\<lambda>_ _. Some ()),
     le_withdrawal_inputs = undefined, le_withdrawal_args = (\<lambda>_ _ _. None),
     le_prove = (\<lambda>_ _ h _. Some (h, [1, 2])), le_base64_encode = (\<lambda>_. ''AQI='')\<rparr>"

definition toy_legacy_note :: LegacyNoteState where
  "toy_legacy_note = NoteState.extend (new_from_deposit 1 1 0 7 5 2000000 10 ''0x0'' 2000000 0)
     \<lparr>ns_state_sig_epoch = None, ns_state_sig_root = None, ns_state_sig = None\<rparr>"

definition toy_legacy_wallet :: LegacyWallet where
  "toy_legacy_wallet = \<lparr>lw_config =
     \<lparr>cc_protocol_version = 1, cc_chain_id = 1, cc_contract_address = 0, cc_request_charge_cap = 1000000,
      cc_policy_charge_cap = 10000000, cc_policy_enabled = False, cc_server_url = ''http://localhost:3000'',
      cc_state_dir = [''wallet''],
      cc_trusted_epoch_roots = [\<lparr>er_epoch = 1, er_state_root = 1, er_clear_root = 1\<rparr>],
      cc_proof_mode = Groth16 '''', cc_state_signing_key = \<lparr>cp_x = 0, cp_y = 0\<rparr>,
      cc_clearance_signing_key = \<lparr>cp_x = 0, cp_y = 0\<rparr>\<rparr>,
     lw_cairo_dir = ''cairo'', lw_state = Some toy_legacy_note,
     lw_state_path = [''wallet'', ''note_state.json''], lw_journal_path = [''wallet'', ''pending_journal.json'']\<rparr>"

definition toy_legacy_draws :: legacy_draws where
  "toy_legacy_draws = \<lparr>ld_bytes = 0, ld_uuid = ''req-1'', ld_now_ms = 0\<rparr>"

lemma toy_hash_one: "length xs \<noteq> 4 \<Longrightarrow> poseidon_hash_many toy_stark xs = Abs_stark_felt 1"
  by (simp add: toy_stark_def)

lemma toy_one: "to_bytes_be toy_stark (Abs_stark_felt 1) = 1"
  by (simp add: toy_stark_def mod_stark_def Abs_stark_felt_inverse STARK_PRIME_def)

lemma toy_root: "root_felt toy_stark (generate_with_height toy_stark seed 2) = 1"
proof -
  have level: "xmss_level toy_stark xs ! 0 = Abs_stark_felt 1" if "xs \<noteq> []" for xs
  proof -
    have "0 < (length xs + 1) div 2" using that by (cases xs) simp_all
    then show ?thesis by (simp add: xmss_level_def xmss_node_hash_def toy_hash_one)
  qed
  have "xmss_level toy_stark xs \<noteq> []" if "xs \<noteq> []" for xs
    using that by (cases xs) (simp_all add: xmss_level_def)
  moreover have "[0..<2] = [0, Suc 0]" by (simp add: upt_rec)
  moreover have "unat (push_bit 2 1 :: u32) = 4" by simp
  ultimately show ?thesis
    by (simp add: root_felt_def generate_with_height_def Let_def toy_one [unfolded One_nat_def] level
        del: push_bit_numeral)
qed

lemma toy_zero_blinding:
  "felt_from_u128 toy_stark 0 = Abs_stark_felt 0" "sample_field_element toy_stark 0 = Abs_stark_felt 0"
  "add_blinding toy_stark (Abs_stark_felt 0) (Abs_stark_felt 0) = Abs_stark_felt 0"
proof -
  have zero: "to_biguint toy_stark (Abs_stark_felt 0) = 0" "from_bytes_be toy_stark 0 = Abs_stark_felt 0"
    by (simp_all add: to_biguint_def toy_stark_def mod_stark_def Abs_stark_felt_inverse STARK_PRIME_def)
  have "biguint_to_felt toy_stark 0 = Abs_stark_felt 0"
    using zero(2) by (simp add: biguint_to_felt_def felt_of_bytes_def be_value_digits)
  then show "sample_field_element toy_stark 0 = Abs_stark_felt 0"
    "add_blinding toy_stark (Abs_stark_felt 0) (Abs_stark_felt 0) = Abs_stark_felt 0"
    using zero by (simp_all add: sample_field_element_def reduce_blinding_def add_blinding_def)
  show "felt_from_u128 toy_stark 0 = Abs_stark_felt 0"
  proof -
    have "from_u128 0 = 0" by code_simp
    then show ?thesis using zero(2) by (simp add: felt_from_u128_def)
  qed
qed

lemma toy_legacy_blinding: "parse_blinding toy_stark ''0x0'' = Inr (Abs_stark_felt 0)"
proof -
  have "sol_hex_literal (replicate 64 CHR ''0'') = Some (replicate 32 0)" by code_simp
  moreover have "pad_left0 64 ''0'' = replicate 64 CHR ''0''" by code_simp
  ultimately show ?thesis
    by (simp add: parse_blinding_def strip_prefix_def decode_to_slice_def)
      (simp add: toy_stark_def mod_stark_def felt_of_bytes_def)
qed

lemma toy_legacy_felts:
  "commitment_felts toy_legacy (commit toy_stark scalar_curve 2000000 (Abs_stark_felt 0)) = Inr (2000000, 0)"
proof -
  have "commit toy_stark scalar_curve 2000000 (felt_from_u128 toy_stark 0) = Abs_scalar_group 2000000"
    using nsmul_generator [of 2000000]
    by (simp add: commit_eq [OF toy_stark_ok] to_biguint_from_u128 [OF toy_stark_ok] scalar_curve_def CURVE_ORDER_def)
  then show ?thesis
    by (simp add: commitment_felts_def toy_legacy_def toy_zero_blinding)
      (simp add: scalar_curve_def toy_stark_def mod_stark_def Abs_stark_felt_inverse STARK_PRIME_def
        Abs_scalar_group_inverse CURVE_ORDER_def Rep_scalar_group_inject [symmetric] zero_scalar_group.rep_eq)
qed

lemma toy_legacy_fields [simp]:
  "le_stark toy_legacy = toy_stark" "le_curve toy_legacy = scalar_curve" "le_json toy_legacy = toy_legacy_json"
  "le_keccak toy_legacy = (\<lambda>_. replicate 32 0)" "lw_state toy_legacy_wallet = Some toy_legacy_note"
  "ns_balance_blinding toy_legacy_note = ''0x0''" "ns_current_balance toy_legacy_note = 2000000"
  "ld_bytes toy_legacy_draws = 0" "ld_uuid toy_legacy_draws = ''req-1''"
  by (simp_all add: toy_legacy_def toy_legacy_wallet_def toy_legacy_note_def new_from_deposit_def NoteState.defs
      toy_legacy_draws_def)

lemma toy_legacy_built:
  "\<exists>b. legacy_build_request toy_legacy toy_legacy_draws ''hello'' 0 0 (replicate 32 0) toy_legacy_wallet = Inr b \<and>
    br_request b = toy_request"
proof -
  have "field_to_felt 42 = 42" by code_simp
  then have "compute_nullifier (le_poseidon toy_legacy) s a = 42" for s a
    by (simp add: toy_legacy_def compute_nullifier_def nullifier_def hash_domain_def)
  moreover have "generate_request_proof_artifact toy_legacy w builder sg =
      Inr \<lparr>pa_backend = StwoCairo, pa_public_output_hash = 0, pa_proof = ''AQI=''\<rparr>" for w builder sg
    by (simp add: generate_request_proof_artifact_def r1_public_output_hash_def hash_felts_to_felt_def toy_hash)
      (simp add: toy_legacy_def proof_artifact_to_wire_def)
  ultimately show ?thesis
    by (simp add: legacy_build_request_def solvency_bound_def bail_if_def siblings_from_vec_def MERKLE_DEPTH_def
        state_sig_reference_def Let_def canonical_payload_hash_def toy_hash toy_legacy_blinding toy_zero_blinding
        toy_legacy_felts)
      (simp add: toy_legacy_wallet_def toy_legacy_note_def new_from_deposit_def NoteState.defs toy_request_def
        toy_inputs_def ZERO_def)
qed

lemma toy_legacy_trusts:
  assumes "processor_inv toy_deps toy_config p"
  shows "legacy_trusts toy_legacy toy_legacy_wallet p"
proof -
  have "durable_inv toy_stark (signer_cfg toy_stark toy_config) (st_signer (rp_state p))"
    "rp_config p = toy_config" "rp_deps p = server_deps toy_deps"
    using assms by (simp_all add: processor_inv_def toy_deps_def)
  moreover from this have "signer_state_root toy_stark (st_signer (rp_state p)) = 1"
    "state_epoch (st_signer (rp_state p)) = 1"
    by (simp_all add: durable_inv_def keys_ok_def signer_state_root_def signer_cfg_def toy_config_def
        ServerConfig_default_def toy_root)
  moreover have "\<not> is_zero 1" by code_simp
  ultimately show ?thesis
    by (simp add: legacy_trusts_def Let_def server_deps_def toy_deps_def toy_config_def ServerConfig_default_def)
      (simp add: toy_legacy_wallet_def lookup_state_root_def)
qed

text \<open>An instance: the started server of the example and a wallet whose request is its request.\<close>

lemma legacy_exchange_example:
  "\<exists>d1 p p' r disk1 w'. run_server toy_deps no_boot_faults toy_config Map.empty = (d1, Inr p) \<and>
    create_router toy_web toy_env 0 p toy_post = (p', Some (JsonReply 200 (RequestBody r))) \<and>
    ns_current_balance (the (lw_state w')) = 2000000 - rr_charge_applied r \<and>
    legacy_request_flow toy_legacy no_faults no_faults toy_legacy_draws
      (\<lambda>_ _. deliver BodyDoc NoDoc (Some (JsonReply 200 (RequestBody r)))) ''hello'' 0 0 (replicate 32 0)
      (toy_legacy_wallet, \<lambda>_. None) = ((w', disk1), Inr r) \<and>
    disk1 (lw_journal_path toy_legacy_wallet) = None"
proof -
  obtain d1 p where run: "run_server toy_deps no_boot_faults toy_config Map.empty = (d1, Inr p)"
    and p: "processor_inv toy_deps toy_config p" "st_table (rp_state p) = []"
      "\<not> operation_lock_poisoned (st_signer (rp_state p))" "durable_count (st_signer (rp_state p)) StateTree = 0"
    by (rule toy_started)
  obtain p' r where post: "create_router toy_web toy_env 0 p toy_post = (p', Some (JsonReply 200 (RequestBody r)))"
    using toy_posted [OF p] by blast
  obtain b where b: "legacy_build_request toy_legacy toy_legacy_draws ''hello'' 0 0 (replicate 32 0) toy_legacy_wallet = Inr b"
    "br_request b = toy_request" using toy_legacy_built by blast
  have deps: "rp_deps p = server_deps toy_deps" "rp_config p = toy_config" using p(1) by (simp_all add: processor_inv_def)
  have D: "dp_stark (rp_deps p) = toy_stark" "dp_curve (rp_deps p) = scalar_curve"
    by (simp_all add: deps server_deps_def toy_deps_def)
  have kp: "keypair_inv (dp_stark (rp_deps p)) (state_keypair (st_signer (rp_state p)))"
    using p(1) by (simp add: processor_inv_def durable_inv_def keys_ok_def deps)
  have tbl: "table_inv (st_table (rp_state p))" using p(1) by (simp add: processor_inv_def)
  have ok: "deps_ok (rp_deps p)" "curve_ok (dp_curve (rp_deps p))"
    using toy_app_ok(2) scalar_curve_ok D by (simp_all add: deps)
  have row: "row_of (st_table (rp_state p)) n = None" for n using p(2) by (simp add: row_of_def)
  have post': "create_router toy_web toy_env 0 p \<lparr>hq_method = POST, hq_path = ''/v1/requests'', hq_body = toy_request\<rparr> =
      (p', Some (JsonReply 200 (RequestBody r)))" using post by (simp add: toy_post_def)
  obtain st' where served: "process_request (rp_deps p) (rp_config p) toy_env (rp_state p) toy_request = (st', Inr r)"
    by (rule post_request_served [OF _ post']) (simp_all add: toy_web_def)
  have "reconstruct_affine_point (rp_deps p) 2000000 0 = Some (commit toy_stark scalar_curve 2000000 (felt_from_u128 toy_stark 0))"
    using toy_point by (simp add: deps)
  from served_reply(13) [OF ok kp row served] this D
  have "rr_next_anchor r = 1"
    by (auto simp: compute_next_anchor_def poseidon_hash_chain_def toy_hash_one toy_one [unfolded One_nat_def])
  then have anchor: "\<not> is_zero (rr_next_anchor r)" by (simp add: is_zero_def)
  have paths: "legacy_paths_ok toy_legacy_wallet"
    by (simp add: legacy_paths_ok_def toy_legacy_wallet_def with_extension_def file_stem_def)
  have docs: "\<forall>s. le_state_to_json toy_legacy s \<noteq> None" "journal_encodable (le_json toy_legacy) (br_journal b)"
    "le_response_from_json toy_legacy (BodyDoc (RequestBody r)) = Some r"
    "\<forall>rec. rc_request_response rec = Some r \<longrightarrow> le_recovery_from_json toy_legacy (BodyDoc (RecoveryBody rec)) = Some rec"
    by (simp_all add: journal_encodable_def toy_legacy_json_def) (simp_all add: toy_legacy_def)
  have web: "wb_api_request toy_web toy_request = Inr (br_request b)" "canonical (req_nullifier (br_request b))"
    "\<forall>row \<in> set (st_table (rp_state p)). row_client_request_id row \<noteq> Some (ld_uuid toy_legacy_draws)"
    using b(2) p(2) by (simp_all add: toy_web_def canonical_def field_modulus_def)
  have uuid: "CHR ''/'' \<notin> set (ld_uuid toy_legacy_draws)" "ld_uuid toy_legacy_draws \<noteq> []"
    "wb_percent_decode toy_web (ld_uuid toy_legacy_draws) = Some (ld_uuid toy_legacy_draws)" "\<not> ev_lookup_fault toy_env"
    "charge_cap (rp_config p) < 2 ^ 63"
    by (simp_all add: toy_web_def deps)
  note main = legacy_exchange_completes [where disk = "\<lambda>_. None" and plain = NoDoc and clock' = 0,
      OF ok kp tbl toy_legacy_trusts [OF p(1)] paths refl docs(1,2) b(1) web(1,2) row web(3) post' anchor docs(3,4) uuid]
  then obtain nxt disk1 where "ns_current_balance nxt = 2000000 - rr_charge_applied r"
    "legacy_request_flow toy_legacy no_faults no_faults toy_legacy_draws
      (\<lambda>_ _. deliver BodyDoc NoDoc (Some (JsonReply 200 (RequestBody r)))) ''hello'' 0 0 (replicate 32 0)
      (toy_legacy_wallet, \<lambda>_. None) = ((toy_legacy_wallet\<lparr>lw_state := Some nxt\<rparr>, disk1), Inr r)"
    "disk1 (lw_journal_path toy_legacy_wallet) = None"
    by auto
  then show ?thesis using run post by fastforce
qed

end
