(* ===== verification/Cli.thy ===== *)
theory Cli
  imports Server_App Client_Store
begin

text \<open>
  The command line (\<open>zkapi-cli/src/main.rs\<close>). Only \<open>server\<close> does more than print: it starts the version
  1 server. A run is the lines it prints, the database files and how it ends. The 31 random bytes of
  \<open>keygen\<close> and Rust's quoting of a path for \<open>{:?}\<close> are arguments; argument parsing is the library's.
\<close>

section \<open>Commands\<close>

datatype Commands =
    Keygen
  | Deposit u128
  | ConfirmDeposit u32 u128 u64
  | Request string
  | Withdraw string
  | EscapeWithdraw string
  | Recover
  | Status
  | Server string string string string u32 nat string
  | Indexer string

record Cli =
  cli_state_dir :: string
  cli_server_url :: string
  cli_command :: Commands

text \<open>The default values of the options.\<close>

definition default_state_dir :: string where
  "default_state_dir = ''.zkapi''"

definition default_server_url :: string where
  "default_server_url = ''http://localhost:3000''"

definition default_server :: Commands where
  "default_server = Server ''0.0.0.0:3000'' ''zkapi-server.db'' ''0x1'' ''0x2'' 1 XMSS_TREE_HEIGHT ''0x0''"

definition default_indexer :: Commands where
  "default_indexer = Indexer ''0.0.0.0:3001''"

text \<open>How \<open>main\<close> ends, or goes on: serving requests, or waiting for an interrupt.\<close>

datatype cli_option = StateSeed | ClearSeed | InitialRoot

datatype ('f, 'g) cli_end =
    Done
  | CliPanicked
  | InvalidOption cli_option felt_error
  | ServerFailed start_error
  | Serving "('f, 'g) RequestProcessor"
  | AwaitInterrupt


section \<open>Main\<close>

definition keygen_secret :: "u8 list \<Rightarrow> felt" where
  "keygen_secret bytes = felt_of_bytes (0 # bytes)"

definition keygen_lines :: "poseidon \<Rightarrow> felt \<Rightarrow> string list" where
  "keygen_lines P secret =
     [''Secret:     '' @ to_hex secret,
      ''Commitment: '' @ to_hex (compute_registration_commitment P secret),
      CHR 0x0A # ''Save the secret securely. Use the commitment for on-chain deposit.'']"

definition deposit_lines :: "u128 \<Rightarrow> string list" where
  "deposit_lines amount =
     [''To deposit '' @ decimal (unat amount) @ '' tokens:'',
      ''1. Run `zkapi keygen` to get a commitment'',
      ''2. Call ZkApiVault.deposit(commitment, amount, siblings) on-chain'',
      ''3. After tx confirms, run `zkapi confirm-deposit --note-id <id> --amount '' @ decimal (unat amount) @
        '' --expiry-ts <ts>`'']"

definition confirm_lines :: "u32 \<Rightarrow> u128 \<Rightarrow> u64 \<Rightarrow> string list" where
  "confirm_lines note_id amount expiry_ts =
     [''Note '' @ decimal (unat note_id) @ '' confirmed: amount='' @ decimal (unat amount) @
        '', expiry='' @ decimal (unat expiry_ts),
      ''Wallet state saved. You can now make API requests.'']"

text \<open>\<open>&payload[..payload.len().min(50)]\<close>.\<close>

definition payload_preview :: "string \<Rightarrow> string option" where
  "payload_preview payload = str_slice payload 0 (min (length payload) 50)"

definition seed_option :: "cli_option \<Rightarrow> string \<Rightarrow> ('f, 'g) cli_end + felt" where
  "seed_option opt text =
     map_err (\<lambda>e. if e = SlicePanic then CliPanicked else InvalidOption opt e) (from_hex text)"

definition server_config ::
    "string \<Rightarrow> string \<Rightarrow> felt \<Rightarrow> felt \<Rightarrow> u32 \<Rightarrow> nat \<Rightarrow> felt \<Rightarrow> ServerConfig" where
  "server_config listen db_path state_seed clear_seed epoch xmss_height initial_root =
     ServerConfig_default\<lparr>cf_listen_addr := listen, cf_db_path := db_path, cf_state_seed := state_seed,
       cf_clear_seed := clear_seed, cf_epoch := epoch, cf_xmss_height := xmss_height,
       cf_initial_root := initial_root\<rparr>"

definition run_server_command ::
    "('f, 'g) deps \<Rightarrow> boot_faults \<Rightarrow> string \<Rightarrow> string \<Rightarrow> string \<Rightarrow> string \<Rightarrow> u32 \<Rightarrow> nat \<Rightarrow> string \<Rightarrow> db_disk \<Rightarrow>
     db_disk \<times> ('f, 'g) cli_end" where
  "run_server_command D bf listen db_path state_seed clear_seed epoch xmss_height initial_root d =
     (case and_then (seed_option StateSeed state_seed) (\<lambda>s.
           and_then (seed_option ClearSeed clear_seed) (\<lambda>c.
           and_then (seed_option InitialRoot initial_root) (\<lambda>root.
           Inr (server_config listen db_path s c epoch xmss_height root)))) of
        Inl e \<Rightarrow> (d, e)
      | Inr config \<Rightarrow>
          (case run_server D bf config d of
             (d', Inl e) \<Rightarrow> (d', ServerFailed e)
           | (d', Inr p) \<Rightarrow> (d', Serving p)))"

definition cli_main ::
    "('f, 'g) deps \<Rightarrow> poseidon \<Rightarrow> (string \<Rightarrow> string) \<Rightarrow> boot_faults \<Rightarrow> u8 list \<Rightarrow> Cli \<Rightarrow> db_disk \<Rightarrow>
     db_disk \<times> string list \<times> ('f, 'g) cli_end" where
  "cli_main D P debug bf random cli d =
     (case cli_command cli of
        Keygen \<Rightarrow> (d, keygen_lines P (keygen_secret random), Done)
      | Deposit amount \<Rightarrow> (d, deposit_lines amount, Done)
      | ConfirmDeposit note_id amount expiry_ts \<Rightarrow> (d, confirm_lines note_id amount expiry_ts, Done)
      | Request payload \<Rightarrow>
          (case payload_preview payload of
             None \<Rightarrow> (d, [], CliPanicked)
           | Some preview \<Rightarrow>
               (d, [''Sending request with payload: '' @ preview @ ''...'',
                    ''(Mock mode: request would be sent to '' @ cli_server_url cli @ '')''], Done))
      | Withdraw destination \<Rightarrow> (d, [''Initiating mutual-close withdrawal to '' @ destination], Done)
      | EscapeWithdraw destination \<Rightarrow> (d, [''Initiating escape-hatch withdrawal to '' @ destination], Done)
      | Recover \<Rightarrow> (d, [''Checking for pending requests...'', ''No pending requests found.''], Done)
      | Status \<Rightarrow>
          (d, [''Wallet state directory: '' @ debug (cli_state_dir cli),
               ''No active note found. Run `zkapi deposit` to get started.''], Done)
      | Server listen db_path state_seed clear_seed epoch xmss_height initial_root \<Rightarrow>
          (case run_server_command D bf listen db_path state_seed clear_seed epoch xmss_height initial_root d of
             (d', e) \<Rightarrow> (d', [''Starting zkAPI server on '' @ listen @ '' with DB at '' @ db_path], e))
      | Indexer listen \<Rightarrow>
          (d, [''Starting zkAPI indexer on '' @ listen, ''Indexer running (mock mode).''], AwaitInterrupt))"


section \<open>The server command\<close>

text \<open>With its default options and a working disk the command serves requests, on the default
  configuration but for the name of the database.\<close>

lemma default_server_serves:
  assumes "d ''zkapi-server.db'' = None"
  shows "\<exists>d' p. cli_main D P debug no_boot_faults random
      \<lparr>cli_state_dir = default_state_dir, cli_server_url = default_server_url, cli_command = default_server\<rparr> d =
      (d', [''Starting zkAPI server on 0.0.0.0:3000 with DB at zkapi-server.db''], Serving p) \<and>
    processor_inv D (ServerConfig_default\<lparr>cf_db_path := ''zkapi-server.db''\<rparr>) p \<and> st_table (rp_state p) = []"
proof -
  let ?cfg = "server_config ''0.0.0.0:3000'' ''zkapi-server.db'' 1 2 1 XMSS_TREE_HEIGHT 0"
  have hex: "from_hex ''0x1'' = Inr 1" "from_hex ''0x2'' = Inr 2" "from_hex ''0x0'' = Inr 0" by code_simp+
  have "from_u64 1 = 1" "from_u64 2 = 2" by code_simp+
  then have cfg: "?cfg = ServerConfig_default\<lparr>cf_db_path := ''zkapi-server.db''\<rparr>"
    by (simp add: server_config_def ServerConfig_default_def ZERO_def)
  have h: "cf_xmss_height ?cfg < 32" "persistent (cf_db_path ?cfg)"
    by (simp_all add: server_config_def XMSS_TREE_HEIGHT_def persistent_def)
  have path: "cf_db_path ?cfg = ''zkapi-server.db''" by (simp add: server_config_def)
  have empty: "open_db d (cf_db_path ?cfg) = empty_db" using assms by (simp add: path open_db_def)
  then have inv: "db_inv D ?cfg (open_db d (cf_db_path ?cfg))" by (simp add: db_inv_def)
  obtain d' p where run: "run_server D no_boot_faults ?cfg d = (d', Inr p)"
    using run_server_starts(1) [OF h inv] by blast
  from run_server_starts(2) [OF h inv run] have "processor_inv D ?cfg p" "st_table (rp_state p) = []"
    by (simp_all add: empty) (simp add: empty_db_def)
  then show ?thesis using run hex
    by (auto simp: cli_main_def default_server_def run_server_command_def seed_option_def cfg)
qed


section \<open>Property\<close>

text \<open>Claim C38. The preview of \<open>zkapi request\<close> is cut at byte 50, not at a character. The command
  panics exactly when the payload is longer than 50 bytes and byte 50 lies inside a character; in every
  other case it prints the payload's first 50 bytes and ends normally.\<close>

theorem request_preview_panics:
  "cli_main D P debug bf random \<lparr>cli_state_dir = dir, cli_server_url = url, cli_command = Request payload\<rparr> d =
    (if 50 < length payload \<and> continuation (payload ! 50) then (d, [], CliPanicked)
     else (d, [''Sending request with payload: '' @ take 50 payload @ ''...'',
               ''(Mock mode: request would be sent to '' @ url @ '')''], Done))"
proof -
  have "payload_preview payload =
      (if 50 < length payload \<and> continuation (payload ! 50) then None else Some (take 50 payload))"
    by (auto simp: payload_preview_def str_slice_def is_char_boundary_def min_def)
  then show ?thesis by (simp add: cli_main_def)
qed

end
