(* ===== verification/Wallet_Safety.thy ===== *)
theory Wallet_Safety
  imports Wallet_V2
begin

text \<open>
  What the wallet guarantees. \<open>note_inv\<close> is the invariant of a note state: its commitment opens to its
  balance, blinding and note, and it is either unused or carries a valid server signature. The first
  sections show that every accepted response keeps it and that a note with it can be proved; then the
  wallet with its disk is a step relation with failures and restarts. The properties are in
  \<open>Wallet_Properties\<close>.
\<close>

section \<open>The invariant of a note\<close>

definition state_canonical :: "NoteState \<Rightarrow> bool" where
  "state_canonical s \<longleftrightarrow>
     canonical (ns_contract_address s) \<and> canonical (ns_secret_s s) \<and> canonical (ns_current_commitment_x s) \<and>
     canonical (ns_current_commitment_y s) \<and> canonical (ns_current_anchor s) \<and>
     (\<forall>sig. ns_state_signature s = Some sig \<longrightarrow> canonical (r_x sig) \<and> canonical (r_y sig) \<and> canonical (sig_s sig))"

definition note_signed :: "('e::ab_group_add, 'd) client_env \<Rightarrow> ClientConfig \<Rightarrow> NoteState \<Rightarrow> bool" where
  "note_signed env config s \<longleftrightarrow>
     (\<exists>sig. ns_state_signature s = Some sig \<and>
        compact_verify_signature (ce_curve env) (ce_poseidon env) (cc_state_signing_key config)
          (state_message (ce_poseidon env) (ns_protocol_version s) (ns_chain_id s) (ns_contract_address s)
             (ns_current_commitment_x s) (ns_current_commitment_y s) (ns_current_anchor s)) sig = Inr True)"

definition note_opens :: "('e::ab_group_add, 'd) client_env \<Rightarrow> NoteState \<Rightarrow> felt \<Rightarrow> bool" where
  "note_opens env s b \<longleftrightarrow>
     parse_scalar (ns_balance_blinding s) = Inr b \<and>
     compact_balance_commitment (ce_curve env) (ns_current_balance s) b (state_note_leaf (ce_poseidon env) s)
       = \<lparr>cp_x = ns_current_commitment_x s, cp_y = ns_current_commitment_y s\<rparr>"

definition note_inv :: "('e::ab_group_add, 'd) client_env \<Rightarrow> ClientConfig \<Rightarrow> NoteState \<Rightarrow> bool" where
  "note_inv env config s \<longleftrightarrow>
     state_canonical s \<and> ns_secret_s s \<noteq> 0 \<and> ns_current_balance s \<le> ns_deposit_amount s \<and>
     (\<exists>b. note_opens env s b) \<and>
     (if ns_is_genesis s
      then ns_current_anchor s = ONE \<and> ns_current_balance s = ns_deposit_amount s \<and> ns_state_signature s = None
      else note_signed env config s)"

text \<open>Responses are read from JSON, which refuses non-canonical field elements.\<close>

definition response_canonical :: "RequestResponseV2 \<Rightarrow> bool" where
  "response_canonical r \<longleftrightarrow> canonical (rr2_next_anchor r) \<and> canonical (r_x (rr2_next_state_signature r)) \<and>
     canonical (r_y (rr2_next_state_signature r)) \<and> canonical (sig_s (rr2_next_state_signature r))"

text \<open>The field elements of a journal entry.\<close>

definition request_canonical :: "ApiRequestV2 \<Rightarrow> bool" where
  "request_canonical r \<longleftrightarrow> (let p = aq2_public_inputs r in
     canonical (aq2_payload_hash r) \<and> canonical (r2_contract_address p) \<and> canonical (r2_active_root p) \<and>
     canonical (r2_state_signing_key_x p) \<and> canonical (r2_state_signing_key_y p) \<and>
     canonical (r2_request_nullifier p) \<and> canonical (r2_authorization_tag p) \<and>
     canonical (r2_anonymous_commitment_x p) \<and> canonical (r2_anonymous_commitment_y p))"

definition journal_canonical :: "PendingRequestJournal \<Rightarrow> bool" where
  "journal_canonical j \<longleftrightarrow> canonical (pj_nullifier j) \<and> canonical (pj_payload_hash j) \<and>
     canonical (pj_user_rerandomization j) \<and> (\<forall>r. pj_prepared_request j = Some r \<longrightarrow> request_canonical r)"

text \<open>The laws of the environment: curve and hashes as before, serialisation of canonical values, and
  valid pinned keys.\<close>

definition env_ok :: "('e::ab_group_add, 'd) client_env \<Rightarrow> bool" where
  "env_ok env \<longleftrightarrow> edwards_wire_ok (ce_curve env) \<and> poseidon_ok (ce_poseidon env) \<and> keccak_ok (ce_keccak env) \<and>
     (\<forall>s. state_canonical s \<longrightarrow> state_encodable (ce_json env) s) \<and>
     (\<forall>j. journal_canonical j \<longrightarrow> journal_encodable (ce_json env) j) \<and>
     (\<forall>d r. response_from_json (ce_json env) d = Some r \<longrightarrow> response_canonical r) \<and>
     (\<forall>d rc r. recovery_from_json (ce_json env) d = Some rc \<and> rc2_request_response rc = Some r \<longrightarrow> response_canonical r)"

definition keys_ok :: "('e::ab_group_add, 'd) client_env \<Rightarrow> ClientConfig \<Rightarrow> bool" where
  "keys_ok env config \<longleftrightarrow>
     (\<exists>k. point_from_wire (ce_curve env) (cc_state_signing_key config) = Inr k) \<and>
     (\<exists>k. point_from_wire (ce_curve env) (cc_clearance_signing_key config) = Inr k)"

definition config_ok :: "('e::ab_group_add, 'd) client_env \<Rightarrow> ClientConfig \<Rightarrow> bool" where
  "config_ok env config \<longleftrightarrow> canonical (cc_contract_address config) \<and>
     canonical (cp_x (cc_state_signing_key config)) \<and> canonical (cp_y (cc_state_signing_key config)) \<and>
     keys_ok env config"

definition wallet_cap :: "ClientConfig \<Rightarrow> u128" where
  "wallet_cap config = (if cc_policy_enabled config then cc_policy_charge_cap config else cc_request_charge_cap config)"

lemma parse_scalar_to_hex: "canonical f \<Longrightarrow> parse_scalar (to_hex f) = Inr f"
  by (simp add: parse_scalar_def from_hex_to_hex)

lemma canonical_add_blindings: "canonical (add_blindings a b)"
  by (simp add: add_blindings_def canonical_scalar_to_felt)

lemma canonical_commitment:
  assumes "edwards_wire_ok E"
  shows "canonical (cp_x (compact_balance_commitment E b r leaf))" "canonical (cp_y (compact_balance_commitment E b r leaf))"
  using edwards_wire_okD(2,3) [OF assms]
  by (simp_all add: compact_balance_commitment_def point_to_wire_def canonical_def unat_field_to_felt)

lemma note_opens_stored:
  "note_opens env s b \<Longrightarrow> ensure_stored_commitment s
     (compact_balance_commitment (ce_curve env) (ns_current_balance s) b (state_note_leaf (ce_poseidon env) s)) = Inr ()"
  by (simp add: note_opens_def ensure_stored_commitment_def bail_if_def)

lemma genesis_note_inv:
  assumes "env_ok env" "canonical secret" "secret \<noteq> 0" "canonical blinding" "canonical contract"
    and "com = compact_balance_commitment (ce_curve env) amount blinding
      (note_leaf (ce_poseidon env) note_id (registration_commitment (ce_poseidon env) secret) amount expiry)"
  shows "note_inv env config (new_from_deposit v chain contract note_id secret amount expiry (to_hex blinding) (cp_x com) (cp_y com))"
  using assms canonical_commitment [of "ce_curve env"]
  by (simp add: note_inv_def new_from_deposit_def state_canonical_def note_opens_def state_note_leaf_def
      parse_scalar_to_hex env_ok_def canonical_small)


section \<open>Responses\<close>

text \<open>What an accepted response does to the note.\<close>

lemma response_next_state_Inr:
  assumes env: "env_ok env" and s: "w_state w = Some s" "note_inv env (w_config w) s" "note_opens env s b"
    and anon: "anonymous = compact_balance_commitment (ce_curve env) (ns_current_balance s)
      (add_blindings b rho) (state_note_leaf (ce_poseidon env) s)"
    and nxt: "response_next_state env resp rid nul anonymous rho w = Inr s'" and canon: "response_canonical resp"
  shows "note_inv env (w_config w) s'" and "rr2_charge_applied resp \<le> wallet_cap (w_config w)"
    and "unat (ns_current_balance s) = unat (ns_current_balance s') + unat (rr2_charge_applied resp)"
    and "rr2_client_request_id resp = rid" "rr2_request_nullifier resp = nul"
    and "ns_note_id s' = ns_note_id s" "ns_secret_s s' = ns_secret_s s" "ns_current_anchor s' = rr2_next_anchor resp"
    and "ns_deposit_amount s' = ns_deposit_amount s" "ns_expiry_ts s' = ns_expiry_ts s" "\<not> ns_is_genesis s'"
proof -
  let ?E = "ce_curve env" and ?P = "ce_poseidon env" and ?c = "rr2_charge_applied resp"
  let ?b = "add_blindings (add_blindings b rho) (rr2_blind_delta_srv resp)"
  have E: "edwards_wire_ok ?E" using env by (simp add: env_ok_def)
  have parse: "parse_scalar (ns_balance_blinding s) = Inr b" using s(3) by (simp add: note_opens_def)
  obtain bal where bal: "checked_sub (ns_current_balance s) ?c = Some bal"
    and upd: "compact_server_update ?E anonymous ?c (rr2_blind_delta_srv resp) = Inr (rr2_next_commitment resp)"
    and ids: "rr2_client_request_id resp = rid" "rr2_request_nullifier resp = nul" "?c \<le> wallet_cap (w_config w)"
    and sig: "compact_verify_signature ?E ?P (cc_state_signing_key (w_config w))
        (state_message ?P (ns_protocol_version s) (ns_chain_id s) (ns_contract_address s)
           (cp_x (rr2_next_commitment resp)) (cp_y (rr2_next_commitment resp)) (rr2_next_anchor resp))
        (rr2_next_state_signature resp) = Inr True"
    and s': "s' = s\<lparr>ns_current_balance := bal, ns_balance_blinding := to_hex ?b,
         ns_current_commitment_x := cp_x (rr2_next_commitment resp),
         ns_current_commitment_y := cp_y (rr2_next_commitment resp),
         ns_current_anchor := rr2_next_anchor resp, ns_is_genesis := False,
         ns_state_signature := Some (rr2_next_state_signature resp)\<rparr>"
    using nxt by (auto simp: response_next_state_def Let_def s(1) parse bail_if_def ok_or_def wallet_cap_def not_less
        res split: if_splits option.splits)
  have le: "?c \<le> ns_current_balance s" and bal_eq: "bal = ns_current_balance s - ?c"
    using bal by (auto simp: checked_sub_Some)
  have com: "rr2_next_commitment resp = compact_balance_commitment ?E bal ?b (state_note_leaf ?P s)"
    using upd compact_update_commitment [OF E le] by (simp add: anon bal_eq)
  have "state_canonical s'" using s(2) canon canonical_commitment [OF E]
    by (simp add: s' note_inv_def state_canonical_def response_canonical_def com)
  moreover have "note_opens env s' ?b"
    by (simp add: note_opens_def s' parse_scalar_to_hex canonical_add_blindings state_note_leaf_def com)
  moreover have "note_signed env (w_config w) s'" using sig by (simp add: note_signed_def s')
  moreover have "bal \<le> ns_deposit_amount s"
    using s(2) le by (simp add: note_inv_def bal_eq) (meson order_trans word_sub_le)
  ultimately show "note_inv env (w_config w) s'" using s(2) by (auto simp: note_inv_def s')
  show "unat (ns_current_balance s) = unat (ns_current_balance s') + unat ?c"
    using le by (simp add: s' bal_eq unat_sub word_le_nat_alt)
  show "?c \<le> wallet_cap (w_config w)" "rr2_client_request_id resp = rid" "rr2_request_nullifier resp = nul"
    "ns_note_id s' = ns_note_id s" "ns_secret_s s' = ns_secret_s s" "ns_current_anchor s' = rr2_next_anchor resp"
    "ns_deposit_amount s' = ns_deposit_amount s" "ns_expiry_ts s' = ns_expiry_ts s" "\<not> ns_is_genesis s'"
    using ids s' by simp_all
qed

section \<open>A note with the invariant can be proved\<close>

lemma secret_field_nonzero: "canonical f \<Longrightarrow> f \<noteq> 0 \<Longrightarrow> felt_to_field f \<noteq> 0"
  by (simp add: felt_to_field_canonical unat_eq_0)

lemma leaf_field:
  "poseidon_ok P \<Longrightarrow> felt_to_field (state_note_leaf P s) =
     g16_note_leaf P (ns_note_id s) (g16_registration P (felt_to_field (ns_secret_s s))) (ns_deposit_amount s) (ns_expiry_ts s)"
  by (simp add: state_note_leaf_def felt_to_field_core)

lemma commitment_point:
  assumes "edwards_wire_ok E" "compact_balance_commitment E bal b leaf = \<lparr>cp_x = x, cp_y = y\<rparr>"
  shows "point_from_wire E \<lparr>cp_x = x, cp_y = y\<rparr> = Inr (balance_commitment E bal (scalar b) (felt_to_field leaf))"
    "felt_to_field x = ed_x E (balance_commitment E bal (scalar b) (felt_to_field leaf))"
    "felt_to_field y = ed_y E (balance_commitment E bal (scalar b) (felt_to_field leaf))"
  using point_round_trip [OF assms(1) in_subgroup_commitment [OF assms(1)]] assms(2)
    edwards_wire_okD(2,3) [OF assms(1)]
  by (auto simp: compact_balance_commitment_def point_to_wire_def field_felt_round_trip)

lemma identity_signature:
  assumes "edwards_wire_ok E"
  shows "signature_from_wire E SchnorrSignature_IDENTITY = Inr \<lparr>ss_r = 0, ss_s = 0\<rparr>"
proof -
  have "ed_x E 0 = 0 \<and> ed_y E 0 = 1 \<and> ed_in_subgroup E 0 \<and> ed_on_curve E 0 1 \<and> ed_new_unchecked E 0 1 = 0"
    using assms unfolding edwards_wire_ok_def by metis
  then show ?thesis
    by (simp add: signature_from_wire_def point_from_wire_def SchnorrSignature_IDENTITY_def Let_def
        felt_to_field_canonical scalar_def be_value_as_bytes)
qed

lemma verified_signature:
  assumes "edwards_wire_ok E" "compact_verify_signature E P key m sig = Inr True" "point_from_wire E key = Inr k"
  obtains sg where "signature_from_wire E sig = Inr sg" "verify_state_signature E P k (felt_to_field m) sg"
    "ss_s sg < SCALAR_MODULUS"
  using assms by (auto simp: compact_verify_signature_def signature_from_wire_def res scalar_less)

text \<open>The state part of both statements.\<close>

lemma note_signature:
  assumes env: "env_ok env" and inv: "note_inv env config s" "note_opens env s b"
    and key: "point_from_wire (ce_curve env) (cc_state_signing_key config) = Inr k"
  obtains sg where
    "signature_from_wire (ce_curve env) (unwrap_or SchnorrSignature_IDENTITY (ns_state_signature s)) = Inr sg"
    "ss_s sg < SCALAR_MODULUS"
    "if ns_is_genesis s then felt_to_field (ns_current_anchor s) = 1 \<and> ns_current_balance s = ns_deposit_amount s
     else verify_state_signature (ce_curve env) (ce_poseidon env) k
       (g16_state_message (ce_curve env) (ce_poseidon env) (ns_protocol_version s) (ns_chain_id s)
          (felt_to_field (ns_contract_address s))
          (balance_commitment (ce_curve env) (ns_current_balance s) (scalar b)
             (felt_to_field (state_note_leaf (ce_poseidon env) s)))
          (felt_to_field (ns_current_anchor s))) sg"
proof (cases "ns_is_genesis s")
  case True
  then show ?thesis using that [of "\<lparr>ss_r = 0, ss_s = 0\<rparr>"] inv(1) env identity_signature [of "ce_curve env"]
    by (simp add: note_inv_def env_ok_def felt_to_field_canonical)
next
  case False
  have E: "edwards_wire_ok (ce_curve env)" and P: "poseidon_ok (ce_poseidon env)" using env by (simp_all add: env_ok_def)
  obtain sig where sig: "ns_state_signature s = Some sig"
    "compact_verify_signature (ce_curve env) (ce_poseidon env) (cc_state_signing_key config)
          (state_message (ce_poseidon env) (ns_protocol_version s) (ns_chain_id s) (ns_contract_address s)
             (ns_current_commitment_x s) (ns_current_commitment_y s) (ns_current_anchor s)) sig = Inr True"
    using inv(1) False by (auto simp: note_inv_def note_signed_def)
  note pt = commitment_point [OF E inv(2) [unfolded note_opens_def, THEN conjunct2]]
  from verified_signature [OF E sig(2) key] that sig(1) False show ?thesis
    by (auto simp: felt_to_field_core(7) [OF P pt(2,3)])
qed

text \<open>A prover that succeeds on satisfied circuits proves every true statement.\<close>

lemma request_prove_Inr:
  assumes "edwards_wire_ok E" "request_public_from_wire E pub = Inr p"
    and "signature_from_wire E (unwrap_or SchnorrSignature_IDENTITY (rd_state_signature wit)) = Inr sg"
    and "w = \<lparr>rw_secret = felt_to_field (rd_secret wit),
                rw_request_context = felt_to_field (rd_request_context wit),
                rw_note_id = rd_note_id wit, rw_deposit_amount = rd_deposit_amount wit,
                rw_expiry = rd_expiry wit,
                rw_merkle_siblings = map felt_to_field (rd_merkle_siblings wit),
                rw_current_balance = rd_current_balance wit,
                rw_current_blinding = scalar (rd_current_blinding wit),
                rw_rerandomization = scalar (rd_rerandomization wit),
                rw_current_anchor = felt_to_field (rd_current_anchor wit),
                rw_is_genesis = rd_is_genesis wit, rw_state_signature = sg\<rparr>"
    and "request_relation E P p w"
    and prover: "\<forall>p w. request_constraints E P p (request_assignment p w) \<longrightarrow> prover p w \<noteq> None"
  shows "\<exists>pf. request_prove E P K prover pub wit = Inr (proof_to_wire K pf)"
proof -
  have "nsmul SCALAR_MODULUS (rp_state_signing_key p) = 0"
    using assms(2) point_from_wire_Inr(4) [OF assms(1)] by (auto simp: request_public_from_wire_def res)
  then have sat: "request_constraints E P p (request_assignment p w)"
    using request_complete assms(5) edwards_wire_okD(1) [OF assms(1)] by blast
  with prover obtain pf where "prover p w = Some pf" by blast
  with sat assms(2,3) show ?thesis by (auto simp: request_prove_def Let_def assms(4))
qed

lemma withdrawal_prove_Inr:
  assumes "edwards_wire_ok E" "withdrawal_public_from_wire E pub = Inr p"
    and "signature_from_wire E (unwrap_or SchnorrSignature_IDENTITY (wd_state_signature wit)) = Inr sg"
    and "signature_from_wire E (unwrap_or SchnorrSignature_IDENTITY (wd_clearance_signature wit)) = Inr csg"
    and "w = \<lparr>ww_secret = felt_to_field (wd_secret wit), ww_deposit_amount = wd_deposit_amount wit,
                ww_expiry = wd_expiry wit,
                ww_merkle_siblings = map felt_to_field (wd_merkle_siblings wit),
                ww_final_blinding = scalar (wd_final_blinding wit),
                ww_current_anchor = felt_to_field (wd_current_anchor wit),
                ww_is_genesis = wd_is_genesis wit, ww_state_signature = sg,
                ww_clearance_signature = csg\<rparr>"
    and "withdrawal_relation E P p w"
    and prover: "\<forall>p w. withdrawal_constraints E P p (withdrawal_assignment p w) \<longrightarrow> prover p w \<noteq> None"
  shows "\<exists>pf. withdrawal_prove E P K prover pub wit = Inr (proof_to_wire K pf)"
proof -
  have "nsmul SCALAR_MODULUS (wp_state_signing_key p) = 0" "nsmul SCALAR_MODULUS (wp_clearance_signing_key p) = 0"
    using assms(2) point_from_wire_Inr(4) [OF assms(1)] by (auto simp: withdrawal_public_from_wire_def res)
  then have sat: "withdrawal_constraints E P p (withdrawal_assignment p w)"
    using withdrawal_complete assms(6) edwards_wire_okD(1) [OF assms(1)] by blast
  with prover obtain pf where "prover p w = Some pf" by blast
  with sat assms(2-4) show ?thesis by (auto simp: withdrawal_prove_def Let_def assms(5))
qed

lemma curve_point_eta: "\<lparr>cp_x = cp_x q, cp_y = cp_y q\<rparr> = (q :: CurvePointWire)"
  by simp

definition request_prover_complete :: "('e::ab_group_add, 'd) client_env \<Rightarrow> ClientConfig \<Rightarrow> bool" where
  "request_prover_complete env config \<longleftrightarrow>
     (\<exists>prover. ce_request_prover env (setup_dir config) = Some prover \<and>
        (\<forall>p w. request_constraints (ce_curve env) (ce_poseidon env) p (request_assignment p w) \<longrightarrow> prover p w \<noteq> None))"

definition withdrawal_prover_complete :: "('e::ab_group_add, 'd) client_env \<Rightarrow> ClientConfig \<Rightarrow> bool" where
  "withdrawal_prover_complete env config \<longleftrightarrow>
     (\<exists>prover. ce_withdrawal_prover env (setup_dir config) = Some prover \<and>
        (\<forall>p w. withdrawal_constraints (ce_curve env) (ce_poseidon env) p (withdrawal_assignment p w) \<longrightarrow> prover p w \<noteq> None))"

text \<open>The note is in the tree: its siblings lead from its leaf to the root.\<close>

definition note_member :: "poseidon \<Rightarrow> NoteState \<Rightarrow> felt \<Rightarrow> felt list \<Rightarrow> bool" where
  "note_member P s root siblings \<longleftrightarrow>
     length siblings = MERKLE_DEPTH \<and> merkle_root P (ns_note_id s) (state_note_leaf P s) siblings = root"

text \<open>The statement and the witness data of a withdrawal and of a request of a note.\<close>

definition note_withdrawal ::
    "poseidon \<Rightarrow> ClientConfig \<Rightarrow> NoteState \<Rightarrow> felt \<Rightarrow> address \<Rightarrow> bool \<Rightarrow> WithdrawalPublicInputsV2" where
  "note_withdrawal P config s root dest has_clearance =
     (let nul = nullifier P (ns_secret_s s) (ns_current_anchor s) in
      \<lparr>w2_protocol_version = ns_protocol_version s, w2_chain_id = ns_chain_id s,
       w2_contract_address = ns_contract_address s, w2_active_root = root,
       w2_state_signing_key_x = cp_x (cc_state_signing_key config),
       w2_state_signing_key_y = cp_y (cc_state_signing_key config),
       w2_clearance_signing_key_x = cp_x (cc_clearance_signing_key config),
       w2_clearance_signing_key_y = cp_y (cc_clearance_signing_key config),
       w2_note_id = ns_note_id s, w2_final_balance = ns_current_balance s, w2_destination = dest,
       w2_withdrawal_nullifier = nul, w2_has_clearance = has_clearance,
       w2_withdrawal_tag = withdrawal_tag P nul (destination_field dest) (ns_current_balance s) has_clearance\<rparr>)"

definition note_withdrawal_data ::
    "NoteState \<Rightarrow> felt \<Rightarrow> felt list \<Rightarrow> SchnorrSignature option \<Rightarrow> WithdrawalWitnessData" where
  "note_withdrawal_data s b siblings csig =
     \<lparr>wd_secret = ns_secret_s s, wd_deposit_amount = ns_deposit_amount s,
      wd_expiry = ns_expiry_ts s, wd_merkle_siblings = siblings, wd_final_blinding = b,
      wd_current_anchor = ns_current_anchor s, wd_is_genesis = ns_is_genesis s,
      wd_state_signature = ns_state_signature s, wd_clearance_signature = csig\<rparr>"

definition note_request ::
    "poseidon \<Rightarrow> ClientConfig \<Rightarrow> NoteState \<Rightarrow> felt \<Rightarrow> u64 \<Rightarrow> felt \<Rightarrow> CurvePointWire \<Rightarrow> RequestPublicInputsV2" where
  "note_request P config s root now ctx com =
     (let nul = nullifier P (ns_secret_s s) (ns_current_anchor s) in
      \<lparr>r2_protocol_version = ns_protocol_version s, r2_chain_id = ns_chain_id s,
       r2_contract_address = ns_contract_address s, r2_active_root = root,
       r2_state_signing_key_x = cp_x (cc_state_signing_key config),
       r2_state_signing_key_y = cp_y (cc_state_signing_key config),
       r2_request_time = now, r2_solvency_bound = wallet_cap config, r2_request_nullifier = nul,
       r2_authorization_tag = authorization_tag P nul ctx,
       r2_anonymous_commitment_x = cp_x com, r2_anonymous_commitment_y = cp_y com\<rparr>)"

definition note_request_data :: "NoteState \<Rightarrow> felt \<Rightarrow> felt \<Rightarrow> felt \<Rightarrow> felt list \<Rightarrow> RequestWitnessData" where
  "note_request_data s b rho ctx siblings =
     \<lparr>rd_secret = ns_secret_s s, rd_request_context = ctx, rd_note_id = ns_note_id s,
      rd_deposit_amount = ns_deposit_amount s, rd_expiry = ns_expiry_ts s, rd_merkle_siblings = siblings,
      rd_current_balance = ns_current_balance s, rd_current_blinding = b, rd_rerandomization = rho,
      rd_current_anchor = ns_current_anchor s, rd_is_genesis = ns_is_genesis s,
      rd_state_signature = ns_state_signature s\<rparr>"

lemma clearance_signature:
  assumes "edwards_wire_ok E" "point_from_wire E key = Inr ck"
    and "case csig of None \<Rightarrow> \<not> has_clearance | Some sig \<Rightarrow> compact_verify_signature E P key m sig = Inr True"
  obtains csg where "signature_from_wire E (unwrap_or SchnorrSignature_IDENTITY csig) = Inr csg"
    "ss_s csg < SCALAR_MODULUS" "has_clearance \<longrightarrow> verify_state_signature E P ck (felt_to_field m) csg"
  using assms(3) that identity_signature [OF assms(1)] verified_signature [OF assms(1) _ assms(2)]
  by (cases csig) (auto simp: unwrap_or_def, metis)

lemma note_withdrawal_proved:
  assumes env: "env_ok env" "keys_ok env config" and s: "note_inv env config s" "note_opens env s b"
    "note_member (ce_poseidon env) s root siblings"
    and clear: "case csig of None \<Rightarrow> \<not> has_clearance | Some sig \<Rightarrow>
      compact_verify_signature (ce_curve env) (ce_poseidon env) (cc_clearance_signing_key config)
        (clearance_message (ce_poseidon env) (ns_protocol_version s) (ns_chain_id s) (ns_contract_address s)
           (nullifier (ce_poseidon env) (ns_secret_s s) (ns_current_anchor s))) sig = Inr True"
    and prover: "\<forall>p w. withdrawal_constraints (ce_curve env) (ce_poseidon env) p (withdrawal_assignment p w) \<longrightarrow>
      prover p w \<noteq> None"
  shows "\<exists>pf. withdrawal_prove (ce_curve env) (ce_poseidon env) K prover
    (note_withdrawal (ce_poseidon env) config s root dest has_clearance) (note_withdrawal_data s b siblings csig) =
      Inr (proof_to_wire K pf)"
proof -
  let ?E = "ce_curve env" and ?P = "ce_poseidon env"
  let ?nul = "nullifier ?P (ns_secret_s s) (ns_current_anchor s)"
  have E: "edwards_wire_ok ?E" and P: "poseidon_ok ?P" using env(1) by (simp_all add: env_ok_def)
  obtain k ck where keys: "point_from_wire ?E (cc_state_signing_key config) = Inr k"
    "point_from_wire ?E (cc_clearance_signing_key config) = Inr ck"
    using env(2) by (auto simp: keys_ok_def)
  obtain sg where sg: "signature_from_wire ?E (unwrap_or SchnorrSignature_IDENTITY (ns_state_signature s)) = Inr sg"
    "ss_s sg < SCALAR_MODULUS"
    "if ns_is_genesis s then felt_to_field (ns_current_anchor s) = 1 \<and> ns_current_balance s = ns_deposit_amount s
     else verify_state_signature ?E ?P k
       (g16_state_message ?E ?P (ns_protocol_version s) (ns_chain_id s) (felt_to_field (ns_contract_address s))
          (balance_commitment ?E (ns_current_balance s) (scalar b) (felt_to_field (state_note_leaf ?P s)))
          (felt_to_field (ns_current_anchor s))) sg"
    by (rule note_signature [OF env(1) s(1,2) keys(1)])
  obtain csg where csg: "signature_from_wire ?E (unwrap_or SchnorrSignature_IDENTITY csig) = Inr csg"
    "ss_s csg < SCALAR_MODULUS"
    "has_clearance \<longrightarrow> verify_state_signature ?E ?P ck
        (felt_to_field (clearance_message ?P (ns_protocol_version s) (ns_chain_id s) (ns_contract_address s) ?nul)) csg"
    by (rule clearance_signature [OF E keys(2) clear])
  show ?thesis
  proof (rule withdrawal_prove_Inr [OF E _ _ _ refl _ prover])
    show "withdrawal_public_from_wire ?E (note_withdrawal ?P config s root dest has_clearance) = Inr
     \<lparr>wp_protocol_version = ns_protocol_version s, wp_chain_id = ns_chain_id s,
      wp_contract_address = felt_to_field (ns_contract_address s), wp_active_root = felt_to_field root,
      wp_state_signing_key = k, wp_clearance_signing_key = ck, wp_note_id = ns_note_id s,
      wp_final_balance = ns_current_balance s, wp_destination = felt_to_field (destination_field dest),
      wp_withdrawal_nullifier = felt_to_field ?nul, wp_has_clearance = has_clearance,
      wp_withdrawal_tag = felt_to_field (withdrawal_tag ?P ?nul (destination_field dest) (ns_current_balance s) has_clearance)\<rparr>"
      using keys by (simp add: withdrawal_public_from_wire_def note_withdrawal_def curve_point_eta Let_def)
  qed (use s sg csg in \<open>auto simp: withdrawal_relation_def Let_def note_withdrawal_data_def note_inv_def
        state_canonical_def secret_field_nonzero note_member_def felt_to_field_core [OF P]
        felt_to_field_merkle_root [OF P] leaf_field [OF P] scalar_less\<close>)
qed

lemma withdrawal_provable:
  assumes env: "env_ok env" "keys_ok env (w_config w)" "withdrawal_prover_complete env (w_config w)"
    and s: "w_state w = Some s" "note_inv env (w_config w) s" "note_member (ce_poseidon env) s root siblings"
    and clear: "case csig of None \<Rightarrow> \<not> has_clearance | Some sig \<Rightarrow>
      compact_verify_signature (ce_curve env) (ce_poseidon env) (cc_clearance_signing_key (w_config w))
        (clearance_message (ce_poseidon env) (ns_protocol_version s) (ns_chain_id s) (ns_contract_address s)
           (nullifier (ce_poseidon env) (ns_secret_s s) (ns_current_anchor s))) sig = Inr True"
  shows "\<exists>pub pf. build_withdrawal env dest root siblings has_clearance csig w = Inr (pub, pf) \<and>
    w2_final_balance pub = ns_current_balance s \<and> w2_note_id pub = ns_note_id s \<and> w2_destination pub = dest \<and>
    w2_has_clearance pub = has_clearance \<and>
    w2_withdrawal_nullifier pub = nullifier (ce_poseidon env) (ns_secret_s s) (ns_current_anchor s)"
proof -
  let ?P = "ce_poseidon env" and ?K = "ce_codec env" and ?cfg = "w_config w"
  obtain b where b: "note_opens env s b" using s(2) by (auto simp: note_inv_def)
  obtain prover where prover: "ce_withdrawal_prover env (setup_dir ?cfg) = Some prover"
    "\<forall>p w. withdrawal_constraints (ce_curve env) ?P p (withdrawal_assignment p w) \<longrightarrow> prover p w \<noteq> None"
    using env(3) unfolding withdrawal_prover_complete_def by blast
  obtain pf where "withdrawal_prove (ce_curve env) ?P ?K prover (note_withdrawal ?P ?cfg s root dest has_clearance)
      (note_withdrawal_data s b siblings csig) = Inr (proof_to_wire ?K pf)"
    using note_withdrawal_proved [OF env(1,2) s(2) b s(3) clear prover(2)] by blast
  then have "build_withdrawal env dest root siblings has_clearance csig w =
      Inr (note_withdrawal ?P ?cfg s root dest has_clearance, proof_to_wire ?K pf)"
    using s(1,3) b prover(1)
    by (simp add: build_withdrawal_def Let_def siblings_array_def note_member_def note_opens_def
        note_withdrawal_def note_withdrawal_data_def destination_field_def)
  then show ?thesis by (simp add: note_withdrawal_def Let_def)
qed

lemma canonical_merkle_root:
  assumes "poseidon_ok P" "siblings \<noteq> []"
  shows "canonical (merkle_root P i leaf siblings)"
proof -
  obtain ss x where "siblings = ss @ [x]" using assms(2) by (cases siblings rule: rev_cases) auto
  then show ?thesis
    by (simp add: merkle_root_def enumerate_append_eq merkle_node_def canonical_hash_domain [OF assms(1)])
qed

lemma note_request_proved:
  assumes env: "env_ok env" "keys_ok env config" and s: "note_inv env config s" "note_opens env s b"
    "note_member (ce_poseidon env) s root siblings"
    and funds: "wallet_cap config \<le> ns_current_balance s" "now \<le> ns_expiry_ts s"
    and com: "com = compact_balance_commitment (ce_curve env) (ns_current_balance s) (add_blindings b rho)
      (state_note_leaf (ce_poseidon env) s)"
    and prover: "\<forall>p w. request_constraints (ce_curve env) (ce_poseidon env) p (request_assignment p w) \<longrightarrow> prover p w \<noteq> None"
  shows "\<exists>pf. request_prove (ce_curve env) (ce_poseidon env) K prover
    (note_request (ce_poseidon env) config s root now ctx com) (note_request_data s b rho ctx siblings) =
      Inr (proof_to_wire K pf)"
proof -
  let ?E = "ce_curve env" and ?P = "ce_poseidon env" and ?leaf = "felt_to_field (state_note_leaf (ce_poseidon env) s)"
  let ?nul = "nullifier ?P (ns_secret_s s) (ns_current_anchor s)"
    and ?point = "balance_commitment ?E (ns_current_balance s) (scalar (add_blindings b rho)) ?leaf"
  have E: "edwards_wire_ok ?E" and P: "poseidon_ok ?P" using env(1) by (simp_all add: env_ok_def)
  obtain k where key: "point_from_wire ?E (cc_state_signing_key config) = Inr k" using env(2) by (auto simp: keys_ok_def)
  have "compact_balance_commitment ?E (ns_current_balance s) (add_blindings b rho) (state_note_leaf ?P s)
      = \<lparr>cp_x = cp_x com, cp_y = cp_y com\<rparr>" by (simp add: com)
  note anon = commitment_point(1) [OF E this]
  have rerand: "rerandomize_commitment ?E (balance_commitment ?E (ns_current_balance s) (scalar b) ?leaf) (scalar rho) = ?point"
    using rerandomize_balance_commitment [OF edwards_wire_okD(1) [OF E]] by (simp add: scalar_add_blindings)
  obtain sg where sg: "signature_from_wire ?E (unwrap_or SchnorrSignature_IDENTITY (ns_state_signature s)) = Inr sg"
    "ss_s sg < SCALAR_MODULUS"
    "if ns_is_genesis s then felt_to_field (ns_current_anchor s) = 1 \<and> ns_current_balance s = ns_deposit_amount s
     else verify_state_signature ?E ?P k
       (g16_state_message ?E ?P (ns_protocol_version s) (ns_chain_id s) (felt_to_field (ns_contract_address s))
          (balance_commitment ?E (ns_current_balance s) (scalar b) ?leaf) (felt_to_field (ns_current_anchor s))) sg"
    by (rule note_signature [OF env(1) s(1,2) key])
  show ?thesis
  proof (rule request_prove_Inr [OF E _ _ refl _ prover])
    show "request_public_from_wire ?E (note_request ?P config s root now ctx com) = Inr
     \<lparr>rp_protocol_version = ns_protocol_version s, rp_chain_id = ns_chain_id s,
      rp_contract_address = felt_to_field (ns_contract_address s), rp_active_root = felt_to_field root,
      rp_state_signing_key = k, rp_request_time = now, rp_solvency_bound = wallet_cap config,
      rp_request_nullifier = felt_to_field ?nul, rp_authorization_tag = felt_to_field (authorization_tag ?P ?nul ctx),
      rp_anonymous_commitment = ?point\<rparr>"
      using key anon by (simp add: request_public_from_wire_def note_request_def curve_point_eta Let_def)
  qed (use s sg funds rerand in \<open>auto simp: request_relation_def Let_def note_request_data_def note_inv_def
        state_canonical_def secret_field_nonzero note_member_def felt_to_field_core [OF P]
        felt_to_field_merkle_root [OF P] leaf_field [OF P] scalar_less\<close>)
qed

lemma note_request_canonical:
  assumes "env_ok env" "config_ok env config" "note_inv env config s" "note_member (ce_poseidon env) s root siblings"
    and "canonical_payload_hash (ce_keccak env) bytes = Some (aq2_payload_hash request)"
    and "aq2_public_inputs request = note_request (ce_poseidon env) config s root now ctx
      (compact_balance_commitment (ce_curve env) balance blinding leaf)"
  shows "request_canonical request" "canonical (aq2_payload_hash request)"
    "canonical (nullifier (ce_poseidon env) (ns_secret_s s) (ns_current_anchor s))"
proof -
  let ?P = "ce_poseidon env"
  have P: "poseidon_ok ?P" and E: "edwards_wire_ok (ce_curve env)" using assms(1) by (simp_all add: env_ok_def)
  show h: "canonical (aq2_payload_hash request)"
    using assms(5,1) hash_bytes_canonical by (auto simp: canonical_payload_hash_def env_ok_def)
  show nul: "canonical (nullifier ?P (ns_secret_s s) (ns_current_anchor s))"
    by (simp add: nullifier_def canonical_hash_domain [OF P])
  have "siblings \<noteq> []" using assms(4) by (auto simp: note_member_def MERKLE_DEPTH_def)
  then have "canonical root" using assms(4) canonical_merkle_root [OF P] by (auto simp: note_member_def)
  moreover have "canonical (authorization_tag ?P n ctx)" for n
    by (simp add: authorization_tag_def canonical_hash_domain [OF P])
  ultimately show "request_canonical request"
    using assms(2,3) h nul canonical_commitment [OF E]
    by (simp add: request_canonical_def assms(6) note_request_def Let_def config_ok_def note_inv_def state_canonical_def)
qed

lemma request_buildable:
  assumes env: "env_ok env" "config_ok env (w_config w)" "request_prover_complete env (w_config w)"
    and s: "w_state w = Some s" "note_inv env (w_config w) s" "note_member (ce_poseidon env) s root siblings"
    and funds: "wallet_cap (w_config w) \<le> ns_current_balance s" "dr_now dr \<le> ns_expiry_ts s"
    and hash: "canonical_payload_hash (ce_keccak env) (as_bytes_str payload) = Some h"
      "canonical_request_context (ce_keccak env) (dr_uuid dr) h = Some ctx"
  shows "\<exists>request journal. build_request env dr payload h root siblings w = Inr (request, journal) \<and>
    aq2_client_request_id request = dr_uuid dr \<and> aq2_payload request = payload \<and>
    r2_solvency_bound (aq2_public_inputs request) = wallet_cap (w_config w) \<and>
    r2_request_nullifier (aq2_public_inputs request) = nullifier (ce_poseidon env) (ns_secret_s s) (ns_current_anchor s) \<and>
    pj_exists journal \<and> pj_prepared_request journal = Some request \<and> pj_client_request_id journal = dr_uuid dr \<and>
    pj_user_rerandomization journal = dr_rerandomization dr \<and>
    pj_nullifier journal = r2_request_nullifier (aq2_public_inputs request) \<and>
    (canonical (dr_rerandomization dr) \<longrightarrow> journal_canonical journal)"
proof -
  let ?E = "ce_curve env" and ?P = "ce_poseidon env" and ?K = "ce_codec env"
    and ?cfg = "w_config w" and ?rho = "dr_rerandomization dr"
  have E: "edwards_wire_ok ?E" and keys: "keys_ok env ?cfg" using env(1,2) by (simp_all add: env_ok_def config_ok_def)
  obtain b where b: "note_opens env s b" using s(2) by (auto simp: note_inv_def)
  obtain prover where prover: "ce_request_prover env (setup_dir ?cfg) = Some prover"
    "\<forall>p w. request_constraints ?E ?P p (request_assignment p w) \<longrightarrow> prover p w \<noteq> None"
    using env(3) unfolding request_prover_complete_def by blast
  define com where "com = compact_balance_commitment ?E (ns_current_balance s) (add_blindings b ?rho) (state_note_leaf ?P s)"
  define pub where "pub = note_request ?P ?cfg s root (dr_now dr) ctx com"
  obtain pf where pf: "request_prove ?E ?P ?K prover pub (note_request_data s b ?rho ctx siblings) = Inr (proof_to_wire ?K pf)"
    unfolding pub_def using note_request_proved [OF env(1) keys s(2) b s(3) funds com_def prover(2)] by blast
  have "compact_rerandomize ?E (compact_balance_commitment ?E (ns_current_balance s) b (state_note_leaf ?P s)) ?rho = Inr com"
    using compact_rerandomize_commitment [OF E] by (simp add: com_def)
  moreover define request where "request = \<lparr>aq2_client_request_id = dr_uuid dr, aq2_payload = payload,
      aq2_payload_hash = h, aq2_public_inputs = pub, aq2_proof = proof_to_wire ?K pf\<rparr>"
  ultimately have built: "build_request env dr payload h root siblings w = Inr (request,
      \<lparr>pj_exists = True, pj_client_request_id = dr_uuid dr,
       pj_nullifier = nullifier ?P (ns_secret_s s) (ns_current_anchor s), pj_payload_hash = h,
       pj_user_rerandomization = ?rho, pj_created_at_ms = now_ms (dr_now_journal dr),
       pj_prepared_request = Some request\<rparr>)"
    using s(1,3) b prover(1) hash note_opens_stored [OF b] funds(1) pf
    by (simp add: build_request_def Let_def siblings_array_def note_member_def note_opens_def solvency_bound_def
        wallet_cap_def pub_def note_request_def note_request_data_def bail_if_def not_less)
  have "canonical_payload_hash (ce_keccak env) (as_bytes_str payload) = Some (aq2_payload_hash request)"
    "aq2_public_inputs request = pub" using hash(1) by (simp_all add: request_def)
  note canon = note_request_canonical [OF env(1,2) s(2,3) this [unfolded pub_def com_def]]
  from built canon show ?thesis by (simp add: request_def pub_def note_request_def Let_def journal_canonical_def)
qed

section \<open>The wallet with its disk\<close>

text \<open>Each constructor is one call with whatever failures, responses and server; a restart reopens the
  wallet from the disk and so also models a crash.\<close>

inductive wallet_step ::
    "('e::ab_group_add, 'd) client_env \<Rightarrow> ClientConfig \<Rightarrow> Wallet \<times> 'd disk \<Rightarrow> Wallet \<times> 'd disk \<Rightarrow> bool"
  for env config where
  step_deposit: "canonical secret \<Longrightarrow> secret \<noteq> 0 \<Longrightarrow> canonical blinding \<Longrightarrow>
    wallet_step env config (w, disk) (fst (confirm_deposit env io blinding secret note_id amount expiry w disk))"
| step_prepare: "wallet_step env config (w, disk)
    (w, fst (prepare_request env io dr payload h root siblings w disk))"
| step_complete: "response_canonical resp \<Longrightarrow>
    wallet_step env config (w, disk) (fst (complete_pending_response env io resp w disk))"
| step_flow: "wallet_step env config (w, disk)
    (fst (request_flow env io io' dr server payload h root siblings w disk))"
| step_recover: "wallet_step env config (w, disk) (fst (recover env io server' w disk))"
| step_clear: "wallet_step env config (w, disk) (w, fst (clear_pending_request io w disk))"
| step_archive: "wallet_step env config (w, disk) (fst (archive_note env io io' w disk))"
| step_restart: "wallet_new env io config disk = Inr w' \<Longrightarrow> wallet_step env config (w, disk) (w', disk)"

definition wallet_reachable ::
    "('e::ab_group_add, 'd) client_env \<Rightarrow> ClientConfig \<Rightarrow> Wallet \<times> 'd disk \<Rightarrow> bool" where
  "wallet_reachable env config ws \<longleftrightarrow>
     (\<exists>io w disk. wallet_new env io config disk = Inr w \<and> disk (cc_state_dir config @ [''note_state.json'']) = None \<and>
        (wallet_step env config)\<^sup>*\<^sup>* (w, disk) ws)"

text \<open>Memory and disk agree, and the note has the invariant.\<close>

definition wallet_inv :: "('e::ab_group_add, 'd) client_env \<Rightarrow> ClientConfig \<Rightarrow> Wallet \<times> 'd disk \<Rightarrow> bool" where
  "wallet_inv env config ws \<longleftrightarrow> (case ws of (w, disk) \<Rightarrow>
     w_config w = config \<and> w_state_path w = cc_state_dir config @ [''note_state.json''] \<and>
     w_journal_path w = cc_state_dir config @ [''pending_journal.json''] \<and>
     (case w_state w of
        None \<Rightarrow> disk (w_state_path w) = None
      | Some s \<Rightarrow> note_inv env config s \<and>
          (\<exists>d. disk (w_state_path w) = Some d \<and> state_from_json (ce_json env) d = Some s)))"

lemma file_names:
  "with_extension (dir @ [''note_state.json'']) ''tmp'' = dir @ [''note_state.tmp'']"
  "with_extension (dir @ [''pending_journal.json'']) ''tmp'' = dir @ [''pending_journal.tmp'']"
  by (simp_all add: with_extension_def file_stem_def)

lemma length_archive_path: "p \<noteq> [] \<Longrightarrow> length (archive_path p i) = Suc (length p)"
  by (simp add: archive_path_def)

lemma archive_path_neq:
  assumes "p \<noteq> []" "length q = length p"
  shows "q \<noteq> archive_path p i" "q \<noteq> with_extension (archive_path p i) ''tmp''"
proof -
  have "length (with_extension (archive_path p i) ''tmp'') = Suc (length p)"
    using length_with_extension [of "archive_path p i"] length_archive_path [OF assms(1), of i] by fastforce
  then show "q \<noteq> archive_path p i" "q \<noteq> with_extension (archive_path p i) ''tmp''"
    using assms(2) length_archive_path [OF assms(1), of i] by auto
qed

text \<open>Only the state file matters for the invariant.\<close>

lemma wallet_inv_disk:
  "wallet_inv env config (w, disk) \<Longrightarrow> disk' (w_state_path w) = disk (w_state_path w) \<Longrightarrow> wallet_inv env config (w, disk')"
  by (auto simp: wallet_inv_def split: option.splits)

lemma wallet_inv_save:
  assumes "env_ok env" "wallet_inv env config (w, disk)" "note_inv env config s"
    and "state_save (ce_json env) io (w_state_path w) s disk = (disk', r)"
  shows "wallet_inv env config ((case r of Inl _ \<Rightarrow> w | Inr _ \<Rightarrow> w\<lparr>w_state := Some s\<rparr>), disk')"
proof -
  have p: "w_state_path w \<noteq> with_extension (w_state_path w) ''tmp''"
    using assms(2) by (auto simp: wallet_inv_def file_names split: prod.splits)
  have "state_encodable (ce_json env) s" using assms(1,3) by (simp add: env_ok_def note_inv_def)
  from assms(4) p this show ?thesis
  proof (rule sf.put_cases)
    fix e assume "r = Inl e" "disk' (w_state_path w) = disk (w_state_path w)"
    then show ?thesis using wallet_inv_disk [OF assms(2)] by simp
  next
    fix d assume "r = Inr ()" "disk' (w_state_path w) = Some d" "state_from_json (ce_json env) d = Some s"
    then show ?thesis using assms(2,3) by (simp add: wallet_inv_def)
  qed
qed

lemma wallet_inv_journal:
  assumes "wallet_inv env config (w, disk)"
  shows "fst (journal_write J io (w_journal_path w) j disk) (w_state_path w) = disk (w_state_path w)"
    "fst (journal_clear io (w_journal_path w) disk) (w_state_path w) = disk (w_state_path w)"
  using assms jf.put_frame [of "w_state_path w" "w_journal_path w" J io j disk]
  by (auto simp: wallet_inv_def file_names journal_clear_def remove_file_def)

lemma wallet_inv_deposit:
  assumes "env_ok env" "config_ok env config" "wallet_inv env config (w, disk)"
    and "canonical secret" "secret \<noteq> 0" "canonical blinding"
  shows "wallet_inv env config (fst (confirm_deposit env io blinding secret note_id amount expiry w disk))"
proof (cases "w_state w")
  case None
  have cfg: "w_config w = config" using assms(3) by (simp add: wallet_inv_def)
  define com where "com = compact_balance_commitment (ce_curve env) amount blinding
    (note_leaf (ce_poseidon env) note_id (registration_commitment (ce_poseidon env) secret) amount expiry)"
  define s where "s = new_from_deposit (cc_protocol_version config) (cc_chain_id config)
      (cc_contract_address config) note_id secret amount expiry (to_hex blinding) (cp_x com) (cp_y com)"
  have "note_inv env config s"
    unfolding s_def using assms genesis_note_inv [OF _ _ _ _ _ com_def] by (simp add: config_ok_def)
  from wallet_inv_save [OF assms(1,3) this] None show ?thesis
    by (simp add: confirm_deposit_def cfg Let_def flip: com_def s_def split: prod.splits sum.splits)
       (metis old.sum.simps(5) old.sum.simps(6))
qed (use assms(3) in \<open>simp add: confirm_deposit_def\<close>)

text \<open>With the invariant, completing a response starts from the commitment the request carried.\<close>

lemma pending_context_Inr:
  assumes "env_ok env" "w_state w = Some s" "note_opens env s b"
    and "journal_read (ce_json env) io (w_journal_path w) disk = Inr (Some j)"
  shows "pending_context env io w disk = Inr (j, compact_balance_commitment (ce_curve env) (ns_current_balance s)
    (add_blindings b (pj_user_rerandomization j)) (state_note_leaf (ce_poseidon env) s))"
  using assms note_opens_stored [OF assms(3)] compact_rerandomize_commitment [of "ce_curve env"]
  by (simp add: pending_context_def note_opens_def env_ok_def)

lemma pending_context_cases:
  assumes "env_ok env" "wallet_inv env config (w, disk)"
  obtains (failed) e where "pending_context env io w disk = Inl e"
  | (pending) j s b where "pending_context env io w disk = Inr (j, compact_balance_commitment (ce_curve env)
        (ns_current_balance s) (add_blindings b (pj_user_rerandomization j)) (state_note_leaf (ce_poseidon env) s))"
      "w_state w = Some s" "note_inv env (w_config w) s" "note_opens env s b"
      "journal_read (ce_json env) io (w_journal_path w) disk = Inr (Some j)"
proof (cases "pending_context env io w disk")
  case (Inr x)
  then obtain j s where "journal_read (ce_json env) io (w_journal_path w) disk = Inr (Some j)" "w_state w = Some s"
    by (auto simp: pending_context_def res ok_or_def split: option.splits)
  moreover from this(2) assms(2) have "note_inv env (w_config w) s" by (simp add: wallet_inv_def)
  moreover from this obtain b where "note_opens env s b" by (auto simp: note_inv_def)
  ultimately show ?thesis using pending pending_context_Inr [OF assms(1)] by blast
qed (rule failed)

lemma complete_cases:
  assumes "env_ok env" "wallet_inv env config (w, disk)" "response_canonical resp"
    and "complete_pending_response env io resp w disk = ((w', disk'), r)"
  shows "wallet_inv env config (w', disk') \<and> ((w_state w' = w_state w \<and> (\<exists>e. r = Inl e)) \<or>
    (\<exists>j s s'. journal_read (ce_json env) io (w_journal_path w) disk = Inr (Some j) \<and>
       w_state w = Some s \<and> w_state w' = Some s' \<and> rr2_charge_applied resp \<le> wallet_cap config \<and>
       unat (ns_current_balance s) = unat (ns_current_balance s') + unat (rr2_charge_applied resp) \<and>
       rr2_client_request_id resp = pj_client_request_id j \<and> rr2_request_nullifier resp = pj_nullifier j \<and>
       ns_note_id s' = ns_note_id s \<and> ns_secret_s s' = ns_secret_s s \<and>
       ns_current_anchor s' = rr2_next_anchor resp \<and>
       (r = Inr () \<longrightarrow> disk' (w_journal_path w) = None)))"
  using assms(1,2)
proof (cases rule: pending_context_cases [where io = io])
  case (failed e)
  then show ?thesis using assms(2,4) by (auto simp: complete_pending_response_def)
next
  case (pending j s b)
  define anon where "anon = compact_balance_commitment (ce_curve env) (ns_current_balance s)
    (add_blindings b (pj_user_rerandomization j)) (state_note_leaf (ce_poseidon env) s)"
  have cfg: "w_config w = config" using assms(2) by (simp add: wallet_inv_def)
  show ?thesis
  proof (cases "response_next_state env resp (pj_client_request_id j) (pj_nullifier j) anon (pj_user_rerandomization j) w")
    case (Inl e)
    then show ?thesis using assms(2,4) pending(1)
      by (auto simp: complete_pending_response_def apply_response_def simp flip: anon_def)
  next
    case (Inr s')
    note nxt = response_next_state_Inr [OF assms(1) pending(2-4) anon_def Inr assms(3)]
    obtain d1 r1 where save: "state_save (ce_json env) io (w_state_path w) s' disk = (d1, r1)" by fastforce
    note inv1 = wallet_inv_save [OF assms(1,2) nxt(1) [unfolded cfg] save]
    show ?thesis
    proof (cases r1)
      case (Inl e)
      then show ?thesis using inv1 assms(4) pending(1) Inr save
        by (auto simp: complete_pending_response_def apply_response_def simp flip: anon_def)
    next
      case r1: (Inr u)
      let ?w = "w\<lparr>w_state := Some s'\<rparr>"
      obtain d2 r2 where clear: "journal_clear io (w_journal_path w) d1 = (d2, r2)" by fastforce
      have res: "w' = ?w" "disk' = d2" "r = r2" using assms(4) pending(1) Inr save r1 clear
        by (simp_all add: complete_pending_response_def apply_response_def flip: anon_def)
      have "wallet_inv env config (?w, d1)" using inv1 r1 by simp
      then have "wallet_inv env config (?w, d2)"
        using wallet_inv_disk wallet_inv_journal(2) [of env config ?w d1 io] clear by fastforce
      moreover have "r2 = Inr () \<longrightarrow> d2 (w_journal_path w) = None"
        using clear by (auto simp: journal_clear_def remove_file_def split: if_splits)
      ultimately show ?thesis using nxt pending(2,5) by (simp add: res cfg)
    qed
  qed
qed

lemma wallet_inv_complete:
  assumes "env_ok env" "wallet_inv env config (w, disk)" "response_canonical resp"
  shows "wallet_inv env config (fst (complete_pending_response env io resp w disk))"
  using complete_cases [OF assms, of io] by (metis prod.collapse)

lemma wallet_inv_prepare:
  assumes "wallet_inv env config (w, disk)"
  shows "wallet_inv env config (w, fst (prepare_request env io dr payload h root siblings w disk))"
  using assms wallet_inv_disk [OF assms] wallet_inv_journal(1) [OF assms]
  by (cases "build_request env dr payload h root siblings w")
    (auto simp: prepare_request_def st_then_def split: sum.splits)

lemma wallet_inv_clear:
  assumes "wallet_inv env config (w, disk)"
  shows "wallet_inv env config (w, fst (clear_pending_request io w disk))"
  using wallet_inv_disk [OF assms] wallet_inv_journal(2) [OF assms] by (simp add: clear_pending_request_def)

lemma wallet_inv_archive:
  assumes "wallet_inv env config (w, disk)"
  shows "wallet_inv env config (fst (archive_note env io io' w disk))"
proof (cases "w_state w")
  case None
  then show ?thesis using assms wallet_inv_disk [OF assms] wallet_inv_journal(2) [OF assms, of io']
    by (simp add: archive_note_def wallet_inv_def split: prod.splits) force
next
  case (Some s)
  have path: "w_state_path w \<noteq> []" using assms by (auto simp: wallet_inv_def)
  note frame = sf.put_frame [OF archive_path_neq [OF path refl, of "ns_note_id s"], of "ce_json env" io s disk]
  obtain d1 r1 where arch: "state_archive (ce_json env) io (w_state_path w) s disk = (d1, r1)" by fastforce
  have d1: "(r1 = Inr () \<and> d1 (w_state_path w) = None) \<or> (\<exists>e. r1 = Inl e \<and> d1 (w_state_path w) = disk (w_state_path w))"
  proof -
    obtain d0 r0 where "state_save (ce_json env) io (archive_path (w_state_path w) (ns_note_id s)) s disk = (d0, r0)"
      by fastforce
    then show ?thesis using arch frame
      by (cases r0) (auto simp: state_archive_def remove_file_def create_dir_all_def bail_if_def split: if_splits)
  qed
  show ?thesis
  proof (cases r1)
    case (Inl e)
    then show ?thesis using wallet_inv_disk [OF assms] d1 Some arch by (simp add: archive_note_def)
  next
    case (Inr u)
    then have "wallet_inv env config (w\<lparr>w_state := None\<rparr>, d1)" using assms d1 by (simp add: wallet_inv_def)
    from wallet_inv_disk [OF this] wallet_inv_journal(2) [OF this, of io'] show ?thesis
      using Some arch Inr by (simp add: archive_note_def split: prod.splits) fastforce
  qed
qed

lemma wallet_inv_restart:
  assumes "wallet_inv env config (w, disk)" "wallet_new env io config disk = Inr w'"
  shows "wallet_inv env config (w', disk) \<and> w_state w' = w_state w"
  using assms
  by (cases "w_state w") (auto simp: wallet_inv_def wallet_new_def state_load_def read_to_string_def Let_def res
      split: option.splits if_splits)

lemma wallet_inv_flow:
  assumes "env_ok env" "wallet_inv env config (w, disk)"
  shows "wallet_inv env config (fst (request_flow env io io' dr server payload h root siblings w disk))"
proof -
  obtain d1 r1 where prep: "prepare_request env io dr payload h root siblings w disk = (d1, r1)" by fastforce
  then have inv: "wallet_inv env config (w, d1)"
    using wallet_inv_prepare [OF assms(2), of io dr payload h root siblings] by simp
  have resp: "response_from_json (ce_json env) body = Some resp \<Longrightarrow> response_canonical resp" for body resp
    using assms(1) by (simp add: env_ok_def)
  have completed: "wallet_inv env config (fst (st_then (complete_pending_response env io' r w d1) (\<lambda>_ s. (s, Inr r))))"
    if "response_canonical r" for r
    using wallet_inv_complete [OF assms(1) inv that, of io']
    by (cases "snd (complete_pending_response env io' r w d1)") (simp_all add: st_then_def)
  obtain d2 r2 where clear: "clear_pending_request io' w d1 = (d2, r2)" by fastforce
  then have inv2: "wallet_inv env config (w, d2)" using wallet_inv_clear [OF inv, of io'] by simp
  show ?thesis
  proof (cases r1)
    case (Inr request)
    show ?thesis
      using inv inv2 completed resp
      by (cases "server (endpoint (w_config w) ''/v2/requests'') request"; cases r2)
        (auto simp: request_flow_def prep Inr http_text_def ok_or_def clear split: option.splits)
  qed (use inv in \<open>simp add: request_flow_def prep\<close>)
qed

lemma wallet_inv_recover:
  assumes "env_ok env" "wallet_inv env config (w, disk)"
  shows "wallet_inv env config (fst (recover env io server w disk))"
proof -
  have resp: "recovery_from_json (ce_json env) body = Some rc \<Longrightarrow> rc2_request_response rc = Some resp \<Longrightarrow>
      response_canonical resp" for body rc resp
    using assms(1) by (auto simp: env_ok_def)
  have completed: "wallet_inv env config (fst (st_then (complete_pending_response env io r w disk) (\<lambda>_ s. (s, Inr (Some r)))))"
    if "response_canonical r" for r
    using wallet_inv_complete [OF assms that, of io]
    by (cases "snd (complete_pending_response env io r w disk)") (simp_all add: st_then_def)
  show ?thesis
    using assms(2) completed resp
    by (cases "journal_read (ce_json env) io (w_journal_path w) disk")
      (auto simp: recover_def Let_def ok_or_def split: option.splits http.splits)
qed

lemma wallet_inv_step:
  assumes "env_ok env" "config_ok env config" "wallet_step env config ws ws'" "wallet_inv env config ws"
  shows "wallet_inv env config ws'"
  using assms(3,4)
proof (induction rule: wallet_step.induct)
  case step_deposit then show ?case using wallet_inv_deposit [OF assms(1,2)] by blast
next
  case step_prepare then show ?case by (rule wallet_inv_prepare)
next
  case step_complete then show ?case using wallet_inv_complete [OF assms(1)] by blast
next
  case step_flow then show ?case by (rule wallet_inv_flow [OF assms(1)])
next
  case step_recover then show ?case by (rule wallet_inv_recover [OF assms(1)])
next
  case step_clear then show ?case by (rule wallet_inv_clear)
next
  case step_archive then show ?case by (rule wallet_inv_archive)
next
  case step_restart then show ?case using wallet_inv_restart by blast
qed

lemma wallet_inv_reachable:
  assumes "env_ok env" "config_ok env config" "wallet_reachable env config ws"
  shows "wallet_inv env config ws"
proof -
  obtain io w disk where start: "wallet_new env io config disk = Inr w"
    "disk (cc_state_dir config @ [''note_state.json'']) = None" and steps: "(wallet_step env config)\<^sup>*\<^sup>* (w, disk) ws"
    using assms(3) by (auto simp: wallet_reachable_def)
  have "wallet_inv env config (w, disk)"
    using start by (auto simp: wallet_new_def wallet_inv_def Let_def res)
  with steps show ?thesis by (induction rule: rtranclp_induct) (auto intro: wallet_inv_step [OF assms(1,2)])
qed

section \<open>Interrupted completion\<close>

lemma response_next_state_again:
  assumes "response_next_state env resp rid nul anon rho w = Inr s'" "w_config w2 = w_config w"
    and "compact_server_update (ce_curve env) anon2 (rr2_charge_applied resp) (rr2_blind_delta_srv resp) = Inr e2"
    and "e2 \<noteq> rr2_next_commitment resp"
  shows "response_next_state env resp rid nul anon2 rho w2 = Inl (VerificationFailed (Msg ''next commitment algebra mismatch''))"
  using assms by (auto simp: response_next_state_def Let_def res bail_if_def split: if_splits)

lemma response_next_state_commitment:
  assumes "response_next_state env resp rid nul anon rho w = Inr s'"
  shows "rr2_next_commitment resp = \<lparr>cp_x = ns_current_commitment_x s', cp_y = ns_current_commitment_y s'\<rparr>"
  using assms by (auto simp: response_next_state_def Let_def res curve_point_eta)

text \<open>Applying the rerandomization and the update of a response to its own commitment gives another
  one, unless the charge and the blindings are related by a discrete logarithm.\<close>

lemma update_twice:
  assumes "edwards_wire_ok E" "ed_in_subgroup E N" "compact_rerandomize E (point_to_wire E N) rho = Inr anon"
    and "compact_server_update E anon c d = Inr e" "e = point_to_wire E N"
  shows "nsmul (unat c) (ed_generator E) = nsmul (scalar rho + scalar d) (ed_H E)"
proof -
  let ?q = "N + nsmul (scalar rho) (ed_H E)"
  have "ed_in_subgroup E ?q"
    using assms(1,2) in_subgroup_nsmul edwards_wire_okD(7,9) by blast
  moreover have "anon = point_to_wire E ?q"
    using assms(3) point_round_trip [OF assms(1,2)] by (simp add: compact_rerandomize_def rerandomize_commitment_def)
  ultimately have "e = point_to_wire E (?q - nsmul (unat c) (ed_generator E) + nsmul (scalar d) (ed_H E))"
    using assms(4) point_round_trip [OF assms(1)] by (simp add: compact_server_update_def unat_u128_scalar)
  then have "?q - nsmul (unat c) (ed_generator E) + nsmul (scalar d) (ed_H E) = N"
    using assms(5) point_to_wire_inject [OF assms(1)] by simp
  then show ?thesis by (simp add: nsmul_add algebra_simps)
qed

definition clear_fails :: "'d io_faults" where
  "clear_fails = no_faults\<lparr>f_remove := True\<rparr>"

lemma interrupted_completion:
  assumes "env_ok env" "wallet_inv env config (w, disk)" "response_canonical resp"
    and "complete_pending_response env clear_fails resp w disk = ((w', disk'), r)" "w_state w' \<noteq> w_state w"
  obtains j s' anon where
    "journal_read (ce_json env) no_faults (w_journal_path w) disk' = Inr (Some j)"
    "response_next_state env resp (pj_client_request_id j) (pj_nullifier j) anon (pj_user_rerandomization j) w = Inr s'"
    "wallet_inv env config (w', disk')" "w_state w' = Some s'" "r = Inl Io"
  using assms(1,2)
proof (cases rule: pending_context_cases [where io = clear_fails])
  case (failed e)
  then show ?thesis using assms(4,5) by (simp add: complete_pending_response_def)
next
  case (pending j s b)
  define anon where "anon = compact_balance_commitment (ce_curve env) (ns_current_balance s)
    (add_blindings b (pj_user_rerandomization j)) (state_note_leaf (ce_poseidon env) s)"
  obtain s' where s': "response_next_state env resp (pj_client_request_id j) (pj_nullifier j) anon (pj_user_rerandomization j) w = Inr s'"
    using assms(4,5) pending(1)
    by (cases "response_next_state env resp (pj_client_request_id j) (pj_nullifier j) anon (pj_user_rerandomization j) w")
      (auto simp: complete_pending_response_def apply_response_def simp flip: anon_def)
  obtain d1 r1 where save: "state_save (ce_json env) clear_fails (w_state_path w) s' disk = (d1, r1)" by fastforce
  have "w_journal_path w \<noteq> w_state_path w" "w_journal_path w \<noteq> with_extension (w_state_path w) ''tmp''"
    using assms(2) by (auto simp: wallet_inv_def file_names)
  from sf.put_frame [OF this, of "ce_json env" clear_fails s' disk] save
  have frame: "d1 (w_journal_path w) = disk (w_journal_path w)" by simp
  have j: "disk (w_journal_path w) \<noteq> None"
    "journal_read (ce_json env) no_faults (w_journal_path w) d1 = Inr (Some j)"
    using pending(5) frame
    by (auto simp: journal_read_def read_to_string_def clear_fails_def no_faults_def split: if_splits)
  have "r1 \<noteq> Inl e" for e
    using assms(4,5) pending(1) s' save
    by (auto simp: complete_pending_response_def apply_response_def simp flip: anon_def)
  then obtain u where "r1 = Inr u" by (cases r1) auto
  then have res: "w' = w\<lparr>w_state := Some s'\<rparr>" "disk' = d1" "r = Inl Io"
    using assms(4) pending(1) s' save j(1) frame
    by (auto simp: complete_pending_response_def apply_response_def journal_clear_def remove_file_def
        clear_fails_def simp flip: anon_def)
  have "wallet_inv env config (w', disk')" using complete_cases [OF assms(1-4)] by blast
  then show ?thesis using that j(2) s' res by simp
qed

section \<open>Preparing a request\<close>

text \<open>A prepared request is journaled before it is returned, and is found again.\<close>

lemma prepare_request_works:
  assumes env: "env_ok env" "config_ok env (w_config w)" "request_prover_complete env (w_config w)"
    and inv: "wallet_inv env (w_config w) (w, disk)" "w_state w = Some s"
    and member: "note_member (ce_poseidon env) s root siblings"
    and funds: "wallet_cap (w_config w) \<le> ns_current_balance s" "dr_now dr \<le> ns_expiry_ts s"
    and hash: "canonical_payload_hash (ce_keccak env) (as_bytes_str payload) = Some h"
      "canonical_request_context (ce_keccak env) (dr_uuid dr) h = Some ctx"
    and free: "disk (w_journal_path w) = None" and draw: "canonical (dr_rerandomization dr)"
  obtains disk' request j where
    "prepare_request env no_faults dr payload h root siblings w disk = (disk', Inr request)"
    "journal_read (ce_json env) no_faults (w_journal_path w) disk' = Inr (Some j)"
    "pj_prepared_request j = Some request" "pj_client_request_id j = dr_uuid dr"
    "pj_user_rerandomization j = dr_rerandomization dr" "aq2_client_request_id request = dr_uuid dr"
    "r2_solvency_bound (aq2_public_inputs request) = wallet_cap (w_config w)"
    "pj_nullifier j = nullifier (ce_poseidon env) (ns_secret_s s) (ns_current_anchor s)"
    "r2_request_nullifier (aq2_public_inputs request) = pj_nullifier j"
proof -
  have "note_inv env (w_config w) s" using inv by (simp add: wallet_inv_def)
  from request_buildable [OF env inv(2) this member funds hash]
  obtain request j where req: "build_request env dr payload h root siblings w = Inr (request, j)"
    "aq2_client_request_id request = dr_uuid dr" "r2_solvency_bound (aq2_public_inputs request) = wallet_cap (w_config w)"
    "r2_request_nullifier (aq2_public_inputs request) = nullifier (ce_poseidon env) (ns_secret_s s) (ns_current_anchor s)"
    "pj_exists j" "pj_prepared_request j = Some request" "pj_client_request_id j = dr_uuid dr"
    "pj_user_rerandomization j = dr_rerandomization dr" "pj_nullifier j = r2_request_nullifier (aq2_public_inputs request)"
    and json: "journal_encodable (ce_json env) j"
    using draw env(1) by (auto simp: env_ok_def)
  obtain disk' r where jw: "journal_write (ce_json env) no_faults (w_journal_path w) j disk = (disk', r)" by fastforce
  have path: "w_journal_path w \<noteq> with_extension (w_journal_path w) ''tmp''" using inv by (auto simp: wallet_inv_def file_names)
  have ok: "r = Inr ()" using jf.put_works json jw by (metis snd_conv)
  then obtain d where d: "disk' (w_journal_path w) = Some d" "journal_from_json (ce_json env) d = Some j"
    using jf.put_cases [OF jw path] json by blast
  then have "journal_read (ce_json env) no_faults (w_journal_path w) disk' = Inr (Some j)"
    using req(5) by (simp add: journal_read_def read_to_string_def no_faults_def)
  moreover have "prepare_request env no_faults dr payload h root siblings w disk = (disk', Inr request)"
    using free req(1) jw ok
    by (simp add: prepare_request_def has_pending_request_def journal_read_def res_ok_def)
  ultimately show ?thesis using that req by simp
qed

text \<open>A valid response is applied whenever the state file can be written.\<close>

lemma complete_accepts:
  assumes "env_ok env" "w_state w = Some s" "note_opens env s b"
    and "journal_read (ce_json env) io (w_journal_path w) disk = Inr (Some j)"
    and "response_next_state env resp (pj_client_request_id j) (pj_nullifier j)
      (compact_balance_commitment (ce_curve env) (ns_current_balance s)
        (add_blindings b (pj_user_rerandomization j)) (state_note_leaf (ce_poseidon env) s))
      (pj_user_rerandomization j) w = Inr s'"
    and "\<not> f_dir io" "f_write io = None" "\<not> f_rename io" "state_canonical s'"
  shows "w_state (fst (fst (complete_pending_response env io resp w disk))) = Some s'"
proof -
  obtain d where "state_to_json (ce_json env) s' = Some d"
    using assms(1,9) by (auto simp: env_ok_def state_encodable_def)
  then obtain disk' where "state_save (ce_json env) io (w_state_path w) s' disk = (disk', Inr ())"
    using assms(6-8)
    by (simp add: state_save_def replace_file_def create_dir_all_def bail_if_def write_private_file_def fs_rename_def)
  then show ?thesis using pending_context_Inr [OF assms(1-4)] assms(5)
    by (simp add: complete_pending_response_def apply_response_def split: prod.splits)
qed

section \<open>Sequences of responses\<close>

text \<open>What completing a response does to the note alone.\<close>

definition note_accept ::
    "('e::ab_group_add, 'd) client_env \<times> ClientConfig \<Rightarrow> PendingRequestJournal \<times> RequestResponseV2 \<Rightarrow> NoteState \<Rightarrow>
     ClientError + NoteState" where
  "note_accept = (\<lambda>(env, config) (j, resp) s.
     and_then (parse_scalar (ns_balance_blinding s)) (\<lambda>b.
       let current = compact_balance_commitment (ce_curve env) (ns_current_balance s) b (state_note_leaf (ce_poseidon env) s) in
     and_then (ensure_stored_commitment s current) (\<lambda>_.
     and_then (map_err (\<lambda>e. VerificationFailed (CompactFailure e))
       (compact_rerandomize (ce_curve env) current (pj_user_rerandomization j))) (\<lambda>anonymous.
     response_next_state env resp (pj_client_request_id j) (pj_nullifier j) anonymous (pj_user_rerandomization j)
       \<lparr>w_config = config, w_state = Some s, w_state_path = [], w_journal_path = []\<rparr>))))"

lemma response_next_state_cong:
  "w_config w = w_config w2 \<Longrightarrow> w_state w = w_state w2 \<Longrightarrow>
   response_next_state env resp rid nul anon rho w = response_next_state env resp rid nul anon rho w2"
  by (simp add: response_next_state_def)

text \<open>It is exactly what \<open>complete_pending_response\<close> does to the wallet when it succeeds.\<close>

lemma complete_note_accept:
  assumes "complete_pending_response env io resp w disk = ((w', disk'), Inr ())"
  shows "\<exists>j s s'. journal_read (ce_json env) io (w_journal_path w) disk = Inr (Some j) \<and> w_state w = Some s \<and>
    note_accept (env, w_config w) (j, resp) s = Inr s' \<and> w_state w' = Some s'"
proof -
  obtain j anon s1 where ctx: "pending_context env io w disk = Inr (j, anon)"
    and app: "apply_response env io resp (pj_client_request_id j) (pj_nullifier j) anon (pj_user_rerandomization j) (w, disk) = (s1, Inr ())"
    and clear: "(case s1 of (w, disk) \<Rightarrow> case journal_clear io (w_journal_path w) disk of (disk', r) \<Rightarrow> ((w, disk'), r)) = ((w', disk'), Inr ())"
    using assms by (auto simp: complete_pending_response_def st_then_eq_Inr)
  obtain s' d where nxt: "response_next_state env resp (pj_client_request_id j) (pj_nullifier j) anon (pj_user_rerandomization j) w = Inr s'"
    and s1: "s1 = (w\<lparr>w_state := Some s'\<rparr>, d)"
    using app by (auto simp: apply_response_def split: sum.splits prod.splits)
  obtain s where s: "journal_read (ce_json env) io (w_journal_path w) disk = Inr (Some j)" "w_state w = Some s"
    using ctx by (auto simp: pending_context_def res ok_or_def Let_def split: option.splits)
  have "note_accept (env, w_config w) (j, resp) s = Inr s'"
    using ctx nxt s response_next_state_cong [of w "\<lparr>w_config = w_config w, w_state = Some s, w_state_path = [], w_journal_path = []\<rparr>" env]
    by (auto simp: note_accept_def pending_context_def res Let_def)
  moreover have "w_state w' = Some s'" using clear by (auto simp: s1 split: prod.splits)
  ultimately show ?thesis using s by blast
qed

primrec run_all :: "('r \<Rightarrow> 's \<Rightarrow> 'x + 's) \<Rightarrow> 'r list \<Rightarrow> 's \<Rightarrow> 'x + 's" where
  "run_all f [] s = Inr s"
| "run_all f (r # rs) s = and_then (f r s) (run_all f rs)"

text \<open>A note ledger: every accepted response keeps the invariant and takes exactly its charge.\<close>

locale note_ledger =
  fixes inv :: "'c \<Rightarrow> 's \<Rightarrow> bool" and bal :: "'s \<Rightarrow> nat" and charge :: "'r \<Rightarrow> nat"
    and good :: "'c \<Rightarrow> 'r \<Rightarrow> bool" and accept :: "'c \<Rightarrow> 'r \<Rightarrow> 's \<Rightarrow> 'x + 's"
  assumes accept_keeps: "good c r \<Longrightarrow> inv c s \<Longrightarrow> accept c r s = Inr s' \<Longrightarrow> inv c s' \<and> bal s = bal s' + charge r"
begin

lemma run_keeps:
  assumes "\<forall>r \<in> set rs. good c r" "inv c s" "run_all (accept c) rs s = Inr s'"
  shows "inv c s' \<and> bal s = bal s' + sum_list (map charge rs)"
  using assms
proof (induction rs arbitrary: s)
  case (Cons r rs)
  then obtain t where t: "accept c r s = Inr t" "run_all (accept c) rs t = Inr s'" by (auto simp: res)
  have "inv c t \<and> bal s = bal t + charge r" using accept_keeps [OF _ Cons.prems(2) t(1)] Cons.prems(1) by simp
  with Cons.IH [OF _ _ t(2)] Cons.prems(1) show ?case by simp
qed simp

lemma charges_bounded:
  assumes "\<forall>r \<in> set rs. good c r" "inv c s" "run_all (accept c) rs s = Inr s'"
  shows "sum_list (map charge rs) \<le> bal s"
  using run_keeps [OF assms] by simp

end

interpretation nl: note_ledger "\<lambda>(env, config) s. env_ok env \<and> note_inv env config s"
  "\<lambda>s. unat (ns_current_balance s)" "\<lambda>(j, resp). unat (rr2_charge_applied resp)"
  "\<lambda>_ (j, resp). response_canonical resp" note_accept
proof (unfold_locales, goal_cases)
  case (1 c r s s')
  obtain env config j resp where c: "c = (env, config)" "r = (j, resp)" by (cases c; cases r) blast
  let ?w = "\<lparr>w_config = config, w_state = Some s, w_state_path = [], w_journal_path = []\<rparr>"
  have env: "env_ok env" "note_inv env config s" using 1(2) by (simp_all add: c)
  then obtain b where b: "note_opens env s b" by (auto simp: note_inv_def)
  have nxt: "response_next_state env resp (pj_client_request_id j) (pj_nullifier j)
      (compact_balance_commitment (ce_curve env) (ns_current_balance s) (add_blindings b (pj_user_rerandomization j))
        (state_note_leaf (ce_poseidon env) s)) (pj_user_rerandomization j) ?w = Inr s'"
    using 1(3) b note_opens_stored [OF b] compact_rerandomize_commitment [of "ce_curve env"] env(1)
    by (simp add: note_accept_def c note_opens_def env_ok_def Let_def)
  have "response_canonical resp" using 1(1) by (simp add: c)
  from response_next_state_Inr [where w = ?w, simplified, OF env(1) refl env(2) b refl nxt this]
  show ?case using env(1) by (simp add: c)
qed

end
