(* ===== verification/Browser.thy ===== *)
theory Browser
  imports Wallet_Safety
begin

text \<open>
  The browser wallet (\<open>zkapi-browser/src/lib.rs\<close>): pure functions from a state snapshot to the next one,
  without storage or transport. Random draws are arguments; a proving key is the function it makes of
  the prover, read by the key-file decoder with the library's deserializer. The functions
  exported to JavaScript are in \<open>Browser_Wasm\<close>.
\<close>

section \<open>Messages\<close>

text \<open>\<open>bail!\<close> texts without formatting are kept; formatted ones are constructors.\<close>

datatype BrowserError =
    Bail string
  | UnsupportedVersion u16
  | BrowserInsufficient u128 u128
  | WrongSiblingCount nat
  | BlindingError felt_error
  | AddressNotUtf8
  | AddressNotHex
  | BrowserCompact compact_error
  | BrowserPanicked

record BrowserWalletConfig =
  bc_protocol_version :: u16
  bc_chain_id :: u64
  bc_contract_address :: felt
  bc_request_charge_cap :: u128
  bc_policy_charge_cap :: u128
  bc_policy_enabled :: bool
  bc_state_signing_key :: CurvePointWire
  bc_clearance_signing_key :: CurvePointWire

record BrowserNoteState =
  bs_protocol_version :: u16
  bs_chain_id :: u64
  bs_contract_address :: felt
  bs_note_id :: u32
  bs_secret_s :: felt
  bs_deposit_amount :: u128
  bs_expiry_ts :: u64
  bs_current_balance :: u128
  bs_balance_blinding :: string
  bs_current_commitment_x :: felt
  bs_current_commitment_y :: felt
  bs_current_anchor :: felt
  bs_is_genesis :: bool
  bs_state_signature :: "SchnorrSignature option"

record BrowserJournal =
  bj_exists :: bool
  bj_client_request_id :: string
  bj_nullifier :: felt
  bj_payload_hash :: felt
  bj_user_rerandomization :: felt
  bj_created_at_ms :: u64
  bj_prepared_request :: ApiRequestV2

record DepositParams =
  dep_secret :: felt
  dep_registration_commitment :: felt

record ConfirmDepositArgs =
  cda_secret :: felt
  cda_note_id :: u32
  cda_amount :: u128
  cda_expiry_ts :: u64

record PrepareRequestArgs =
  pra_payload :: string
  pra_active_root :: felt
  pra_merkle_siblings :: "felt list"
  pra_client_request_id :: string
  pra_request_time :: u64
  pra_created_at_ms :: u64

record PreparedRequest =
  prq_request :: ApiRequestV2
  prq_journal :: BrowserJournal

record CompleteResponseArgs =
  cra_state :: BrowserNoteState
  cra_journal :: BrowserJournal
  cra_response :: RequestResponseV2

record PrepareWithdrawalArgs =
  pwa_mode :: string
  pwa_destination :: string
  pwa_active_root :: felt
  pwa_merkle_siblings :: "felt list"
  pwa_clearance :: "ClearanceResponseV2 option"

record WithdrawalPlan =
  wpl_mode :: string
  wpl_public_inputs :: WithdrawalPublicInputsV2
  wpl_siblings :: "felt list"
  wpl_proof :: Groth16ProofWire

record BrowserNoteStatus =
  bns_note_id :: u32
  bns_deposit_amount :: u128
  bns_current_balance :: u128
  bns_expiry_ts :: u64
  bns_is_genesis :: bool
  bns_current_anchor :: felt
  bns_current_commitment_x :: felt
  bns_current_commitment_y :: felt

record BrowserWalletStatus =
  bws_has_note :: bool
  bws_pending_request :: bool
  bws_note :: "BrowserNoteStatus option"

record TreeSnapshot =
  ts_root :: felt
  ts_next_note_id :: u32
  ts_leaves :: "felt list"

record BrowserTreePath =
  btp_active_root :: felt
  btp_note_id :: u32
  btp_siblings :: "felt list"

record 'e browser_env =
  be_curve :: "'e edwards"
  be_poseidon :: poseidon
  be_keccak :: keccak256
  be_codec :: codec
  be_request_key :: "u8 list \<Rightarrow> (('e RequestPublic \<Rightarrow> 'e RequestWitness \<Rightarrow> Groth16Proof option) \<times> u8 list) option"
  be_withdrawal_key :: "u8 list \<Rightarrow> (('e WithdrawalPublic \<Rightarrow> 'e WithdrawalWitness \<Rightarrow> Groth16Proof option) \<times> u8 list) option"


section \<open>Tree paths\<close>

definition tree_path :: "poseidon \<Rightarrow> TreeSnapshot \<Rightarrow> u32 \<Rightarrow> bool \<Rightarrow> BrowserError + BrowserTreePath" where
  "tree_path P snapshot note_id require_existing =
     and_then (bail_if (length (ts_leaves snapshot) \<noteq> unat (ts_next_note_id snapshot))
       (Bail ''tree snapshot leaf count does not match next_note_id'')) (\<lambda>_.
     and_then (bail_if ((require_existing \<and> note_id \<ge> ts_next_note_id snapshot) \<or>
         (\<not> require_existing \<and> note_id \<noteq> ts_next_note_id snapshot))
       (Bail ''requested note index is inconsistent with the tree snapshot'')) (\<lambda>_.
       let tree = fold (\<lambda>(index, leaf) tree. set_leaf P tree (of_nat index) leaf)
             (List.enumerate 0 (ts_leaves snapshot)) (MerkleTree_new P) in
     and_then (bail_if (tree_root tree \<noteq> ts_root snapshot)
       (Bail ''tree snapshot root verification failed'')) (\<lambda>_.
     Inr \<lparr>btp_active_root = ts_root snapshot, btp_note_id = note_id,
          btp_siblings = get_siblings tree note_id\<rparr>)))"


section \<open>Deposits and status\<close>

fun browser_generate_deposit_params :: "poseidon \<Rightarrow> felt list \<Rightarrow> DepositParams option" where
  "browser_generate_deposit_params P [] = None"
| "browser_generate_deposit_params P (secret # draws) =
     (if \<not> is_zero secret
      then Some \<lparr>dep_secret = secret, dep_registration_commitment = registration_commitment P secret\<rparr>
      else browser_generate_deposit_params P draws)"

definition validate_state_identity :: "BrowserWalletConfig \<Rightarrow> felt \<Rightarrow> u128 \<Rightarrow> BrowserError + unit" where
  "validate_state_identity config secret amount =
     and_then (bail_if (bc_protocol_version config \<noteq> 2) (UnsupportedVersion (bc_protocol_version config))) (\<lambda>_.
     bail_if (is_zero (bc_contract_address config) \<or> is_zero secret \<or> amount = 0)
       (Bail ''deposit identity contains a zero value''))"

definition validate_state :: "BrowserWalletConfig \<Rightarrow> BrowserNoteState \<Rightarrow> BrowserError + unit" where
  "validate_state config state =
     and_then (bail_if (bs_protocol_version state \<noteq> bc_protocol_version config \<or>
         bs_chain_id state \<noteq> bc_chain_id config \<or> bs_contract_address state \<noteq> bc_contract_address config)
       (Bail ''wallet state belongs to a different zkAPI deployment'')) (\<lambda>_.
     validate_state_identity config (bs_secret_s state) (bs_deposit_amount state))"

definition browser_confirm_deposit ::
    "'e::ab_group_add browser_env \<Rightarrow> felt \<Rightarrow> BrowserWalletConfig \<Rightarrow> ConfirmDepositArgs \<Rightarrow> BrowserError + BrowserNoteState" where
  "browser_confirm_deposit env blinding config args =
     and_then (validate_state_identity config (cda_secret args) (cda_amount args)) (\<lambda>_.
       let P = be_poseidon env;
           commitment = compact_balance_commitment (be_curve env) (cda_amount args) blinding
             (note_leaf P (cda_note_id args) (registration_commitment P (cda_secret args)) (cda_amount args)
                (cda_expiry_ts args))
       in Inr \<lparr>bs_protocol_version = bc_protocol_version config, bs_chain_id = bc_chain_id config,
            bs_contract_address = bc_contract_address config, bs_note_id = cda_note_id args,
            bs_secret_s = cda_secret args, bs_deposit_amount = cda_amount args,
            bs_expiry_ts = cda_expiry_ts args, bs_current_balance = cda_amount args,
            bs_balance_blinding = to_hex blinding, bs_current_commitment_x = cp_x commitment,
            bs_current_commitment_y = cp_y commitment, bs_current_anchor = ONE, bs_is_genesis = True,
            bs_state_signature = None\<rparr>)"

definition wallet_status :: "BrowserNoteState option \<Rightarrow> BrowserJournal option \<Rightarrow> BrowserWalletStatus" where
  "wallet_status state journal =
     \<lparr>bws_has_note = (state \<noteq> None),
      bws_pending_request = (case journal of None \<Rightarrow> False | Some entry \<Rightarrow> bj_exists entry),
      bws_note = map_option (\<lambda>s.
        \<lparr>bns_note_id = bs_note_id s, bns_deposit_amount = bs_deposit_amount s,
         bns_current_balance = bs_current_balance s, bns_expiry_ts = bs_expiry_ts s,
         bns_is_genesis = bs_is_genesis s, bns_current_anchor = bs_current_anchor s,
         bns_current_commitment_x = bs_current_commitment_x s,
         bns_current_commitment_y = bs_current_commitment_y s\<rparr>) state\<rparr>"


section \<open>Requests\<close>

definition browser_ensure_stored_commitment :: "BrowserNoteState \<Rightarrow> CurvePointWire \<Rightarrow> BrowserError + unit" where
  "browser_ensure_stored_commitment state commitment =
     bail_if (cp_x commitment \<noteq> bs_current_commitment_x state \<or> cp_y commitment \<noteq> bs_current_commitment_y state)
       (Bail ''persisted balance commitment is inconsistent'')"

definition browser_parse_scalar :: "string \<Rightarrow> BrowserError + felt" where
  "browser_parse_scalar value =
     map_err (\<lambda>e. if e = SlicePanic then BrowserPanicked else BlindingError e) (from_hex value)"

definition browser_siblings_array :: "felt list \<Rightarrow> BrowserError + felt list" where
  "browser_siblings_array values =
     (if length values = MERKLE_DEPTH then Inr values else Inl (WrongSiblingCount (length values)))"

definition browser_note_leaf :: "poseidon \<Rightarrow> BrowserNoteState \<Rightarrow> felt" where
  "browser_note_leaf P state =
     note_leaf P (bs_note_id state) (registration_commitment P (bs_secret_s state))
       (bs_deposit_amount state) (bs_expiry_ts state)"

text \<open>\<open>s.trim().is_empty()\<close> on the UTF-8 bytes: only characters of the Unicode class White_Space.\<close>

fun blank :: "nat list \<Rightarrow> bool" where
  "blank [] \<longleftrightarrow> True"
| "blank (a # xs) \<longleftrightarrow>
     (if (9 \<le> a \<and> a \<le> 13) \<or> a = 32 then blank xs
      else case xs of
        [] \<Rightarrow> False
      | b # ys \<Rightarrow>
          if a = 194 \<and> (b = 133 \<or> b = 160) then blank ys
          else (case ys of
            [] \<Rightarrow> False
          | c # zs \<Rightarrow>
              (a = 225 \<and> b = 154 \<and> c = 128 \<or>
               a = 226 \<and> b = 128 \<and> (128 \<le> c \<and> c \<le> 138 \<or> c = 168 \<or> c = 169 \<or> c = 175) \<or>
               a = 226 \<and> b = 129 \<and> c = 159 \<or> a = 227 \<and> b = 128 \<and> c = 128) \<and> blank zs))"

definition trim_is_empty :: "string \<Rightarrow> bool" where
  "trim_is_empty s = blank (map of_char s)"

definition prepare_request_with_prover ::
    "'e::ab_group_add browser_env \<Rightarrow> felt \<Rightarrow> BrowserWalletConfig \<Rightarrow> BrowserNoteState \<Rightarrow> PrepareRequestArgs \<Rightarrow>
     ('e RequestPublic \<Rightarrow> 'e RequestWitness \<Rightarrow> Groth16Proof option) \<Rightarrow> BrowserError + PreparedRequest" where
  "prepare_request_with_prover env rerandomization config state args prover =
     (let E = be_curve env; P = be_poseidon env in
      and_then (validate_state config state) (\<lambda>_.
      and_then (bail_if (trim_is_empty (pra_client_request_id args)) (Bail ''client_request_id is required'')) (\<lambda>_.
      and_then (browser_siblings_array (pra_merkle_siblings args)) (\<lambda>siblings.
      and_then (ok_or BrowserPanicked (canonical_payload_hash (be_keccak env) (as_bytes_str (pra_payload args)))) (\<lambda>payload_hash.
        let bound = (if bc_policy_enabled config then bc_policy_charge_cap config else bc_request_charge_cap config) in
      and_then (bail_if (bs_current_balance state < bound) (BrowserInsufficient bound (bs_current_balance state))) (\<lambda>_.
      and_then (browser_parse_scalar (bs_balance_blinding state)) (\<lambda>current_blinding.
        let current = compact_balance_commitment E (bs_current_balance state) current_blinding (browser_note_leaf P state) in
      and_then (browser_ensure_stored_commitment state current) (\<lambda>_.
      and_then (map_err BrowserCompact (compact_rerandomize E current rerandomization)) (\<lambda>anonymous.
        let nul = nullifier P (bs_secret_s state) (bs_current_anchor state) in
      and_then (ok_or BrowserPanicked
        (canonical_request_context (be_keccak env) (pra_client_request_id args) payload_hash)) (\<lambda>request_context.
        let public_inputs =
              \<lparr>r2_protocol_version = bs_protocol_version state, r2_chain_id = bs_chain_id state,
               r2_contract_address = bs_contract_address state, r2_active_root = pra_active_root args,
               r2_state_signing_key_x = cp_x (bc_state_signing_key config),
               r2_state_signing_key_y = cp_y (bc_state_signing_key config),
               r2_request_time = pra_request_time args, r2_solvency_bound = bound, r2_request_nullifier = nul,
               r2_authorization_tag = authorization_tag P nul request_context,
               r2_anonymous_commitment_x = cp_x anonymous, r2_anonymous_commitment_y = cp_y anonymous\<rparr> in
      and_then (map_err BrowserCompact (request_prove E P (be_codec env) prover public_inputs
           \<lparr>rd_secret = bs_secret_s state, rd_request_context = request_context,
            rd_note_id = bs_note_id state, rd_deposit_amount = bs_deposit_amount state,
            rd_expiry = bs_expiry_ts state, rd_merkle_siblings = siblings,
            rd_current_balance = bs_current_balance state, rd_current_blinding = current_blinding,
            rd_rerandomization = rerandomization, rd_current_anchor = bs_current_anchor state,
            rd_is_genesis = bs_is_genesis state, rd_state_signature = bs_state_signature state\<rparr>)) (\<lambda>pf.
        let request = \<lparr>aq2_client_request_id = pra_client_request_id args, aq2_payload = pra_payload args,
              aq2_payload_hash = payload_hash, aq2_public_inputs = public_inputs, aq2_proof = pf\<rparr>
        in Inr \<lparr>prq_request = request, prq_journal =
             \<lparr>bj_exists = True, bj_client_request_id = pra_client_request_id args, bj_nullifier = nul,
              bj_payload_hash = payload_hash, bj_user_rerandomization = rerandomization,
              bj_created_at_ms = pra_created_at_ms args, bj_prepared_request = request\<rparr>\<rparr>)))))))))))"

definition browser_prepare_request ::
    "'e::ab_group_add browser_env \<Rightarrow> felt \<Rightarrow> BrowserWalletConfig \<Rightarrow> BrowserNoteState \<Rightarrow> PrepareRequestArgs \<Rightarrow> u8 list \<Rightarrow>
     BrowserError + PreparedRequest" where
  "browser_prepare_request env rerandomization config state args proving_key =
     and_then (map_err BrowserCompact (decode_compressed (be_request_key env) proving_key)) (\<lambda>prover.
     prepare_request_with_prover env rerandomization config state args prover)"

definition complete_response ::
    "'e::ab_group_add browser_env \<Rightarrow> BrowserWalletConfig \<Rightarrow> CompleteResponseArgs \<Rightarrow> BrowserError + BrowserNoteState" where
  "complete_response env config args =
     (let E = be_curve env; P = be_poseidon env; state = cra_state args;
          response = cra_response args; journal = cra_journal args in
      and_then (validate_state config state) (\<lambda>_.
      and_then (bail_if (\<not> bj_exists journal \<or>
          rr2_client_request_id response \<noteq> bj_client_request_id journal \<or>
          rr2_request_nullifier response \<noteq> bj_nullifier journal)
        (Bail ''response request identity mismatch'')) (\<lambda>_.
      and_then (ok_or BrowserPanicked
        (canonical_response_hash (be_keccak env) (as_bytes_str (rr2_response_payload response)))) (\<lambda>h.
      and_then (bail_if (h \<noteq> rr2_response_hash response) (Bail ''response payload hash mismatch'')) (\<lambda>_.
        let cap = r2_solvency_bound (aq2_public_inputs (bj_prepared_request journal)) in
      and_then (bail_if (rr2_charge_applied response > cap \<or> is_zero (rr2_next_anchor response))
        (Bail ''invalid charge or next anchor'')) (\<lambda>_.
      and_then (browser_parse_scalar (bs_balance_blinding state)) (\<lambda>current_blinding.
        let current = compact_balance_commitment E (bs_current_balance state) current_blinding (browser_note_leaf P state) in
      and_then (browser_ensure_stored_commitment state current) (\<lambda>_.
      and_then (map_err BrowserCompact (compact_rerandomize E current (bj_user_rerandomization journal))) (\<lambda>anonymous.
      and_then (map_err BrowserCompact (compact_server_update E anonymous (rr2_charge_applied response)
        (rr2_blind_delta_srv response))) (\<lambda>expected.
      and_then (bail_if (expected \<noteq> rr2_next_commitment response) (Bail ''next commitment algebra mismatch'')) (\<lambda>_.
      and_then (map_err BrowserCompact (compact_verify_signature E P (bc_state_signing_key config)
        (state_message P (bs_protocol_version state) (bs_chain_id state) (bs_contract_address state)
           (cp_x (rr2_next_commitment response)) (cp_y (rr2_next_commitment response))
           (rr2_next_anchor response)) (rr2_next_state_signature response))) (\<lambda>valid.
      and_then (bail_if (\<not> valid) (Bail ''invalid next-state signature'')) (\<lambda>_.
      and_then (ok_or (Bail ''charge exceeds balance'')
        (checked_sub (bs_current_balance state) (rr2_charge_applied response))) (\<lambda>balance.
      Inr (state
        \<lparr>bs_current_balance := balance,
         bs_balance_blinding := to_hex (add_blindings (add_blindings current_blinding (bj_user_rerandomization journal))
           (rr2_blind_delta_srv response)),
         bs_current_commitment_x := cp_x (rr2_next_commitment response),
         bs_current_commitment_y := cp_y (rr2_next_commitment response),
         bs_current_anchor := rr2_next_anchor response, bs_is_genesis := False,
         bs_state_signature := Some (rr2_next_state_signature response)\<rparr>)))))))))))))))"


section \<open>Withdrawals\<close>

definition withdrawal_nullifier :: "poseidon \<Rightarrow> BrowserNoteState \<Rightarrow> felt" where
  "withdrawal_nullifier P state = nullifier P (bs_secret_s state) (bs_current_anchor state)"

text \<open>\<open>std::str::from_utf8\<close> on two bytes.\<close>

definition utf8_pair :: "string \<Rightarrow> bool" where
  "utf8_pair chunk =
     (case map (of_char :: char \<Rightarrow> nat) chunk of
        [a, b] \<Rightarrow> (a < 128 \<and> b < 128) \<or> (194 \<le> a \<and> a \<le> 223 \<and> 128 \<le> b \<and> b \<le> 191)
      | _ \<Rightarrow> False)"

definition parse_address :: "string \<Rightarrow> BrowserError + address" where
  "parse_address value =
     (let raw = unwrap_or value (strip_prefix ''0x'' value) in
      and_then (bail_if (length raw \<noteq> 40) (Bail ''destination must be a 20-byte hex address'')) (\<lambda>_.
      and_then (try_map (\<lambda>chunk. if \<not> utf8_pair chunk then Inl AddressNotUtf8
                                  else ok_or AddressNotHex (from_str_radix16 chunk)) (chunks 2 20 raw)) (\<lambda>bytes.
      Inr (of_nat (be_value bytes)))))"

definition withdrawal_clearance ::
    "'e::ab_group_add browser_env \<Rightarrow> BrowserWalletConfig \<Rightarrow> BrowserNoteState \<Rightarrow> bool \<Rightarrow> felt \<Rightarrow>
     ClearanceResponseV2 option \<Rightarrow> BrowserError + SchnorrSignature option" where
  "withdrawal_clearance env config state has_clearance nul given =
     (if has_clearance then
        and_then (ok_or (Bail ''mutual withdrawal requires server clearance'') given) (\<lambda>clearance.
        and_then (bail_if (cr2_withdrawal_nullifier clearance \<noteq> nul) (Bail ''clearance nullifier mismatch'')) (\<lambda>_.
        and_then (map_err BrowserCompact (compact_verify_signature (be_curve env) (be_poseidon env)
          (bc_clearance_signing_key config)
          (clearance_message (be_poseidon env) (bs_protocol_version state) (bs_chain_id state)
             (bs_contract_address state) nul) (cr2_signature clearance))) (\<lambda>valid.
        and_then (bail_if (\<not> valid) (Bail ''invalid clearance signature'')) (\<lambda>_.
        Inr (Some (cr2_signature clearance))))))
      else
        and_then (bail_if (given \<noteq> None) (Bail ''escape withdrawal must not include clearance'')) (\<lambda>_. Inr None))"

definition prepare_withdrawal ::
    "'e::ab_group_add browser_env \<Rightarrow> BrowserWalletConfig \<Rightarrow> BrowserNoteState \<Rightarrow> PrepareWithdrawalArgs \<Rightarrow> u8 list \<Rightarrow>
     BrowserError + WithdrawalPlan" where
  "prepare_withdrawal env config state args proving_key =
     (let P = be_poseidon env in
      and_then (validate_state config state) (\<lambda>_.
      and_then (if pwa_mode args = ''mutual'' then Inr True
                else if pwa_mode args = ''escape'' then Inr False
                else Inl (Bail ''withdrawal mode must be mutual or escape'')) (\<lambda>has_clearance.
      and_then (parse_address (pwa_destination args)) (\<lambda>destination.
      and_then (browser_siblings_array (pwa_merkle_siblings args)) (\<lambda>siblings.
        let nul = withdrawal_nullifier P state in
      and_then (withdrawal_clearance env config state has_clearance nul (pwa_clearance args)) (\<lambda>clearance_signature.
        let destination_felt = felt_of_bytes (replicate 12 0 @ addr_bytes destination);
            public_inputs =
             \<lparr>w2_protocol_version = bs_protocol_version state, w2_chain_id = bs_chain_id state,
              w2_contract_address = bs_contract_address state, w2_active_root = pwa_active_root args,
              w2_state_signing_key_x = cp_x (bc_state_signing_key config),
              w2_state_signing_key_y = cp_y (bc_state_signing_key config),
              w2_clearance_signing_key_x = cp_x (bc_clearance_signing_key config),
              w2_clearance_signing_key_y = cp_y (bc_clearance_signing_key config),
              w2_note_id = bs_note_id state, w2_final_balance = bs_current_balance state,
              w2_destination = destination, w2_withdrawal_nullifier = nul, w2_has_clearance = has_clearance,
              w2_withdrawal_tag = withdrawal_tag P nul destination_felt (bs_current_balance state) has_clearance\<rparr> in
      and_then (map_err BrowserCompact (decode_compressed (be_withdrawal_key env) proving_key)) (\<lambda>prover.
      and_then (browser_parse_scalar (bs_balance_blinding state)) (\<lambda>blinding.
      and_then (map_err BrowserCompact
        (withdrawal_prove (be_curve env) P (be_codec env) prover public_inputs
           \<lparr>wd_secret = bs_secret_s state, wd_deposit_amount = bs_deposit_amount state,
            wd_expiry = bs_expiry_ts state, wd_merkle_siblings = siblings, wd_final_blinding = blinding,
            wd_current_anchor = bs_current_anchor state, wd_is_genesis = bs_is_genesis state,
            wd_state_signature = bs_state_signature state,
            wd_clearance_signature = clearance_signature\<rparr>)) (\<lambda>pf.
      Inr \<lparr>wpl_mode = pwa_mode args, wpl_public_inputs = public_inputs,
           wpl_siblings = pwa_merkle_siblings args, wpl_proof = pf\<rparr>)))))))))"

end
