(* ===== verification/Browser_Wasm.thy ===== *)
theory Browser_Wasm
  imports Browser
begin

text \<open>
  The JavaScript interface of the browser wallet (module \<open>wasm\<close> of \<open>zkapi-browser/src/lib.rs\<close>): every
  function reads its arguments from JSON texts, calls the operation of \<open>Browser\<close> and writes the result
  as a JSON text. \<open>serde_json\<close> on the types that cross the boundary is the record \<open>wasm_json\<close>.
\<close>

section \<open>Texts\<close>

record wasm_json =
  wj_config :: "string \<Rightarrow> BrowserWalletConfig option"
  wj_state :: "string \<Rightarrow> BrowserNoteState option"
  wj_journal :: "string \<Rightarrow> BrowserJournal option"
  wj_confirm_args :: "string \<Rightarrow> ConfirmDepositArgs option"
  wj_request_args :: "string \<Rightarrow> PrepareRequestArgs option"
  wj_complete_args :: "string \<Rightarrow> CompleteResponseArgs option"
  wj_withdrawal_args :: "string \<Rightarrow> PrepareWithdrawalArgs option"
  wj_snapshot :: "string \<Rightarrow> TreeSnapshot option"
  wj_deposit_text :: "DepositParams \<Rightarrow> string option"
  wj_state_text :: "BrowserNoteState \<Rightarrow> string option"
  wj_status_text :: "BrowserWalletStatus \<Rightarrow> string option"
  wj_prepared_text :: "PreparedRequest \<Rightarrow> string option"
  wj_felt_text :: "felt \<Rightarrow> string option"
  wj_path_text :: "BrowserTreePath \<Rightarrow> string option"
  wj_plan_text :: "WithdrawalPlan \<Rightarrow> string option"

text \<open>An error becomes a JavaScript string: serde's text or the text of the wallet's error.\<close>

datatype js_value = JsonText | JsError BrowserError

definition wasm_encode :: "('v \<Rightarrow> string option) \<Rightarrow> 'v \<Rightarrow> js_value + string" where
  "wasm_encode enc value = ok_or JsonText (enc value)"

definition wasm_decode :: "(string \<Rightarrow> 'v option) \<Rightarrow> string \<Rightarrow> js_value + 'v" where
  "wasm_decode dec text = ok_or JsonText (dec text)"

text \<open>\<open>as_deref().map(decode).transpose()\<close>.\<close>

definition wasm_decode_opt :: "(string \<Rightarrow> 'v option) \<Rightarrow> string option \<Rightarrow> js_value + 'v option" where
  "wasm_decode_opt dec text =
     (case text of None \<Rightarrow> Inr None | Some t \<Rightarrow> and_then (wasm_decode dec t) (\<lambda>v. Inr (Some v)))"


section \<open>Exported functions\<close>

definition wasm_generate_deposit :: "wasm_json \<Rightarrow> poseidon \<Rightarrow> felt list \<Rightarrow> (js_value + string) option" where
  "wasm_generate_deposit J P draws =
     map_option (wasm_encode (wj_deposit_text J)) (browser_generate_deposit_params P draws)"

definition wasm_confirm_deposit ::
    "wasm_json \<Rightarrow> 'e::ab_group_add browser_env \<Rightarrow> felt \<Rightarrow> string \<Rightarrow> string \<Rightarrow> js_value + string" where
  "wasm_confirm_deposit J env blinding config_json args_json =
     and_then (wasm_decode (wj_config J) config_json) (\<lambda>config.
     and_then (wasm_decode (wj_confirm_args J) args_json) (\<lambda>args.
     and_then (map_err JsError (browser_confirm_deposit env blinding config args)) (\<lambda>state.
     wasm_encode (wj_state_text J) state)))"

definition wasm_wallet_status :: "wasm_json \<Rightarrow> string option \<Rightarrow> string option \<Rightarrow> js_value + string" where
  "wasm_wallet_status J state_json journal_json =
     and_then (wasm_decode_opt (wj_state J) state_json) (\<lambda>state.
     and_then (wasm_decode_opt (wj_journal J) journal_json) (\<lambda>journal.
     wasm_encode (wj_status_text J) (wallet_status state journal)))"

definition wasm_prepare_request ::
    "wasm_json \<Rightarrow> 'e::ab_group_add browser_env \<Rightarrow> felt \<Rightarrow> string \<Rightarrow> string \<Rightarrow> string \<Rightarrow> u8 list \<Rightarrow> js_value + string" where
  "wasm_prepare_request J env rerandomization config_json state_json args_json proving_key =
     and_then (wasm_decode (wj_config J) config_json) (\<lambda>config.
     and_then (wasm_decode (wj_state J) state_json) (\<lambda>state.
     and_then (wasm_decode (wj_request_args J) args_json) (\<lambda>args.
     and_then (map_err JsError (browser_prepare_request env rerandomization config state args proving_key)) (\<lambda>prepared.
     wasm_encode (wj_prepared_text J) prepared))))"

text \<open>The class that decodes the proving key once.\<close>

record 'e BrowserRequestProver =
  brp_prover :: "'e RequestPublic \<Rightarrow> 'e RequestWitness \<Rightarrow> Groth16Proof option"

definition BrowserRequestProver_new :: "'e browser_env \<Rightarrow> u8 list \<Rightarrow> js_value + 'e BrowserRequestProver" where
  "BrowserRequestProver_new env proving_key =
     and_then (map_err (\<lambda>e. JsError (BrowserCompact e)) (decode_compressed (be_request_key env) proving_key)) (\<lambda>prover.
     Inr \<lparr>brp_prover = prover\<rparr>)"

definition BrowserRequestProver_prepare_request ::
    "wasm_json \<Rightarrow> 'e::ab_group_add browser_env \<Rightarrow> felt \<Rightarrow> 'e BrowserRequestProver \<Rightarrow> string \<Rightarrow> string \<Rightarrow> string \<Rightarrow>
     js_value + string" where
  "BrowserRequestProver_prepare_request J env rerandomization self config_json state_json args_json =
     and_then (wasm_decode (wj_config J) config_json) (\<lambda>config.
     and_then (wasm_decode (wj_state J) state_json) (\<lambda>state.
     and_then (wasm_decode (wj_request_args J) args_json) (\<lambda>args.
     and_then (map_err JsError (prepare_request_with_prover env rerandomization config state args (brp_prover self)))
       (\<lambda>prepared. wasm_encode (wj_prepared_text J) prepared))))"

definition wasm_complete_response ::
    "wasm_json \<Rightarrow> 'e::ab_group_add browser_env \<Rightarrow> string \<Rightarrow> string \<Rightarrow> js_value + string" where
  "wasm_complete_response J env config_json args_json =
     and_then (wasm_decode (wj_config J) config_json) (\<lambda>config.
     and_then (wasm_decode (wj_complete_args J) args_json) (\<lambda>args.
     and_then (map_err JsError (complete_response env config args)) (\<lambda>state.
     wasm_encode (wj_state_text J) state)))"

definition wasm_withdrawal_nullifier :: "wasm_json \<Rightarrow> poseidon \<Rightarrow> string \<Rightarrow> js_value + string" where
  "wasm_withdrawal_nullifier J P state_json =
     and_then (wasm_decode (wj_state J) state_json) (\<lambda>state.
     wasm_encode (wj_felt_text J) (withdrawal_nullifier P state))"

definition wasm_tree_path :: "wasm_json \<Rightarrow> poseidon \<Rightarrow> string \<Rightarrow> u32 \<Rightarrow> bool \<Rightarrow> js_value + string" where
  "wasm_tree_path J P snapshot_json note_id require_existing =
     and_then (wasm_decode (wj_snapshot J) snapshot_json) (\<lambda>snapshot.
     and_then (map_err JsError (tree_path P snapshot note_id require_existing)) (\<lambda>path.
     wasm_encode (wj_path_text J) path))"

definition wasm_prepare_withdrawal ::
    "wasm_json \<Rightarrow> 'e::ab_group_add browser_env \<Rightarrow> string \<Rightarrow> string \<Rightarrow> string \<Rightarrow> u8 list \<Rightarrow> js_value + string" where
  "wasm_prepare_withdrawal J env config_json state_json args_json proving_key =
     and_then (wasm_decode (wj_config J) config_json) (\<lambda>config.
     and_then (wasm_decode (wj_state J) state_json) (\<lambda>state.
     and_then (wasm_decode (wj_withdrawal_args J) args_json) (\<lambda>args.
     and_then (map_err JsError (prepare_withdrawal env config state args proving_key)) (\<lambda>plan.
     wasm_encode (wj_plan_text J) plan))))"


section \<open>The cached prover and the state texts\<close>

text \<open>Once the class accepts a proving key, its method returns what the one-shot function returns,
  errors included.\<close>

lemma cached_prover_agrees:
  assumes "BrowserRequestProver_new env proving_key = Inr self"
  shows "BrowserRequestProver_prepare_request J env rho self config_json state_json args_json =
    wasm_prepare_request J env rho config_json state_json args_json proving_key"
proof -
  have "browser_prepare_request env rho config state args proving_key =
      prepare_request_with_prover env rho config state args (brp_prover self)" for config state args
    using assms by (auto simp: BrowserRequestProver_new_def browser_prepare_request_def res)
  then show ?thesis by (simp add: BrowserRequestProver_prepare_request_def wasm_prepare_request_def)
qed

text \<open>A class that does not accept the key stands for a one-shot function that fails on valid texts.\<close>

lemma cached_prover_refuses:
  assumes "BrowserRequestProver_new env proving_key = Inl e"
    and "wj_config J config_json = Some config" "wj_state J state_json = Some state"
    and "wj_request_args J args_json = Some args"
  shows "wasm_prepare_request J env rho config_json state_json args_json proving_key = Inl e"
  using assms
  by (cases "decode_compressed (be_request_key env) proving_key")
    (simp_all add: BrowserRequestProver_new_def wasm_prepare_request_def browser_prepare_request_def wasm_decode_def)

text \<open>A state text written by one call is read back by the next: the texts of a session carry the states
  of the native session.\<close>

lemma wasm_state_text_session:
  assumes "\<forall>s t. wj_state_text J s = Some t \<longrightarrow> wj_state J t = Some s"
    and "wj_config J config_json = Some config" "wj_confirm_args J deposit_json = Some deposit"
    and "wj_request_args J args_json = Some args"
    and "wasm_confirm_deposit J env blinding config_json deposit_json = Inr state_json"
    and "wasm_prepare_request J env rho config_json state_json args_json proving_key = Inr prepared_json"
  shows "\<exists>state prepared. browser_confirm_deposit env blinding config deposit = Inr state \<and>
    browser_prepare_request env rho config state args proving_key = Inr prepared \<and>
    wj_prepared_text J prepared = Some prepared_json"
proof -
  have some: "ok_or e m = Inr v \<longleftrightarrow> m = Some v" for e :: js_value and m and v :: string by (cases m) simp_all
  obtain state where state: "browser_confirm_deposit env blinding config deposit = Inr state"
    "wj_state_text J state = Some state_json"
    using assms(2,3,5) by (auto simp: wasm_confirm_deposit_def wasm_decode_def wasm_encode_def some res)
  then have "wj_state J state_json = Some state" using assms(1) by blast
  then show ?thesis using state(1) assms(2,4,6)
    by (auto simp: wasm_prepare_request_def wasm_decode_def wasm_encode_def some res)
qed

end
