(* ===== verification/Solidity_Verifier.thy ===== *)
theory Solidity_Verifier
  imports Solidity_Poseidon
begin

text \<open>
  The verifier contract that \<open>compact.rs\<close> writes next to the keys (\<open>groth16_solidity_source\<close>,
  \<open>Groth16ProofAdapter.sol\<close>): the verifying keys as literals (\<open>solidity_vk_functions\<close>) and every
  function of the fixed text on 256-bit words.

  Curve groups, pairing and the documented Groth16 check are the record \<open>bn254\<close> and the definition
  \<open>groth16_accepts\<close>; the three precompiled contracts the code calls are functions from input words to
  output words, \<open>None\<close> when the call fails. \<open>None\<close> as the result of a contract function is a revert.
\<close>

section \<open>Curve groups and verifying keys\<close>

type_synonym g1_xy = "nat \<times> nat"
type_synonym g2_xy = "(nat \<times> nat) \<times> (nat \<times> nat)"

text \<open>Points of \<open>ark-bn254\<close> with their affine coordinates; the point at infinity has coordinates zero.\<close>

record ('g, 'h, 't) bn254 =
  bn_g1 :: "g1_xy \<Rightarrow> 'g"
  bn_g1_xy :: "'g \<Rightarrow> g1_xy"
  bn_g2 :: "g2_xy \<Rightarrow> 'h"
  bn_g2_xy :: "'h \<Rightarrow> g2_xy"
  bn_pair :: "'g \<Rightarrow> 'h \<Rightarrow> 't"

record ('g, 'h) VerifyingKey =
  vk_alpha_g1 :: 'g
  vk_beta_g2 :: 'h
  vk_gamma_g2 :: 'h
  vk_delta_g2 :: 'h
  vk_gamma_abc_g1 :: "'g list"

fun small_g1 :: "g1_xy \<Rightarrow> bool" where
  "small_g1 (x, y) \<longleftrightarrow> x < FQ_MODULUS \<and> y < FQ_MODULUS"

fun small_g2 :: "g2_xy \<Rightarrow> bool" where
  "small_g2 (x, y) \<longleftrightarrow> small_g1 x \<and> small_g1 y"

text \<open>What the code relies on: valid coordinates are those of the finite points, negation changes the sign
  of the second coordinate, which is never zero, and the pairing is bilinear.\<close>

definition bn254_ok :: "codec \<Rightarrow> ('g::ab_group_add, 'h::ab_group_add, 't::ab_group_add) bn254 \<Rightarrow> bool" where
  "bn254_ok K B \<longleftrightarrow>
     (\<forall>c. g1_valid K c \<longrightarrow> small_g1 c \<longrightarrow> bn_g1 B c \<noteq> 0 \<and> bn_g1_xy B (bn_g1 B c) = c) \<and>
     (\<forall>p. p \<noteq> 0 \<longrightarrow> small_g1 (bn_g1_xy B p) \<and> g1_valid K (bn_g1_xy B p) \<and> bn_g1 B (bn_g1_xy B p) = p \<and>
        snd (bn_g1_xy B p) \<noteq> 0 \<and> bn_g1_xy B (- p) = (fst (bn_g1_xy B p), FQ_MODULUS - snd (bn_g1_xy B p))) \<and>
     bn_g1_xy B 0 = (0, 0) \<and> \<not> g1_valid K (0, 0) \<and>
     (\<forall>c. g2_valid K c \<longrightarrow> small_g2 c \<longrightarrow> bn_g2 B c \<noteq> 0 \<and> bn_g2_xy B (bn_g2 B c) = c) \<and>
     (\<forall>p. p \<noteq> 0 \<longrightarrow> small_g2 (bn_g2_xy B p) \<and> g2_valid K (bn_g2_xy B p) \<and> bn_g2 B (bn_g2_xy B p) = p) \<and>
     bn_g2_xy B 0 = ((0, 0), (0, 0)) \<and> \<not> g2_valid K ((0, 0), (0, 0)) \<and>
     (\<forall>p q r. bn_pair B (p + q) r = bn_pair B p r + bn_pair B q r) \<and>
     (\<forall>p q r. bn_pair B p (q + r) = bn_pair B p q + bn_pair B p r)"

text \<open>The Groth16 equation on a decoded proof, as the library documents it.\<close>

definition groth16_inputs :: "('g::ab_group_add, 'h) VerifyingKey \<Rightarrow> nat list \<Rightarrow> 'g" where
  "groth16_inputs vk xs =
     fold (\<lambda>(x, p) acc. acc + nsmul x p) (zip xs (tl (vk_gamma_abc_g1 vk))) (hd (vk_gamma_abc_g1 vk))"

definition groth16_accepts ::
    "('g::ab_group_add, 'h::ab_group_add, 't::ab_group_add) bn254 \<Rightarrow> ('g, 'h) VerifyingKey \<Rightarrow> nat list \<Rightarrow> Groth16Proof \<Rightarrow> bool" where
  "groth16_accepts B vk xs pf \<longleftrightarrow>
     bn_pair B (bn_g1 B (pf_a pf)) (bn_g2 B (pf_b pf)) =
       bn_pair B (vk_alpha_g1 vk) (vk_beta_g2 vk) +
       bn_pair B (groth16_inputs vk xs) (vk_gamma_g2 vk) +
       bn_pair B (bn_g1 B (pf_c pf)) (vk_delta_g2 vk)"

text \<open>\<open>verify_with_processed_vk\<close>: an error when the number of inputs does not fit the key.\<close>

definition groth16_law ::
    "('g::ab_group_add, 'h::ab_group_add, 't::ab_group_add) bn254 \<Rightarrow> ('g, 'h) VerifyingKey \<Rightarrow>
     (nat list \<Rightarrow> Groth16Proof \<Rightarrow> bool option) \<Rightarrow> bool" where
  "groth16_law B vk verify \<longleftrightarrow>
     (\<forall>xs pf. verify xs pf =
        (if length xs + 1 = length (vk_gamma_abc_g1 vk) then Some (groth16_accepts B vk xs pf) else None))"


section \<open>The generated literals\<close>

type_synonym g1_source = "string \<times> string"
type_synonym g2_source = "(string \<times> string) \<times> (string \<times> string)"

definition g1_manifest :: "('g, 'h, 't) bn254 \<Rightarrow> 'g \<Rightarrow> g1_source" where
  "g1_manifest B p = (field_hex (fst (bn_g1_xy B p)), field_hex (snd (bn_g1_xy B p)))"

definition g2_manifest :: "('g, 'h, 't) bn254 \<Rightarrow> 'h \<Rightarrow> g2_source" where
  "g2_manifest B p =
     ((field_hex (fst (fst (bn_g2_xy B p))), field_hex (snd (fst (bn_g2_xy B p)))),
      (field_hex (fst (snd (bn_g2_xy B p))), field_hex (snd (snd (bn_g2_xy B p)))))"

record VkFunctions =
  vf_alpha :: g1_source
  vf_beta :: g2_source
  vf_gamma :: g2_source
  vf_delta :: g2_source
  vf_ic :: "(nat \<times> g1_source) list"

text \<open>The closures \<open>g1\<close> and \<open>g2\<close> print the coordinates in the order of the manifest; each case of the
  input constants carries its index.\<close>

definition solidity_vk_functions :: "('g, 'h, 't) bn254 \<Rightarrow> ('g, 'h) VerifyingKey \<Rightarrow> VkFunctions" where
  "solidity_vk_functions B key =
     \<lparr>vf_alpha = g1_manifest B (vk_alpha_g1 key), vf_beta = g2_manifest B (vk_beta_g2 key),
      vf_gamma = g2_manifest B (vk_gamma_g2 key), vf_delta = g2_manifest B (vk_delta_g2 key),
      vf_ic = map (\<lambda>(index, point). (index, g1_manifest B point)) (List.enumerate 0 (vk_gamma_abc_g1 key))\<rparr>"

type_synonym G1Point = "felt \<times> felt"
type_synonym G2Point = "(felt \<times> felt) \<times> (felt \<times> felt)"

record SolVk =
  sv_alpha :: G1Point
  sv_beta :: G2Point
  sv_gamma :: G2Point
  sv_delta :: G2Point
  sv_ic :: "(nat \<times> G1Point) list"

definition compile_g1 :: "g1_source \<Rightarrow> G1Point option" where
  "compile_g1 s = Option.bind (sol_number (fst s)) (\<lambda>x. Option.bind (sol_number (snd s)) (\<lambda>y. Some (x, y)))"

definition compile_g2 :: "g2_source \<Rightarrow> G2Point option" where
  "compile_g2 s = Option.bind (compile_g1 (fst s)) (\<lambda>x. Option.bind (compile_g1 (snd s)) (\<lambda>y. Some (x, y)))"

fun compile_ic :: "(nat \<times> g1_source) list \<Rightarrow> (nat \<times> G1Point) list option" where
  "compile_ic [] = Some []"
| "compile_ic ((i, s) # ss) =
     Option.bind (compile_g1 s) (\<lambda>p. Option.bind (compile_ic ss) (\<lambda>ps. Some ((i, p) # ps)))"

definition compile_vk :: "VkFunctions \<Rightarrow> SolVk option" where
  "compile_vk src =
     Option.bind (compile_g1 (vf_alpha src)) (\<lambda>alpha.
     Option.bind (compile_g2 (vf_beta src)) (\<lambda>beta.
     Option.bind (compile_g2 (vf_gamma src)) (\<lambda>gamma.
     Option.bind (compile_g2 (vf_delta src)) (\<lambda>delta.
     Option.bind (compile_ic (vf_ic src)) (\<lambda>ic.
     Some \<lparr>sv_alpha = alpha, sv_beta = beta, sv_gamma = gamma, sv_delta = delta, sv_ic = ic\<rparr>)))))"


section \<open>The emitted functions\<close>

definition SCALAR_MODULUS_WORD :: felt where
  "SCALAR_MODULUS_WORD = 21888242871839275222246405745257275088548364400416034343698204186575808495617"

definition BASE_MODULUS :: felt where
  "BASE_MODULUS = 21888242871839275222246405745257275088696311157297823662689037894645226208583"

record SolProof =
  sp_a :: G1Point
  sp_b :: G2Point
  sp_c :: G1Point

record precompiles =
  pc_ecadd :: "felt list \<Rightarrow> felt list option"
  pc_ecmul :: "felt list \<Rightarrow> felt list option"
  pc_ecpairing :: "felt list \<Rightarrow> felt list option"

definition sol_ic :: "SolVk \<Rightarrow> nat \<Rightarrow> G1Point option" where
  "sol_ic vk index = map_of (sv_ic vk) index"

definition sol_negate :: "G1Point \<Rightarrow> G1Point" where
  "sol_negate p =
     (if fst p = 0 \<and> snd p = 0 then (0, 0) else (fst p, BASE_MODULUS - snd p mod BASE_MODULUS))"

definition point_of_words :: "felt list \<Rightarrow> G1Point" where
  "point_of_words ws = (ws ! 0, ws ! 1)"

definition sol_add :: "precompiles \<Rightarrow> G1Point \<Rightarrow> G1Point \<Rightarrow> G1Point option" where
  "sol_add pc a b = map_option point_of_words (pc_ecadd pc [fst a, snd a, fst b, snd b])"

definition sol_scalarMul :: "precompiles \<Rightarrow> G1Point \<Rightarrow> felt \<Rightarrow> G1Point option" where
  "sol_scalarMul pc p s = map_option point_of_words (pc_ecmul pc [fst p, snd p, s])"

definition sol_pair_words :: "G1Point \<Rightarrow> G2Point \<Rightarrow> felt list" where
  "sol_pair_words g1 g2 =
     [fst g1, snd g1, snd (fst g2), fst (fst g2), snd (snd g2), fst (snd g2)]"

definition sol_pairing ::
    "precompiles \<Rightarrow> G1Point \<times> G2Point \<Rightarrow> G1Point \<times> G2Point \<Rightarrow> G1Point \<times> G2Point \<Rightarrow> G1Point \<times> G2Point \<Rightarrow> bool" where
  "sol_pairing pc a b c d \<longleftrightarrow>
     (case pc_ecpairing pc (sol_pair_words (fst a) (snd a) @ sol_pair_words (fst b) (snd b) @
             sol_pair_words (fst c) (snd c) @ sol_pair_words (fst d) (snd d)) of
        None \<Rightarrow> False
      | Some output \<Rightarrow> output ! 0 = 1)"

text \<open>The loop over the inputs: a revert, \<open>return false\<close> (the inner \<open>None\<close>), or the accumulator.\<close>

fun sol_accumulate :: "precompiles \<Rightarrow> SolVk \<Rightarrow> nat \<Rightarrow> felt list \<Rightarrow> G1Point \<Rightarrow> G1Point option option" where
  "sol_accumulate pc vk i [] acc = Some (Some acc)"
| "sol_accumulate pc vk i (v # vs) acc =
     (if v \<ge> SCALAR_MODULUS_WORD then Some None
      else case sol_ic vk (i + 1) of
          None \<Rightarrow> None
        | Some p \<Rightarrow>
            (case sol_scalarMul pc p v of
               None \<Rightarrow> Some None
             | Some t \<Rightarrow>
                 (case sol_add pc acc t of
                    None \<Rightarrow> Some None
                  | Some acc' \<Rightarrow> sol_accumulate pc vk (i + 1) vs acc')))"

text \<open>The common body of \<open>_verifyRequest\<close> and \<open>_verifyWithdrawal\<close>, which differ in the key and the
  number of inputs.\<close>

definition sol_verify :: "precompiles \<Rightarrow> SolVk \<Rightarrow> felt list \<Rightarrow> SolProof \<Rightarrow> bool option" where
  "sol_verify pc vk vals pf =
     Option.bind (sol_ic vk 0) (\<lambda>acc0.
     Option.bind (sol_accumulate pc vk 0 vals acc0) (\<lambda>loop.
     Some (case loop of
        None \<Rightarrow> False
      | Some acc \<Rightarrow> sol_pairing pc (sol_negate (sp_a pf), sp_b pf) (sv_alpha vk, sv_beta vk)
            (acc, sv_gamma vk) (sp_c pf, sv_delta vk))))"

definition sol_decodeProof :: "u8 list \<Rightarrow> SolProof option" where
  "sol_decodeProof encoded =
     (if length encoded \<noteq> 256 then None
      else
        let w = map felt_of_bytes (chunks 32 8 encoded)
        in if \<exists>v \<in> set w. v \<ge> BASE_MODULUS then None
           else Some \<lparr>sp_a = (w ! 0, w ! 1), sp_b = ((w ! 2, w ! 3), (w ! 4, w ! 5)), sp_c = (w ! 6, w ! 7)\<rparr>)"

text \<open>The structs of \<open>Types.sol\<close>, in the order of the public inputs.\<close>

record SolRequestInputs =
  si_protocolVersion :: u16
  si_chainId :: u64
  si_contractAddress :: address
  si_activeRoot :: felt
  si_stateSigningKeyX :: felt
  si_stateSigningKeyY :: felt
  si_requestTime :: u64
  si_solvencyBound :: u128
  si_requestNullifier :: felt
  si_authorizationTag :: felt
  si_anonymousCommitmentX :: felt
  si_anonymousCommitmentY :: felt

record SolWithdrawalInputs =
  sw_protocolVersion :: u16
  sw_chainId :: u64
  sw_contractAddress :: address
  sw_activeRoot :: felt
  sw_stateSigningKeyX :: felt
  sw_stateSigningKeyY :: felt
  sw_clearanceSigningKeyX :: felt
  sw_clearanceSigningKeyY :: felt
  sw_noteId :: u32
  sw_finalBalance :: u128
  sw_destination :: address
  sw_withdrawalNullifier :: felt
  sw_hasClearance :: bool
  sw_withdrawalTag :: felt

definition sol_request_values :: "SolRequestInputs \<Rightarrow> felt list" where
  "sol_request_values i =
     [ucast (si_protocolVersion i), ucast (si_chainId i), ucast (si_contractAddress i), si_activeRoot i,
      si_stateSigningKeyX i, si_stateSigningKeyY i, ucast (si_requestTime i), ucast (si_solvencyBound i),
      si_requestNullifier i, si_authorizationTag i, si_anonymousCommitmentX i, si_anonymousCommitmentY i]"

definition sol_withdrawal_values :: "SolWithdrawalInputs \<Rightarrow> felt list" where
  "sol_withdrawal_values i =
     [ucast (sw_protocolVersion i), ucast (sw_chainId i), ucast (sw_contractAddress i), sw_activeRoot i,
      sw_stateSigningKeyX i, sw_stateSigningKeyY i, sw_clearanceSigningKeyX i, sw_clearanceSigningKeyY i,
      ucast (sw_noteId i), ucast (sw_finalBalance i), ucast (sw_destination i), sw_withdrawalNullifier i,
      (if sw_hasClearance i then 1 else 0), sw_withdrawalTag i]"

definition sol_assert :: "precompiles \<Rightarrow> SolVk \<Rightarrow> felt list \<Rightarrow> u8 list \<Rightarrow> unit option" where
  "sol_assert pc vk vals encoded =
     Option.bind (sol_decodeProof encoded) (\<lambda>parsed.
     Option.bind (sol_verify pc vk vals parsed) (\<lambda>ok. if ok then Some () else None))"

definition assertValidRequest :: "precompiles \<Rightarrow> SolVk \<Rightarrow> SolRequestInputs \<Rightarrow> u8 list \<Rightarrow> unit option" where
  "assertValidRequest pc vk inputs encoded = sol_assert pc vk (sol_request_values inputs) encoded"

definition assertValidWithdrawal :: "precompiles \<Rightarrow> SolVk \<Rightarrow> SolWithdrawalInputs \<Rightarrow> u8 list \<Rightarrow> unit option" where
  "assertValidWithdrawal pc vk inputs encoded = sol_assert pc vk (sol_withdrawal_values inputs) encoded"

section \<open>The precompiled contracts\<close>

text \<open>How the precompiles read points: coordinates below the modulus, zero for infinity, and finite points
  on the curve, those of the second group in the subgroup, the imaginary part first.\<close>

definition evm_g1 :: "codec \<Rightarrow> ('g::zero, 'h, 't) bn254 \<Rightarrow> G1Point \<Rightarrow> 'g option" where
  "evm_g1 K B p =
     (let c = (unat (fst p), unat (snd p))
      in if \<not> small_g1 c then None else if c = (0, 0) then Some 0
         else if g1_valid K c then Some (bn_g1 B c) else None)"

definition evm_g2 :: "codec \<Rightarrow> ('g, 'h::zero, 't) bn254 \<Rightarrow> G2Point \<Rightarrow> 'h option" where
  "evm_g2 K B p =
     (let c = ((unat (fst (fst p)), unat (snd (fst p))), (unat (fst (snd p)), unat (snd (snd p))))
      in if \<not> small_g2 c then None else if c = ((0, 0), (0, 0)) then Some 0
         else if g2_valid K c then Some (bn_g2 B c) else None)"

definition g1_words :: "('g, 'h, 't) bn254 \<Rightarrow> 'g \<Rightarrow> G1Point" where
  "g1_words B p = (field_to_felt (fst (bn_g1_xy B p)), field_to_felt (snd (bn_g1_xy B p)))"

definition g2_words :: "('g, 'h, 't) bn254 \<Rightarrow> 'h \<Rightarrow> G2Point" where
  "g2_words B p =
     ((field_to_felt (fst (fst (bn_g2_xy B p))), field_to_felt (snd (fst (bn_g2_xy B p)))),
      (field_to_felt (fst (snd (bn_g2_xy B p))), field_to_felt (snd (snd (bn_g2_xy B p)))))"

fun evm_pairs :: "codec \<Rightarrow> ('g::zero, 'h::zero, 't) bn254 \<Rightarrow> felt list \<Rightarrow> ('g \<times> 'h) list option" where
  "evm_pairs K B [] = Some []"
| "evm_pairs K B (x # y # xi # xr # yi # yr # ws) =
     Option.bind (evm_g1 K B (x, y)) (\<lambda>p.
     Option.bind (evm_g2 K B ((xr, xi), (yr, yi))) (\<lambda>q.
     Option.bind (evm_pairs K B ws) (\<lambda>ps. Some ((p, q) # ps))))"
| "evm_pairs K B _ = None"

text \<open>EIP-196 and EIP-197, with enough gas.\<close>

definition precompiles_ok ::
    "codec \<Rightarrow> ('g::ab_group_add, 'h::ab_group_add, 't::ab_group_add) bn254 \<Rightarrow> precompiles \<Rightarrow> bool" where
  "precompiles_ok K B pc \<longleftrightarrow>
     (\<forall>x y x' y'. pc_ecadd pc [x, y, x', y'] =
        Option.bind (evm_g1 K B (x, y)) (\<lambda>p. Option.bind (evm_g1 K B (x', y')) (\<lambda>q.
        Some [fst (g1_words B (p + q)), snd (g1_words B (p + q))]))) \<and>
     (\<forall>x y s. pc_ecmul pc [x, y, s] =
        Option.bind (evm_g1 K B (x, y)) (\<lambda>p.
        Some [fst (g1_words B (nsmul (unat s) p)), snd (g1_words B (nsmul (unat s) p))])) \<and>
     (\<forall>ws. pc_ecpairing pc ws =
        map_option (\<lambda>ps. [of_bool (sum_list (map (\<lambda>(p, q). bn_pair B p q) ps) = 0)]) (evm_pairs K B ws))"


section \<open>Points as words\<close>

lemma unat_field_to_felt_FQ: "v < FQ_MODULUS \<Longrightarrow> unat (field_to_felt v) = v"
  using FQ_MODULUS_256 be_value_digits_id [of v 32]
  by (simp add: field_to_felt_def unat_felt_of_bytes)

lemma unat_BASE_MODULUS [simp]: "unat BASE_MODULUS = FQ_MODULUS"
  by (simp add: BASE_MODULUS_def FQ_MODULUS_def)

lemma BASE_MODULUS_le_iff: "v \<ge> BASE_MODULUS \<longleftrightarrow> \<not> unat v < FQ_MODULUS"
  by (simp add: word_le_nat_alt not_less)

lemma unat_SCALAR_MODULUS_WORD [simp]: "unat SCALAR_MODULUS_WORD = field_modulus"
  by (simp add: SCALAR_MODULUS_WORD_def field_modulus_def)

lemma bn254_zero:
  assumes "bn254_ok K B"
  shows "bn_g1_xy B 0 = (0, 0)" "bn_g2_xy B 0 = ((0, 0), (0, 0))" "\<not> g1_valid K (0, 0)" "\<not> g2_valid K ((0, 0), (0, 0))"
  using assms unfolding bn254_ok_def by blast+

lemma bn254_finite:
  assumes "bn254_ok K B" "p \<noteq> 0"
  shows "small_g1 (bn_g1_xy B p)" "g1_valid K (bn_g1_xy B p)" "bn_g1 B (bn_g1_xy B p) = p"
    "snd (bn_g1_xy B p) \<noteq> 0" "bn_g1_xy B (- p) = (fst (bn_g1_xy B p), FQ_MODULUS - snd (bn_g1_xy B p))"
  using assms unfolding bn254_ok_def by blast+

lemma bn254_finite2:
  assumes "bn254_ok K B" "q \<noteq> 0"
  shows "small_g2 (bn_g2_xy B q)" "g2_valid K (bn_g2_xy B q)" "bn_g2 B (bn_g2_xy B q) = q"
  using assms unfolding bn254_ok_def by blast+

lemma bn254_valid:
  assumes "bn254_ok K B" "g1_valid K c" "small_g1 c"
  shows "bn_g1 B c \<noteq> 0" "bn_g1_xy B (bn_g1 B c) = c"
  using assms unfolding bn254_ok_def by blast+

lemma bn254_pair:
  assumes "bn254_ok K B"
  shows "bn_pair B (p + q) r = bn_pair B p r + bn_pair B q r" "bn_pair B 0 r = 0" "bn_pair B (- p) r = - bn_pair B p r"
proof -
  have add: "bn_pair B (p + q) r = bn_pair B p r + bn_pair B q r" for p q
    using assms unfolding bn254_ok_def by blast
  then show "bn_pair B (p + q) r = bn_pair B p r + bn_pair B q r" .
  show zero: "bn_pair B 0 r = 0" using add [of 0 0] by simp
  show "bn_pair B (- p) r = - bn_pair B p r" using add [of p "- p"] zero by (simp add: eq_neg_iff_add_eq_0 add.commute)
qed

lemma unat_g1_words:
  assumes "bn254_ok K B"
  shows "(unat (fst (g1_words B p)), unat (snd (g1_words B p))) = bn_g1_xy B p"
proof (cases "p = 0")
  case True
  then show ?thesis using bn254_zero [OF assms] by (simp add: g1_words_def unat_field_to_felt_FQ FQ_MODULUS_def)
next
  case False
  then show ?thesis using bn254_finite(1) [OF assms False]
    by (cases "bn_g1_xy B p") (simp add: g1_words_def unat_field_to_felt_FQ)
qed

lemma evm_g1_words: "bn254_ok K B \<Longrightarrow> evm_g1 K B (g1_words B p) = Some p"
  using unat_g1_words [of K B p] bn254_zero(1,3) [of K B] bn254_finite(1-3) [of K B p]
  by (cases "p = 0") (auto simp: evm_g1_def Let_def FQ_MODULUS_def)

lemma unat_g2_words:
  assumes "bn254_ok K B"
  shows "((unat (fst (fst (g2_words B q))), unat (snd (fst (g2_words B q)))),
    (unat (fst (snd (g2_words B q))), unat (snd (snd (g2_words B q))))) = bn_g2_xy B q"
proof (cases "q = 0")
  case True
  then show ?thesis using bn254_zero [OF assms] by (simp add: g2_words_def unat_field_to_felt_FQ FQ_MODULUS_def)
next
  case False
  then show ?thesis using bn254_finite2(1) [OF assms False]
    by (cases "bn_g2_xy B q") (auto simp: g2_words_def unat_field_to_felt_FQ)
qed

lemma evm_g2_words:
  assumes "bn254_ok K B"
  shows "evm_g2 K B (g2_words B q) = Some q"
proof (cases "q = 0")
  case True
  then show ?thesis using unat_g2_words [OF assms, of q] bn254_zero [OF assms] by (simp add: evm_g2_def FQ_MODULUS_def)
next
  case False
  note fin = bn254_finite2 [OF assms False]
  then have "bn_g2_xy B q \<noteq> ((0, 0), (0, 0))" using bn254_zero(4) [OF assms] by metis
  then show ?thesis unfolding evm_g2_def Let_def unat_g2_words [OF assms] using fin by simp
qed

lemma negated_coordinates:
  assumes "bn254_ok K B" "g1_valid K (x, y)" "x < FQ_MODULUS" "y < FQ_MODULUS"
  shows "y \<noteq> 0" "g1_valid K (x, FQ_MODULUS - y)" "bn_g1 B (x, FQ_MODULUS - y) = - bn_g1 B (x, y)"
proof -
  let ?p = "bn_g1 B (x, y)"
  have p: "?p \<noteq> 0" "bn_g1_xy B ?p = (x, y)" using bn254_valid [OF assms(1,2)] assms(3,4) by simp_all
  then show "y \<noteq> 0" using bn254_finite(4) [OF assms(1) p(1)] by simp
  have n: "bn_g1_xy B (- ?p) = (x, FQ_MODULUS - y)" using bn254_finite(5) [OF assms(1) p(1)] p(2) by simp
  have "- ?p \<noteq> 0" using p(1) by simp
  from bn254_finite(2,3) [OF assms(1) this]
  show "g1_valid K (x, FQ_MODULUS - y)" "bn_g1 B (x, FQ_MODULUS - y) = - ?p" unfolding n by simp_all
qed

lemma unat_sol_negate:
  assumes "unat y < FQ_MODULUS" "(x, y) \<noteq> (0, 0)"
  shows "fst (sol_negate (x, y)) = x" "unat (snd (sol_negate (x, y))) = FQ_MODULUS - unat y"
proof -
  have "y mod BASE_MODULUS = y" using assms(1) by (simp add: word_unat_eq_iff unat_mod)
  moreover have "unat (BASE_MODULUS - y) = FQ_MODULUS - unat y"
    using assms(1) by (simp add: unat_sub word_le_nat_alt)
  ultimately show "fst (sol_negate (x, y)) = x" "unat (snd (sol_negate (x, y))) = FQ_MODULUS - unat y"
    using assms(2) by (auto simp: sol_negate_def)
qed

lemma evm_g1_negate:
  assumes "bn254_ok K B" "unat x < FQ_MODULUS" "unat y < FQ_MODULUS"
  shows "evm_g1 K B (sol_negate (x, y)) = map_option uminus (evm_g1 K B (x, y))"
proof (cases "(x, y) = (0, 0)")
  case True
  then show ?thesis by (simp add: sol_negate_def evm_g1_def FQ_MODULUS_def)
next
  case False
  note neg = unat_sol_negate [OF assms(3) False]
  have nz: "(unat x, unat y) \<noteq> (0, 0)" using False by (simp add: word_unat_eq_iff)
  have twice: "FQ_MODULUS - (FQ_MODULUS - unat y) = unat y" using assms(3) by simp
  show ?thesis
  proof (cases "g1_valid K (unat x, unat y)")
    case True
    then show ?thesis using negated_coordinates [OF assms(1) True assms(2,3)] assms nz
      by (simp add: evm_g1_def neg)
  next
    case False
    then have "\<not> g1_valid K (unat x, FQ_MODULUS - unat y)" if "unat y \<noteq> 0"
      using negated_coordinates(2) [OF assms(1) _ assms(2), of "FQ_MODULUS - unat y"] that assms(3) twice by auto
    then show ?thesis using False assms nz by (auto simp: evm_g1_def neg Let_def)
  qed
qed


section \<open>The emitted verifier computes the Groth16 check\<close>

definition sol_vk_of :: "('g, 'h, 't) bn254 \<Rightarrow> ('g, 'h) VerifyingKey \<Rightarrow> SolVk" where
  "sol_vk_of B key =
     \<lparr>sv_alpha = g1_words B (vk_alpha_g1 key), sv_beta = g2_words B (vk_beta_g2 key),
      sv_gamma = g2_words B (vk_gamma_g2 key), sv_delta = g2_words B (vk_delta_g2 key),
      sv_ic = map (\<lambda>(index, point). (index, g1_words B point)) (List.enumerate 0 (vk_gamma_abc_g1 key))\<rparr>"

lemma compile_manifest:
  "compile_g1 (g1_manifest B p) = Some (g1_words B p)" "compile_g2 (g2_manifest B q) = Some (g2_words B q)"
  by (simp_all add: compile_g1_def compile_g2_def g1_manifest_def g2_manifest_def g1_words_def g2_words_def sol_number_field_hex)

lemma compile_ic_map:
  "compile_ic (map (\<lambda>(i, p). (i, g1_manifest B p)) xs) = Some (map (\<lambda>(i, p). (i, g1_words B p)) xs)"
  by (induction xs) (auto simp: compile_manifest)

lemma compile_vk_functions: "compile_vk (solidity_vk_functions B key) = Some (sol_vk_of B key)"
  by (simp add: compile_vk_def solidity_vk_functions_def compile_manifest compile_ic_map sol_vk_of_def)

lemma map_of_enumerate_map:
  "map_of (map (\<lambda>(i, p). (i, f p)) (List.enumerate n ps)) j
    = (if n \<le> j \<and> j < n + length ps then Some (f (ps ! (j - n))) else None)"
  by (induction ps arbitrary: n) (auto simp: nth_Cons')

lemma sol_ic_vk: "sol_ic (sol_vk_of B key) j
    = (if j < length (vk_gamma_abc_g1 key) then Some (g1_words B (vk_gamma_abc_g1 key ! j)) else None)"
  by (simp add: sol_ic_def sol_vk_of_def map_of_enumerate_map)

lemma sol_point_operations:
  assumes "bn254_ok K B" "precompiles_ok K B pc"
  shows "sol_add pc (g1_words B p) (g1_words B q) = Some (g1_words B (p + q))"
    and "sol_scalarMul pc (g1_words B p) s = Some (g1_words B (nsmul (unat s) p))"
  using assms(2) evm_g1_words [OF assms(1)]
  by (simp_all add: precompiles_ok_def sol_add_def sol_scalarMul_def point_of_words_def)

lemma sol_accumulate_inputs:
  assumes "bn254_ok K B" "precompiles_ok K B pc" "\<forall>v \<in> set vs. canonical v"
    and "i + 1 + length vs \<le> length (vk_gamma_abc_g1 key)"
  shows "sol_accumulate pc (sol_vk_of B key) i vs (g1_words B acc) =
    Some (Some (g1_words B (fold (\<lambda>(x, p) acc. acc + nsmul x p)
      (zip (map unat vs) (drop (i + 1) (vk_gamma_abc_g1 key))) acc)))"
  using assms(3,4)
proof (induction vs arbitrary: i acc)
  case (Cons v vs)
  let ?ic = "vk_gamma_abc_g1 key"
  have "\<not> SCALAR_MODULUS_WORD \<le> v" using Cons.prems(1) by (simp add: word_le_nat_alt canonical_def)
  moreover have "drop (i + 1) ?ic = ?ic ! (i + 1) # drop (i + 2) ?ic"
    using Cons.prems(2) Cons_nth_drop_Suc [of "i + 1" ?ic] by simp
  ultimately show ?case
    using Cons.prems Cons.IH [of "i + 1"] by (simp add: sol_ic_vk sol_point_operations [OF assms(1,2)])
qed simp

text \<open>A value that is not reduced is never accepted.\<close>

lemma sol_accumulate_noncanonical:
  "\<not> (\<forall>v \<in> set vs. canonical v) \<Longrightarrow> sol_accumulate pc vk i vs acc \<noteq> Some (Some r)"
  by (induction vs arbitrary: i acc) (auto simp: word_le_nat_alt canonical_def split: option.splits)

lemma sol_verify_check:
  assumes "bn254_ok K B" "precompiles_ok K B pc" "\<forall>v \<in> set vals. canonical v"
    and "length vals + 1 = length (vk_gamma_abc_g1 key)"
    and "unat (fst (sp_a pf)) < FQ_MODULUS" "unat (snd (sp_a pf)) < FQ_MODULUS"
  shows "sol_verify pc (sol_vk_of B key) vals pf = Some
    (case (evm_g1 K B (sp_a pf), evm_g2 K B (sp_b pf), evm_g1 K B (sp_c pf)) of
       (Some a, Some b, Some c) \<Rightarrow>
         bn_pair B a b = bn_pair B (vk_alpha_g1 key) (vk_beta_g2 key) +
           bn_pair B (groth16_inputs key (map unat vals)) (vk_gamma_g2 key) + bn_pair B c (vk_delta_g2 key)
     | _ \<Rightarrow> False)"
proof -
  let ?ic = "vk_gamma_abc_g1 key" and ?vk = "sol_vk_of B key"
  let ?acc = "groth16_inputs key (map unat vals)"
  have ne: "?ic \<noteq> []" using assms(4) by auto
  then have "sol_ic ?vk 0 = Some (g1_words B (hd ?ic))" by (simp add: sol_ic_vk hd_conv_nth)
  moreover have "sol_accumulate pc ?vk 0 vals (g1_words B (hd ?ic)) = Some (Some (g1_words B ?acc))"
    using sol_accumulate_inputs [OF assms(1-3), of 0 key] assms(4) ne by (simp add: groth16_inputs_def drop_Suc)
  moreover have "sol_pairing pc (sol_negate (sp_a pf), sp_b pf) (sv_alpha ?vk, sv_beta ?vk)
      (g1_words B ?acc, sv_gamma ?vk) (sp_c pf, sv_delta ?vk) =
    (case (evm_g1 K B (sp_a pf), evm_g2 K B (sp_b pf), evm_g1 K B (sp_c pf)) of
       (Some a, Some b, Some c) \<Rightarrow>
         - bn_pair B a b + (bn_pair B (vk_alpha_g1 key) (vk_beta_g2 key) +
           (bn_pair B ?acc (vk_gamma_g2 key) + bn_pair B c (vk_delta_g2 key))) = 0
     | _ \<Rightarrow> False)"
    using assms(2) evm_g1_negate [OF assms(1,5,6)] evm_g1_words [OF assms(1)] evm_g2_words [OF assms(1)]
    by (simp add: sol_pairing_def sol_pair_words_def precompiles_ok_def sol_vk_of_def bn254_pair [OF assms(1)]
        split: option.splits)
  moreover have "- x + (u + (v + w)) = 0 \<longleftrightarrow> x = u + v + w" for x u v w :: 'c
    by (auto simp: add.assoc neg_eq_iff_add_eq_0 [symmetric])
  ultimately show ?thesis by (simp add: sol_verify_def split: option.splits)
qed


section \<open>Proof encodings\<close>

definition bytes_proof :: "u8 list \<Rightarrow> Groth16Proof" where
  "bytes_proof bytes =
     (let c = map be_value (chunks 32 8 bytes)
      in \<lparr>pf_a = (c ! 0, c ! 1), pf_b = ((c ! 2, c ! 3), (c ! 4, c ! 5)), pf_c = (c ! 6, c ! 7)\<rparr>)"

text \<open>No point of the proof is written as the point at infinity.\<close>

definition proof_finite :: "Groth16Proof \<Rightarrow> bool" where
  "proof_finite pf \<longleftrightarrow> pf_a pf \<noteq> (0, 0) \<and> pf_b pf \<noteq> ((0, 0), (0, 0)) \<and> pf_c pf \<noteq> (0, 0)"

definition proof_points_valid :: "codec \<Rightarrow> Groth16Proof \<Rightarrow> bool" where
  "proof_points_valid K pf \<longleftrightarrow> g1_valid K (pf_a pf) \<and> g2_valid K (pf_b pf) \<and> g1_valid K (pf_c pf)"

lemma canonical_fq_iff:
  assumes "length bs = 32"
  shows "canonical_fq bs = (if be_value bs < FQ_MODULUS then Inr (be_value bs) else Inl NonCanonicalCoordinate)"
proof (cases "be_value bs < FQ_MODULUS")
  case True
  then show ?thesis using be_digits_value [of bs] assms by (simp add: canonical_fq_def prime_field_bytes_eq)
next
  case False
  have "be_value bs mod FQ_MODULUS < FQ_MODULUS" by (simp add: FQ_MODULUS_def)
  then have "prime_field_bytes (be_value bs mod FQ_MODULUS) \<noteq> bs"
    using False FQ_MODULUS_256 be_value_digits_id [of "be_value bs mod FQ_MODULUS" 32]
    by (metis order.strict_trans prime_field_bytes_eq)
  then show ?thesis using False by (simp add: canonical_fq_def)
qed

lemma try_map_canonical_fq_iff:
  "\<forall>bs \<in> set cs. length bs = 32 \<Longrightarrow>
    try_map canonical_fq cs = (if \<forall>bs \<in> set cs. be_value bs < FQ_MODULUS then Inr (map be_value cs) else Inl NonCanonicalCoordinate)"
  by (induction cs) (simp_all add: canonical_fq_iff)

lemma length_in_chunks: "length xs = k * n \<Longrightarrow> c \<in> set (chunks n k xs) \<Longrightarrow> length c = n"
proof (induction k arbitrary: xs)
  case (Suc k)
  then show ?case using Suc.IH [of "drop n xs"] by auto
qed simp

lemma proof_from_wire_bytes:
  assumes "b64_decode K (gw_proof wire) = Some bytes"
  shows "proof_from_wire K wire = Inr pf \<longleftrightarrow>
    length bytes = 256 \<and> (\<forall>bs \<in> set (chunks 32 8 bytes). be_value bs < FQ_MODULUS) \<and>
    proof_points_valid K (bytes_proof bytes) \<and> pf = bytes_proof bytes"
proof (cases "length bytes = 256")
  case True
  then have "\<forall>bs \<in> set (chunks 32 8 bytes). length bs = 32" using length_in_chunks [of bytes 8 32] by auto
  from try_map_canonical_fq_iff [OF this] show ?thesis using True
    by (auto simp: proof_from_wire_def assms and_then_eq_Inr bytes_proof_def proof_points_valid_def Let_def)
next
  case False
  then show ?thesis by (simp add: proof_from_wire_def assms)
qed

lemma sol_decodeProof_bytes:
  assumes "length bytes = 256"
  shows "sol_decodeProof bytes =
    (if \<forall>bs \<in> set (chunks 32 8 bytes). be_value bs < FQ_MODULUS
     then Some \<lparr>sp_a = map_prod field_to_felt field_to_felt (pf_a (bytes_proof bytes)),
        sp_b = map_prod (map_prod field_to_felt field_to_felt) (map_prod field_to_felt field_to_felt) (pf_b (bytes_proof bytes)),
        sp_c = map_prod field_to_felt field_to_felt (pf_c (bytes_proof bytes))\<rparr>
     else None)"
proof -
  have len: "length bs = 32" if "bs \<in> set (chunks 32 8 bytes)" for bs using length_in_chunks [of bytes 8 32] that assms by simp
  have word: "felt_of_bytes bs = field_to_felt (be_value bs)" if "length bs = 32" for bs
    using that by (intro unat_eq_field_to_felt) (simp add: unat_felt_of_bytes)
  have "map felt_of_bytes (chunks 32 8 bytes) = map field_to_felt (map be_value (chunks 32 8 bytes))"
    using len word by simp
  moreover have "(\<exists>v \<in> set (map felt_of_bytes (chunks 32 8 bytes)). v \<ge> BASE_MODULUS)
      \<longleftrightarrow> \<not> (\<forall>bs \<in> set (chunks 32 8 bytes). be_value bs < FQ_MODULUS)"
    using len by (auto simp: BASE_MODULUS_le_iff unat_felt_of_bytes)
  ultimately show ?thesis
    using assms unfolding sol_decodeProof_def Let_def bytes_proof_def by simp
qed

lemma evm_decoded:
  assumes "bn254_ok K B"
  shows "small_g1 c \<Longrightarrow> c \<noteq> (0, 0) \<Longrightarrow>
      evm_g1 K B (map_prod field_to_felt field_to_felt c) = (if g1_valid K c then Some (bn_g1 B c) else None)"
    and "small_g2 d \<Longrightarrow> d \<noteq> ((0, 0), (0, 0)) \<Longrightarrow>
      evm_g2 K B (map_prod (map_prod field_to_felt field_to_felt) (map_prod field_to_felt field_to_felt) d)
        = (if g2_valid K d then Some (bn_g2 B d) else None)"
  by (cases c; auto simp: evm_g1_def unat_field_to_felt_FQ Let_def)
    (cases d; auto simp: evm_g2_def unat_field_to_felt_FQ Let_def)

lemma bytes_proof_small:
  assumes "\<forall>bs \<in> set (chunks 32 8 bytes). be_value bs < FQ_MODULUS"
  shows "small_g1 (pf_a (bytes_proof bytes))" "small_g2 (pf_b (bytes_proof bytes))" "small_g1 (pf_c (bytes_proof bytes))"
proof -
  have "be_value (chunks 32 8 bytes ! i) < FQ_MODULUS" if "i < 8" for i using assms that by simp
  then show "small_g1 (pf_a (bytes_proof bytes))" "small_g2 (pf_b (bytes_proof bytes))" "small_g1 (pf_c (bytes_proof bytes))"
    by (simp_all add: bytes_proof_def)
qed

lemma sol_verify_noncanonical: "\<not> (\<forall>v \<in> set vals. canonical v) \<Longrightarrow> sol_verify pc vk vals pf \<noteq> Some True"
  using sol_accumulate_noncanonical [of vals pc vk 0]
  by (auto simp: sol_verify_def split: option.splits bind_splits)

lemma sol_verify_bytes:
  assumes "bn254_ok K B" "precompiles_ok K B pc" "length vals + 1 = length (vk_gamma_abc_g1 key)"
    and "\<forall>v \<in> set vals. canonical v" "proof_finite pf" "small_g1 (pf_a pf)" "small_g2 (pf_b pf)" "small_g1 (pf_c pf)"
  shows "sol_verify pc (sol_vk_of B key) vals
      \<lparr>sp_a = map_prod field_to_felt field_to_felt (pf_a pf),
       sp_b = map_prod (map_prod field_to_felt field_to_felt) (map_prod field_to_felt field_to_felt) (pf_b pf),
       sp_c = map_prod field_to_felt field_to_felt (pf_c pf)\<rparr>
    = Some (proof_points_valid K pf \<and> groth16_accepts B key (map unat vals) pf)"
proof -
  have "unat (field_to_felt (fst (pf_a pf))) < FQ_MODULUS" "unat (field_to_felt (snd (pf_a pf))) < FQ_MODULUS"
    using assms(6) by (cases "pf_a pf"; simp add: unat_field_to_felt_FQ)+
  then show ?thesis
    using assms(5-8) sol_verify_check [OF assms(1,2,4,3)]
    by (simp add: evm_decoded [OF assms(1)] proof_finite_def proof_points_valid_def groth16_accepts_def)
qed

text \<open>The contract against the native decoder and the Groth16 equation, for proofs without points at
  infinity.\<close>

lemma sol_assert_iff:
  assumes "bn254_ok K B" "precompiles_ok K B pc" "length vals + 1 = length (vk_gamma_abc_g1 key)"
    and "b64_decode K (gw_proof wire) = Some bytes" "proof_finite (bytes_proof bytes)"
  shows "sol_assert pc (sol_vk_of B key) vals bytes = Some () \<longleftrightarrow>
    (\<forall>v \<in> set vals. canonical v) \<and>
    (\<exists>pf. proof_from_wire K wire = Inr pf \<and> groth16_accepts B key (map unat vals) pf)"
proof (cases "length bytes = 256 \<and> (\<forall>bs \<in> set (chunks 32 8 bytes). be_value bs < FQ_MODULUS)")
  case False
  then have "sol_decodeProof bytes = None" using sol_decodeProof_bytes [of bytes] by (auto simp: sol_decodeProof_def)
  then show ?thesis using False by (auto simp: sol_assert_def proof_from_wire_bytes [OF assms(4)])
next
  case True
  note small = bytes_proof_small [of bytes]
  show ?thesis
  proof (cases "\<forall>v \<in> set vals. canonical v")
    case canonical: True
    then show ?thesis
      using True sol_decodeProof_bytes [of bytes] sol_verify_bytes [OF assms(1-3) canonical assms(5) small]
      by (auto simp: sol_assert_def proof_from_wire_bytes [OF assms(4)])
  next
    case noncanonical: False
    then show ?thesis using sol_verify_noncanonical [OF noncanonical, of pc "sol_vk_of B key"]
      by (auto simp: sol_assert_def split: bind_splits if_splits)
  qed
qed

section \<open>Calldata of the wire inputs\<close>

text \<open>The structs a caller passes for the native public inputs; an address that needs more than 160 bits
  has none.\<close>

definition sol_request_inputs :: "RequestPublicInputsV2 \<Rightarrow> SolRequestInputs option" where
  "sol_request_inputs pub = map_option (\<lambda>contract.
     \<lparr>si_protocolVersion = r2_protocol_version pub, si_chainId = r2_chain_id pub, si_contractAddress = contract,
      si_activeRoot = r2_active_root pub, si_stateSigningKeyX = r2_state_signing_key_x pub,
      si_stateSigningKeyY = r2_state_signing_key_y pub, si_requestTime = r2_request_time pub,
      si_solvencyBound = r2_solvency_bound pub, si_requestNullifier = r2_request_nullifier pub,
      si_authorizationTag = r2_authorization_tag pub,
      si_anonymousCommitmentX = r2_anonymous_commitment_x pub,
      si_anonymousCommitmentY = r2_anonymous_commitment_y pub\<rparr>) (felt_to_address (r2_contract_address pub))"

definition sol_withdrawal_inputs :: "WithdrawalPublicInputsV2 \<Rightarrow> SolWithdrawalInputs option" where
  "sol_withdrawal_inputs pub = map_option (\<lambda>contract.
     \<lparr>sw_protocolVersion = w2_protocol_version pub, sw_chainId = w2_chain_id pub, sw_contractAddress = contract,
      sw_activeRoot = w2_active_root pub, sw_stateSigningKeyX = w2_state_signing_key_x pub,
      sw_stateSigningKeyY = w2_state_signing_key_y pub,
      sw_clearanceSigningKeyX = w2_clearance_signing_key_x pub,
      sw_clearanceSigningKeyY = w2_clearance_signing_key_y pub, sw_noteId = w2_note_id pub,
      sw_finalBalance = w2_final_balance pub, sw_destination = w2_destination pub,
      sw_withdrawalNullifier = w2_withdrawal_nullifier pub, sw_hasClearance = w2_has_clearance pub,
      sw_withdrawalTag = w2_withdrawal_tag pub\<rparr>) (felt_to_address (w2_contract_address pub))"

lemma field_modulus_large: "2 ^ 160 \<le> field_modulus"
  by (simp add: field_modulus_def)

lemma unat_ucast_word:
  "unat (ucast (a :: u16) :: felt) = unat a" "unat (ucast (b :: u64) :: felt) = unat b"
  "unat (ucast (c :: u128) :: felt) = unat c" "unat (ucast (d :: u32) :: felt) = unat d"
  "unat (ucast (e :: address) :: felt) = unat e"
  by (simp_all add: unat_ucast_up)

lemma unat_short_less:
  assumes "LENGTH('a) \<le> 160"
  shows "unat (x :: 'a::len word) < field_modulus"
proof -
  have "unat x < 2 ^ LENGTH('a)" by (rule unsigned_less)
  also have "\<dots> \<le> (2 :: nat) ^ 160" using assms by (intro power_increasing) simp_all
  finally show ?thesis using field_modulus_large by simp
qed

lemma canonical_ucast:
  "canonical (ucast (a :: u16))" "canonical (ucast (b :: u64))" "canonical (ucast (c :: u128))"
  "canonical (ucast (d :: u32))" "canonical (ucast (e :: address))"
  by (simp_all add: canonical_def unat_ucast_word unat_short_less)

lemma unat_destination: "felt_to_field (destination_field d) = unat d"
proof -
  have "unat (destination_field d) = unat d"
    using unat_address_to_felt [of d] by (simp add: destination_field_def address_to_felt_def)
  then show ?thesis using canonical_ucast(5) [of d] by (simp add: felt_to_field_unat canonical_def unat_ucast_word)
qed

lemma request_values:
  assumes "edwards_wire_ok E" "sol_request_inputs pub = Some inputs" "request_public_from_wire E pub = Inr p"
    and "\<forall>v \<in> set (sol_request_values inputs). canonical v"
  shows "map unat (sol_request_values inputs) = rp_to_field_elements E p"
proof -
  obtain key anon where key: "point_from_wire E \<lparr>cp_x = r2_state_signing_key_x pub, cp_y = r2_state_signing_key_y pub\<rparr> = Inr key"
    and anon: "point_from_wire E \<lparr>cp_x = r2_anonymous_commitment_x pub, cp_y = r2_anonymous_commitment_y pub\<rparr> = Inr anon"
    and p: "rp_protocol_version p = r2_protocol_version pub" "rp_chain_id p = r2_chain_id pub"
      "rp_contract_address p = felt_to_field (r2_contract_address pub)" "rp_active_root p = felt_to_field (r2_active_root pub)"
      "rp_state_signing_key p = key" "rp_request_time p = r2_request_time pub" "rp_solvency_bound p = r2_solvency_bound pub"
      "rp_request_nullifier p = felt_to_field (r2_request_nullifier pub)"
      "rp_authorization_tag p = felt_to_field (r2_authorization_tag pub)" "rp_anonymous_commitment p = anon"
    using assms(3) by (auto simp: request_public_from_wire_def and_then_eq_Inr)
  obtain contract where addr: "felt_to_address (r2_contract_address pub) = Some contract"
    using assms(2) by (auto simp: sol_request_inputs_def)
  then have "felt_to_field (r2_contract_address pub) = unat contract"
    using canonical_ucast(5) [of contract]
    by (simp add: felt_to_address_eq_Some felt_to_field_unat canonical_def unat_ucast_word)
  then show ?thesis
    using assms(2,4) point_from_wire_Inr(2,3) [OF assms(1) key] point_from_wire_Inr(2,3) [OF assms(1) anon]
    by (auto simp: sol_request_inputs_def addr sol_request_values_def rp_to_field_elements_def p unat_ucast_word
        felt_to_field_canonical)
qed

lemma withdrawal_values:
  assumes "edwards_wire_ok E" "sol_withdrawal_inputs pub = Some inputs" "withdrawal_public_from_wire E pub = Inr p"
    and "\<forall>v \<in> set (sol_withdrawal_values inputs). canonical v"
  shows "map unat (sol_withdrawal_values inputs) = wp_to_field_elements E p"
proof -
  obtain key ckey where key: "point_from_wire E \<lparr>cp_x = w2_state_signing_key_x pub, cp_y = w2_state_signing_key_y pub\<rparr> = Inr key"
    and ckey: "point_from_wire E \<lparr>cp_x = w2_clearance_signing_key_x pub, cp_y = w2_clearance_signing_key_y pub\<rparr> = Inr ckey"
    and p: "wp_protocol_version p = w2_protocol_version pub" "wp_chain_id p = w2_chain_id pub"
      "wp_contract_address p = felt_to_field (w2_contract_address pub)" "wp_active_root p = felt_to_field (w2_active_root pub)"
      "wp_state_signing_key p = key" "wp_clearance_signing_key p = ckey" "wp_note_id p = w2_note_id pub"
      "wp_final_balance p = w2_final_balance pub" "wp_destination p = felt_to_field (destination_field (w2_destination pub))"
      "wp_withdrawal_nullifier p = felt_to_field (w2_withdrawal_nullifier pub)" "wp_has_clearance p = w2_has_clearance pub"
      "wp_withdrawal_tag p = felt_to_field (w2_withdrawal_tag pub)"
    using assms(3) by (auto simp: withdrawal_public_from_wire_def and_then_eq_Inr)
  obtain contract where addr: "felt_to_address (w2_contract_address pub) = Some contract"
    using assms(2) by (auto simp: sol_withdrawal_inputs_def)
  then have "felt_to_field (w2_contract_address pub) = unat contract"
    using canonical_ucast(5) [of contract]
    by (simp add: felt_to_address_eq_Some felt_to_field_unat canonical_def unat_ucast_word)
  then show ?thesis
    using assms(2,4) point_from_wire_Inr(2,3) [OF assms(1) key] point_from_wire_Inr(2,3) [OF assms(1) ckey]
    by (auto simp: sol_withdrawal_inputs_def addr sol_withdrawal_values_def wp_to_field_elements_def p unat_ucast_word
        felt_to_field_canonical unat_destination)
qed

text \<open>Proofs with a point at infinity are refused by the native decoder.\<close>

lemma infinite_proof_refused:
  assumes "bn254_ok K B" "b64_decode K (gw_proof wire) = Some bytes" "\<not> proof_finite (bytes_proof bytes)"
  shows "proof_from_wire K wire \<noteq> Inr pf"
  using assms(3) bn254_zero(3,4) [OF assms(1)]
  by (auto simp: proof_from_wire_bytes [OF assms(2)] proof_finite_def proof_points_valid_def)


lemma verdicts_agree:
  assumes "bn254_ok K B" "precompiles_ok K B pc" "groth16_law B key verify"
    and "compile_vk (solidity_vk_functions B key) = Some vk" "b64_decode K (gw_proof wire) = Some bytes"
    and "length vals + 1 = length (vk_gamma_abc_g1 key)" "length xs = length vals"
    and "\<forall>v \<in> set vals. canonical v \<Longrightarrow> map unat vals = xs"
  shows "(proof_finite (bytes_proof bytes) \<longrightarrow>
      (sol_assert pc vk vals bytes = Some () \<longleftrightarrow>
         (\<forall>v \<in> set vals. canonical v) \<and> (\<exists>pf. proof_from_wire K wire = Inr pf \<and> verify xs pf = Some True))) \<and>
    (\<not> proof_finite (bytes_proof bytes) \<longrightarrow> (\<nexists>pf. proof_from_wire K wire = Inr pf \<and> verify xs pf = Some True))"
proof -
  have "vk = sol_vk_of B key" using assms(4) compile_vk_functions [of B key] by simp
  moreover have "verify xs pf = Some (groth16_accepts B key xs pf)" for pf
    using assms(3,6,7) by (simp add: groth16_law_def)
  ultimately show ?thesis
    using sol_assert_iff [OF assms(1,2,6,5)] infinite_proof_refused [OF assms(1,5)] assms(8) by auto
qed

lemma native_verdicts:
  assumes "gw_backend wire = Groth16Bn254"
  shows "request_public_from_wire E pub = Inr p \<Longrightarrow> request_verify E K verify pub wire = Inr True \<longleftrightarrow>
      (\<exists>pf. proof_from_wire K wire = Inr pf \<and> verify (rp_to_field_elements E p) pf = Some True)"
    and "withdrawal_public_from_wire E wpub = Inr wp \<Longrightarrow> withdrawal_verify E K verify wpub wire = Inr True \<longleftrightarrow>
      (\<exists>pf. proof_from_wire K wire = Inr pf \<and> verify (wp_to_field_elements E wp) pf = Some True)"
  using assms by (simp_all add: request_verify_def withdrawal_verify_def ensure_backend_def and_then_eq_Inr)


section \<open>A concrete curve\<close>

text \<open>A group of three elements with coordinates, to evaluate the properties at.\<close>

lemma three_cases: "(p :: 3) = 0 \<or> p = 1 \<or> p = 2"
proof (cases p)
  case (of_int z)
  then have "z = 0 \<or> z = 1 \<or> z = 2" by simp arith
  then show ?thesis using of_int(1) by auto
qed

lemma three_facts: "(1 :: 3) \<noteq> 0" "(2 :: 3) \<noteq> 0" "(2 :: 3) \<noteq> 1" "- (1 :: 3) = 2" "- (2 :: 3) = 1" "(1 :: 3) + 2 = 0"
  by simp_all

definition toy_codec :: codec where
  "toy_codec = \<lparr>b64_encode = map (\<lambda>b. char_of (unat b)), b64_decode = (\<lambda>s. Some (map of_char s)),
     g1_valid = (\<lambda>c. c = (1, 1) \<or> c = (1, FQ_MODULUS - 1)), g2_valid = (\<lambda>c. c = ((1, 0), (1, 0)) \<or> c = ((1, 0), (2, 0)))\<rparr>"

definition toy_bn254 :: "(3, 3, 3) bn254" where
  "toy_bn254 = \<lparr>bn_g1 = (\<lambda>c. if c = (1, 1) then 1 else 2),
     bn_g1_xy = (\<lambda>p. if p = 0 then (0, 0) else if p = 1 then (1, 1) else (1, FQ_MODULUS - 1)),
     bn_g2 = (\<lambda>c. if c = ((1, 0), (1, 0)) then 1 else 2),
     bn_g2_xy = (\<lambda>p. if p = 0 then ((0, 0), (0, 0)) else if p = 1 then ((1, 0), (1, 0)) else ((1, 0), (2, 0))),
     bn_pair = (*)\<rparr>"

definition toy_precompiles :: precompiles where
  "toy_precompiles =
     \<lparr>pc_ecadd = (\<lambda>ws. case ws of [x, y, x', y'] \<Rightarrow>
          Option.bind (evm_g1 toy_codec toy_bn254 (x, y)) (\<lambda>p. Option.bind (evm_g1 toy_codec toy_bn254 (x', y')) (\<lambda>q.
          Some [fst (g1_words toy_bn254 (p + q)), snd (g1_words toy_bn254 (p + q))])) | _ \<Rightarrow> None),
      pc_ecmul = (\<lambda>ws. case ws of [x, y, s] \<Rightarrow>
          Option.bind (evm_g1 toy_codec toy_bn254 (x, y)) (\<lambda>p.
          Some [fst (g1_words toy_bn254 (nsmul (unat s) p)), snd (g1_words toy_bn254 (nsmul (unat s) p))]) | _ \<Rightarrow> None),
      pc_ecpairing = (\<lambda>ws. map_option (\<lambda>ps. [of_bool (sum_list (map (\<lambda>(p, q). bn_pair toy_bn254 p q) ps) = 0)])
          (evm_pairs toy_codec toy_bn254 ws))\<rparr>"

lemma toy_precompiles_ok: "precompiles_ok toy_codec toy_bn254 toy_precompiles"
  by (simp add: precompiles_ok_def toy_precompiles_def)

lemma toy_bn254_ok: "bn254_ok toy_codec toy_bn254"
proof -
  have "FQ_MODULUS - 1 \<noteq> 1" "FQ_MODULUS - (FQ_MODULUS - 1) = 1" "0 < FQ_MODULUS" "1 < FQ_MODULUS" "2 < FQ_MODULUS"
    by (simp_all add: FQ_MODULUS_def)
  moreover have "p \<noteq> 0 \<Longrightarrow> p = 1 \<or> p = 2" for p :: 3 using three_cases [of p] by blast
  moreover have "- p \<noteq> 1 \<Longrightarrow> p \<noteq> 1 \<Longrightarrow> p = 0" for p :: 3 using three_cases [of p] three_facts by auto
  ultimately show ?thesis
    unfolding bn254_ok_def toy_codec_def toy_bn254_def
    by (auto simp: three_facts algebra_simps)
qed

lemma toy_codec_decode: "b64_decode toy_codec (b64_encode toy_codec bs) = Some bs"
proof -
  have "(of_char (char_of (unat b) :: char) :: u8) = b" for b :: u8
    using unsigned_less [of b, where ?'a = nat] by (simp add: word_unat_eq_iff unat_of_char)
  then show ?thesis by (simp add: toy_codec_def comp_def)
qed


lemma toy_codec_ok: "codec_ok toy_codec"
  by (simp add: codec_ok_def toy_codec_decode)

definition toy_key :: "nat \<Rightarrow> (3, 3) VerifyingKey" where
  "toy_key n = \<lparr>vk_alpha_g1 = 0, vk_beta_g2 = 0, vk_gamma_g2 = 0, vk_delta_g2 = 1, vk_gamma_abc_g1 = replicate n 0\<rparr>"

definition toy_verify :: "nat \<Rightarrow> nat list \<Rightarrow> Groth16Proof \<Rightarrow> bool option" where
  "toy_verify n xs pf = (if length xs + 1 = n then Some (groth16_accepts toy_bn254 (toy_key n) xs pf) else None)"

definition toy_proof :: Groth16Proof where
  "toy_proof = \<lparr>pf_a = (1, 1), pf_b = ((1, 0), (1, 0)), pf_c = (1, 1)\<rparr>"

lemma toy_verify_law: "groth16_law toy_bn254 (toy_key n) (toy_verify n)"
  by (simp add: groth16_law_def toy_verify_def) (simp add: toy_key_def)

lemma toy_proof_accepted: "groth16_accepts toy_bn254 (toy_key n) xs toy_proof"
  by (simp add: groth16_accepts_def toy_key_def toy_proof_def toy_bn254_def)

lemma toy_proof_valid: "proof_valid toy_codec toy_proof"
  by (simp add: proof_valid_def toy_proof_def toy_codec_def FQ_MODULUS_def)

lemma wire_proof_bytes:
  assumes "codec_ok K" "proof_valid K pf"
  shows "b64_decode K (gw_proof (proof_to_wire K pf)) = Some (proof_bytes pf)" "bytes_proof (proof_bytes pf) = pf"
proof -
  show dec: "b64_decode K (gw_proof (proof_to_wire K pf)) = Some (proof_bytes pf)"
    using assms(1) by (simp add: proof_to_wire_def codec_ok_def)
  show "bytes_proof (proof_bytes pf) = pf"
    using proof_from_wire_to_wire [OF assms] proof_from_wire_bytes [OF dec] by simp
qed


lemma toy_proof_wire:
  "gw_backend (proof_to_wire toy_codec toy_proof) = Groth16Bn254"
  "proof_from_wire toy_codec (proof_to_wire toy_codec toy_proof) = Inr toy_proof"
  "b64_decode toy_codec (gw_proof (proof_to_wire toy_codec toy_proof)) = Some (proof_bytes toy_proof)"
  "proof_finite (bytes_proof (proof_bytes toy_proof))"
  using proof_from_wire_to_wire [OF toy_codec_ok toy_proof_valid] wire_proof_bytes [OF toy_codec_ok toy_proof_valid]
  by (simp_all add: proof_to_wire_def) (simp add: proof_finite_def toy_proof_def)

lemma toy_points:
  "point_from_wire jub_curve \<lparr>cp_x = 5, cp_y = 1\<rparr> = Inr (Abs_jub_group 5)"
  "point_from_wire jub_curve \<lparr>cp_x = 6, cp_y = 1\<rparr> = Inr (Abs_jub_group 6)"
  by (simp_all add: point_from_wire_def jub_curve_def felt_to_field_unat field_modulus_def SCALAR_MODULUS_def)


section \<open>Properties\<close>

text \<open>Claim C12. The generated contract and the native verifier decide alike on requests: for a key with
  thirteen input points, public points on the curve and a contract address of 160 bits, a proof without
  points at infinity is accepted by \<open>assertValidRequest\<close> exactly when every public value is reduced and
  \<open>RequestVerifier::verify\<close> returns true. A proof with a point at infinity, which the contract can read,
  is refused by the native verifier.\<close>

theorem request_verifiers_agree:
  assumes "edwards_wire_ok E" "bn254_ok K B" "precompiles_ok K B pc" "groth16_law B key verify"
    and "length (vk_gamma_abc_g1 key) = 13" "compile_vk (solidity_vk_functions B key) = Some vk"
    and "request_public_from_wire E pub = Inr p" "sol_request_inputs pub = Some inputs"
    and "gw_backend wire = Groth16Bn254" "b64_decode K (gw_proof wire) = Some bytes"
  shows "(proof_finite (bytes_proof bytes) \<longrightarrow>
      (assertValidRequest pc vk inputs bytes = Some () \<longleftrightarrow>
         (\<forall>v \<in> set (sol_request_values inputs). canonical v) \<and> request_verify E K verify pub wire = Inr True)) \<and>
    (\<not> proof_finite (bytes_proof bytes) \<longrightarrow> request_verify E K verify pub wire \<noteq> Inr True)"
  using verdicts_agree [OF assms(2-4,6,10), of "sol_request_values inputs" "rp_to_field_elements E p"]
    request_values [OF assms(1,8,7)] native_verdicts(1) [OF assms(9,7)] assms(5)
  by (simp add: assertValidRequest_def sol_request_values_def rp_to_field_elements_def)

theorem request_verifiers_agree_witness:
  "\<exists>vk inputs pub. compile_vk (solidity_vk_functions toy_bn254 (toy_key 13)) = Some vk \<and>
     sol_request_inputs pub = Some inputs \<and> r2_solvency_bound pub = 10 \<and>
     request_verify jub_curve toy_codec (toy_verify 13) pub (proof_to_wire toy_codec toy_proof) = Inr True \<and>
     assertValidRequest toy_precompiles vk inputs (proof_bytes toy_proof) = Some ()"
proof -
  let ?wire = "proof_to_wire toy_codec toy_proof"
  let ?pub = "\<lparr>r2_protocol_version = 2, r2_chain_id = 1, r2_contract_address = 99, r2_active_root = 3,
     r2_state_signing_key_x = 5, r2_state_signing_key_y = 1, r2_request_time = 7, r2_solvency_bound = 10,
     r2_request_nullifier = 11, r2_authorization_tag = 12, r2_anonymous_commitment_x = 6,
     r2_anonymous_commitment_y = 1\<rparr>"
  have addr: "felt_to_address 99 = Some 99" by (simp add: felt_to_address_eq_Some)
  then obtain inputs where inputs: "sol_request_inputs ?pub = Some inputs" by (simp add: sol_request_inputs_def)
  obtain p where p: "request_public_from_wire jub_curve ?pub = Inr p"
    using toy_points by (simp add: request_public_from_wire_def)
  have can: "\<forall>v \<in> set (sol_request_values inputs). canonical v"
    using inputs by (auto simp: sol_request_inputs_def addr sol_request_values_def canonical_def field_modulus_def)
  have native: "request_verify jub_curve toy_codec (toy_verify 13) ?pub ?wire = Inr True"
    using toy_proof_accepted [of 13 "rp_to_field_elements jub_curve p"] toy_proof_wire(2)
    by (simp add: native_verdicts(1) [OF toy_proof_wire(1) p] toy_verify_def) (simp add: rp_to_field_elements_def)
  have "assertValidRequest toy_precompiles (sol_vk_of toy_bn254 (toy_key 13)) inputs (proof_bytes toy_proof) = Some ()"
    using request_verifiers_agree [OF jub_curve_wire_ok toy_bn254_ok toy_precompiles_ok toy_verify_law _
        compile_vk_functions p inputs toy_proof_wire(1,3)] can native toy_proof_wire(4)
    by (simp add: toy_key_def)
  then show ?thesis using inputs native compile_vk_functions by (intro exI [of _ ?pub] exI) auto
qed

text \<open>The same for withdrawals, with fifteen input points: what the native verifier accepts is
  exactly what the contract pays out for.\<close>

lemma withdrawal_verifiers_agree:
  assumes "edwards_wire_ok E" "bn254_ok K B" "precompiles_ok K B pc" "groth16_law B key verify"
    and "length (vk_gamma_abc_g1 key) = 15" "compile_vk (solidity_vk_functions B key) = Some vk"
    and "withdrawal_public_from_wire E pub = Inr p" "sol_withdrawal_inputs pub = Some inputs"
    and "gw_backend wire = Groth16Bn254" "b64_decode K (gw_proof wire) = Some bytes"
  shows "(proof_finite (bytes_proof bytes) \<longrightarrow>
      (assertValidWithdrawal pc vk inputs bytes = Some () \<longleftrightarrow>
         (\<forall>v \<in> set (sol_withdrawal_values inputs). canonical v) \<and> withdrawal_verify E K verify pub wire = Inr True)) \<and>
    (\<not> proof_finite (bytes_proof bytes) \<longrightarrow> withdrawal_verify E K verify pub wire \<noteq> Inr True)"
  using verdicts_agree [OF assms(2-4,6,10), of "sol_withdrawal_values inputs" "wp_to_field_elements E p"]
    withdrawal_values [OF assms(1,8,7)] native_verdicts(2) [OF assms(9,7)] assms(5)
  by (simp add: assertValidWithdrawal_def sol_withdrawal_values_def wp_to_field_elements_def)

end
