(* ===== verification/Setup.thy ===== *)
theory Setup
  imports Solidity_Verifier Client_Store
begin

text \<open>
  The setup command of \<open>compact.rs\<close> and the loading of its files: \<open>setup\<close> generates the keys of both
  circuits from template circuits and writes them with a manifest and the two Solidity sources;
  \<open>load\<close> and \<open>from_bytes\<close> of the provers and verifiers read them.

  The library's key generation and the encodings of keys, manifest and source texts are the record
  \<open>setup_env\<close>. Every write may fail and leave arbitrary bytes; the failures are an argument.
\<close>

section \<open>Manifest\<close>

record VerifyingKeyManifest =
  vm_alpha_g1 :: g1_source
  vm_beta_g2 :: g2_source
  vm_gamma_g2 :: g2_source
  vm_delta_g2 :: g2_source
  vm_ic :: "g1_source list"

record PoseidonManifest =
  pm_field_modulus :: string
  pm_full_rounds :: nat
  pm_partial_rounds :: nat
  pm_alpha :: nat
  pm_rate :: nat
  pm_capacity :: nat
  pm_round_constants :: "string list"
  pm_mds :: "string list"
  pm_test_hash3 :: string
  pm_test_hash5 :: string

record SetupManifest =
  sm_circuit_id :: string
  sm_protocol_version :: u16
  sm_proof_backend :: string
  sm_request :: VerifyingKeyManifest
  sm_withdrawal :: VerifyingKeyManifest
  sm_poseidon :: PoseidonManifest

definition CIRCUIT_ID :: string where
  "CIRCUIT_ID = ''zkapi-v2-note-bound-v1''"

definition verifying_key_manifest :: "('g, 'h, 't) bn254 \<Rightarrow> ('g, 'h) VerifyingKey \<Rightarrow> VerifyingKeyManifest" where
  "verifying_key_manifest B key =
     \<lparr>vm_alpha_g1 = g1_manifest B (vk_alpha_g1 key), vm_beta_g2 = g2_manifest B (vk_beta_g2 key),
      vm_gamma_g2 = g2_manifest B (vk_gamma_g2 key), vm_delta_g2 = g2_manifest B (vk_delta_g2 key),
      vm_ic = map (g1_manifest B) (vk_gamma_abc_g1 key)\<rparr>"

definition poseidon_manifest :: "PoseidonConfig \<Rightarrow> poseidon \<Rightarrow> PoseidonManifest" where
  "poseidon_manifest config P =
     \<lparr>pm_field_modulus = FIELD_MODULUS_HEX, pm_full_rounds = pc_full_rounds config,
      pm_partial_rounds = pc_partial_rounds config, pm_alpha = pc_alpha config, pm_rate = pc_rate config,
      pm_capacity = pc_capacity config, pm_round_constants = map field_hex (concat (pc_ark config)),
      pm_mds = map field_hex (concat (pc_mds config)), pm_test_hash3 = field_hex (P [1, 2, 3]),
      pm_test_hash5 = field_hex (P [1, 2, 3, 4, 5])\<rparr>"


section \<open>Files\<close>

definition REQUEST_PROVING_KEY_FILE :: string where "REQUEST_PROVING_KEY_FILE = ''request.pk''"
definition REQUEST_VERIFYING_KEY_FILE :: string where "REQUEST_VERIFYING_KEY_FILE = ''request.vk''"
definition WITHDRAWAL_PROVING_KEY_FILE :: string where "WITHDRAWAL_PROVING_KEY_FILE = ''withdrawal.pk''"
definition WITHDRAWAL_VERIFYING_KEY_FILE :: string where "WITHDRAWAL_VERIFYING_KEY_FILE = ''withdrawal.vk''"
definition SETUP_MANIFEST_FILE :: string where "SETUP_MANIFEST_FILE = ''manifest.json''"
definition SOLIDITY_POSEIDON_FILE :: string where "SOLIDITY_POSEIDON_FILE = ''Bn254Poseidon.sol''"
definition SOLIDITY_VERIFIER_FILE :: string where "SOLIDITY_VERIFIER_FILE = ''Groth16ProofAdapter.sol''"

lemmas setup_files = REQUEST_PROVING_KEY_FILE_def REQUEST_VERIFYING_KEY_FILE_def WITHDRAWAL_PROVING_KEY_FILE_def
  WITHDRAWAL_VERIFYING_KEY_FILE_def SETUP_MANIFEST_FILE_def SOLIDITY_POSEIDON_FILE_def SOLIDITY_VERIFIER_FILE_def

datatype setup_error =
    CreateDirFailed | SetupFailed | EncodeFailed | WriteFailed | ReadFailed | KeyError compact_error

text \<open>The key generation of the library with its randomness, the compressed encodings, \<open>serde_json\<close>, and the
  two fixed texts as functions of the literals they receive.\<close>

record ('e, 'g, 'h, 't, 'k) setup_env =
  se_curve :: "'e edwards"
  se_bn254 :: "('g, 'h, 't) bn254"
  se_finder :: find_ark_and_mds
  se_poseidon :: poseidon
  se_request_setup :: "'e RequestPublic \<times> 'e RequestWitness \<Rightarrow> ('k \<times> ('g, 'h) VerifyingKey) option"
  se_withdrawal_setup :: "'e WithdrawalPublic \<times> 'e WithdrawalWitness \<Rightarrow> ('k \<times> ('g, 'h) VerifyingKey) option"
  se_pk_serialize :: "'k \<Rightarrow> u8 list option"
  se_pk_deserialize :: "u8 list \<Rightarrow> ('k \<times> u8 list) option"
  se_vk_serialize :: "('g, 'h) VerifyingKey \<Rightarrow> u8 list option"
  se_vk_deserialize :: "u8 list \<Rightarrow> (('g, 'h) VerifyingKey \<times> u8 list) option"
  se_manifest_json :: "SetupManifest \<Rightarrow> u8 list option"
  se_poseidon_text :: "BnPoseidonSource \<Rightarrow> u8 list"
  se_verifier_text :: "VkFunctions \<Rightarrow> VkFunctions \<Rightarrow> u8 list"

text \<open>\<open>sf_write\<close> is \<open>None\<close> for a file that is written, \<open>Some None\<close> when it cannot be opened, and
  \<open>Some (Some left)\<close> when the bytes \<open>left\<close> stay behind.\<close>

record setup_faults =
  sf_dir :: bool
  sf_write :: "path \<Rightarrow> u8 list option option"

definition fs_write :: "setup_faults \<Rightarrow> path \<Rightarrow> u8 list \<Rightarrow> u8 list disk \<Rightarrow> u8 list disk \<times> (setup_error + unit)" where
  "fs_write io p bytes disk =
     (case sf_write io p of
        None \<Rightarrow> (disk(p \<mapsto> bytes), Inr ())
      | Some None \<Rightarrow> (disk, Inl WriteFailed)
      | Some (Some left) \<Rightarrow> (disk(p \<mapsto> left), Inl WriteFailed))"

definition write_key ::
    "setup_faults \<Rightarrow> path \<Rightarrow> ('v \<Rightarrow> u8 list option) \<Rightarrow> 'v \<Rightarrow> u8 list disk \<Rightarrow> u8 list disk \<times> (setup_error + unit)" where
  "write_key io p serialize value disk =
     st_then (disk, ok_or EncodeFailed (serialize value)) (\<lambda>bytes disk.
     fs_write io p (KEY_HEADER @ bytes) disk)"

definition read_compressed ::
    "(u8 list \<Rightarrow> ('v \<times> u8 list) option) \<Rightarrow> bool \<Rightarrow> path \<Rightarrow> u8 list disk \<Rightarrow> setup_error + 'v" where
  "read_compressed deserialize fault p disk =
     and_then (if fault then Inl ReadFailed else ok_or ReadFailed (disk p)) (\<lambda>bytes.
     map_err KeyError (decode_compressed deserialize bytes))"

definition prover_from_bytes :: "('e, 'g, 'h, 't, 'k) setup_env \<Rightarrow> u8 list \<Rightarrow> setup_error + 'k" where
  "prover_from_bytes env bytes = map_err KeyError (decode_compressed (se_pk_deserialize env) bytes)"

definition request_prover_load ::
    "('e, 'g, 'h, 't, 'k) setup_env \<Rightarrow> bool \<Rightarrow> path \<Rightarrow> u8 list disk \<Rightarrow> setup_error + 'k" where
  "request_prover_load env fault directory disk =
     and_then (if fault then Inl ReadFailed else ok_or ReadFailed (disk (directory @ [REQUEST_PROVING_KEY_FILE])))
       (prover_from_bytes env)"

definition withdrawal_prover_load ::
    "('e, 'g, 'h, 't, 'k) setup_env \<Rightarrow> bool \<Rightarrow> path \<Rightarrow> u8 list disk \<Rightarrow> setup_error + 'k" where
  "withdrawal_prover_load env fault directory disk =
     and_then (if fault then Inl ReadFailed else ok_or ReadFailed (disk (directory @ [WITHDRAWAL_PROVING_KEY_FILE])))
       (prover_from_bytes env)"

definition request_verifier_load ::
    "('e, 'g, 'h, 't, 'k) setup_env \<Rightarrow> bool \<Rightarrow> path \<Rightarrow> u8 list disk \<Rightarrow> setup_error + ('g, 'h) VerifyingKey" where
  "request_verifier_load env fault directory disk =
     read_compressed (se_vk_deserialize env) fault (directory @ [REQUEST_VERIFYING_KEY_FILE]) disk"

definition withdrawal_verifier_load ::
    "('e, 'g, 'h, 't, 'k) setup_env \<Rightarrow> bool \<Rightarrow> path \<Rightarrow> u8 list disk \<Rightarrow> setup_error + ('g, 'h) VerifyingKey" where
  "withdrawal_verifier_load env fault directory disk =
     read_compressed (se_vk_deserialize env) fault (directory @ [WITHDRAWAL_VERIFYING_KEY_FILE]) disk"

text \<open>\<open>random_field\<close> and \<open>random_scalar\<close>, with the draw of the library as argument.\<close>

definition random_field :: "nat \<Rightarrow> felt" where
  "random_field draw = field_to_felt draw"

definition random_scalar :: "nat \<Rightarrow> felt" where
  "random_scalar draw = scalar_to_felt draw"


section \<open>The command\<close>

definition empty_signature :: "'e::zero StateSignature" where
  "empty_signature = \<lparr>ss_r = 0, ss_s = 0\<rparr>"

definition request_template :: "'e::zero edwards \<Rightarrow> 'e \<Rightarrow> 'e RequestPublic \<times> 'e RequestWitness" where
  "request_template E state_key =
     (\<lparr>rp_protocol_version = 2, rp_chain_id = 1, rp_contract_address = 1, rp_active_root = 1,
       rp_state_signing_key = state_key, rp_request_time = 1, rp_solvency_bound = 0, rp_request_nullifier = 1,
       rp_authorization_tag = 1, rp_anonymous_commitment = ed_generator E\<rparr>,
      \<lparr>rw_secret = 1, rw_request_context = 1, rw_note_id = 0, rw_deposit_amount = 0, rw_expiry = 1,
       rw_merkle_siblings = replicate MERKLE_DEPTH 0, rw_current_balance = 0, rw_current_blinding = 0,
       rw_rerandomization = 0, rw_current_anchor = 1, rw_is_genesis = True,
       rw_state_signature = empty_signature\<rparr>)"

definition withdrawal_template :: "'e::zero \<Rightarrow> 'e WithdrawalPublic \<times> 'e WithdrawalWitness" where
  "withdrawal_template state_key =
     (\<lparr>wp_protocol_version = 2, wp_chain_id = 1, wp_contract_address = 1, wp_active_root = 1,
       wp_state_signing_key = state_key, wp_clearance_signing_key = state_key, wp_note_id = 0,
       wp_final_balance = 0, wp_destination = 1, wp_withdrawal_nullifier = 1, wp_has_clearance = False,
       wp_withdrawal_tag = 1\<rparr>,
      \<lparr>ww_secret = 1, ww_deposit_amount = 0, ww_expiry = 1, ww_merkle_siblings = replicate MERKLE_DEPTH 0,
       ww_final_blinding = 0, ww_current_anchor = 1, ww_is_genesis = True,
       ww_state_signature = empty_signature, ww_clearance_signature = empty_signature\<rparr>)"

definition setup_manifest ::
    "('e, 'g, 'h, 't, 'k) setup_env \<Rightarrow> ('g, 'h) VerifyingKey \<Rightarrow> ('g, 'h) VerifyingKey \<Rightarrow> SetupManifest" where
  "setup_manifest env request_vk withdrawal_vk =
     \<lparr>sm_circuit_id = CIRCUIT_ID, sm_protocol_version = 2, sm_proof_backend = ''groth16_bn254'',
      sm_request = verifying_key_manifest (se_bn254 env) request_vk,
      sm_withdrawal = verifying_key_manifest (se_bn254 env) withdrawal_vk,
      sm_poseidon = poseidon_manifest (poseidon_config (se_finder env)) (se_poseidon env)\<rparr>"

definition run_setup ::
    "('e::ab_group_add, 'g, 'h, 't, 'k) setup_env \<Rightarrow> setup_faults \<Rightarrow> path \<Rightarrow> u8 list disk \<Rightarrow>
     u8 list disk \<times> (setup_error + unit)" where
  "run_setup env io directory disk =
     (let E = se_curve env; file = (\<lambda>name. directory @ [name]) in
      st_then (disk, bail_if (sf_dir io) CreateDirFailed) (\<lambda>_ disk.
      st_then (disk, map_err KeyError (point_from_wire E (signer_public_key E (from_seed E ONE)))) (\<lambda>state_key disk.
      st_then (disk, ok_or SetupFailed (se_request_setup env (request_template E state_key)))
        (\<lambda>(request_pk, request_vk) disk.
      st_then (write_key io (file REQUEST_PROVING_KEY_FILE) (se_pk_serialize env) request_pk disk) (\<lambda>_ disk.
      st_then (write_key io (file REQUEST_VERIFYING_KEY_FILE) (se_vk_serialize env) request_vk disk) (\<lambda>_ disk.
      st_then (disk, ok_or SetupFailed (se_withdrawal_setup env (withdrawal_template state_key)))
        (\<lambda>(withdrawal_pk, withdrawal_vk) disk.
      st_then (write_key io (file WITHDRAWAL_PROVING_KEY_FILE) (se_pk_serialize env) withdrawal_pk disk) (\<lambda>_ disk.
      st_then (write_key io (file WITHDRAWAL_VERIFYING_KEY_FILE) (se_vk_serialize env) withdrawal_vk disk) (\<lambda>_ disk.
      st_then (disk, ok_or EncodeFailed (se_manifest_json env (setup_manifest env request_vk withdrawal_vk)))
        (\<lambda>json disk.
      st_then (fs_write io (file SETUP_MANIFEST_FILE) json disk) (\<lambda>_ disk.
      st_then (fs_write io (file SOLIDITY_POSEIDON_FILE)
        (se_poseidon_text env (poseidon_solidity_source (poseidon_config (se_finder env)))) disk) (\<lambda>_ disk.
      fs_write io (file SOLIDITY_VERIFIER_FILE)
        (se_verifier_text env (solidity_vk_functions (se_bn254 env) request_vk)
          (solidity_vk_functions (se_bn254 env) withdrawal_vk)) disk))))))))))))"

section \<open>What a run leaves\<close>

definition setup_codec_ok :: "('e, 'g, 'h, 't, 'k) setup_env \<Rightarrow> bool" where
  "setup_codec_ok env \<longleftrightarrow>
     (\<forall>k bs rest. se_pk_serialize env k = Some bs \<longrightarrow> se_pk_deserialize env (bs @ rest) = Some (k, rest)) \<and>
     (\<forall>k bs rest. se_vk_serialize env k = Some bs \<longrightarrow> se_vk_deserialize env (bs @ rest) = Some (k, rest))"

lemma fs_write_eq_Inr: "fs_write io p bytes disk = (disk', Inr u) \<longleftrightarrow> sf_write io p = None \<and> disk' = disk(p \<mapsto> bytes)"
  by (auto simp: fs_write_def split: option.splits)

lemma write_key_eq_Inr:
  "write_key io p serialize v disk = (disk', Inr u) \<longleftrightarrow>
     (\<exists>bytes. serialize v = Some bytes \<and> sf_write io p = None \<and> disk' = disk(p \<mapsto> KEY_HEADER @ bytes))"
  by (auto simp: write_key_def st_then_eq_Inr fs_write_eq_Inr)

lemma decode_written:
  assumes "\<forall>rest. deserialize (bytes @ rest) = Some (v, rest)"
  shows "decode_compressed deserialize (KEY_HEADER @ bytes) = Inr v"
  using spec [OF assms, of "[]"] by (simp add: decode_compressed_def strip_prefix_def)

text \<open>The files of a directory that \<open>setup\<close> filled.\<close>

definition setup_done ::
    "('e::ab_group_add, 'g, 'h, 't, 'k) setup_env \<Rightarrow> path \<Rightarrow> u8 list disk \<Rightarrow> 'k \<Rightarrow> ('g, 'h) VerifyingKey \<Rightarrow> 'k \<Rightarrow>
     ('g, 'h) VerifyingKey \<Rightarrow> bool" where
  "setup_done env directory disk request_pk request_vk withdrawal_pk withdrawal_vk \<longleftrightarrow>
     request_prover_load env False directory disk = Inr request_pk \<and>
     request_verifier_load env False directory disk = Inr request_vk \<and>
     withdrawal_prover_load env False directory disk = Inr withdrawal_pk \<and>
     withdrawal_verifier_load env False directory disk = Inr withdrawal_vk \<and>
     disk (directory @ [SETUP_MANIFEST_FILE]) = se_manifest_json env (setup_manifest env request_vk withdrawal_vk) \<and>
     disk (directory @ [SOLIDITY_POSEIDON_FILE])
       = Some (se_poseidon_text env (poseidon_solidity_source (poseidon_config (se_finder env)))) \<and>
     disk (directory @ [SOLIDITY_VERIFIER_FILE])
       = Some (se_verifier_text env (solidity_vk_functions (se_bn254 env) request_vk)
           (solidity_vk_functions (se_bn254 env) withdrawal_vk))"

lemma run_setup_Inr:
  assumes "setup_codec_ok env" "run_setup env io directory disk = (disk', Inr ())"
  shows "\<exists>state_key request_pk request_vk withdrawal_pk withdrawal_vk.
    se_request_setup env (request_template (se_curve env) state_key) = Some (request_pk, request_vk) \<and>
    se_withdrawal_setup env (withdrawal_template state_key) = Some (withdrawal_pk, withdrawal_vk) \<and>
    setup_done env directory disk' request_pk request_vk withdrawal_pk withdrawal_vk"
proof -
  obtain state_key request_pk request_vk withdrawal_pk withdrawal_vk rp rv wp wv json
    where gen: "se_request_setup env (request_template (se_curve env) state_key) = Some (request_pk, request_vk)"
      "se_withdrawal_setup env (withdrawal_template state_key) = Some (withdrawal_pk, withdrawal_vk)"
    and enc: "se_pk_serialize env request_pk = Some rp" "se_vk_serialize env request_vk = Some rv"
      "se_pk_serialize env withdrawal_pk = Some wp" "se_vk_serialize env withdrawal_vk = Some wv"
      "se_manifest_json env (setup_manifest env request_vk withdrawal_vk) = Some json"
    and disk: "disk' = disk(directory @ [REQUEST_PROVING_KEY_FILE] \<mapsto> KEY_HEADER @ rp,
        directory @ [REQUEST_VERIFYING_KEY_FILE] \<mapsto> KEY_HEADER @ rv,
        directory @ [WITHDRAWAL_PROVING_KEY_FILE] \<mapsto> KEY_HEADER @ wp,
        directory @ [WITHDRAWAL_VERIFYING_KEY_FILE] \<mapsto> KEY_HEADER @ wv,
        directory @ [SETUP_MANIFEST_FILE] \<mapsto> json,
        directory @ [SOLIDITY_POSEIDON_FILE] \<mapsto> se_poseidon_text env (poseidon_solidity_source (poseidon_config (se_finder env))),
        directory @ [SOLIDITY_VERIFIER_FILE] \<mapsto> se_verifier_text env (solidity_vk_functions (se_bn254 env) request_vk)
          (solidity_vk_functions (se_bn254 env) withdrawal_vk))"
    using assms(2) unfolding run_setup_def Let_def
    by (auto simp: st_then_eq_Inr write_key_eq_Inr fs_write_eq_Inr split: prod.splits)
  have dec: "decode_compressed (se_pk_deserialize env) (KEY_HEADER @ bs) = Inr k" if "se_pk_serialize env k = Some bs" for k bs
    by (rule decode_written) (use assms(1) that in \<open>simp add: setup_codec_ok_def\<close>)
  have dec2: "decode_compressed (se_vk_deserialize env) (KEY_HEADER @ bs) = Inr k" if "se_vk_serialize env k = Some bs" for k bs
    by (rule decode_written) (use assms(1) that in \<open>simp add: setup_codec_ok_def\<close>)
  have "setup_done env directory disk' request_pk request_vk withdrawal_pk withdrawal_vk"
    unfolding setup_done_def disk request_prover_load_def withdrawal_prover_load_def request_verifier_load_def
      withdrawal_verifier_load_def read_compressed_def prover_from_bytes_def
    using enc by (simp add: setup_files dec dec2)
  then show ?thesis using gen by blast
qed

definition setup_names :: "string set" where
  "setup_names = {REQUEST_PROVING_KEY_FILE, REQUEST_VERIFYING_KEY_FILE, WITHDRAWAL_PROVING_KEY_FILE,
     WITHDRAWAL_VERIFYING_KEY_FILE, SETUP_MANIFEST_FILE, SOLIDITY_POSEIDON_FILE, SOLIDITY_VERIFIER_FILE}"

definition keeps_others :: "path \<Rightarrow> u8 list disk \<Rightarrow> u8 list disk \<Rightarrow> bool" where
  "keeps_others directory disk disk' \<longleftrightarrow>
     (\<forall>p. (\<forall>name \<in> setup_names. p \<noteq> directory @ [name]) \<longrightarrow> disk' p = disk p)"

lemma keeps_others_refl: "keeps_others directory disk disk"
  by (simp add: keeps_others_def)

lemma keeps_others_trans: "keeps_others directory a b \<Longrightarrow> keeps_others directory b c \<Longrightarrow> keeps_others directory a c"
  by (simp add: keeps_others_def)

lemma keeps_others_write:
  "name \<in> setup_names \<Longrightarrow> keeps_others directory disk (fst (fs_write io (directory @ [name]) bytes disk))"
  by (auto simp: keeps_others_def fs_write_def split: option.splits)

lemma keeps_others_key:
  "name \<in> setup_names \<Longrightarrow> keeps_others directory disk (fst (write_key io (directory @ [name]) serialize v disk))"
  by (cases "serialize v") (simp_all add: write_key_def keeps_others_refl keeps_others_write)

lemma keeps_others_then:
  assumes "keeps_others directory disk (fst m)" "\<And>x disk'. keeps_others directory disk' (fst (k x disk'))"
  shows "keeps_others directory disk (fst (st_then m k))"
  using assms keeps_others_trans by (cases m; cases "snd m") (auto simp: st_then_def)

lemma keeps_others_pair:
  assumes "keeps_others directory disk (fst m)" "\<And>x y disk'. keeps_others directory disk' (fst (k x y disk'))"
  shows "keeps_others directory disk (fst (st_then m (\<lambda>(x, y). k x y)))"
  using assms by (auto intro: keeps_others_then)

lemma run_setup_keeps_others: "keeps_others directory disk (fst (run_setup env io directory disk))"
  unfolding run_setup_def Let_def
  by (intro keeps_others_pair keeps_others_then keeps_others_key keeps_others_write | simp add: setup_names_def keeps_others_refl)+

lemma template_key:
  assumes "edwards_wire_ok E"
  shows "\<exists>k. point_from_wire E (signer_public_key E (from_seed E ONE)) = Inr k"
  using point_round_trip [OF assms in_subgroup_nsmul [OF assms edwards_wire_okD(6) [OF assms]]]
  by (auto simp: signer_public_key_def from_seed_def from_secret_def Let_def)

text \<open>The library generates and encodes every key, and no file operation fails.\<close>

definition setup_library_total :: "('e, 'g, 'h, 't, 'k) setup_env \<Rightarrow> bool" where
  "setup_library_total env \<longleftrightarrow>
     (\<forall>c. se_request_setup env c \<noteq> None) \<and> (\<forall>c. se_withdrawal_setup env c \<noteq> None) \<and>
     (\<forall>c pk vk. se_request_setup env c = Some (pk, vk) \<longrightarrow> se_pk_serialize env pk \<noteq> None \<and> se_vk_serialize env vk \<noteq> None) \<and>
     (\<forall>c pk vk. se_withdrawal_setup env c = Some (pk, vk) \<longrightarrow> se_pk_serialize env pk \<noteq> None \<and> se_vk_serialize env vk \<noteq> None) \<and>
     (\<forall>m. se_manifest_json env m \<noteq> None)"

definition no_setup_faults :: setup_faults where
  "no_setup_faults = \<lparr>sf_dir = False, sf_write = (\<lambda>_. None)\<rparr>"

lemma run_setup_succeeds:
  assumes "edwards_wire_ok (se_curve env)" "setup_library_total env"
  shows "snd (run_setup env no_setup_faults directory disk) = Inr ()"
proof -
  obtain k where "point_from_wire (se_curve env) (signer_public_key (se_curve env) (from_seed (se_curve env) ONE)) = Inr k"
    using template_key [OF assms(1)] by blast
  moreover obtain rpk rvk where r: "se_request_setup env (request_template (se_curve env) k) = Some (rpk, rvk)"
    using assms(2) by (metis option.exhaust prod.exhaust setup_library_total_def)
  moreover obtain wpk wvk where w: "se_withdrawal_setup env (withdrawal_template k) = Some (wpk, wvk)"
    using assms(2) by (metis option.exhaust prod.exhaust setup_library_total_def)
  moreover obtain rp rv where "se_pk_serialize env rpk = Some rp" "se_vk_serialize env rvk = Some rv"
    using assms(2) r unfolding setup_library_total_def by blast
  moreover obtain wp wv where "se_pk_serialize env wpk = Some wp" "se_vk_serialize env wvk = Some wv"
    using assms(2) w unfolding setup_library_total_def by blast
  moreover obtain json where "se_manifest_json env (setup_manifest env rvk wvk) = Some json"
    using assms(2) unfolding setup_library_total_def by blast
  ultimately show ?thesis
    by (simp add: run_setup_def write_key_def fs_write_def no_setup_faults_def)
qed


section \<open>A concrete library\<close>

definition toy_vk_serialize :: "(3, 3) VerifyingKey \<Rightarrow> u8 list option" where
  "toy_vk_serialize k = (if k = toy_key 13 then Some [0] else if k = toy_key 15 then Some [1] else None)"

definition toy_vk_deserialize :: "u8 list \<Rightarrow> ((3, 3) VerifyingKey \<times> u8 list) option" where
  "toy_vk_deserialize bs =
     (case bs of [] \<Rightarrow> None | b # rest \<Rightarrow> Some (if b = 0 then toy_key 13 else toy_key 15, rest))"

definition toy_setup :: "u8 \<Rightarrow> (jub_group, 3, 3, 3, u8) setup_env" where
  "toy_setup seed = \<lparr>se_curve = jub_curve, se_bn254 = toy_bn254, se_finder = zero_finder, se_poseidon = (\<lambda>_. 0),
     se_request_setup = (\<lambda>_. Some (seed, toy_key 13)), se_withdrawal_setup = (\<lambda>_. Some (seed, toy_key 15)),
     se_pk_serialize = (\<lambda>k. Some [k]), se_pk_deserialize = (\<lambda>bs. case bs of [] \<Rightarrow> None | b # rest \<Rightarrow> Some (b, rest)),
     se_vk_serialize = toy_vk_serialize, se_vk_deserialize = toy_vk_deserialize, se_manifest_json = (\<lambda>_. Some []),
     se_poseidon_text = (\<lambda>_. []), se_verifier_text = (\<lambda>_ _. [])\<rparr>"

lemma toy_key_neq: "toy_key 13 \<noteq> toy_key 15"
  by (simp add: toy_key_def)

lemma toy_setup_ok: "setup_codec_ok (toy_setup seed)" "setup_library_total (toy_setup seed)"
  using toy_key_neq
  by (auto simp: setup_codec_ok_def setup_library_total_def toy_setup_def toy_vk_serialize_def toy_vk_deserialize_def split: if_splits)


section \<open>Properties\<close>

text \<open>Claim C30. The setup command and the loaders fit together: whatever fails, only the seven files of the
  directory are touched; when the command succeeds, provers and verifiers load exactly the generated keys
  and the manifest and the contract sources belong to the same keys; and it succeeds when the library
  and the file system do.\<close>

theorem setup_round_trip:
  assumes "setup_codec_ok env" "run_setup env io directory disk = (disk', r)"
  shows "keeps_others directory disk disk' \<and>
    (r = Inr () \<longrightarrow> (\<exists>state_key request_pk request_vk withdrawal_pk withdrawal_vk.
       se_request_setup env (request_template (se_curve env) state_key) = Some (request_pk, request_vk) \<and>
       se_withdrawal_setup env (withdrawal_template state_key) = Some (withdrawal_pk, withdrawal_vk) \<and>
       setup_done env directory disk' request_pk request_vk withdrawal_pk withdrawal_vk)) \<and>
    (edwards_wire_ok (se_curve env) \<and> setup_library_total env \<and> io = no_setup_faults \<longrightarrow> r = Inr ())"
  using run_setup_keeps_others [of directory disk env io] run_setup_Inr [OF assms(1), of io directory disk disk']
    run_setup_succeeds [of env directory disk] assms(2)
  by auto

theorem setup_round_trip_witness:
  "\<exists>disk'. run_setup (toy_setup 7) no_setup_faults [''setup''] Map.empty = (disk', Inr ()) \<and>
     (\<exists>pk vk wpk wvk. setup_done (toy_setup 7) [''setup''] disk' pk vk wpk wvk) \<and> disk' [''note_state.json''] = None"
proof -
  obtain disk' r where run: "run_setup (toy_setup 7) no_setup_faults [''setup''] Map.empty = (disk', r)"
    by (cases "run_setup (toy_setup 7) no_setup_faults [''setup''] Map.empty")
  have "edwards_wire_ok (se_curve (toy_setup 7))" using jub_curve_wire_ok by (simp add: toy_setup_def)
  then show ?thesis
    using setup_round_trip [OF toy_setup_ok(1) run] toy_setup_ok(2) run
    by (auto simp: keeps_others_def setup_names_def)
qed

text \<open>Claim C37. Setup is not atomic: a run in a directory that already holds a complete setup and stops at
  the request verifying key reports the failure but leaves the new proving key beside the old verifying
  key; every file still loads, and nothing detects the mixture.\<close>

theorem interrupted_setup_mixes_keys:
  assumes "setup_codec_ok env" "setup_done env directory disk old_pk old_vk wpk wvk"
    and "point_from_wire (se_curve env) (signer_public_key (se_curve env) (from_seed (se_curve env) ONE)) = Inr k"
    and "se_request_setup env (request_template (se_curve env) k) = Some (new_pk, new_vk)"
    and "se_pk_serialize env new_pk = Some bytes" "se_vk_serialize env new_vk \<noteq> None"
    and "io = \<lparr>sf_dir = False, sf_write = (\<lambda>p. if p = directory @ [REQUEST_VERIFYING_KEY_FILE] then Some None else None)\<rparr>"
  shows "\<exists>disk'. run_setup env io directory disk = (disk', Inl WriteFailed) \<and>
    setup_done env directory disk' new_pk old_vk wpk wvk"
proof -
  let ?disk = "disk(directory @ [REQUEST_PROVING_KEY_FILE] \<mapsto> KEY_HEADER @ bytes)"
  obtain vk_bytes where "se_vk_serialize env new_vk = Some vk_bytes" using assms(6) by blast
  then have "run_setup env io directory disk = (?disk, Inl WriteFailed)"
    using assms(3-5) by (simp add: run_setup_def write_key_def fs_write_def assms(7) setup_files)
  moreover have "decode_compressed (se_pk_deserialize env) (KEY_HEADER @ bytes) = Inr new_pk"
    by (rule decode_written) (use assms(1,5) in \<open>simp add: setup_codec_ok_def\<close>)
  then have "setup_done env directory ?disk new_pk old_vk wpk wvk"
    using assms(2)
    by (simp add: setup_done_def request_prover_load_def withdrawal_prover_load_def request_verifier_load_def
        withdrawal_verifier_load_def read_compressed_def prover_from_bytes_def setup_files)
  ultimately show ?thesis by blast
qed

theorem interrupted_setup_mixes_keys_witness:
  "\<exists>disk disk' io. setup_done (toy_setup 9) [''setup''] disk 7 (toy_key 13) 7 (toy_key 15) \<and>
     run_setup (toy_setup 9) io [''setup''] disk = (disk', Inl WriteFailed) \<and>
     setup_done (toy_setup 9) [''setup''] disk' 9 (toy_key 13) 7 (toy_key 15)"
proof -
  obtain disk where run: "run_setup (toy_setup 7) no_setup_faults [''setup''] Map.empty = (disk, Inr ())"
    using run_setup_succeeds [OF _ toy_setup_ok(2), of 7 "[''setup'']" Map.empty] jub_curve_wire_ok
    by (cases "run_setup (toy_setup 7) no_setup_faults [''setup''] Map.empty") (simp add: toy_setup_def)
  have same: "setup_done (toy_setup 7) = setup_done (toy_setup 9)"
    by (intro ext) (simp add: setup_done_def request_prover_load_def withdrawal_prover_load_def request_verifier_load_def
        withdrawal_verifier_load_def prover_from_bytes_def [abs_def] setup_manifest_def toy_setup_def)
  have "setup_done (toy_setup 7) [''setup''] disk 7 (toy_key 13) 7 (toy_key 15)"
    using run_setup_Inr [OF toy_setup_ok(1) run] by (simp add: toy_setup_def)
  then have old: "setup_done (toy_setup 9) [''setup''] disk 7 (toy_key 13) 7 (toy_key 15)" by (simp only: same)
  obtain k where k: "point_from_wire (se_curve (toy_setup 9)) (signer_public_key (se_curve (toy_setup 9))
      (from_seed (se_curve (toy_setup 9)) ONE)) = Inr k"
    using template_key [OF jub_curve_wire_ok] by (auto simp: toy_setup_def)
  show ?thesis
    using interrupted_setup_mixes_keys [OF toy_setup_ok(1) old k _ _ _ refl, of 9 "toy_key 13" "[9]"] old
    by (auto simp: toy_setup_def toy_vk_serialize_def)
qed

end
