(* ===== verification/Fixtures.thy ===== *)
theory Fixtures
  imports Setup
begin

text \<open>
  The programs of \<open>zkapi-proof/examples\<close> that create a setup directory (\<open>setup.rs\<close>) and fixtures for the
  tests of the contracts (\<open>solidity_fixture.rs\<close>, \<open>vault_challenge_fixture.rs\<close>). Each loads keys from a setup
  directory, proves fixed statements, verifies its own proofs and prints them. A run is a function of the
  directory's files; \<open>example_env\<close> has the library's prover and verifier with the randomness of the n-th
  call, and the nonces of the signatures. The printed JSON is the record that is printed.
\<close>

section \<open>Environment\<close>

record ('e, 'g, 'h, 't, 'k) example_env =
  xe_setup :: "('e, 'g, 'h, 't, 'k) setup_env"
  xe_codec :: codec
  xe_prove_request :: "nat \<Rightarrow> 'k \<Rightarrow> 'e RequestPublic \<Rightarrow> 'e RequestWitness \<Rightarrow> Groth16Proof option"
  xe_prove_withdrawal :: "nat \<Rightarrow> 'k \<Rightarrow> 'e WithdrawalPublic \<Rightarrow> 'e WithdrawalWitness \<Rightarrow> Groth16Proof option"
  xe_verify :: "('g, 'h) VerifyingKey \<Rightarrow> nat list \<Rightarrow> Groth16Proof \<Rightarrow> bool option"
  xe_nonce :: "nat \<Rightarrow> nat"

abbreviation xe_curve :: "('e, 'g, 'h, 't, 'k) example_env \<Rightarrow> 'e edwards" where
  "xe_curve env \<equiv> se_curve (xe_setup env)"

abbreviation xe_poseidon :: "('e, 'g, 'h, 't, 'k) example_env \<Rightarrow> poseidon" where
  "xe_poseidon env \<equiv> se_poseidon (xe_setup env)"

text \<open>Errors a program ends with; \<open>AssertPanicked\<close> is a failed \<open>assert!\<close> or index, and the last four are of
  the benchmark and of the browser check.\<close>

datatype example_error =
    Usage | SetupFailure setup_error | ProofFailure compact_error | FieldFailure felt_error
  | EnsureFailed string | DecodeFailed | AssertPanicked | ParseFailed string | SynthesisFailed | MetadataFailed | ChildFailed

text \<open>\<open>setup.rs\<close>: \<open>dir_exists\<close> is \<open>Path::exists\<close>.\<close>

definition setup_main ::
    "('e::ab_group_add, 'g, 'h, 't, 'k) setup_env \<Rightarrow> setup_faults \<Rightarrow> (path \<Rightarrow> bool) \<Rightarrow> path option \<Rightarrow> u8 list disk \<Rightarrow>
     u8 list disk \<times> (example_error + unit)" where
  "setup_main env io dir_exists argument disk =
     st_then (disk, ok_or Usage argument) (\<lambda>directory disk.
     st_then (disk, bail_if (dir_exists directory) (EnsureFailed ''refusing to overwrite an existing setup directory''))
       (\<lambda>_ disk.
     case run_setup env io directory disk of (disk', r) \<Rightarrow> (disk', map_err SetupFailure r)))"

definition prefixed_hex :: "u8 list \<Rightarrow> string" where
  "prefixed_hex bytes = ''0x'' @ hex_encode bytes"

definition proof_hex :: "codec \<Rightarrow> Groth16ProofWire \<Rightarrow> example_error + string" where
  "proof_hex K proof =
     and_then (ok_or DecodeFailed (b64_decode K (gw_proof proof))) (\<lambda>bytes. Inr (prefixed_hex bytes))"


section \<open>Fixtures of the verifier contract\<close>

record 'p SolidityFixture =
  sx_public_inputs :: 'p
  sx_proof_hex :: string

record SolidityFixtures =
  sx_request :: "RequestPublicInputsV2 SolidityFixture"
  sx_withdrawal :: "WithdrawalPublicInputsV2 SolidityFixture"

text \<open>The note and keys of \<open>solidity_fixture.rs\<close>.\<close>

definition sf_leaf :: "poseidon \<Rightarrow> felt" where
  "sf_leaf P = note_leaf P 0 (registration_commitment P (from_u64 42)) 1000000 4000000000"

definition sf_siblings :: "poseidon \<Rightarrow> felt list" where
  "sf_siblings P = take MERKLE_DEPTH (zero_hashes P)"

definition sf_request_public ::
    "('e::ab_group_add, 'g, 'h, 't, 'k) example_env \<Rightarrow> CurvePointWire \<Rightarrow> RequestPublicInputsV2" where
  "sf_request_public env anonymous =
     (let E = xe_curve env; P = xe_poseidon env;
          state_key = signer_public_key E (from_seed E (from_u64 1));
          nul = nullifier P (from_u64 42) ONE in
      \<lparr>r2_protocol_version = 2, r2_chain_id = 31337, r2_contract_address = from_u64 0x1234,
       r2_active_root = merkle_root P 0 (sf_leaf P) (sf_siblings P),
       r2_state_signing_key_x = cp_x state_key, r2_state_signing_key_y = cp_y state_key,
       r2_request_time = 2000000000, r2_solvency_bound = 500000, r2_request_nullifier = nul,
       r2_authorization_tag = authorization_tag P nul (from_u64 99),
       r2_anonymous_commitment_x = cp_x anonymous, r2_anonymous_commitment_y = cp_y anonymous\<rparr>)"

definition sf_request_witness :: "poseidon \<Rightarrow> RequestWitnessData" where
  "sf_request_witness P =
     \<lparr>rd_secret = from_u64 42, rd_request_context = from_u64 99, rd_note_id = 0, rd_deposit_amount = 1000000,
      rd_expiry = 4000000000, rd_merkle_siblings = sf_siblings P, rd_current_balance = 1000000,
      rd_current_blinding = from_u64 7, rd_rerandomization = from_u64 9, rd_current_anchor = ONE,
      rd_is_genesis = True, rd_state_signature = None\<rparr>"

text \<open>The destination \<open>[0x11; 20]\<close>.\<close>

definition FIXTURE_DESTINATION :: address where
  "FIXTURE_DESTINATION = 0x1111111111111111111111111111111111111111"

definition sf_withdrawal_public ::
    "('e::ab_group_add, 'g, 'h, 't, 'k) example_env \<Rightarrow> felt \<Rightarrow> WithdrawalPublicInputsV2" where
  "sf_withdrawal_public env destination_felt =
     (let E = xe_curve env; P = xe_poseidon env;
          state_key = signer_public_key E (from_seed E (from_u64 1));
          clearance_key = signer_public_key E (from_seed E (from_u64 2));
          nul = nullifier P (from_u64 42) ONE in
      \<lparr>w2_protocol_version = 2, w2_chain_id = 31337, w2_contract_address = from_u64 0x1234,
       w2_active_root = merkle_root P 0 (sf_leaf P) (sf_siblings P),
       w2_state_signing_key_x = cp_x state_key, w2_state_signing_key_y = cp_y state_key,
       w2_clearance_signing_key_x = cp_x clearance_key, w2_clearance_signing_key_y = cp_y clearance_key,
       w2_note_id = 0, w2_final_balance = 1000000, w2_destination = FIXTURE_DESTINATION,
       w2_withdrawal_nullifier = nul, w2_has_clearance = False,
       w2_withdrawal_tag = withdrawal_tag P nul destination_felt 1000000 False\<rparr>)"

definition sf_withdrawal_witness :: "poseidon \<Rightarrow> WithdrawalWitnessData" where
  "sf_withdrawal_witness P =
     \<lparr>wd_secret = from_u64 42, wd_deposit_amount = 1000000, wd_expiry = 4000000000,
      wd_merkle_siblings = sf_siblings P, wd_final_blinding = from_u64 7, wd_current_anchor = ONE,
      wd_is_genesis = True, wd_state_signature = None, wd_clearance_signature = None\<rparr>"

text \<open>\<open>main\<close> of \<open>solidity_fixture.rs\<close>; \<open>fault n\<close> is a failure of the n-th file read.\<close>

definition solidity_fixture_main ::
    "('e::ab_group_add, 'g, 'h, 't, 'k) example_env \<Rightarrow> (nat \<Rightarrow> bool) \<Rightarrow> path option \<Rightarrow> u8 list disk \<Rightarrow>
     example_error + SolidityFixtures" where
  "solidity_fixture_main env fault argument disk =
     (let E = xe_curve env; P = xe_poseidon env; K = xe_codec env; se = xe_setup env in
      and_then (ok_or Usage argument) (\<lambda>directory.
      and_then (map_err ProofFailure (compact_rerandomize E
        (compact_balance_commitment E 1000000 (from_u64 7) (sf_leaf P)) (from_u64 9))) (\<lambda>anonymous.
        let request_public = sf_request_public env anonymous in
      and_then (map_err SetupFailure (request_prover_load se (fault 0) directory disk)) (\<lambda>request_pk.
      and_then (map_err ProofFailure (request_prove E P K (xe_prove_request env 0 request_pk)
        request_public (sf_request_witness P))) (\<lambda>request_proof.
      and_then (map_err SetupFailure (request_verifier_load se (fault 1) directory disk)) (\<lambda>request_vk.
      and_then (map_err ProofFailure (request_verify E K (xe_verify env request_vk) request_public request_proof))
        (\<lambda>ok.
      and_then (bail_if (\<not> ok) AssertPanicked) (\<lambda>_.
      and_then (map_err FieldFailure (try_from_bytes_be (replicate 12 0 @ addr_bytes FIXTURE_DESTINATION)))
        (\<lambda>destination_felt.
        let withdrawal_public = sf_withdrawal_public env destination_felt in
      and_then (map_err SetupFailure (withdrawal_prover_load se (fault 2) directory disk)) (\<lambda>withdrawal_pk.
      and_then (map_err ProofFailure (withdrawal_prove E P K (xe_prove_withdrawal env 0 withdrawal_pk)
        withdrawal_public (sf_withdrawal_witness P))) (\<lambda>withdrawal_proof.
      and_then (map_err SetupFailure (withdrawal_verifier_load se (fault 3) directory disk)) (\<lambda>withdrawal_vk.
      and_then (map_err ProofFailure (withdrawal_verify E K (xe_verify env withdrawal_vk) withdrawal_public
        withdrawal_proof)) (\<lambda>ok.
      and_then (bail_if (\<not> ok) AssertPanicked) (\<lambda>_.
      and_then (proof_hex K request_proof) (\<lambda>request_hex.
      and_then (proof_hex K withdrawal_proof) (\<lambda>withdrawal_hex.
      Inr \<lparr>sx_request = \<lparr>sx_public_inputs = request_public, sx_proof_hex = request_hex\<rparr>,
           sx_withdrawal = \<lparr>sx_public_inputs = withdrawal_public, sx_proof_hex = withdrawal_hex\<rparr>\<rparr>))))))))))))))))"


section \<open>Fixtures of the vault's challenge\<close>

definition TIMESTAMP :: u64 where "TIMESTAMP = 2000000000"
definition NOTE_TTL :: u64 where "NOTE_TTL = 30 * 86400"
definition DEPOSIT :: u128 where "DEPOSIT = 1000000"
definition VAULT :: string where "VAULT = ''0xFb1b848e938aE6474F890bfb28f6a793a515BAcb''"

definition div_ceil :: "u64 \<Rightarrow> u64 \<Rightarrow> u64" where
  "div_ceil a b = (if a mod b = 0 then a div b else a div b + 1)"

definition FIXTURE_EXPIRY :: u64 where
  "FIXTURE_EXPIRY = div_ceil (TIMESTAMP + NOTE_TTL) 86400 * 86400"

record VaultFixture =
  vx_inputs_abi :: string
  vx_proof_hex :: string

record VaultFixtures =
  vx_circuit_id :: string
  vx_note_a_registration :: string
  vx_note_b_registration :: string
  vx_request_before_deposit :: VaultFixture
  vx_request_before_close :: VaultFixture
  vx_escape_after_deposit :: VaultFixture
  vx_escape_after_close :: VaultFixture
  vx_close_b :: VaultFixture

record ('e, 'g, 'h, 'k) Generator =
  gn_requests :: 'k
  gn_request_verifier :: "('g, 'h) VerifyingKey"
  gn_withdrawals :: 'k
  gn_withdrawal_verifier :: "('g, 'h) VerifyingKey"
  gn_state_signer :: "'e CompactSigner"
  gn_clearance_signer :: "'e CompactSigner"
  gn_expiry :: u64
  gn_vault :: felt

record FixtureNote =
  fn_id :: u32
  fn_secret :: felt
  fn_balance :: u128
  fn_blinding :: felt
  fn_anchor :: felt
  fn_signature :: "SchnorrSignature option"

definition generator_leaf :: "poseidon \<Rightarrow> ('e, 'g, 'h, 'k) Generator \<Rightarrow> FixtureNote \<Rightarrow> felt" where
  "generator_leaf P gen note =
     note_leaf P (fn_id note) (registration_commitment P (fn_secret note)) DEPOSIT (gn_expiry gen)"

definition vault_fixture :: "codec \<Rightarrow> felt list \<Rightarrow> Groth16ProofWire \<Rightarrow> example_error + VaultFixture" where
  "vault_fixture K inputs proof =
     and_then (ok_or DecodeFailed (b64_decode K (gw_proof proof))) (\<lambda>bytes.
     Inr \<lparr>vx_inputs_abi = prefixed_hex (concat (map as_bytes inputs)), vx_proof_hex = prefixed_hex bytes\<rparr>)"

definition generator_request ::
    "('e::ab_group_add, 'g, 'h, 't, 'k) example_env \<Rightarrow> ('e, 'g, 'h, 'k) Generator \<Rightarrow> nat \<Rightarrow> FixtureNote \<Rightarrow> felt list \<Rightarrow>
     example_error + VaultFixture" where
  "generator_request env gen draw note siblings =
     (let E = xe_curve env; P = xe_poseidon env; K = xe_codec env;
          key = signer_public_key E (gn_state_signer gen); leaf = generator_leaf P gen note;
          context = from_u64 99; rerandomization = from_u64 9 in
      and_then (map_err ProofFailure (compact_rerandomize E
        (compact_balance_commitment E (fn_balance note) (fn_blinding note) leaf) rerandomization)) (\<lambda>anonymous.
        let nul = nullifier P (fn_secret note) (fn_anchor note);
            public =
              \<lparr>r2_protocol_version = 2, r2_chain_id = 31337, r2_contract_address = gn_vault gen,
               r2_active_root = merkle_root P (fn_id note) leaf siblings,
               r2_state_signing_key_x = cp_x key, r2_state_signing_key_y = cp_y key,
               r2_request_time = TIMESTAMP, r2_solvency_bound = 100000, r2_request_nullifier = nul,
               r2_authorization_tag = authorization_tag P nul context,
               r2_anonymous_commitment_x = cp_x anonymous, r2_anonymous_commitment_y = cp_y anonymous\<rparr> in
      and_then (map_err ProofFailure (request_prove E P K (xe_prove_request env draw (gn_requests gen)) public
        \<lparr>rd_secret = fn_secret note, rd_request_context = context, rd_note_id = fn_id note,
         rd_deposit_amount = DEPOSIT, rd_expiry = gn_expiry gen, rd_merkle_siblings = siblings,
         rd_current_balance = fn_balance note, rd_current_blinding = fn_blinding note,
         rd_rerandomization = rerandomization, rd_current_anchor = fn_anchor note,
         rd_is_genesis = (fn_signature note = None), rd_state_signature = fn_signature note\<rparr>)) (\<lambda>proof.
      and_then (map_err ProofFailure (request_verify E K (xe_verify env (gn_request_verifier gen)) public proof))
        (\<lambda>ok.
      and_then (bail_if (\<not> ok) (EnsureFailed ''request proof failed'')) (\<lambda>_.
      vault_fixture K (r2_to_field_elements public) proof)))))"

definition generator_withdrawal ::
    "('e::ab_group_add, 'g, 'h, 't, 'k) example_env \<Rightarrow> ('e, 'g, 'h, 'k) Generator \<Rightarrow> nat \<Rightarrow> FixtureNote \<Rightarrow> felt list \<Rightarrow>
     bool \<Rightarrow> example_error + VaultFixture" where
  "generator_withdrawal env gen draw note siblings clearance =
     (let E = xe_curve env; P = xe_poseidon env; K = xe_codec env;
          key = signer_public_key E (gn_state_signer gen);
          clear_key = signer_public_key E (gn_clearance_signer gen);
          nul = nullifier P (fn_secret note) (fn_anchor note);
          untagged =
            \<lparr>w2_protocol_version = 2, w2_chain_id = 31337, w2_contract_address = gn_vault gen,
             w2_active_root = merkle_root P (fn_id note) (generator_leaf P gen note) siblings,
             w2_state_signing_key_x = cp_x key, w2_state_signing_key_y = cp_y key,
             w2_clearance_signing_key_x = cp_x clear_key, w2_clearance_signing_key_y = cp_y clear_key,
             w2_note_id = fn_id note, w2_final_balance = fn_balance note, w2_destination = FIXTURE_DESTINATION,
             w2_withdrawal_nullifier = nul, w2_has_clearance = clearance, w2_withdrawal_tag = ZERO\<rparr>;
          public = untagged
            \<lparr>w2_withdrawal_tag := withdrawal_tag P nul (destination_field (w2_destination untagged))
               (fn_balance note) clearance\<rparr> in
      and_then (map_err ProofFailure (withdrawal_prove E P K (xe_prove_withdrawal env draw (gn_withdrawals gen)) public
        \<lparr>wd_secret = fn_secret note, wd_deposit_amount = DEPOSIT, wd_expiry = gn_expiry gen,
         wd_merkle_siblings = siblings, wd_final_blinding = fn_blinding note, wd_current_anchor = fn_anchor note,
         wd_is_genesis = (fn_signature note = None), wd_state_signature = fn_signature note,
         wd_clearance_signature =
           (if clearance
            then Some (compact_sign E P (gn_clearance_signer gen) (xe_nonce env draw)
              (clearance_message P 2 31337 (gn_vault gen) nul))
            else None)\<rparr>)) (\<lambda>proof.
      and_then (map_err ProofFailure (withdrawal_verify E K (xe_verify env (gn_withdrawal_verifier gen)) public proof))
        (\<lambda>ok.
      and_then (bail_if (\<not> ok) (EnsureFailed ''withdrawal proof failed'')) (\<lambda>_.
      vault_fixture K (w2_to_field_elements public) proof))))"

text \<open>Note A has a signed state, note B is an unused deposit.\<close>

definition fixture_note_a ::
    "('e::ab_group_add, 'g, 'h, 't, 'k) example_env \<Rightarrow> ('e, 'g, 'h, 'k) Generator \<Rightarrow> FixtureNote" where
  "fixture_note_a env gen =
     (let E = xe_curve env; P = xe_poseidon env;
          a = \<lparr>fn_id = 0, fn_secret = from_u64 42, fn_balance = 900000, fn_blinding = from_u64 7,
               fn_anchor = from_u64 12345, fn_signature = None\<rparr>;
          commitment = compact_balance_commitment E (fn_balance a) (fn_blinding a) (generator_leaf P gen a) in
      a\<lparr>fn_signature := Some (compact_sign E P (gn_state_signer gen) (xe_nonce env 99)
         (state_message P 2 31337 (gn_vault gen) (cp_x commitment) (cp_y commitment) (fn_anchor a)))\<rparr>)"

definition fixture_note_b :: FixtureNote where
  "fixture_note_b = \<lparr>fn_id = 1, fn_secret = from_u64 43, fn_balance = DEPOSIT, fn_blinding = from_u64 8,
     fn_anchor = ONE, fn_signature = None\<rparr>"

definition load_generator ::
    "('e::ab_group_add, 'g, 'h, 't, 'k) example_env \<Rightarrow> (nat \<Rightarrow> bool) \<Rightarrow> path \<Rightarrow> u8 list disk \<Rightarrow>
     example_error + ('e, 'g, 'h, 'k) Generator" where
  "load_generator env fault directory disk =
     (let se = xe_setup env; E = xe_curve env in
      and_then (map_err SetupFailure (request_prover_load se (fault 0) directory disk)) (\<lambda>requests.
      and_then (map_err SetupFailure (request_verifier_load se (fault 1) directory disk)) (\<lambda>request_verifier.
      and_then (map_err SetupFailure (withdrawal_prover_load se (fault 2) directory disk)) (\<lambda>withdrawals.
      and_then (map_err SetupFailure (withdrawal_verifier_load se (fault 3) directory disk)) (\<lambda>withdrawal_verifier.
      and_then (map_err FieldFailure (from_hex VAULT)) (\<lambda>vault.
      Inr \<lparr>gn_requests = requests, gn_request_verifier = request_verifier, gn_withdrawals = withdrawals,
           gn_withdrawal_verifier = withdrawal_verifier, gn_state_signer = from_seed E (from_u64 1),
           gn_clearance_signer = from_seed E (from_u64 2), gn_expiry = FIXTURE_EXPIRY, gn_vault = vault\<rparr>))))))"

definition vault_challenge_main ::
    "('e::ab_group_add, 'g, 'h, 't, 'k) example_env \<Rightarrow> (nat \<Rightarrow> bool) \<Rightarrow> path option \<Rightarrow> u8 list disk \<Rightarrow>
     example_error + VaultFixtures" where
  "vault_challenge_main env fault argument disk =
     and_then (ok_or Usage argument) (\<lambda>directory.
     and_then (load_generator env fault directory disk) (\<lambda>gen.
       let P = xe_poseidon env; a = fixture_note_a env gen; b = fixture_note_b;
           empty = take MERKLE_DEPTH (zero_hashes P);
           a_with_b = empty[0 := generator_leaf P gen b];
           b_with_a = empty[0 := generator_leaf P gen a] in
     and_then (generator_request env gen 0 a empty) (\<lambda>request_before_deposit.
     and_then (generator_request env gen 1 a a_with_b) (\<lambda>request_before_close.
     and_then (generator_withdrawal env gen 0 a a_with_b False) (\<lambda>escape_after_deposit.
     and_then (generator_withdrawal env gen 1 a empty False) (\<lambda>escape_after_close.
     and_then (generator_withdrawal env gen 2 b b_with_a True) (\<lambda>close_b.
     Inr \<lparr>vx_circuit_id = CIRCUIT_ID,
          vx_note_a_registration = prefixed_hex (as_bytes (registration_commitment P (fn_secret a))),
          vx_note_b_registration = prefixed_hex (as_bytes (registration_commitment P (fn_secret b))),
          vx_request_before_deposit = request_before_deposit, vx_request_before_close = request_before_close,
          vx_escape_after_deposit = escape_after_deposit, vx_escape_after_close = escape_after_close,
          vx_close_b = close_b\<rparr>)))))))"

end
