(* ===== verification/Bench.thy ===== *)
theory Bench
  imports Fixtures
begin

text \<open>
  The proof benchmark (\<open>zkapi-proof/examples/proof_bench.rs\<close>): it builds the statement of one of six cases,
  checks its circuit, loads keys, proves and verifies a number of times, and prints the distribution of the
  times it measured. Floating point numbers are a linearly ordered type (the order of \<open>f64::total_cmp\<close>)
  with the operations of \<open>f64_ops\<close>, of which nothing is assumed; clock readings, the sizes of the
  synthesised constraint systems and the file system are parameters. Memory is unbounded.
\<close>

section \<open>Cases and distributions\<close>

datatype BenchCase =
    RequestGenesis | RequestState
  | WithdrawalGenesisEscape | WithdrawalGenesisMutual | WithdrawalStateEscape | WithdrawalStateMutual

definition BenchCase_parse :: "string \<Rightarrow> example_error + BenchCase" where
  "BenchCase_parse s =
     (if s = ''request_genesis'' then Inr RequestGenesis
      else if s = ''request_state'' then Inr RequestState
      else if s = ''withdrawal_genesis_escape'' then Inr WithdrawalGenesisEscape
      else if s = ''withdrawal_genesis_mutual'' then Inr WithdrawalGenesisMutual
      else if s = ''withdrawal_state_escape'' then Inr WithdrawalStateEscape
      else if s = ''withdrawal_state_mutual'' then Inr WithdrawalStateMutual
      else Inl (ParseFailed ''unknown case''))"

fun is_request :: "BenchCase \<Rightarrow> bool" where
  "is_request RequestGenesis = True"
| "is_request RequestState = True"
| "is_request _ = False"

text \<open>The operations on floating point numbers that the program uses. \<open>fo_sum_start\<close> is the value
  \<open>Iterator::sum\<close> starts from and \<open>fo_as_usize\<close> the saturating cast.\<close>

record 'x f64_ops =
  fo_add :: "'x \<Rightarrow> 'x \<Rightarrow> 'x"
  fo_mul :: "'x \<Rightarrow> 'x \<Rightarrow> 'x"
  fo_div :: "'x \<Rightarrow> 'x \<Rightarrow> 'x"
  fo_ceil :: "'x \<Rightarrow> 'x"
  fo_of_usize :: "nat \<Rightarrow> 'x"
  fo_as_usize :: "'x \<Rightarrow> nat"
  fo_two :: 'x
  fo_thousand :: 'x
  fo_95_percent :: 'x
  fo_sum_start :: 'x

record 'x Distribution =
  samples_ms :: "'x list"
  min_ms :: 'x
  median_ms :: 'x
  mean_ms :: 'x
  p95_ms :: 'x
  max_ms :: 'x

definition p95_index :: "'x f64_ops \<Rightarrow> nat \<Rightarrow> nat" where
  "p95_index F len =
     min (fo_as_usize F (fo_ceil F (fo_mul F (fo_of_usize F len) (fo_95_percent F))) - 1) (len - 1)"

text \<open>No sample is a panic: the length of the list less one underflows, or is out of range.\<close>

definition Distribution_new :: "'x::linorder f64_ops \<Rightarrow> 'x list \<Rightarrow> 'x Distribution option" where
  "Distribution_new F samples =
     (let sorted = sort samples; len = length sorted in
      if len = 0 then None
      else Some
        \<lparr>samples_ms = samples, min_ms = sorted ! 0,
         median_ms = (if len mod 2 = 0 then fo_div F (fo_add F (sorted ! (len div 2 - 1)) (sorted ! (len div 2))) (fo_two F)
           else sorted ! (len div 2)),
         mean_ms = fo_div F (foldl (fo_add F) (fo_sum_start F) sorted) (fo_of_usize F len),
         p95_ms = sorted ! p95_index F len, max_ms = sorted ! (len - 1)\<rparr>)"

record 'x BenchResult =
  br_case :: BenchCase
  br_iterations :: nat
  br_load_iterations :: nat
  br_warmup_iterations :: nat
  br_rayon_threads :: string
  br_proving_key_bytes :: nat
  br_verifying_key_bytes :: nat
  br_constraints :: nat
  br_instance_variables :: nat
  br_witness_variables :: nat
  br_proof_bytes :: nat
  br_prover_load :: "'x Distribution"
  br_verifier_load :: "'x Distribution"
  br_prove :: "'x Distribution"
  br_verify :: "'x Distribution"


section \<open>Environment\<close>

datatype bench_phase = LoadProver | LoadVerifier | Proving | Verifying

text \<open>\<open>bm_elapsed\<close> is the time in seconds of the n-th measured run of a phase, \<open>bm_load_fault\<close> a failed read in
  the n-th load, \<open>bm_metadata_fault\<close> a failure of \<open>fs::metadata\<close> on a file, and the counts are those of the
  synthesised constraint system, if synthesis succeeds.\<close>

record ('e, 'g, 'h, 't, 'k, 'x) bench_env =
  bm_examples :: "('e, 'g, 'h, 't, 'k) example_env"
  bm_floats :: "'x f64_ops"
  bm_path :: "string \<Rightarrow> path"
  bm_elapsed :: "bench_phase \<Rightarrow> nat \<Rightarrow> 'x"
  bm_load_fault :: "bench_phase \<Rightarrow> nat \<Rightarrow> bool"
  bm_metadata_fault :: "string \<Rightarrow> bool"
  bm_request_counts :: "'e RequestPublic \<Rightarrow> 'e RequestWitness \<Rightarrow> (nat \<times> nat \<times> nat) option"
  bm_withdrawal_counts :: "'e WithdrawalPublic \<Rightarrow> 'e WithdrawalWitness \<Rightarrow> (nat \<times> nat \<times> nat) option"
  bm_rayon_threads :: "string option"

definition elapsed_ms :: "('e, 'g, 'h, 't, 'k, 'x) bench_env \<Rightarrow> bench_phase \<Rightarrow> nat \<Rightarrow> 'x" where
  "elapsed_ms env phase n = fo_mul (bm_floats env) (bm_elapsed env phase n) (fo_thousand (bm_floats env))"

definition decoded_proof_len :: "codec \<Rightarrow> string \<Rightarrow> example_error + nat" where
  "decoded_proof_len K encoded = and_then (ok_or DecodeFailed (b64_decode K encoded)) (\<lambda>bytes. Inr (length bytes))"

text \<open>\<open>str::parse::<usize>\<close> on a 64-bit machine: an optional plus sign, then digits, each step checked.\<close>

definition usize_step :: "nat option \<Rightarrow> char \<Rightarrow> nat option" where
  "usize_step acc c =
     (case acc of None \<Rightarrow> None
      | Some v \<Rightarrow> if of_char c < (48 :: nat) \<or> (57 :: nat) < of_char c \<or> 2 ^ 64 \<le> v * 10 + (of_char c - 48) then None
          else Some (v * 10 + (of_char c - 48)))"

definition usize_parse :: "string \<Rightarrow> nat option" where
  "usize_parse s =
     (let digits = (case s of [] \<Rightarrow> [] | c # rest \<Rightarrow> if c = CHR ''+'' then rest else s) in
      if digits = [] then None else foldl usize_step (Some 0) digits)"

definition parse_positive :: "string \<Rightarrow> string \<Rightarrow> example_error + nat" where
  "parse_positive name s =
     and_then (ok_or (ParseFailed (''invalid '' @ name)) (usize_parse s)) (\<lambda>parsed.
     and_then (bail_if (parsed = 0) (ParseFailed (name @ '' must be positive''))) (\<lambda>_. Inr parsed))"

section \<open>Statements of the benchmark\<close>

record 'e CommonFixture =
  cf_protocol_version :: u16
  cf_chain_id :: u64
  cf_contract_address :: felt
  cf_secret :: felt
  cf_note_id :: u32
  cf_deposit_amount :: u128
  cf_expiry :: u64
  cf_siblings :: "felt list"
  cf_root :: felt
  cf_balance :: u128
  cf_blinding :: felt
  cf_commitment :: CurvePointWire
  cf_anchor :: felt
  cf_nullifier :: felt
  cf_state_key :: CurvePointWire
  cf_clearance_key :: CurvePointWire
  cf_state_signature :: "SchnorrSignature option"
  cf_clearance_signer :: "'e CompactSigner"

text \<open>The state signature draws nonce 0 and the clearance signature nonce 1.\<close>

definition CommonFixture_new :: "('e::ab_group_add, 'g, 'h, 't, 'k) example_env \<Rightarrow> bool \<Rightarrow> 'e CommonFixture" where
  "CommonFixture_new env genesis =
     (let E = xe_curve env; P = xe_poseidon env;
          protocol_version = 2; chain_id = 31337; contract_address = from_u64 0x1234; secret = from_u64 42;
          note_id = 0; deposit_amount = 1000000; expiry = 4000000000;
          siblings = take MERKLE_DEPTH (zero_hashes P);
          registration = registration_commitment P secret;
          leaf = note_leaf P note_id registration deposit_amount expiry;
          root = merkle_root P note_id leaf siblings;
          balance = (if genesis then deposit_amount else 900000);
          blinding = from_u64 7;
          commitment = compact_balance_commitment E balance blinding leaf;
          anchor = (if genesis then ONE else from_u64 12345);
          nul = nullifier P secret anchor;
          state_signer = from_seed E (from_u64 1);
          clearance_signer = from_seed E (from_u64 2);
          state_signature =
            (if genesis then None
             else Some (compact_sign E P state_signer (xe_nonce env 0)
               (state_message P protocol_version chain_id contract_address (cp_x commitment) (cp_y commitment) anchor))) in
      \<lparr>cf_protocol_version = protocol_version, cf_chain_id = chain_id, cf_contract_address = contract_address,
       cf_secret = secret, cf_note_id = note_id, cf_deposit_amount = deposit_amount, cf_expiry = expiry,
       cf_siblings = siblings, cf_root = root, cf_balance = balance, cf_blinding = blinding,
       cf_commitment = commitment, cf_anchor = anchor, cf_nullifier = nul,
       cf_state_key = signer_public_key E state_signer, cf_clearance_key = signer_public_key E clearance_signer,
       cf_state_signature = state_signature, cf_clearance_signer = clearance_signer\<rparr>)"

record 'e RequestFixture =
  rf_public :: RequestPublicInputsV2
  rf_witness :: RequestWitnessData
  rf_circuit :: "'e RequestPublic \<times> 'e RequestWitness"

record 'e WithdrawalFixture =
  wf_public :: WithdrawalPublicInputsV2
  wf_witness :: WithdrawalWitnessData
  wf_circuit :: "'e WithdrawalPublic \<times> 'e WithdrawalWitness"

text \<open>The program converts a statement by its own functions, without the checks of \<open>compact.rs\<close>: a point
  off the curve is a panic in a debug build. \<open>field\<close> and \<open>scalar\<close> are \<open>felt_to_field\<close> and \<open>scalar\<close>.\<close>

definition bench_point :: "'e edwards \<Rightarrow> felt \<Rightarrow> felt \<Rightarrow> example_error + 'e" where
  "bench_point E x y =
     and_then (bail_if (\<not> ed_on_curve E (felt_to_field x) (felt_to_field y)) AssertPanicked)
       (\<lambda>_. Inr (ed_new_unchecked E (felt_to_field x) (felt_to_field y)))"

definition bench_signature :: "'e edwards \<Rightarrow> SchnorrSignature option \<Rightarrow> example_error + 'e StateSignature" where
  "bench_signature E signature =
     (let v = unwrap_or SchnorrSignature_IDENTITY signature in
      and_then (bench_point E (r_x v) (r_y v)) (\<lambda>r. Inr \<lparr>ss_r = r, ss_s = scalar (sig_s v)\<rparr>))"

definition request_circuit ::
    "'e edwards \<Rightarrow> RequestPublicInputsV2 \<Rightarrow> RequestWitnessData \<Rightarrow> example_error + 'e RequestPublic \<times> 'e RequestWitness" where
  "request_circuit E public wit =
     and_then (bench_point E (r2_state_signing_key_x public) (r2_state_signing_key_y public)) (\<lambda>state_signing_key.
     and_then (bench_point E (r2_anonymous_commitment_x public) (r2_anonymous_commitment_y public))
       (\<lambda>anonymous_commitment.
     and_then (bench_signature E (rd_state_signature wit)) (\<lambda>state_signature.
     Inr (\<lparr>rp_protocol_version = r2_protocol_version public, rp_chain_id = r2_chain_id public,
           rp_contract_address = felt_to_field (r2_contract_address public),
           rp_active_root = felt_to_field (r2_active_root public), rp_state_signing_key = state_signing_key,
           rp_request_time = r2_request_time public, rp_solvency_bound = r2_solvency_bound public,
           rp_request_nullifier = felt_to_field (r2_request_nullifier public),
           rp_authorization_tag = felt_to_field (r2_authorization_tag public),
           rp_anonymous_commitment = anonymous_commitment\<rparr>,
          \<lparr>rw_secret = felt_to_field (rd_secret wit), rw_request_context = felt_to_field (rd_request_context wit),
           rw_note_id = rd_note_id wit, rw_deposit_amount = rd_deposit_amount wit, rw_expiry = rd_expiry wit,
           rw_merkle_siblings = map felt_to_field (rd_merkle_siblings wit),
           rw_current_balance = rd_current_balance wit, rw_current_blinding = scalar (rd_current_blinding wit),
           rw_rerandomization = scalar (rd_rerandomization wit),
           rw_current_anchor = felt_to_field (rd_current_anchor wit), rw_is_genesis = rd_is_genesis wit,
           rw_state_signature = state_signature\<rparr>))))"

definition withdrawal_circuit ::
    "'e edwards \<Rightarrow> felt \<Rightarrow> WithdrawalPublicInputsV2 \<Rightarrow> WithdrawalWitnessData \<Rightarrow>
     example_error + 'e WithdrawalPublic \<times> 'e WithdrawalWitness" where
  "withdrawal_circuit E destination_felt public wit =
     and_then (bench_point E (w2_state_signing_key_x public) (w2_state_signing_key_y public)) (\<lambda>state_signing_key.
     and_then (bench_point E (w2_clearance_signing_key_x public) (w2_clearance_signing_key_y public))
       (\<lambda>clearance_signing_key.
     and_then (bench_signature E (wd_state_signature wit)) (\<lambda>state_signature.
     and_then (bench_signature E (wd_clearance_signature wit)) (\<lambda>clearance_signature.
     Inr (\<lparr>wp_protocol_version = w2_protocol_version public, wp_chain_id = w2_chain_id public,
           wp_contract_address = felt_to_field (w2_contract_address public),
           wp_active_root = felt_to_field (w2_active_root public), wp_state_signing_key = state_signing_key,
           wp_clearance_signing_key = clearance_signing_key, wp_note_id = w2_note_id public,
           wp_final_balance = w2_final_balance public, wp_destination = felt_to_field destination_felt,
           wp_withdrawal_nullifier = felt_to_field (w2_withdrawal_nullifier public),
           wp_has_clearance = w2_has_clearance public,
           wp_withdrawal_tag = felt_to_field (w2_withdrawal_tag public)\<rparr>,
          \<lparr>ww_secret = felt_to_field (wd_secret wit), ww_deposit_amount = wd_deposit_amount wit,
           ww_expiry = wd_expiry wit, ww_merkle_siblings = map felt_to_field (wd_merkle_siblings wit),
           ww_final_blinding = scalar (wd_final_blinding wit),
           ww_current_anchor = felt_to_field (wd_current_anchor wit), ww_is_genesis = wd_is_genesis wit,
           ww_state_signature = state_signature, ww_clearance_signature = clearance_signature\<rparr>)))))"

definition request_fixture ::
    "('e::ab_group_add, 'g, 'h, 't, 'k) example_env \<Rightarrow> bool \<Rightarrow> example_error + 'e RequestFixture" where
  "request_fixture env genesis =
     (let E = xe_curve env; P = xe_poseidon env; common = CommonFixture_new env genesis;
          request_context = from_u64 99; rerandomization = from_u64 9 in
      and_then (map_err ProofFailure (compact_rerandomize E (cf_commitment common) rerandomization)) (\<lambda>anonymous.
        let public =
              \<lparr>r2_protocol_version = cf_protocol_version common, r2_chain_id = cf_chain_id common,
               r2_contract_address = cf_contract_address common, r2_active_root = cf_root common,
               r2_state_signing_key_x = cp_x (cf_state_key common), r2_state_signing_key_y = cp_y (cf_state_key common),
               r2_request_time = 2000000000, r2_solvency_bound = 500000, r2_request_nullifier = cf_nullifier common,
               r2_authorization_tag = authorization_tag P (cf_nullifier common) request_context,
               r2_anonymous_commitment_x = cp_x anonymous, r2_anonymous_commitment_y = cp_y anonymous\<rparr>;
            wit =
              \<lparr>rd_secret = cf_secret common, rd_request_context = request_context, rd_note_id = cf_note_id common,
               rd_deposit_amount = cf_deposit_amount common, rd_expiry = cf_expiry common,
               rd_merkle_siblings = cf_siblings common, rd_current_balance = cf_balance common,
               rd_current_blinding = cf_blinding common, rd_rerandomization = rerandomization,
               rd_current_anchor = cf_anchor common, rd_is_genesis = genesis,
               rd_state_signature = cf_state_signature common\<rparr> in
      and_then (request_circuit E public wit) (\<lambda>circuit.
      Inr \<lparr>rf_public = public, rf_witness = wit, rf_circuit = circuit\<rparr>)))"

definition withdrawal_fixture ::
    "('e::ab_group_add, 'g, 'h, 't, 'k) example_env \<Rightarrow> bool \<Rightarrow> bool \<Rightarrow> example_error + 'e WithdrawalFixture" where
  "withdrawal_fixture env genesis mutual =
     (let E = xe_curve env; P = xe_poseidon env; common = CommonFixture_new env genesis in
      and_then (map_err FieldFailure (try_from_bytes_be (replicate 12 0 @ addr_bytes FIXTURE_DESTINATION)))
        (\<lambda>destination_felt.
        let clearance_signature =
              (if mutual
               then Some (compact_sign E P (cf_clearance_signer common) (xe_nonce env 1)
                 (clearance_message P (cf_protocol_version common) (cf_chain_id common) (cf_contract_address common)
                    (cf_nullifier common)))
               else None);
            public =
              \<lparr>w2_protocol_version = cf_protocol_version common, w2_chain_id = cf_chain_id common,
               w2_contract_address = cf_contract_address common, w2_active_root = cf_root common,
               w2_state_signing_key_x = cp_x (cf_state_key common), w2_state_signing_key_y = cp_y (cf_state_key common),
               w2_clearance_signing_key_x = cp_x (cf_clearance_key common),
               w2_clearance_signing_key_y = cp_y (cf_clearance_key common), w2_note_id = cf_note_id common,
               w2_final_balance = cf_balance common, w2_destination = FIXTURE_DESTINATION,
               w2_withdrawal_nullifier = cf_nullifier common, w2_has_clearance = mutual,
               w2_withdrawal_tag = withdrawal_tag P (cf_nullifier common) destination_felt (cf_balance common) mutual\<rparr>;
            wit =
              \<lparr>wd_secret = cf_secret common, wd_deposit_amount = cf_deposit_amount common, wd_expiry = cf_expiry common,
               wd_merkle_siblings = cf_siblings common, wd_final_blinding = cf_blinding common,
               wd_current_anchor = cf_anchor common, wd_is_genesis = genesis,
               wd_state_signature = cf_state_signature common, wd_clearance_signature = clearance_signature\<rparr> in
      and_then (withdrawal_circuit E destination_felt public wit) (\<lambda>circuit.
      Inr \<lparr>wf_public = public, wf_witness = wit, wf_circuit = circuit\<rparr>)))"

definition constraint_counts :: "(nat \<times> nat \<times> nat) option \<Rightarrow> bool \<Rightarrow> example_error + nat \<times> nat \<times> nat" where
  "constraint_counts synthesised satisfied =
     and_then (ok_or SynthesisFailed synthesised) (\<lambda>counts.
     and_then (bail_if (\<not> satisfied) (EnsureFailed ''benchmark circuit is not satisfied'')) (\<lambda>_. Inr counts))"


section \<open>Measured runs\<close>

text \<open>The loops of the program, from run \<open>i\<close> with \<open>k\<close> runs to go.\<close>

fun timed_load_loop ::
    "(nat \<Rightarrow> example_error + 'a) \<Rightarrow> (nat \<Rightarrow> 'x) \<Rightarrow> nat \<Rightarrow> nat \<Rightarrow> 'a option \<Rightarrow> 'x list \<Rightarrow> example_error + 'a option \<times> 'x list" where
  "timed_load_loop load elapsed i 0 loaded samples = Inr (loaded, samples)"
| "timed_load_loop load elapsed i (Suc k) loaded samples =
     and_then (load i) (\<lambda>x. timed_load_loop load elapsed (Suc i) k (Some x) (samples @ [elapsed i]))"

definition timed_load ::
    "nat \<Rightarrow> (nat \<Rightarrow> example_error + 'a) \<Rightarrow> (nat \<Rightarrow> 'x) \<Rightarrow> example_error + 'a \<times> 'x list" where
  "timed_load iterations load elapsed =
     and_then (timed_load_loop load elapsed 0 iterations None []) (\<lambda>(loaded, samples).
     and_then (ok_or (EnsureFailed ''load loop produced no value'') loaded) (\<lambda>x. Inr (x, samples)))"

fun warmup_loop ::
    "(nat \<Rightarrow> example_error + 'p) \<Rightarrow> ('p \<Rightarrow> example_error + bool) \<Rightarrow> string \<Rightarrow> nat \<Rightarrow> nat \<Rightarrow> example_error + unit" where
  "warmup_loop prove verify message i 0 = Inr ()"
| "warmup_loop prove verify message i (Suc k) =
     and_then (prove i) (\<lambda>proof.
     and_then (verify proof) (\<lambda>ok.
     and_then (bail_if (\<not> ok) (EnsureFailed message)) (\<lambda>_.
     warmup_loop prove verify message (Suc i) k)))"

fun prove_loop ::
    "(nat \<Rightarrow> example_error + 'p) \<Rightarrow> (nat \<Rightarrow> 'x) \<Rightarrow> nat \<Rightarrow> nat \<Rightarrow> 'p list \<Rightarrow> 'x list \<Rightarrow> example_error + 'p list \<times> 'x list" where
  "prove_loop prove elapsed i 0 proofs prove_ms = Inr (proofs, prove_ms)"
| "prove_loop prove elapsed i (Suc k) proofs prove_ms =
     and_then (prove i) (\<lambda>proof. prove_loop prove elapsed (Suc i) k (proofs @ [proof]) (prove_ms @ [elapsed i]))"

fun verify_loop ::
    "('p \<Rightarrow> example_error + bool) \<Rightarrow> (nat \<Rightarrow> 'x) \<Rightarrow> string \<Rightarrow> nat \<Rightarrow> 'p list \<Rightarrow> 'x list \<Rightarrow> example_error + 'x list" where
  "verify_loop verify elapsed message i [] verify_ms = Inr verify_ms"
| "verify_loop verify elapsed message i (proof # proofs) verify_ms =
     and_then (verify proof) (\<lambda>ok.
     and_then (bail_if (\<not> ok) (EnsureFailed message)) (\<lambda>_.
     verify_loop verify elapsed message (Suc i) proofs (verify_ms @ [elapsed i])))"

definition file_len ::
    "('e, 'g, 'h, 't, 'k, 'x) bench_env \<Rightarrow> path \<Rightarrow> string \<Rightarrow> u8 list disk \<Rightarrow> example_error + nat" where
  "file_len env directory name disk =
     and_then (bail_if (bm_metadata_fault env name) MetadataFailed) (\<lambda>_.
     and_then (ok_or MetadataFailed (disk (directory @ [name]))) (\<lambda>bytes. Inr (length bytes)))"

text \<open>The part of both benchmarks after the fixture: the circuit's size, timed loads, warm-up, timed proofs and
  verifications, and the printed record. Proofs of the warm-up draw the first randomness.\<close>

record ('k, 'v) bench_target =
  bt_counts :: "example_error + nat \<times> nat \<times> nat"
  bt_load_prover :: "nat \<Rightarrow> example_error + 'k"
  bt_load_verifier :: "nat \<Rightarrow> example_error + 'v"
  bt_prove :: "'k \<Rightarrow> nat \<Rightarrow> example_error + Groth16ProofWire"
  bt_verify :: "'v \<Rightarrow> Groth16ProofWire \<Rightarrow> example_error + bool"
  bt_warmup_message :: string
  bt_message :: string
  bt_proving_key :: string
  bt_verifying_key :: string

definition bench_run ::
    "('e, 'g, 'h, 't, 'k, 'x::linorder) bench_env \<Rightarrow> ('k, 'v) bench_target \<Rightarrow> path \<Rightarrow> u8 list disk \<Rightarrow> BenchCase \<Rightarrow>
     nat \<Rightarrow> nat \<Rightarrow> nat \<Rightarrow> example_error + 'x BenchResult" where
  "bench_run env target directory disk case_name iterations warmup_iterations load_iterations =
     and_then (bt_counts target) (\<lambda>(constraints, instance_variables, witness_variables).
     and_then (timed_load load_iterations (bt_load_prover target) (elapsed_ms env LoadProver)) (\<lambda>(prover, prover_load).
     and_then (timed_load load_iterations (bt_load_verifier target) (elapsed_ms env LoadVerifier))
       (\<lambda>(verifier, verifier_load).
     and_then (warmup_loop (bt_prove target prover) (bt_verify target verifier) (bt_warmup_message target) 0
       warmup_iterations) (\<lambda>_.
     and_then (prove_loop (\<lambda>i. bt_prove target prover (warmup_iterations + i)) (elapsed_ms env Proving) 0 iterations [] [])
       (\<lambda>(proofs, prove_ms).
     and_then (ok_or AssertPanicked (case proofs of [] \<Rightarrow> None | p # _ \<Rightarrow> Some (gw_proof p))) (\<lambda>first.
     and_then (decoded_proof_len (xe_codec (bm_examples env)) first) (\<lambda>proof_bytes.
     and_then (verify_loop (bt_verify target verifier) (elapsed_ms env Verifying) (bt_message target) 0 proofs [])
       (\<lambda>verify_ms.
     and_then (file_len env directory (bt_proving_key target) disk) (\<lambda>proving_key_bytes.
     and_then (file_len env directory (bt_verifying_key target) disk) (\<lambda>verifying_key_bytes.
     and_then (ok_or AssertPanicked (Distribution_new (bm_floats env) prover_load)) (\<lambda>prover_load.
     and_then (ok_or AssertPanicked (Distribution_new (bm_floats env) verifier_load)) (\<lambda>verifier_load.
     and_then (ok_or AssertPanicked (Distribution_new (bm_floats env) prove_ms)) (\<lambda>prove.
     and_then (ok_or AssertPanicked (Distribution_new (bm_floats env) verify_ms)) (\<lambda>verify.
     Inr \<lparr>br_case = case_name, br_iterations = iterations, br_load_iterations = load_iterations,
          br_warmup_iterations = warmup_iterations,
          br_rayon_threads = unwrap_or ''default'' (bm_rayon_threads env),
          br_proving_key_bytes = proving_key_bytes, br_verifying_key_bytes = verifying_key_bytes,
          br_constraints = constraints, br_instance_variables = instance_variables,
          br_witness_variables = witness_variables, br_proof_bytes = proof_bytes,
          br_prover_load = prover_load, br_verifier_load = verifier_load, br_prove = prove,
          br_verify = verify\<rparr>))))))))))))))"

definition bench_request ::
    "('e::ab_group_add, 'g, 'h, 't, 'k, 'x::linorder) bench_env \<Rightarrow> u8 list disk \<Rightarrow> path \<Rightarrow> BenchCase \<Rightarrow> nat \<Rightarrow> nat \<Rightarrow> nat \<Rightarrow>
     example_error + 'x BenchResult" where
  "bench_request env disk directory case_name iterations warmup_iterations load_iterations =
     (let xe = bm_examples env; E = xe_curve xe; P = xe_poseidon xe; K = xe_codec xe; se = xe_setup xe in
      and_then (request_fixture xe (case_name = RequestGenesis)) (\<lambda>fixture.
        case rf_circuit fixture of (public, wit) \<Rightarrow>
      bench_run env
        \<lparr>bt_counts = constraint_counts (bm_request_counts env public wit)
           (request_constraints E P public (request_assignment public wit)),
         bt_load_prover = (\<lambda>i. map_err SetupFailure
           (request_prover_load se (bm_load_fault env LoadProver i) directory disk)),
         bt_load_verifier = (\<lambda>i. map_err SetupFailure
           (request_verifier_load se (bm_load_fault env LoadVerifier i) directory disk)),
         bt_prove = (\<lambda>pk i. map_err ProofFailure
           (request_prove E P K (xe_prove_request xe i pk) (rf_public fixture) (rf_witness fixture))),
         bt_verify = (\<lambda>vk proof. map_err ProofFailure (request_verify E K (xe_verify xe vk) (rf_public fixture) proof)),
         bt_warmup_message = ''request warmup proof did not verify'', bt_message = ''request proof did not verify'',
         bt_proving_key = ''request.pk'', bt_verifying_key = ''request.vk''\<rparr>
        directory disk case_name iterations warmup_iterations load_iterations))"

definition bench_withdrawal ::
    "('e::ab_group_add, 'g, 'h, 't, 'k, 'x::linorder) bench_env \<Rightarrow> u8 list disk \<Rightarrow> path \<Rightarrow> BenchCase \<Rightarrow> nat \<Rightarrow> nat \<Rightarrow> nat \<Rightarrow>
     example_error + 'x BenchResult" where
  "bench_withdrawal env disk directory case_name iterations warmup_iterations load_iterations =
     (let xe = bm_examples env; E = xe_curve xe; P = xe_poseidon xe; K = xe_codec xe; se = xe_setup xe;
          genesis = (case_name \<in> {WithdrawalGenesisEscape, WithdrawalGenesisMutual});
          mutual = (case_name \<in> {WithdrawalGenesisMutual, WithdrawalStateMutual}) in
      and_then (withdrawal_fixture xe genesis mutual) (\<lambda>fixture.
        case wf_circuit fixture of (public, wit) \<Rightarrow>
      bench_run env
        \<lparr>bt_counts = constraint_counts (bm_withdrawal_counts env public wit)
           (withdrawal_constraints E P public (withdrawal_assignment public wit)),
         bt_load_prover = (\<lambda>i. map_err SetupFailure
           (withdrawal_prover_load se (bm_load_fault env LoadProver i) directory disk)),
         bt_load_verifier = (\<lambda>i. map_err SetupFailure
           (withdrawal_verifier_load se (bm_load_fault env LoadVerifier i) directory disk)),
         bt_prove = (\<lambda>pk i. map_err ProofFailure
           (withdrawal_prove E P K (xe_prove_withdrawal xe i pk) (wf_public fixture) (wf_witness fixture))),
         bt_verify = (\<lambda>vk proof. map_err ProofFailure (withdrawal_verify E K (xe_verify xe vk) (wf_public fixture) proof)),
         bt_warmup_message = ''withdrawal warmup proof did not verify'',
         bt_message = ''withdrawal proof did not verify'',
         bt_proving_key = ''withdrawal.pk'', bt_verifying_key = ''withdrawal.vk''\<rparr>
        directory disk case_name iterations warmup_iterations load_iterations))"

text \<open>\<open>main\<close>: \<open>arguments\<close> is \<open>env::args()\<close>, with the name of the program first.\<close>

definition bench_main ::
    "('e::ab_group_add, 'g, 'h, 't, 'k, 'x::linorder) bench_env \<Rightarrow> string list \<Rightarrow> u8 list disk \<Rightarrow>
     example_error + 'x BenchResult" where
  "bench_main env arguments disk =
     and_then (bail_if (length arguments \<notin> {5, 6}) Usage) (\<lambda>_.
     and_then (BenchCase_parse (arguments ! 2)) (\<lambda>case_name.
     and_then (parse_positive ''ITERATIONS'' (arguments ! 3)) (\<lambda>iterations.
     and_then (ok_or (ParseFailed ''invalid WARMUP_ITERATIONS'') (usize_parse (arguments ! 4))) (\<lambda>warmup_iterations.
     and_then (if length arguments = 6 then parse_positive ''LOAD_ITERATIONS'' (arguments ! 5) else Inr iterations)
       (\<lambda>load_iterations.
     (if is_request case_name then bench_request else bench_withdrawal)
       env disk (bm_path env (arguments ! 1)) case_name iterations warmup_iterations load_iterations)))))"

end
