(* ===== verification/Contract.thy ===== *)
theory Contract
  imports Setup
begin

text \<open>
  From a proof the native provers make to a call the generated contract accepts. The completeness of the
  proof system, as the library documents it, is stated for the keys a setup generates; it follows that a
  proof made with a proving key passes the native verifier with the verifying key of the same setup, and
  the verifier contract that was generated for that key.
\<close>

section \<open>Completeness of the keys\<close>

text \<open>The key the setup generates has an input point for each public input, and a proof made with it from a
  satisfied circuit consists of finite points and satisfies the verification equation of the verifying key.\<close>

definition request_keys_complete ::
    "('e::ab_group_add, 'g::ab_group_add, 'h::ab_group_add, 't::ab_group_add, 'k) setup_env \<Rightarrow> codec \<Rightarrow> poseidon \<Rightarrow>
     ('k \<Rightarrow> 'e RequestPublic \<Rightarrow> 'e RequestWitness \<Rightarrow> Groth16Proof option) \<Rightarrow> bool" where
  "request_keys_complete se K P prove \<longleftrightarrow>
     (\<forall>c pk vk. se_request_setup se c = Some (pk, vk) \<longrightarrow>
        length (vk_gamma_abc_g1 vk) = 13 \<and>
        (\<forall>p w. request_constraints (se_curve se) P p (request_assignment p w) \<longrightarrow>
           (\<exists>pf. prove pk p w = Some pf \<and> proof_valid K pf \<and>
              groth16_accepts (se_bn254 se) vk (rp_to_field_elements (se_curve se) p) pf)))"

definition withdrawal_keys_complete ::
    "('e::ab_group_add, 'g::ab_group_add, 'h::ab_group_add, 't::ab_group_add, 'k) setup_env \<Rightarrow> codec \<Rightarrow> poseidon \<Rightarrow>
     ('k \<Rightarrow> 'e WithdrawalPublic \<Rightarrow> 'e WithdrawalWitness \<Rightarrow> Groth16Proof option) \<Rightarrow> bool" where
  "withdrawal_keys_complete se K P prove \<longleftrightarrow>
     (\<forall>c pk vk. se_withdrawal_setup se c = Some (pk, vk) \<longrightarrow>
        length (vk_gamma_abc_g1 vk) = 15 \<and>
        (\<forall>p w. withdrawal_constraints (se_curve se) P p (withdrawal_assignment p w) \<longrightarrow>
           (\<exists>pf. prove pk p w = Some pf \<and> proof_valid K pf \<and>
              groth16_accepts (se_bn254 se) vk (wp_to_field_elements (se_curve se) p) pf)))"

section \<open>Acceptance\<close>

lemma request_prove_InrD:
  "request_prove E P K prover pub wit = Inr wire \<Longrightarrow>
     \<exists>p w pf. request_public_from_wire E pub = Inr p \<and> request_constraints E P p (request_assignment p w) \<and>
       prover p w = Some pf \<and> wire = proof_to_wire K pf"
  by (auto simp: request_prove_def Let_def res split: if_splits option.splits)

lemma withdrawal_prove_InrD:
  "withdrawal_prove E P K prover pub wit = Inr wire \<Longrightarrow>
     \<exists>p w pf. withdrawal_public_from_wire E pub = Inr p \<and> withdrawal_constraints E P p (withdrawal_assignment p w) \<and>
       prover p w = Some pf \<and> wire = proof_to_wire K pf"
  by (auto simp: withdrawal_prove_def Let_def res split: if_splits option.splits)

lemma valid_proof_finite: "bn254_ok K B \<Longrightarrow> proof_valid K pf \<Longrightarrow> proof_finite pf"
  using bn254_zero(3,4) [of K B] by (auto simp: proof_finite_def proof_valid_def)

text \<open>Both entry points of the contract and of the native verifier on a valid proof.\<close>

lemma accepted_proof_asserts:
  assumes "bn254_ok K B" "precompiles_ok K B pc" "codec_ok K" "length vals + 1 = length (vk_gamma_abc_g1 key)"
    and "\<forall>v \<in> set vals. canonical v" "proof_valid K pf" "groth16_accepts B key (map unat vals) pf"
  shows "sol_assert pc (sol_vk_of B key) vals (proof_bytes pf) = Some ()"
  using sol_assert_iff [OF assms(1,2,4) wire_proof_bytes(1) [OF assms(3,6)]] wire_proof_bytes(2) [OF assms(3,6)]
    valid_proof_finite [OF assms(1,6)] proof_from_wire_to_wire [OF assms(3,6)] assms(5,7)
  by auto

lemma accepted_proof_asserted:
  assumes "edwards_wire_ok E" "bn254_ok K B" "precompiles_ok K B pc" "codec_ok K" "length (vk_gamma_abc_g1 key) = 15"
    and "withdrawal_public_from_wire E pub = Inr p" "sol_withdrawal_inputs pub = Some inputs"
    and "\<forall>v \<in> set (sol_withdrawal_values inputs). canonical v"
    and "proof_valid K pf" "groth16_accepts B key (wp_to_field_elements E p) pf"
  shows "assertValidWithdrawal pc (sol_vk_of B key) inputs (proof_bytes pf) = Some ()"
  unfolding assertValidWithdrawal_def using assms(5,10) withdrawal_values [OF assms(1,7,6,8)]
  by (intro accepted_proof_asserts [OF assms(2-4) _ assms(8,9)]) (simp_all add: sol_withdrawal_values_def)

lemma accepted_request_asserted:
  assumes "edwards_wire_ok E" "bn254_ok K B" "precompiles_ok K B pc" "codec_ok K" "length (vk_gamma_abc_g1 key) = 13"
    and "request_public_from_wire E pub = Inr p" "sol_request_inputs pub = Some inputs"
    and "\<forall>v \<in> set (sol_request_values inputs). canonical v"
    and "proof_valid K pf" "groth16_accepts B key (rp_to_field_elements E p) pf"
  shows "assertValidRequest pc (sol_vk_of B key) inputs (proof_bytes pf) = Some ()"
  unfolding assertValidRequest_def using assms(5,10) request_values [OF assms(1,7,6,8)]
  by (intro accepted_proof_asserts [OF assms(2-4) _ assms(8,9)]) (simp_all add: sol_request_values_def)

text \<open>A proof made with the keys of a setup is accepted natively and by the contract of that setup.\<close>

lemma proved_request:
  assumes "codec_ok K"
    and keys: "request_keys_complete se K P prove" "se_request_setup se c = Some (pk, vk)"
      "groth16_law (se_bn254 se) vk verify"
    and "request_prove (se_curve se) P K (prove pk) pub wit = Inr wire"
  obtains p pf where "request_public_from_wire (se_curve se) pub = Inr p" "wire = proof_to_wire K pf" "proof_valid K pf"
    "groth16_accepts (se_bn254 se) vk (rp_to_field_elements (se_curve se) p) pf" "length (vk_gamma_abc_g1 vk) = 13"
    "request_verify (se_curve se) K verify pub wire = Inr True"
proof -
  obtain p w pf where p: "request_public_from_wire (se_curve se) pub = Inr p"
    and "request_constraints (se_curve se) P p (request_assignment p w)" "prove pk p w = Some pf"
    and wire: "wire = proof_to_wire K pf"
    using request_prove_InrD [OF assms(5)] by blast
  with keys(1,2) have ic: "length (vk_gamma_abc_g1 vk) = 13"
    and pf: "proof_valid K pf" "groth16_accepts (se_bn254 se) vk (rp_to_field_elements (se_curve se) p) pf"
    unfolding request_keys_complete_def by (blast, fastforce+)
  have "gw_backend wire = Groth16Bn254" by (simp add: wire proof_to_wire_def)
  then have "request_verify (se_curve se) K verify pub wire = Inr True"
    using native_verdicts(1) [OF _ p] proof_from_wire_to_wire [OF assms(1) pf(1)] pf(2) keys(3) ic
    by (simp add: wire groth16_law_def) (simp add: rp_to_field_elements_def)
  then show ?thesis using that p wire pf ic by blast
qed

lemma proved_request_accepted:
  assumes "edwards_wire_ok (se_curve se)" "codec_ok K" "bn254_ok K (se_bn254 se)"
    and "precompiles_ok K (se_bn254 se) pc"
    and keys: "request_keys_complete se K P prove" "se_request_setup se c = Some (pk, vk)"
      "groth16_law (se_bn254 se) vk verify"
    and "request_prove (se_curve se) P K (prove pk) pub wit = Inr wire"
    and "sol_request_inputs pub = Some inputs" "\<forall>v \<in> set (sol_request_values inputs). canonical v"
  shows "request_verify (se_curve se) K verify pub wire = Inr True"
    and "\<exists>bytes. b64_decode K (gw_proof wire) = Some bytes \<and>
      assertValidRequest pc (sol_vk_of (se_bn254 se) vk) inputs bytes = Some ()"
proof -
  obtain p pf where p: "request_public_from_wire (se_curve se) pub = Inr p" and wire: "wire = proof_to_wire K pf"
    and pf: "proof_valid K pf" "groth16_accepts (se_bn254 se) vk (rp_to_field_elements (se_curve se) p) pf"
    and ic: "length (vk_gamma_abc_g1 vk) = 13" and ok: "request_verify (se_curve se) K verify pub wire = Inr True"
    by (rule proved_request [OF assms(2) keys assms(8)])
  show "request_verify (se_curve se) K verify pub wire = Inr True" by (rule ok)
  show "\<exists>bytes. b64_decode K (gw_proof wire) = Some bytes \<and>
      assertValidRequest pc (sol_vk_of (se_bn254 se) vk) inputs bytes = Some ()"
    using accepted_request_asserted [OF assms(1,3,4,2) ic p assms(9,10) pf] wire_proof_bytes(1) [OF assms(2) pf(1)]
    by (auto simp: wire)
qed

lemma proved_withdrawal:
  assumes "codec_ok K"
    and keys: "withdrawal_keys_complete se K P prove" "se_withdrawal_setup se c = Some (pk, vk)"
      "groth16_law (se_bn254 se) vk verify"
    and "withdrawal_prove (se_curve se) P K (prove pk) pub wit = Inr wire"
  obtains p pf where "withdrawal_public_from_wire (se_curve se) pub = Inr p" "wire = proof_to_wire K pf" "proof_valid K pf"
    "groth16_accepts (se_bn254 se) vk (wp_to_field_elements (se_curve se) p) pf" "length (vk_gamma_abc_g1 vk) = 15"
    "withdrawal_verify (se_curve se) K verify pub wire = Inr True"
proof -
  obtain p w pf where p: "withdrawal_public_from_wire (se_curve se) pub = Inr p"
    and "withdrawal_constraints (se_curve se) P p (withdrawal_assignment p w)" "prove pk p w = Some pf"
    and wire: "wire = proof_to_wire K pf"
    using withdrawal_prove_InrD [OF assms(5)] by blast
  with keys(1,2) have ic: "length (vk_gamma_abc_g1 vk) = 15"
    and pf: "proof_valid K pf" "groth16_accepts (se_bn254 se) vk (wp_to_field_elements (se_curve se) p) pf"
    unfolding withdrawal_keys_complete_def by (blast, fastforce+)
  have "gw_backend wire = Groth16Bn254" by (simp add: wire proof_to_wire_def)
  then have "withdrawal_verify (se_curve se) K verify pub wire = Inr True"
    using native_verdicts(2) [OF _ p] proof_from_wire_to_wire [OF assms(1) pf(1)] pf(2) keys(3) ic
    by (simp add: wire groth16_law_def) (simp add: wp_to_field_elements_def)
  then show ?thesis using that p wire pf ic by blast
qed

lemma proved_withdrawal_accepted:
  assumes "edwards_wire_ok (se_curve se)" "codec_ok K" "bn254_ok K (se_bn254 se)"
    and "precompiles_ok K (se_bn254 se) pc"
    and keys: "withdrawal_keys_complete se K P prove" "se_withdrawal_setup se c = Some (pk, vk)"
      "groth16_law (se_bn254 se) vk verify"
    and "withdrawal_prove (se_curve se) P K (prove pk) pub wit = Inr wire"
    and "sol_withdrawal_inputs pub = Some inputs" "\<forall>v \<in> set (sol_withdrawal_values inputs). canonical v"
  shows "withdrawal_verify (se_curve se) K verify pub wire = Inr True"
    and "\<exists>bytes. b64_decode K (gw_proof wire) = Some bytes \<and>
      assertValidWithdrawal pc (sol_vk_of (se_bn254 se) vk) inputs bytes = Some ()"
proof -
  obtain p pf where p: "withdrawal_public_from_wire (se_curve se) pub = Inr p" and wire: "wire = proof_to_wire K pf"
    and pf: "proof_valid K pf" "groth16_accepts (se_bn254 se) vk (wp_to_field_elements (se_curve se) p) pf"
    and ic: "length (vk_gamma_abc_g1 vk) = 15" and ok: "withdrawal_verify (se_curve se) K verify pub wire = Inr True"
    by (rule proved_withdrawal [OF assms(2) keys assms(8)])
  show "withdrawal_verify (se_curve se) K verify pub wire = Inr True" by (rule ok)
  show "\<exists>bytes. b64_decode K (gw_proof wire) = Some bytes \<and>
      assertValidWithdrawal pc (sol_vk_of (se_bn254 se) vk) inputs bytes = Some ()"
    using accepted_proof_asserted [OF assms(1,3,4,2) ic p assms(9,10) pf] wire_proof_bytes(1) [OF assms(2) pf(1)]
    by (auto simp: wire)
qed

end
