(* ===== verification/Wallet_Properties.thy ===== *)
theory Wallet_Properties
  imports Wallet_Safety Setup
begin

text \<open>
  The properties of the wallet, and the concrete environment their witnesses use: the group of order
  \<open>SCALAR_MODULUS\<close> as curve, a constant hash, documents instead of JSON text, and provers that succeed
  on satisfied circuits.
\<close>

section \<open>A concrete wallet\<close>

datatype wallet_doc =
    DocState NoteState
  | DocJournal PendingRequestJournal
  | DocResponse RequestResponseV2

definition doc_json :: "wallet_doc client_json" where
  "doc_json =
     \<lparr>state_to_json = (\<lambda>s. Some (DocState s)),
      state_from_json = (\<lambda>d. case d of DocState s \<Rightarrow> Some s | _ \<Rightarrow> None),
      journal_to_json = (\<lambda>j. Some (DocJournal j)),
      journal_from_json = (\<lambda>d. case d of DocJournal j \<Rightarrow> Some j | _ \<Rightarrow> None),
      response_from_json = (\<lambda>d. case d of DocResponse r \<Rightarrow> if response_canonical r then Some r else None | _ \<Rightarrow> None),
      error_from_json = (\<lambda>_. None), recovery_from_json = (\<lambda>_. None), clearance_from_json = (\<lambda>_. None)\<rparr>"

definition toy_client :: "(jub_group, wallet_doc) client_env" where
  "toy_client = \<lparr>ce_curve = jub_curve, ce_poseidon = (\<lambda>_. 0), ce_keccak = (\<lambda>_. replicate 32 0),
     ce_codec = toy_codec, ce_json = doc_json, ce_request_prover = (\<lambda>_. Some (\<lambda>_ _. Some toy_proof)),
     ce_withdrawal_prover = (\<lambda>_. Some (\<lambda>_ _. Some toy_proof))\<rparr>"

definition toy_config :: ClientConfig where
  "toy_config = \<lparr>cc_protocol_version = 2, cc_chain_id = 1, cc_contract_address = 99, cc_request_charge_cap = 10,
     cc_policy_charge_cap = 10, cc_policy_enabled = False, cc_server_url = ''http://localhost'',
     cc_state_dir = [''zkapi''], cc_trusted_epoch_roots = [], cc_proof_mode = Groth16 ''setup'',
     cc_state_signing_key = signer_public_key jub_curve (from_seed jub_curve 5),
     cc_clearance_signing_key = signer_public_key jub_curve (from_seed jub_curve 6)\<rparr>"

definition toy_note :: NoteState where
  "toy_note = new_from_deposit 2 1 99 7 42 100 1000 (to_hex 4)
     (cp_x (compact_balance_commitment jub_curve 100 4 0)) (cp_y (compact_balance_commitment jub_curve 100 4 0))"

definition toy_wallet :: Wallet where
  "toy_wallet = \<lparr>w_config = toy_config, w_state = Some toy_note, w_state_path = [''zkapi'', ''note_state.json''],
     w_journal_path = [''zkapi'', ''pending_journal.json'']\<rparr>"

definition toy_disk :: "wallet_doc disk" where
  "toy_disk = [[''zkapi'', ''note_state.json''] \<mapsto> DocState toy_note]"

definition toy_draws :: request_draws where
  "toy_draws = \<lparr>dr_now = 500, dr_now_journal = 500, dr_uuid = ''id'', dr_rerandomization = 6\<rparr>"

lemma zero_hash: "hash_bytes_to_felt (\<lambda>_. replicate 32 0) tag p = Some 0"
proof -
  have "try_from_bytes_be (replicate 32 0) = Inr 0"
    by (simp add: try_from_bytes_be_eq field_modulus_def felt_of_bytes_def)
  then show ?thesis by (simp add: hash_bytes_to_felt_def hash_loop.simps)
qed

lemma zero_poseidon: "hash_domain (\<lambda>_. 0) tag xs = 0"
proof -
  have "unat (field_to_felt 0) = 0" by (simp add: unat_field_to_felt field_modulus_def)
  then show ?thesis by (simp add: hash_domain_def unat_eq_0)
qed

lemma zero_merkle: "merkle_root (\<lambda>_. 0) i 0 ss = 0"
proof -
  have "fold (\<lambda>(level :: nat, sibling :: felt) (current :: felt). 0 :: felt) xs 0 = 0" for xs
    by (induction xs) auto
  moreover have node: "merkle_node (\<lambda>_. 0) = (\<lambda>_ _. 0)" by (intro ext) (simp add: merkle_node_def zero_poseidon)
  ultimately show ?thesis unfolding merkle_root_def node by simp
qed

lemma toy_client_ok: "env_ok toy_client"
  using jub_curve_wire_ok
  by (auto simp: env_ok_def toy_client_def poseidon_ok_def keccak_ok_def field_modulus_def state_encodable_def
      journal_encodable_def doc_json_def split: wallet_doc.splits if_splits)

lemma seed_key:
  assumes "edwards_wire_ok E"
  shows "\<exists>k. point_from_wire E (signer_public_key E (from_seed E seed)) = Inr k"
  using point_round_trip [OF assms in_subgroup_nsmul [OF assms edwards_wire_okD(6) [OF assms]]]
  by (auto simp: signer_public_key_def from_seed_def from_secret_def Let_def)

lemma toy_config_ok: "config_ok toy_client toy_config"
  using seed_key [OF jub_curve_wire_ok] edwards_wire_okD(2,3) [OF jub_curve_wire_ok]
  by (simp add: config_ok_def keys_ok_def toy_client_def toy_config_def signer_public_key_def point_to_wire_def canonical_def
      unat_field_to_felt field_modulus_def)

lemma toy_provers: "request_prover_complete toy_client toy_config" "withdrawal_prover_complete toy_client toy_config"
  by (simp_all add: request_prover_complete_def withdrawal_prover_complete_def toy_client_def)

lemma toy_deposit:
  "confirm_deposit toy_client no_faults 4 42 7 100 1000 (toy_wallet\<lparr>w_state := None\<rparr>) Map.empty = ((toy_wallet, toy_disk), Inr ())"
proof -
  have "with_extension [''zkapi'', ''note_state.json''] ''tmp'' = [''zkapi'', ''note_state.tmp'']"
    using file_names(1) [of "[''zkapi'']"] by simp
  then show ?thesis
    by (auto simp: confirm_deposit_def toy_wallet_def toy_client_def toy_config_def toy_disk_def toy_note_def note_leaf_def
        zero_poseidon Let_def state_save_def doc_json_def replace_file_def create_dir_all_def bail_if_def no_faults_def
        write_private_file_def fs_rename_def)
qed

lemma toy_reachable: "wallet_reachable toy_client toy_config (toy_wallet, toy_disk)"
proof -
  let ?w = "toy_wallet\<lparr>w_state := None\<rparr>"
  have "wallet_new toy_client no_faults toy_config Map.empty = Inr ?w"
    by (simp add: wallet_new_def create_dir_all_def bail_if_def no_faults_def Let_def toy_wallet_def toy_config_def)
  moreover have "wallet_step toy_client toy_config (?w, Map.empty) (toy_wallet, toy_disk)"
    using step_deposit [of 42 4 toy_client toy_config ?w Map.empty no_faults 7 100 1000] toy_deposit
    by (simp add: canonical_def field_modulus_def)
  ultimately show ?thesis by (auto simp: wallet_reachable_def)
qed

lemma toy_member: "note_member (ce_poseidon toy_client) toy_note 0 (replicate 32 0)"
  by (simp add: note_member_def MERKLE_DEPTH_def toy_client_def state_note_leaf_def note_leaf_def zero_poseidon zero_merkle)

lemma toy_request_hyps:
  "w_state toy_wallet = Some toy_note" "ns_current_balance toy_note = 100" "ns_expiry_ts toy_note = 1000"
  "w_config toy_wallet = toy_config" "wallet_cap toy_config = 10" "dr_now toy_draws = 500"
  "toy_disk (w_journal_path toy_wallet) = None" "canonical_payload_hash (ce_keccak toy_client) bs = Some 0"
  "canonical_request_context (ce_keccak toy_client) i hh = Some 0" "canonical (dr_rerandomization toy_draws)"
  by (simp_all add: toy_wallet_def toy_note_def new_from_deposit_def toy_config_def toy_draws_def toy_disk_def toy_client_def
      canonical_payload_hash_def canonical_request_context_def zero_hash canonical_def field_modulus_def wallet_cap_def)

text \<open>An honest response to the first request, with charge 7.\<close>

definition toy_next_commitment :: CurvePointWire where
  "toy_next_commitment = compact_balance_commitment jub_curve 93 (add_blindings (add_blindings 4 6) 3) 0"

definition toy_response :: RequestResponseV2 where
  "toy_response = \<lparr>rr2_status = ''ok'', rr2_client_request_id = ''id'', rr2_request_nullifier = 0, rr2_response_code = 200,
     rr2_response_payload = ''hi'', rr2_response_hash = 0, rr2_charge_applied = 7,
     rr2_next_commitment = toy_next_commitment, rr2_next_anchor = 11, rr2_blind_delta_srv = 3,
     rr2_next_state_signature = compact_sign jub_curve (\<lambda>_. 0) (from_seed jub_curve 5) 9
       (state_message (\<lambda>_. 0) 2 1 99 (cp_x toy_next_commitment) (cp_y toy_next_commitment) 11),
     rr2_policy_reason_code = None, rr2_policy_evidence_hash = None\<rparr>"

definition toy_next_note :: NoteState where
  "toy_next_note = toy_note\<lparr>ns_current_balance := 93,
     ns_balance_blinding := to_hex (add_blindings (add_blindings 4 6) 3),
     ns_current_commitment_x := cp_x toy_next_commitment, ns_current_commitment_y := cp_y toy_next_commitment,
     ns_current_anchor := 11, ns_is_genesis := False,
     ns_state_signature := Some (rr2_next_state_signature toy_response)\<rparr>"

lemma compact_sign_canonical:
  assumes "edwards_wire_ok E"
  shows "canonical (r_x (compact_sign E P cs n m))" "canonical (r_y (compact_sign E P cs n m))"
    "canonical (sig_s (compact_sign E P cs n m))"
proof -
  show "canonical (sig_s (compact_sign E P cs n m))"
    by (simp add: compact_sign_def signature_to_wire_def state_key_sign_def Let_def canonical_scalar_to_felt)
  show "canonical (r_x (compact_sign E P cs n m))" "canonical (r_y (compact_sign E P cs n m))"
    using edwards_wire_okD(2,3) [OF assms]
    by (simp_all add: compact_sign_def signature_to_wire_def Let_def point_to_wire_def canonical_def unat_field_to_felt)
qed

lemma toy_response_canonical: "response_canonical toy_response"
  using compact_sign_canonical [OF jub_curve_wire_ok]
  by (simp add: response_canonical_def toy_response_def canonical_def field_modulus_def)

lemma toy_opens: "note_opens toy_client toy_note 4"
  by (simp add: note_opens_def toy_note_def new_from_deposit_def toy_client_def parse_scalar_to_hex canonical_def
      field_modulus_def state_note_leaf_def note_leaf_def zero_poseidon)

lemma toy_next:
  "response_next_state toy_client toy_response ''id'' 0
     (compact_balance_commitment jub_curve 100 (add_blindings 4 6) 0) 6 toy_wallet = Inr toy_next_note"
proof -
  have "compact_server_update jub_curve (compact_balance_commitment jub_curve 100 (add_blindings 4 6) 0) 7 3
      = Inr toy_next_commitment"
    using compact_update_commitment [OF jub_curve_wire_ok, of 7 100] by (simp add: toy_next_commitment_def)
  moreover have "parse_scalar (to_hex 4) = Inr 4" by (simp add: parse_scalar_to_hex canonical_def field_modulus_def)
  ultimately show ?thesis
    using compact_signature_verifies [OF jub_curve_wire_ok]
    by (simp add: response_next_state_def toy_response_def toy_client_def toy_wallet_def toy_config_def toy_note_def
        toy_next_note_def new_from_deposit_def canonical_response_hash_def zero_hash bail_if_def Let_def checked_sub_def)
qed

lemma toy_next_canonical: "state_canonical toy_next_note"
  using compact_sign_canonical [OF jub_curve_wire_ok] canonical_commitment [OF jub_curve_wire_ok]
  by (simp add: state_canonical_def toy_next_note_def toy_response_def toy_note_def new_from_deposit_def canonical_def
      field_modulus_def toy_next_commitment_def)

text \<open>The wallet after the request was prepared, and what completing it does.\<close>

lemma toy_pending:
  obtains disk j where "wallet_reachable toy_client toy_config (toy_wallet, disk)"
    "journal_read (ce_json toy_client) no_faults (w_journal_path toy_wallet) disk = Inr (Some j)"
    "\<And>io. \<not> f_dir io \<Longrightarrow> f_write io = None \<Longrightarrow> \<not> f_rename io \<Longrightarrow> \<not> f_read io \<Longrightarrow>
       w_state (fst (fst (complete_pending_response toy_client io toy_response toy_wallet disk))) = Some toy_next_note"
proof -
  note inv = wallet_inv_reachable [OF toy_client_ok toy_config_ok toy_reachable]
  have funds: "wallet_cap (w_config toy_wallet) \<le> ns_current_balance toy_note" "dr_now toy_draws \<le> ns_expiry_ts toy_note"
    by (simp_all add: toy_request_hyps)
  obtain disk request j where req: "prepare_request toy_client no_faults toy_draws ''hello'' 0 0 (replicate 32 0) toy_wallet toy_disk
      = (disk, Inr request)"
    and j: "journal_read (ce_json toy_client) no_faults (w_journal_path toy_wallet) disk = Inr (Some j)"
      "pj_client_request_id j = dr_uuid toy_draws" "pj_user_rerandomization j = dr_rerandomization toy_draws"
      "pj_nullifier j = nullifier (ce_poseidon toy_client) (ns_secret_s toy_note) (ns_current_anchor toy_note)"
    by (rule prepare_request_works [where w = toy_wallet, unfolded toy_request_hyps(4), OF toy_client_ok toy_config_ok
          toy_provers(1) inv toy_request_hyps(1) toy_member funds [unfolded toy_request_hyps(4)]
          toy_request_hyps(8,9,7,10)])
  have "wallet_step toy_client toy_config (toy_wallet, toy_disk) (toy_wallet, disk)"
    using step_prepare [of toy_client toy_config toy_wallet toy_disk no_faults toy_draws "''hello''" 0 0 "replicate 32 0"] req by simp
  then have "wallet_reachable toy_client toy_config (toy_wallet, disk)"
    using toy_reachable unfolding wallet_reachable_def by (meson rtranclp.rtrancl_into_rtrancl)
  moreover have "w_state (fst (fst (complete_pending_response toy_client io toy_response toy_wallet disk))) = Some toy_next_note"
    if "\<not> f_dir io" "f_write io = None" "\<not> f_rename io" "\<not> f_read io" for io
  proof (rule complete_accepts [OF toy_client_ok toy_request_hyps(1) toy_opens _ _ that(1-3) toy_next_canonical])
    show "journal_read (ce_json toy_client) io (w_journal_path toy_wallet) disk = Inr (Some j)"
      using j(1) that(4) by (auto simp: journal_read_def read_to_string_def no_faults_def split: if_splits)
    show "response_next_state toy_client toy_response (pj_client_request_id j) (pj_nullifier j)
      (compact_balance_commitment (ce_curve toy_client) (ns_current_balance toy_note)
        (add_blindings 4 (pj_user_rerandomization j)) (state_note_leaf (ce_poseidon toy_client) toy_note))
      (pj_user_rerandomization j) toy_wallet = Inr toy_next_note"
      using toy_next j(2-4)
      by (simp add: toy_draws_def toy_client_def toy_note_def new_from_deposit_def nullifier_def zero_poseidon
          state_note_leaf_def note_leaf_def)
  qed
  ultimately show ?thesis using that j(1) by blast
qed


section \<open>Properties\<close>

text \<open>Claim C1. The user can always exit: whatever the server answered and whatever disk operation failed
  before, a wallet that holds a note can build the escape-hatch withdrawal of its full balance for any
  destination as soon as it has a Merkle path of its note, without the server, even after expiry; with a
  valid clearance it can also build the mutual close. Reopening the wallet gives the same note.\<close>

theorem wallet_can_always_exit:
  assumes "env_ok env" "config_ok env config" "withdrawal_prover_complete env config"
    and "wallet_reachable env config (w, disk)" "w_state w = Some s"
    and "note_member (ce_poseidon env) s root siblings"
  shows "(\<exists>pub pf. withdrawal_escape_hatch env dest root siblings w = Inr (pub, pf) \<and>
      w2_final_balance pub = ns_current_balance s \<and> w2_note_id pub = ns_note_id s \<and>
      w2_destination pub = dest \<and> \<not> w2_has_clearance pub) \<and>
    (request_clearance env server (nullifier (ce_poseidon env) (ns_secret_s s) (ns_current_anchor s)) w = Inr clearance \<and>
     compact_verify_signature (ce_curve env) (ce_poseidon env) (cc_clearance_signing_key config)
       (clearance_message (ce_poseidon env) (ns_protocol_version s) (ns_chain_id s) (ns_contract_address s)
          (nullifier (ce_poseidon env) (ns_secret_s s) (ns_current_anchor s))) (cr2_signature clearance) = Inr True \<longrightarrow>
      (\<exists>pub pf. withdrawal_mutual_close env server dest root siblings w = Inr (pub, pf) \<and>
         w2_final_balance pub = ns_current_balance s \<and> w2_has_clearance pub)) \<and>
    wallet_new env no_faults config disk = Inr w"
proof (intro conjI impI)
  note inv = wallet_inv_reachable [OF assms(1,2,4)]
  have cfg: "w_config w = config" and note_ok: "note_inv env (w_config w) s"
    using inv assms(5) by (simp_all add: wallet_inv_def)
  have keys: "keys_ok env (w_config w)" using assms(2) by (simp add: config_ok_def cfg)
  note provable = withdrawal_provable [where w = w, OF assms(1) keys assms(3) [folded cfg] assms(5) note_ok assms(6)]
  show "\<exists>pub pf. withdrawal_escape_hatch env dest root siblings w = Inr (pub, pf) \<and>
      w2_final_balance pub = ns_current_balance s \<and> w2_note_id pub = ns_note_id s \<and>
      w2_destination pub = dest \<and> \<not> w2_has_clearance pub"
    using provable [where csig = None and has_clearance = False and dest = dest] by (auto simp: withdrawal_escape_hatch_def)
  show "\<exists>pub pf. withdrawal_mutual_close env server dest root siblings w = Inr (pub, pf) \<and>
      w2_final_balance pub = ns_current_balance s \<and> w2_has_clearance pub"
    if "request_clearance env server (nullifier (ce_poseidon env) (ns_secret_s s) (ns_current_anchor s)) w = Inr clearance \<and>
     compact_verify_signature (ce_curve env) (ce_poseidon env) (cc_clearance_signing_key config)
       (clearance_message (ce_poseidon env) (ns_protocol_version s) (ns_chain_id s) (ns_contract_address s)
          (nullifier (ce_poseidon env) (ns_secret_s s) (ns_current_anchor s))) (cr2_signature clearance) = Inr True"
    using provable [where csig = "Some (cr2_signature clearance)" and has_clearance = True and dest = dest] that assms(5)
    by (auto simp: withdrawal_mutual_close_def cfg Let_def bail_if_def)
  obtain d where "disk (w_state_path w) = Some d" "state_from_json (ce_json env) d = Some s"
    using inv assms(5) by (auto simp: wallet_inv_def)
  then show "wallet_new env no_faults config disk = Inr w"
    using inv assms(5)
    by (cases w) (simp add: wallet_inv_def wallet_new_def create_dir_all_def bail_if_def no_faults_def Let_def
        state_load_def read_to_string_def)
qed

theorem wallet_can_always_exit_witness:
  "\<exists>pub pf. withdrawal_escape_hatch toy_client 8 0 (replicate 32 0) toy_wallet = Inr (pub, pf) \<and>
     w2_final_balance pub = 100"
proof -
  have "w_state toy_wallet = Some toy_note" "ns_current_balance toy_note = 100"
    by (simp_all add: toy_wallet_def toy_note_def new_from_deposit_def)
  then show ?thesis
    using wallet_can_always_exit [OF toy_client_ok toy_config_ok toy_provers(2) toy_reachable _ toy_member] by metis
qed

text \<open>Claim C5. The server cannot take more than the agreed cap: whatever response a wallet completes and
  whatever fails meanwhile, either the note is unchanged and an error is returned, or the response answers
  the journaled request and the balance drops by exactly its charge, which is at most the configured cap;
  the note and its secret stay the same. On success the journal is gone. Memory and disk always agree on
  the note.\<close>

theorem response_charge_bounded:
  assumes "env_ok env" "config_ok env config" "wallet_reachable env config (w, disk)" "response_canonical resp"
    and "complete_pending_response env io resp w disk = ((w', disk'), r)"
  shows "((w_state w' = w_state w \<and> (\<exists>e. r = Inl e)) \<or>
    (\<exists>j s s'. journal_read (ce_json env) io (w_journal_path w) disk = Inr (Some j) \<and>
       w_state w = Some s \<and> w_state w' = Some s' \<and>
       rr2_charge_applied resp \<le> (if cc_policy_enabled config then cc_policy_charge_cap config else cc_request_charge_cap config) \<and>
       unat (ns_current_balance s) = unat (ns_current_balance s') + unat (rr2_charge_applied resp) \<and>
       rr2_client_request_id resp = pj_client_request_id j \<and> rr2_request_nullifier resp = pj_nullifier j \<and>
       ns_note_id s' = ns_note_id s \<and> ns_secret_s s' = ns_secret_s s \<and>
       (r = Inr () \<longrightarrow> disk' (w_journal_path w) = None))) \<and>
    (case w_state w' of
       None \<Rightarrow> disk' (w_state_path w') = None
     | Some s \<Rightarrow> \<exists>d. disk' (w_state_path w') = Some d \<and> state_from_json (ce_json env) d = Some s)"
proof -
  from complete_cases [OF assms(1) wallet_inv_reachable [OF assms(1-3)] assms(4,5)]
  have inv: "wallet_inv env config (w', disk')" and cases: "(w_state w' = w_state w \<and> (\<exists>e. r = Inl e)) \<or>
    (\<exists>j s s'. journal_read (ce_json env) io (w_journal_path w) disk = Inr (Some j) \<and>
       w_state w = Some s \<and> w_state w' = Some s' \<and> rr2_charge_applied resp \<le> wallet_cap config \<and>
       unat (ns_current_balance s) = unat (ns_current_balance s') + unat (rr2_charge_applied resp) \<and>
       rr2_client_request_id resp = pj_client_request_id j \<and> rr2_request_nullifier resp = pj_nullifier j \<and>
       ns_note_id s' = ns_note_id s \<and> ns_secret_s s' = ns_secret_s s \<and>
       ns_current_anchor s' = rr2_next_anchor resp \<and>
       (r = Inr () \<longrightarrow> disk' (w_journal_path w) = None))" by blast+
  have "case w_state w' of None \<Rightarrow> disk' (w_state_path w') = None
     | Some s \<Rightarrow> \<exists>d. disk' (w_state_path w') = Some d \<and> state_from_json (ce_json env) d = Some s"
    using inv by (auto simp: wallet_inv_def split: option.splits)
  with cases show ?thesis unfolding wallet_cap_def by blast
qed

theorem response_charge_bounded_witness:
  "\<exists>disk w' disk' r s'. complete_pending_response toy_client no_faults toy_response toy_wallet disk = ((w', disk'), r) \<and>
     w_state w' = Some s' \<and> unat (ns_current_balance s') = 93"
proof -
  obtain disk j where reach: "wallet_reachable toy_client toy_config (toy_wallet, disk)"
    and done': "w_state (fst (fst (complete_pending_response toy_client no_faults toy_response toy_wallet disk))) = Some toy_next_note"
    using toy_pending by (metis no_faults_def io_faults.select_convs)
  obtain w' disk' r where res: "complete_pending_response toy_client no_faults toy_response toy_wallet disk = ((w', disk'), r)"
    by (metis prod.collapse)
  have "w_state w' \<noteq> w_state toy_wallet"
    using done' res by (simp add: toy_wallet_def toy_next_note_def toy_note_def new_from_deposit_def)
  then obtain s s' where "w_state toy_wallet = Some s" "w_state w' = Some s'"
    "unat (ns_current_balance s) = unat (ns_current_balance s') + unat (rr2_charge_applied toy_response)"
    using response_charge_bounded [OF toy_client_ok toy_config_ok reach toy_response_canonical res] by blast
  moreover have "unat (rr2_charge_applied toy_response) = 7" by (simp add: toy_response_def)
  moreover have "unat (ns_current_balance s) = 100"
    using \<open>w_state toy_wallet = Some s\<close> by (auto simp: toy_wallet_def toy_note_def new_from_deposit_def)
  ultimately have "unat (ns_current_balance s') = 93" by simp
  then show ?thesis using res \<open>w_state w' = Some s'\<close> by blast
qed

text \<open>Claim C14. A funded, unexpired note in the tree can always pay for a request: preparing it succeeds, the
  request commits to the configured cap and to the nullifier of the current state, and it is on disk
  before it is returned, so that after a crash the wallet still offers the same request for the retry and
  refuses to prepare a second one.\<close>

theorem request_prepared_durably:
  assumes "env_ok env" "config_ok env config" "request_prover_complete env config"
    and "wallet_reachable env config (w, disk)" "w_state w = Some s"
    and "note_member (ce_poseidon env) s root siblings"
    and "(if cc_policy_enabled config then cc_policy_charge_cap config else cc_request_charge_cap config) \<le> ns_current_balance s"
    and "dr_now dr \<le> ns_expiry_ts s" "disk (w_journal_path w) = None"
    and "canonical_payload_hash (ce_keccak env) (as_bytes_str payload) = Some h"
    and "canonical_request_context (ce_keccak env) (dr_uuid dr) h = Some ctx"
    and "canonical (dr_rerandomization dr)"
  shows "\<exists>disk' request. prepare_request env no_faults dr payload h root siblings w disk = (disk', Inr request) \<and>
    r2_solvency_bound (aq2_public_inputs request)
      = (if cc_policy_enabled config then cc_policy_charge_cap config else cc_request_charge_cap config) \<and>
    r2_request_nullifier (aq2_public_inputs request) = nullifier (ce_poseidon env) (ns_secret_s s) (ns_current_anchor s) \<and>
    wallet_new env no_faults config disk' = Inr w \<and>
    pending_api_request env no_faults w disk' = Inr (Some request) \<and>
    prepare_request env no_faults dr' payload' h' root' siblings' w disk' = (disk', Inl PendingRequest)"
proof -
  note inv = wallet_inv_reachable [OF assms(1,2,4)]
  have cfg: "w_config w = config" using inv by (simp add: wallet_inv_def)
  obtain disk' request j where req: "prepare_request env no_faults dr payload h root siblings w disk = (disk', Inr request)"
    and j: "journal_read (ce_json env) no_faults (w_journal_path w) disk' = Inr (Some j)" "pj_prepared_request j = Some request"
    and pub: "r2_solvency_bound (aq2_public_inputs request) = wallet_cap (w_config w)"
      "pj_nullifier j = nullifier (ce_poseidon env) (ns_secret_s s) (ns_current_anchor s)"
      "r2_request_nullifier (aq2_public_inputs request) = pj_nullifier j"
    by (rule prepare_request_works [OF assms(1) assms(2,3) [folded cfg] inv [folded cfg] assms(5,6)
          assms(7) [folded wallet_cap_def cfg] assms(8,10,11,9,12)])
  have "wallet_inv env config (w, disk')"
    using wallet_inv_prepare [OF inv, of no_faults dr payload h root siblings] req by simp
  then have "wallet_new env no_faults config disk' = Inr w"
    using assms(5) by (cases w) (auto simp: wallet_inv_def wallet_new_def create_dir_all_def bail_if_def no_faults_def Let_def
        state_load_def read_to_string_def)
  moreover have "pending_api_request env no_faults w disk' = Inr (Some request)"
    using j by (simp add: pending_api_request_def)
  moreover have "prepare_request env no_faults dr' payload' h' root' siblings' w disk' = (disk', Inl PendingRequest)"
    using j by (simp add: prepare_request_def has_pending_request_def res_ok_def)
  ultimately show ?thesis using req pub by (simp add: wallet_cap_def cfg)
qed

theorem request_prepared_durably_witness:
  "\<exists>disk' request. prepare_request toy_client no_faults toy_draws ''hello'' 0 0 (replicate 32 0) toy_wallet toy_disk
      = (disk', Inr request) \<and>
    prepare_request toy_client no_faults toy_draws ''again'' 0 0 (replicate 32 0) toy_wallet disk' = (disk', Inl PendingRequest)"
  using request_prepared_durably [OF toy_client_ok toy_config_ok toy_provers(1) toy_reachable toy_request_hyps(1)
      toy_member, of toy_draws "''hello''" 0 0 toy_draws "''again''" 0 0 "replicate 32 0"] toy_request_hyps
  by (auto simp: toy_config_def)

text \<open>Claim C35. Completion is not crash safe: when the process stops after the next state was saved and before
  the journal was removed, the reopened wallet recomputes the anonymous commitment from the new state. The
  very response it has already applied is then refused, and no new request can be prepared, unless charge
  and blindings satisfy a discrete-logarithm relation between the two generators.\<close>

theorem interrupted_completion_wedges:
  assumes "env_ok env" "config_ok env config" "wallet_reachable env config (w, disk)" "response_canonical resp"
    and "complete_pending_response env clear_fails resp w disk = ((w', disk'), r)" "w_state w' \<noteq> w_state w"
    and "wallet_new env no_faults config disk' = Inr w2"
  shows "prepare_request env no_faults dr payload h root siblings w2 disk' = (disk', Inl PendingRequest) \<and>
    (complete_pending_response env no_faults resp w2 disk'
        = ((w2, disk'), Inl (VerificationFailed (Msg ''next commitment algebra mismatch''))) \<or>
     (\<exists>j. journal_read (ce_json env) no_faults (w_journal_path w2) disk' = Inr (Some j) \<and>
        nsmul (unat (rr2_charge_applied resp)) (ed_generator (ce_curve env))
          = nsmul (scalar (pj_user_rerandomization j) + scalar (rr2_blind_delta_srv resp)) (ed_H (ce_curve env))))"
proof -
  let ?E = "ce_curve env" and ?c = "rr2_charge_applied resp" and ?d = "rr2_blind_delta_srv resp"
  have E: "edwards_wire_ok ?E" using assms(1) by (simp add: env_ok_def)
  note inv = wallet_inv_reachable [OF assms(1-3)]
  obtain j s' anon where j: "journal_read (ce_json env) no_faults (w_journal_path w) disk' = Inr (Some j)"
    and nxt: "response_next_state env resp (pj_client_request_id j) (pj_nullifier j) anon (pj_user_rerandomization j) w = Inr s'"
    and inv': "wallet_inv env config (w', disk')" "w_state w' = Some s'"
    by (rule interrupted_completion [OF assms(1) inv assms(4-6)])
  have w2: "wallet_inv env config (w2, disk')" "w_state w2 = Some s'"
    using wallet_inv_restart [OF inv'(1) assms(7)] inv'(2) by simp_all
  have paths: "w_journal_path w2 = w_journal_path w" "w_config w2 = w_config w" using w2(1) inv by (simp_all add: wallet_inv_def)
  obtain b where b: "note_opens env s' b" using w2 by (auto simp: wallet_inv_def note_inv_def)
  define N where "N = balance_commitment ?E (ns_current_balance s') (scalar b) (felt_to_field (state_note_leaf (ce_poseidon env) s'))"
  have N: "ed_in_subgroup ?E N" "compact_balance_commitment ?E (ns_current_balance s') b (state_note_leaf (ce_poseidon env) s') = point_to_wire ?E N"
    "rr2_next_commitment resp = point_to_wire ?E N"
    using in_subgroup_commitment [OF E] b response_next_state_commitment [OF nxt]
    by (simp_all add: N_def note_opens_def compact_balance_commitment_def)
  let ?anon = "compact_balance_commitment ?E (ns_current_balance s') (add_blindings b (pj_user_rerandomization j))
    (state_note_leaf (ce_poseidon env) s')"
  have ctx: "pending_context env no_faults w2 disk' = Inr (j, ?anon)"
    using pending_context_Inr [OF assms(1) w2(2) b] j by (simp add: paths)
  have rerand: "compact_rerandomize ?E (point_to_wire ?E N) (pj_user_rerandomization j) = Inr ?anon"
    using compact_rerandomize_commitment [OF E] by (simp flip: N(2))
  obtain e where e: "compact_server_update ?E ?anon ?c ?d = Inr e"
    using point_round_trip [OF E in_subgroup_commitment [OF E]]
    by (auto simp: compact_server_update_def compact_balance_commitment_def)
  have "complete_pending_response env no_faults resp w2 disk'
      = ((w2, disk'), Inl (VerificationFailed (Msg ''next commitment algebra mismatch'')))" if "e \<noteq> rr2_next_commitment resp"
    using ctx response_next_state_again [OF nxt paths(2) e that]
    by (simp add: complete_pending_response_def apply_response_def)
  moreover have "nsmul (unat ?c) (ed_generator ?E) = nsmul (scalar (pj_user_rerandomization j) + scalar ?d) (ed_H ?E)"
    if "e = rr2_next_commitment resp"
    using update_twice [OF E N(1) rerand e] that N(3) by simp
  moreover have "prepare_request env no_faults dr payload h root siblings w2 disk' = (disk', Inl PendingRequest)"
    using j by (simp add: prepare_request_def has_pending_request_def res_ok_def paths)
  ultimately show ?thesis using j paths(1) by metis
qed

theorem interrupted_completion_wedges_witness:
  "\<exists>w2 disk'. prepare_request toy_client no_faults toy_draws ''next'' 0 0 [] w2 disk' = (disk', Inl PendingRequest) \<and>
     w_state w2 = Some toy_next_note"
proof -
  obtain disk j where reach: "wallet_reachable toy_client toy_config (toy_wallet, disk)"
    and applied: "w_state (fst (fst (complete_pending_response toy_client clear_fails toy_response toy_wallet disk))) = Some toy_next_note"
    using toy_pending by (metis (no_types, lifting) no_faults_def clear_fails_def io_faults.select_convs(1-4) io_faults.update_convs(5))
  obtain w' disk' r where res: "complete_pending_response toy_client clear_fails toy_response toy_wallet disk = ((w', disk'), r)"
    by (metis prod.collapse)
  have changed: "w_state w' \<noteq> w_state toy_wallet"
    using applied res by (simp add: toy_wallet_def toy_next_note_def toy_note_def new_from_deposit_def)
  have inv: "wallet_inv toy_client toy_config (w', disk')"
    using complete_cases [OF toy_client_ok wallet_inv_reachable [OF toy_client_ok toy_config_ok reach] toy_response_canonical res] by blast
  then obtain d where "disk' [''zkapi'', ''note_state.json''] = Some d" "state_from_json (ce_json toy_client) d = Some toy_next_note"
    using applied res by (auto simp: wallet_inv_def toy_config_def)
  then obtain w2 where "wallet_new toy_client no_faults toy_config disk' = Inr w2"
    by (auto simp: wallet_new_def create_dir_all_def bail_if_def no_faults_def Let_def toy_config_def state_load_def read_to_string_def)
  with interrupted_completion_wedges [OF toy_client_ok toy_config_ok reach toy_response_canonical res changed this, of toy_draws "''next''" 0 0 "[]"]
    wallet_inv_restart [OF inv this] applied res show ?thesis by auto
qed

text \<open>Claim C17. What a wallet holds is always a well-formed note: in every state that operations, disk
  failures and restarts can lead to, a note in memory is the one in the state file; its secret is
  nonzero, its field elements are canonical, its balance is at most the deposit, its stored blinding
  parses and opens the stored commitment for exactly this note and balance, and it is either an unused
  deposit or carries a server signature that verifies under the configured key.\<close>

theorem reachable_note_well_formed:
  assumes "env_ok env" "config_ok env config" "wallet_reachable env config (w, disk)" "w_state w = Some s"
  shows "(\<exists>d. disk (w_state_path w) = Some d \<and> state_from_json (ce_json env) d = Some s) \<and>
    ns_secret_s s \<noteq> 0 \<and> canonical (ns_secret_s s) \<and> canonical (ns_contract_address s) \<and> canonical (ns_current_anchor s) \<and>
    canonical (ns_current_commitment_x s) \<and> canonical (ns_current_commitment_y s) \<and>
    ns_current_balance s \<le> ns_deposit_amount s \<and>
    (\<exists>b. parse_scalar (ns_balance_blinding s) = Inr b \<and>
       compact_balance_commitment (ce_curve env) (ns_current_balance s) b (state_note_leaf (ce_poseidon env) s)
         = \<lparr>cp_x = ns_current_commitment_x s, cp_y = ns_current_commitment_y s\<rparr>) \<and>
    (if ns_is_genesis s
     then ns_current_anchor s = ONE \<and> ns_current_balance s = ns_deposit_amount s \<and> ns_state_signature s = None
     else \<exists>sig. ns_state_signature s = Some sig \<and>
       compact_verify_signature (ce_curve env) (ce_poseidon env) (cc_state_signing_key config)
         (state_message (ce_poseidon env) (ns_protocol_version s) (ns_chain_id s) (ns_contract_address s)
            (ns_current_commitment_x s) (ns_current_commitment_y s) (ns_current_anchor s)) sig = Inr True)"
proof -
  have "note_inv env config s" and "\<exists>d. disk (w_state_path w) = Some d \<and> state_from_json (ce_json env) d = Some s"
    using wallet_inv_reachable [OF assms(1-3)] assms(4) by (auto simp: wallet_inv_def)
  then show ?thesis
    unfolding note_inv_def state_canonical_def note_opens_def note_signed_def by blast
qed

theorem reachable_note_well_formed_witness:
  "\<exists>b. parse_scalar (ns_balance_blinding toy_note) = Inr b \<and>
     compact_balance_commitment jub_curve 100 b (state_note_leaf (\<lambda>_. 0) toy_note)
       = \<lparr>cp_x = ns_current_commitment_x toy_note, cp_y = ns_current_commitment_y toy_note\<rparr>"
proof -
  have "w_state toy_wallet = Some toy_note" by (simp add: toy_wallet_def)
  from reachable_note_well_formed [OF toy_client_ok toy_config_ok toy_reachable this]
  show ?thesis by (simp add: toy_client_def toy_note_def new_from_deposit_def)
qed

end
