(* ===== verification/Indexer.thy ===== *)
theory Indexer
  imports Merkle
begin

text \<open>
  The indexer (\<open>zkapi-indexer\<close>): contract events (\<open>events.rs\<close>), the tree mirror that replays them
  (\<open>tree_mirror.rs\<close>) and the read interface of the service (\<open>service.rs\<close>). The mirror uses the tree
  through the interface \<open>authenticated_store\<close>. The lock of the service is held for one read or one
  event, so its operations are the atomic functions below.
\<close>

section \<open>Model\<close>

datatype VaultEvent =
    NoteDeposited (ev_note_id: u32) (ev_commitment: felt) (ev_amount: u128) (ev_expiry_ts: u64)
      (ev_new_root: felt)
  | MutualClose (ev_note_id: u32) (ev_nullifier: felt) (ev_final_balance: u128)
  | EscapeWithdrawalInitiated (ev_note_id: u32) (ev_nullifier: felt) (ev_final_balance: u128)
      (ev_challenge_deadline: u64) (ev_new_root: felt)
  | EscapeWithdrawalChallenged (ev_note_id: u32) (ev_nullifier: felt) (ev_restored_root: felt)
  | EscapeWithdrawalFinalized (ev_note_id: u32) (ev_nullifier: felt) (ev_final_balance: u128)
  | ExpiredClaimed (ev_note_id: u32) (ev_deposit_amount: u128) (ev_new_root: felt)

record TreeMirror =
  tree :: MerkleTree
  original_leaves :: "u32 \<rightharpoonup> felt"

definition TreeMirror_new :: "poseidon \<Rightarrow> TreeMirror" where
  "TreeMirror_new P = \<lparr>tree = MerkleTree_new P, original_leaves = Map.empty\<rparr>"

definition mirror_root :: "TreeMirror \<Rightarrow> felt" where
  "mirror_root m = tree_root (tree m)"

definition next_note_id :: "TreeMirror \<Rightarrow> u32" where
  "next_note_id m = next_index (tree m)"

definition get_path :: "TreeMirror \<Rightarrow> u32 \<Rightarrow> felt list" where
  "get_path m note_id = get_siblings (tree m) note_id"

definition get_zero_path :: "TreeMirror \<Rightarrow> u32 \<Rightarrow> felt list" where
  "get_zero_path m note_id = get_siblings (tree m) note_id"

definition mirror_get_leaf :: "TreeMirror \<Rightarrow> u32 \<Rightarrow> felt" where
  "mirror_get_leaf m note_id = get_leaf (tree m) note_id"

fun process_event :: "poseidon \<Rightarrow> VaultEvent \<Rightarrow> TreeMirror \<Rightarrow> TreeMirror" where
  "process_event P (NoteDeposited note_id commitment amount expiry_ts _) m =
     (let leaf = compute_note_leaf P note_id commitment amount expiry_ts in
      m\<lparr>tree := set_leaf P (tree m) note_id leaf,
        original_leaves := (original_leaves m)(note_id \<mapsto> leaf)\<rparr>)"
| "process_event P (MutualClose note_id _ _) m = m\<lparr>tree := set_leaf P (tree m) note_id ZERO\<rparr>"
| "process_event P (EscapeWithdrawalInitiated note_id _ _ _ _) m =
     m\<lparr>tree := set_leaf P (tree m) note_id ZERO\<rparr>"
| "process_event P (EscapeWithdrawalChallenged note_id _ _) m =
     (case original_leaves m note_id of
        Some original \<Rightarrow> m\<lparr>tree := set_leaf P (tree m) note_id original\<rparr>
      | None \<Rightarrow> m)"
| "process_event P (EscapeWithdrawalFinalized _ _ _) m = m"
| "process_event P (ExpiredClaimed note_id _ _) m = m\<lparr>tree := set_leaf P (tree m) note_id ZERO\<rparr>"

text \<open>The responses of the service.\<close>

record TreePathResponse =
  tp_note_id :: u32
  tp_leaf :: felt
  tp_siblings :: "felt list"

definition service_get_note_path :: "TreeMirror \<Rightarrow> u32 \<Rightarrow> felt list" where
  "service_get_note_path m note_id = get_path m note_id"

definition service_get_leaf :: "TreeMirror \<Rightarrow> u32 \<Rightarrow> felt" where
  "service_get_leaf m note_id = mirror_get_leaf m note_id"

definition service_get_root :: "TreeMirror \<Rightarrow> felt" where
  "service_get_root m = mirror_root m"

definition service_get_next_note_id :: "TreeMirror \<Rightarrow> u32" where
  "service_get_next_note_id m = next_note_id m"

definition service_get_zero_path :: "TreeMirror \<Rightarrow> u32 \<Rightarrow> felt list" where
  "service_get_zero_path m note_id = get_zero_path m note_id"


section \<open>Replaying events\<close>

definition replay :: "poseidon \<Rightarrow> VaultEvent list \<Rightarrow> TreeMirror \<Rightarrow> TreeMirror" where
  "replay P es m = fold (process_event P) es m"

lemma replay_simps [simp]:
  "replay P [] m = m" "replay P (e # es) m = replay P es (process_event P e m)"
  "replay P (es @ fs) m = replay P fs (replay P es m)"
  by (simp_all add: replay_def)

text \<open>The life of one note: its current leaf and the leaf it was deposited with. Only the events of
  that note matter.\<close>

fun note_step :: "poseidon \<Rightarrow> VaultEvent \<Rightarrow> felt \<times> felt option \<Rightarrow> felt \<times> felt option" where
  "note_step P (NoteDeposited i c a e _) s =
     (compute_note_leaf P i c a e, Some (compute_note_leaf P i c a e))"
| "note_step P (EscapeWithdrawalChallenged _ _ _) (cur, orig) = (unwrap_or cur orig, orig)"
| "note_step P (EscapeWithdrawalFinalized _ _ _) s = s"
| "note_step P (MutualClose _ _ _) (cur, orig) = (0, orig)"
| "note_step P (EscapeWithdrawalInitiated _ _ _ _ _) (cur, orig) = (0, orig)"
| "note_step P (ExpiredClaimed _ _ _) (cur, orig) = (0, orig)"

definition note_view :: "TreeMirror \<Rightarrow> u32 \<Rightarrow> felt \<times> felt option" where
  "note_view m i = (mirror_get_leaf m i, original_leaves m i)"

definition mirror_inv :: "poseidon \<Rightarrow> TreeMirror \<Rightarrow> bool" where
  "mirror_inv P m \<longleftrightarrow> merkle_inv P (tree m)"

lemma mirror_inv_new: "mirror_inv P (TreeMirror_new P)"
  by (simp add: mirror_inv_def TreeMirror_new_def merkle_inv_new)

lemma mirror_inv_process: "mirror_inv P m \<Longrightarrow> mirror_inv P (process_event P e m)"
  by (cases e) (auto simp: mirror_inv_def Let_def mt.ok_store split: option.split)

lemma note_view_process:
  assumes "mirror_inv P m"
  shows "note_view (process_event P e m) i =
    (if ev_note_id e = i then note_step P e (note_view m i) else note_view m i)"
  using assms
  by (cases e) (auto simp: mirror_inv_def note_view_def mirror_get_leaf_def mt.look_store Let_def
      unwrap_or_def split: option.split)

lemma mirror_inv_replay: "mirror_inv P m \<Longrightarrow> mirror_inv P (replay P es m)"
  by (induction es arbitrary: m) (simp_all add: mirror_inv_process)

lemma note_view_replay:
  "mirror_inv P m \<Longrightarrow>
   note_view (replay P es m) i = fold (note_step P) (filter (\<lambda>e. ev_note_id e = i) es) (note_view m i)"
  by (induction es arbitrary: m) (simp_all add: mirror_inv_process note_view_process)

lemma mirror_root_cong:
  assumes "mirror_inv P m" "mirror_inv P m'" "\<And>i. mirror_get_leaf m i = mirror_get_leaf m' i"
  shows "mirror_root m = mirror_root m'"
  using assms mt.root_cong [of P "tree m" "tree m'"]
  by (simp add: mirror_inv_def mirror_root_def mirror_get_leaf_def fun_eq_iff)

lemma next_note_id_process: "next_note_id (process_event P e m) = next_note_id m"
  by (cases e) (auto simp: next_note_id_def Let_def split: option.split)

lemma next_note_id_replay: "next_note_id (replay P es m) = next_note_id m"
  by (induction es arbitrary: m) (simp_all add: next_note_id_process)


section \<open>Properties\<close>

text \<open>Claim C29. After any history of events each note's leaf is the outcome of that note's own
  events, in order, whatever happened to other notes, and the path served for it verifies against
  the served root.\<close>

theorem indexer_serves_history:
  "let m = replay P es (TreeMirror_new P) in
     service_get_leaf m i =
       fst (fold (note_step P) (filter (\<lambda>e. ev_note_id e = i) es) (0, None)) \<and>
     verify_membership P (service_get_root m) i (service_get_leaf m i) (service_get_note_path m i)"
proof -
  let ?m = "replay P es (TreeMirror_new P)"
  have "note_view (TreeMirror_new P) i = (0, None)"
    by (simp add: note_view_def mirror_get_leaf_def TreeMirror_new_def new_leaf)
  then have "note_view ?m i = fold (note_step P) (filter (\<lambda>e. ev_note_id e = i) es) (0, None)"
    by (simp add: note_view_replay mirror_inv_new)
  moreover have "merkle_inv P (tree ?m)"
    using mirror_inv_replay [OF mirror_inv_new] by (simp add: mirror_inv_def)
  ultimately show ?thesis using mt.member [of P "tree ?m" i]
    by (auto simp: Let_def service_get_leaf_def service_get_root_def service_get_note_path_def
        verify_membership_def mirror_root_def mirror_get_leaf_def get_path_def note_view_def
        dest: arg_cong [where f = fst])
qed

text \<open>A challenged escape withdrawal leaves no trace: when a deposited note is withdrawn
  through the escape hatch, other notes change arbitrarily and the withdrawal is challenged, the root
  is the one the other notes' events alone would have produced.\<close>

lemma challenge_restores_root:
  assumes "mirror_inv P m" "original_leaves m i = Some (mirror_get_leaf m i)"
    and "\<forall>e \<in> set es. ev_note_id e \<noteq> i"
  shows "mirror_root (replay P (EscapeWithdrawalInitiated i n b d r # es @
           [EscapeWithdrawalChallenged i n r']) m) = mirror_root (replay P es m)"
    (is "mirror_root ?m = mirror_root ?m'")
proof (rule mirror_root_cong)
  show "mirror_inv P ?m" "mirror_inv P ?m'" using assms(1) 
    by (simp_all add: mirror_inv_replay mirror_inv_process del: process_event.simps)
  have none: "filter (\<lambda>e. ev_note_id e = i) es = []" using assms(3) by (simp add: filter_empty_conv)
  have "note_view ?m j = note_view ?m' j" for j
  proof (cases "j = i")
    case True
    then show ?thesis using assms(1,2) none
      by (simp add: note_view_replay del: replay_simps) (simp add: note_view_def unwrap_or_def)
  next
    case False
    then show ?thesis using assms(1) by (simp add: note_view_replay del: replay_simps)
  qed
  then show "mirror_get_leaf ?m j = mirror_get_leaf ?m' j" for j
    by (metis note_view_def fst_conv)
qed

text \<open>The next note identifier served by the indexer is zero after every history: deposits
  set leaves without advancing the tree's insertion counter.\<close>

lemma next_note_id_stuck:
  "service_get_next_note_id (replay P es (TreeMirror_new P)) = 0"
  by (simp add: service_get_next_note_id_def next_note_id_replay)
    (simp add: next_note_id_def TreeMirror_new_def MerkleTree_new_def)


end
