(* ===== verification/Fixture_Properties.thy ===== *)
theory Fixture_Properties
  imports Fixtures Contract Wallet_Properties Indexer
begin

text \<open>
  The fixture programs work: on a directory that \<open>setup\<close> filled, every statement they build is true, every
  proof passes their own verification, and the generated contract accepts the printed calldata. The notes of
  the programs are instances of the wallet's notes, so the results about requests and withdrawals of a note
  carry over.
\<close>

section \<open>Notes of the programs\<close>

definition fixture_client :: "'e edwards \<Rightarrow> poseidon \<Rightarrow> codec \<Rightarrow> ('e, wallet_doc) client_env" where
  "fixture_client E P K =
     \<lparr>ce_curve = E, ce_poseidon = P, ce_keccak = (\<lambda>_. replicate 32 0), ce_codec = K, ce_json = doc_json,
      ce_request_prover = (\<lambda>_. None), ce_withdrawal_prover = (\<lambda>_. None)\<rparr>"

lemma fixture_client_simps [simp]:
  "ce_curve (fixture_client E P K) = E" "ce_poseidon (fixture_client E P K) = P"
  by (simp_all add: fixture_client_def)

lemma fixture_client_ok: "edwards_wire_ok E \<Longrightarrow> poseidon_ok P \<Longrightarrow> env_ok (fixture_client E P K)"
  by (auto simp: env_ok_def state_encodable_def journal_encodable_def doc_json_def fixture_client_def keccak_ok_def
      split: wallet_doc.splits if_splits)

text \<open>The parties: signers made from the seeds 1 and 2.\<close>

definition fixture_config :: "'e::ab_group_add edwards \<Rightarrow> felt \<Rightarrow> u128 \<Rightarrow> ClientConfig" where
  "fixture_config E contract cap =
     \<lparr>cc_protocol_version = 2, cc_chain_id = 31337, cc_contract_address = contract, cc_request_charge_cap = cap,
      cc_policy_charge_cap = cap, cc_policy_enabled = False, cc_server_url = [], cc_state_dir = [],
      cc_trusted_epoch_roots = [], cc_proof_mode = Groth16 [],
      cc_state_signing_key = signer_public_key E (from_seed E (from_u64 1)),
      cc_clearance_signing_key = signer_public_key E (from_seed E (from_u64 2))\<rparr>"

lemma signer_key:
  assumes "edwards_wire_ok E"
  shows "\<exists>k. point_from_wire E (signer_public_key E (from_seed E seed)) = Inr k"
    "canonical (cp_x (signer_public_key E cs))" "canonical (cp_y (signer_public_key E cs))"
proof -
  show "\<exists>k. point_from_wire E (signer_public_key E (from_seed E seed)) = Inr k"
    using point_round_trip [OF assms in_subgroup_nsmul [OF assms edwards_wire_okD(6) [OF assms]]]
    by (auto simp: signer_public_key_def from_seed_def from_secret_def Let_def)
  show "canonical (cp_x (signer_public_key E cs))" "canonical (cp_y (signer_public_key E cs))"
    using edwards_wire_okD(2,3) [OF assms]
    by (simp_all add: signer_public_key_def point_to_wire_def canonical_def unat_field_to_felt)
qed

lemma fixture_keys_ok: "edwards_wire_ok E \<Longrightarrow> keys_ok (fixture_client E P K) (fixture_config E contract cap)"
  by (simp add: keys_ok_def fixture_config_def signer_key(1))

lemma fixture_cap [simp]: "wallet_cap (fixture_config E contract cap) = cap"
  by (simp add: wallet_cap_def fixture_config_def)

definition fixture_leaf :: "poseidon \<Rightarrow> u128 \<Rightarrow> u64 \<Rightarrow> FixtureNote \<Rightarrow> felt" where
  "fixture_leaf P deposit expiry note =
     note_leaf P (fn_id note) (registration_commitment P (fn_secret note)) deposit expiry"

definition fixture_commitment :: "'e::ab_group_add edwards \<Rightarrow> poseidon \<Rightarrow> u128 \<Rightarrow> u64 \<Rightarrow> FixtureNote \<Rightarrow> CurvePointWire" where
  "fixture_commitment E P deposit expiry note =
     compact_balance_commitment E (fn_balance note) (fn_blinding note) (fixture_leaf P deposit expiry note)"

definition fixture_state ::
    "'e::ab_group_add edwards \<Rightarrow> poseidon \<Rightarrow> felt \<Rightarrow> u128 \<Rightarrow> u64 \<Rightarrow> FixtureNote \<Rightarrow> NoteState" where
  "fixture_state E P contract deposit expiry note =
     (let com = fixture_commitment E P deposit expiry note in
      \<lparr>ns_protocol_version = 2, ns_chain_id = 31337, ns_contract_address = contract, ns_note_id = fn_id note,
       ns_secret_s = fn_secret note, ns_deposit_amount = deposit, ns_expiry_ts = expiry,
       ns_current_balance = fn_balance note, ns_balance_blinding = to_hex (fn_blinding note),
       ns_current_commitment_x = cp_x com, ns_current_commitment_y = cp_y com,
       ns_current_anchor = fn_anchor note, ns_is_genesis = (fn_signature note = None),
       ns_state_signature = fn_signature note\<rparr>)"

text \<open>An unused deposit, or a state signed by the signer of seed 1.\<close>

definition fixture_note_ok ::
    "'e::ab_group_add edwards \<Rightarrow> poseidon \<Rightarrow> felt \<Rightarrow> u128 \<Rightarrow> u64 \<Rightarrow> FixtureNote \<Rightarrow> bool" where
  "fixture_note_ok E P contract deposit expiry note \<longleftrightarrow>
     canonical contract \<and> canonical (fn_secret note) \<and> fn_secret note \<noteq> 0 \<and> canonical (fn_blinding note) \<and>
     canonical (fn_anchor note) \<and> fn_balance note \<le> deposit \<and>
     (case fn_signature note of
        None \<Rightarrow> fn_anchor note = ONE \<and> fn_balance note = deposit
      | Some sig \<Rightarrow> (\<exists>nonce. let com = fixture_commitment E P deposit expiry note in
          sig = compact_sign E P (from_seed E (from_u64 1)) nonce
            (state_message P 2 31337 contract (cp_x com) (cp_y com) (fn_anchor note))))"

lemma fixture_state_leaf [simp]:
  "state_note_leaf P (fixture_state E P contract deposit expiry note) = fixture_leaf P deposit expiry note"
  by (simp add: state_note_leaf_def fixture_state_def fixture_leaf_def Let_def)

lemma fixture_note_opens:
  assumes "fixture_note_ok E P contract deposit expiry note"
  shows "note_opens (fixture_client E P K) (fixture_state E P contract deposit expiry note) (fn_blinding note)"
  unfolding note_opens_def fixture_client_simps fixture_state_leaf
  using assms by (simp add: fixture_state_def fixture_note_ok_def fixture_commitment_def Let_def parse_scalar_to_hex)

lemma fixture_note_inv:
  assumes "edwards_wire_ok E" "fixture_note_ok E P contract deposit expiry note"
  shows "note_inv (fixture_client E P K) (fixture_config E contract cap) (fixture_state E P contract deposit expiry note)"
proof -
  note opens = fixture_note_opens [OF assms(2), of K]
  show ?thesis
    using assms(2) opens canonical_commitment [OF assms(1)] compact_sign_canonical [OF assms(1)]
      compact_signature_verifies [OF assms(1)]
    by (auto simp: note_inv_def state_canonical_def note_signed_def fixture_note_ok_def fixture_state_def
        fixture_config_def fixture_commitment_def Let_def split: option.splits)
qed

section \<open>Proved, verified and accepted\<close>

text \<open>The laws of the library and of the chain, for the prover, the verifier and the contract.\<close>

definition example_laws ::
    "('e::ab_group_add, 'g::ab_group_add, 'h::ab_group_add, 't::ab_group_add, 'k) example_env \<Rightarrow> precompiles \<Rightarrow> bool" where
  "example_laws env pc \<longleftrightarrow>
     edwards_wire_ok (xe_curve env) \<and> poseidon_ok (xe_poseidon env) \<and> codec_ok (xe_codec env) \<and>
     bn254_ok (xe_codec env) (se_bn254 (xe_setup env)) \<and> precompiles_ok (xe_codec env) (se_bn254 (xe_setup env)) pc \<and>
     (\<forall>n. request_keys_complete (xe_setup env) (xe_codec env) (xe_poseidon env) (xe_prove_request env n)) \<and>
     (\<forall>n. withdrawal_keys_complete (xe_setup env) (xe_codec env) (xe_poseidon env) (xe_prove_withdrawal env n)) \<and>
     (\<forall>vk. groth16_law (se_bn254 (xe_setup env)) vk (xe_verify env vk))"

lemma example_laws_curve:
  assumes "example_laws env pc"
  shows "edwards_wire_ok (xe_curve env)" "poseidon_ok (xe_poseidon env)"
  using assms by (simp_all add: example_laws_def)

lemma request_words:
  "sol_request_inputs pub = Some inputs \<Longrightarrow> r2_to_field_elements pub = sol_request_values inputs"
  by (auto simp: sol_request_inputs_def r2_to_field_elements_def sol_request_values_def word_unat_eq_iff
      felt_to_address_eq_Some unat_from_u64 unat_from_u128 unat_ucast_word unat_ucast_up)

lemma withdrawal_words:
  "sol_withdrawal_inputs pub = Some inputs \<Longrightarrow> w2_to_field_elements pub = sol_withdrawal_values inputs"
  by (auto simp: sol_withdrawal_inputs_def w2_to_field_elements_def sol_withdrawal_values_def word_unat_eq_iff
      felt_to_address_eq_Some unat_from_u64 unat_from_u128 unat_ucast_word unat_ucast_up destination_field_def
      unat_address_to_felt [unfolded address_to_felt_def])

text \<open>Calldata and proof that the contract accepts, for a root and a nullifier.\<close>

definition request_calldata :: "precompiles \<Rightarrow> SolVk \<Rightarrow> felt list \<Rightarrow> u8 list \<Rightarrow> felt \<Rightarrow> felt \<Rightarrow> bool" where
  "request_calldata pc vk words bytes root nul \<longleftrightarrow>
     (\<exists>inputs. words = sol_request_values inputs \<and> assertValidRequest pc vk inputs bytes = Some () \<and>
        si_activeRoot inputs = root \<and> si_requestNullifier inputs = nul)"

definition withdrawal_calldata ::
    "precompiles \<Rightarrow> SolVk \<Rightarrow> felt list \<Rightarrow> u8 list \<Rightarrow> felt \<Rightarrow> felt \<Rightarrow> u128 \<Rightarrow> bool \<Rightarrow> bool" where
  "withdrawal_calldata pc vk words bytes root nul balance clearance \<longleftrightarrow>
     (\<exists>inputs. words = sol_withdrawal_values inputs \<and> assertValidWithdrawal pc vk inputs bytes = Some () \<and>
        sw_activeRoot inputs = root \<and> sw_withdrawalNullifier inputs = nul \<and> sw_finalBalance inputs = balance \<and>
        sw_hasClearance inputs = clearance)"

lemma fixture_request_accepted:
  assumes laws: "example_laws env pc" and setup_run: "se_request_setup (xe_setup env) c = Some (pk, vk)"
    and note_ok: "fixture_note_ok (xe_curve env) (xe_poseidon env) contract deposit expiry note"
    and s: "s = fixture_state (xe_curve env) (xe_poseidon env) contract deposit expiry note"
    and "length siblings = MERKLE_DEPTH" "cap \<le> fn_balance note" "now \<le> expiry"
    and addr: "felt_to_address contract = Some a"
    and com: "com = compact_balance_commitment (xe_curve env) (fn_balance note) (add_blindings (fn_blinding note) rho)
      (fixture_leaf (xe_poseidon env) deposit expiry note)"
    and root: "root = merkle_root (xe_poseidon env) (fn_id note) (fixture_leaf (xe_poseidon env) deposit expiry note) siblings"
    and pub: "pub = note_request (xe_poseidon env) (fixture_config (xe_curve env) contract cap) s root now ctx com"
  shows "\<exists>wire bytes. request_prove (xe_curve env) (xe_poseidon env) (xe_codec env) (xe_prove_request env n pk) pub
      (note_request_data s (fn_blinding note) rho ctx siblings) = Inr wire \<and>
    request_verify (xe_curve env) (xe_codec env) (xe_verify env vk) pub wire = Inr True \<and>
    b64_decode (xe_codec env) (gw_proof wire) = Some bytes \<and>
    request_calldata pc (sol_vk_of (se_bn254 (xe_setup env)) vk) (r2_to_field_elements pub) bytes root
      (nullifier (xe_poseidon env) (fn_secret note) (fn_anchor note))"
proof -
  let ?E = "xe_curve env" and ?P = "xe_poseidon env" and ?K = "xe_codec env" and ?se = "xe_setup env"
  let ?cfg = "fixture_config ?E contract cap" and ?client = "fixture_client ?E ?P ?K"
  note EP = example_laws_curve [OF laws]
  have keys: "request_keys_complete ?se ?K ?P (xe_prove_request env n)" using laws by (simp add: example_laws_def)
  have state: "ns_current_balance s = fn_balance note" "ns_expiry_ts s = expiry" "ns_note_id s = fn_id note"
    "ns_secret_s s = fn_secret note" "ns_current_anchor s = fn_anchor note" "ns_contract_address s = contract"
    by (simp_all add: s fixture_state_def Let_def)
  have member: "note_member ?P s root siblings" using assms(5) by (simp add: note_member_def root state) (simp add: s)
  have prover: "\<forall>p w. request_constraints ?E ?P p (request_assignment p w) \<longrightarrow> xe_prove_request env n pk p w \<noteq> None"
    using keys setup_run unfolding request_keys_complete_def by fastforce
  note inv = fixture_note_inv [OF EP(1) note_ok, folded s] fixture_note_opens [OF note_ok, folded s]
  have funds: "wallet_cap ?cfg \<le> ns_current_balance s" "now \<le> ns_expiry_ts s" using assms(6,7) by (simp_all add: state)
  have "com = compact_balance_commitment ?E (ns_current_balance s) (add_blindings (fn_blinding note) rho)
      (state_note_leaf ?P s)"
    by (simp add: com state) (simp add: s)
  then obtain pf where prove: "request_prove ?E ?P ?K (xe_prove_request env n pk) pub
      (note_request_data s (fn_blinding note) rho ctx siblings) = Inr (proof_to_wire ?K pf)"
    unfolding pub
    using note_request_proved [OF fixture_client_ok [OF EP] fixture_keys_ok [OF EP(1)] inv,
        unfolded fixture_client_simps, OF member funds _ prover] by blast
  obtain inputs where inputs: "sol_request_inputs pub = Some inputs"
    by (simp add: sol_request_inputs_def pub note_request_def state addr Let_def)
  have "siblings \<noteq> []" using assms(5) by (auto simp: MERKLE_DEPTH_def)
  then have "canonical root" by (simp add: root canonical_merkle_root [OF EP(2)])
  then have "\<forall>v \<in> set (sol_request_values inputs). canonical v"
    using inputs canonical_commitment [OF EP(1)] signer_key(2,3) [OF EP(1)]
    by (auto simp: sol_request_inputs_def sol_request_values_def canonical_ucast pub note_request_def Let_def
        fixture_config_def nullifier_def authorization_tag_def canonical_hash_domain [OF EP(2)] com)
  note accepted = proved_request_accepted [OF EP(1) _ _ _ keys setup_run _ prove inputs this, of pc "xe_verify env vk"]
  have "si_activeRoot inputs = root" "si_requestNullifier inputs = nullifier ?P (fn_secret note) (fn_anchor note)"
    using inputs by (auto simp: sol_request_inputs_def pub note_request_def Let_def state)
  then show ?thesis
    using prove accepted laws request_words [OF inputs] unfolding example_laws_def request_calldata_def by metis
qed

lemma fixture_withdrawal_accepted:
  assumes laws: "example_laws env pc" and setup_run: "se_withdrawal_setup (xe_setup env) c = Some (pk, vk)"
    and note_ok: "fixture_note_ok (xe_curve env) (xe_poseidon env) contract deposit expiry note"
    and s: "s = fixture_state (xe_curve env) (xe_poseidon env) contract deposit expiry note"
    and "length siblings = MERKLE_DEPTH"
    and clear: "case csig of None \<Rightarrow> \<not> clearance | Some sig \<Rightarrow> (\<exists>nonce. sig =
      compact_sign (xe_curve env) (xe_poseidon env) (from_seed (xe_curve env) (from_u64 2)) nonce
        (clearance_message (xe_poseidon env) 2 31337 contract
          (nullifier (xe_poseidon env) (fn_secret note) (fn_anchor note))))"
    and addr: "felt_to_address contract = Some a"
    and root: "root = merkle_root (xe_poseidon env) (fn_id note) (fixture_leaf (xe_poseidon env) deposit expiry note) siblings"
    and pub: "pub = note_withdrawal (xe_poseidon env) (fixture_config (xe_curve env) contract cap) s root dest clearance"
  shows "\<exists>wire bytes. withdrawal_prove (xe_curve env) (xe_poseidon env) (xe_codec env) (xe_prove_withdrawal env n pk) pub
      (note_withdrawal_data s (fn_blinding note) siblings csig) = Inr wire \<and>
    withdrawal_verify (xe_curve env) (xe_codec env) (xe_verify env vk) pub wire = Inr True \<and>
    b64_decode (xe_codec env) (gw_proof wire) = Some bytes \<and>
    withdrawal_calldata pc (sol_vk_of (se_bn254 (xe_setup env)) vk) (w2_to_field_elements pub) bytes root
      (nullifier (xe_poseidon env) (fn_secret note) (fn_anchor note)) (fn_balance note) clearance"
proof -
  let ?E = "xe_curve env" and ?P = "xe_poseidon env" and ?K = "xe_codec env" and ?se = "xe_setup env"
  let ?cfg = "fixture_config ?E contract cap" and ?nul = "nullifier ?P (fn_secret note) (fn_anchor note)"
  note EP = example_laws_curve [OF laws]
  have keys: "withdrawal_keys_complete ?se ?K ?P (xe_prove_withdrawal env n)" using laws by (simp add: example_laws_def)
  have state: "ns_current_balance s = fn_balance note" "ns_note_id s = fn_id note" "ns_secret_s s = fn_secret note"
    "ns_current_anchor s = fn_anchor note" "ns_contract_address s = contract" "ns_protocol_version s = 2"
    "ns_chain_id s = 31337"
    by (simp_all add: s fixture_state_def Let_def)
  have member: "note_member ?P s root siblings"
    using assms(5) by (simp add: note_member_def root state) (simp add: s)
  have prover: "\<forall>p w. withdrawal_constraints ?E ?P p (withdrawal_assignment p w) \<longrightarrow>
      xe_prove_withdrawal env n pk p w \<noteq> None"
    using keys setup_run unfolding withdrawal_keys_complete_def by fastforce
  have clear': "case csig of None \<Rightarrow> \<not> clearance | Some sig \<Rightarrow>
      compact_verify_signature ?E ?P (cc_clearance_signing_key ?cfg)
        (clearance_message ?P (ns_protocol_version s) (ns_chain_id s) (ns_contract_address s)
           (nullifier ?P (ns_secret_s s) (ns_current_anchor s))) sig = Inr True"
    using clear compact_signature_verifies [OF EP(1)]
    by (auto simp: state fixture_config_def split: option.splits)
  note inv = fixture_note_inv [OF EP(1) note_ok, folded s] fixture_note_opens [OF note_ok, folded s]
  obtain pf where prove: "withdrawal_prove ?E ?P ?K (xe_prove_withdrawal env n pk) pub
      (note_withdrawal_data s (fn_blinding note) siblings csig) = Inr (proof_to_wire ?K pf)"
    using note_withdrawal_proved [where root = root and siblings = siblings and csig = csig and K = ?K
        and prover = "xe_prove_withdrawal env n pk" and dest = dest and has_clearance = clearance,
        OF fixture_client_ok [OF EP] fixture_keys_ok [OF EP(1)] inv] member clear' prover
    unfolding pub fixture_client_simps by blast
  obtain inputs where inputs: "sol_withdrawal_inputs pub = Some inputs"
    by (simp add: sol_withdrawal_inputs_def pub note_withdrawal_def state addr Let_def)
  have "siblings \<noteq> []" using assms(5) by (auto simp: MERKLE_DEPTH_def)
  then have "canonical root" by (simp add: root canonical_merkle_root [OF EP(2)])
  then have "\<forall>v \<in> set (sol_withdrawal_values inputs). canonical v"
    using inputs signer_key(2,3) [OF EP(1)]
    by (auto simp: sol_withdrawal_inputs_def sol_withdrawal_values_def canonical_ucast pub note_withdrawal_def Let_def
        fixture_config_def nullifier_def withdrawal_tag_def canonical_hash_domain [OF EP(2)] canonical_small)
  note accepted = proved_withdrawal_accepted [OF EP(1) _ _ _ keys setup_run _ prove inputs this, of pc "xe_verify env vk"]
  have "sw_activeRoot inputs = root" "sw_withdrawalNullifier inputs = ?nul" "sw_finalBalance inputs = fn_balance note"
    "sw_hasClearance inputs = clearance"
    using inputs by (auto simp: sol_withdrawal_inputs_def pub note_withdrawal_def Let_def state)
  then show ?thesis
    using prove accepted laws withdrawal_words [OF inputs] unfolding example_laws_def withdrawal_calldata_def by metis
qed

section \<open>The vault's fixtures\<close>

lemma vault_value: "from_hex VAULT = Inr 0xFb1b848e938aE6474F890bfb28f6a793a515BAcb"
proof -
  let ?ps = "[''Fb'', ''1b'', ''84'', ''8e'', ''93'', ''8a'', ''E6'', ''47'', ''4F'', ''89'',
    ''0b'', ''fb'', ''28'', ''f6'', ''a7'', ''93'', ''a5'', ''15'', ''BA'', ''cb'']"
  let ?bs = "[0xFb, 0x1b, 0x84, 0x8e, 0x93, 0x8a, 0xE6, 0x47, 0x4F, 0x89, 0x0b, 0xfb, 0x28, 0xf6, 0xa7, 0x93, 0xa5,
    0x15, 0xBA, 0xcb]"
  have "from_hex (''0x'' @ concat ?ps) = try_from_bytes_be (replicate (32 - length ?ps) 0 @ ?bs)"
    by (rule from_hex_digit_pairs)
      (simp_all add: continuation_def from_str_radix16_def hex_digit_def strip_prefix_def)
  also have "\<dots> = Inr 0xFb1b848e938aE6474F890bfb28f6a793a515BAcb"
    by (simp add: try_from_bytes_be_eq be_value_append be_value_Cons felt_of_bytes_def field_modulus_def)
  finally show ?thesis by (simp add: VAULT_def)
qed

abbreviation vault_felt :: felt where
  "vault_felt \<equiv> 0xFb1b848e938aE6474F890bfb28f6a793a515BAcb"

lemma vault_address: "felt_to_address vault_felt = Some 0xFb1b848e938aE6474F890bfb28f6a793a515BAcb" "canonical vault_felt"
  by (simp_all add: felt_to_address_eq_Some canonical_def field_modulus_def)

lemma expiry_value: "FIXTURE_EXPIRY = 2002665600"
  by (simp add: FIXTURE_EXPIRY_def div_ceil_def TIMESTAMP_def NOTE_TTL_def)

definition fixture_generator ::
    "'e::ab_group_add edwards \<Rightarrow> 'k \<Rightarrow> ('g, 'h) VerifyingKey \<Rightarrow> 'k \<Rightarrow> ('g, 'h) VerifyingKey \<Rightarrow> ('e, 'g, 'h, 'k) Generator" where
  "fixture_generator E rpk rvk wpk wvk =
     \<lparr>gn_requests = rpk, gn_request_verifier = rvk, gn_withdrawals = wpk, gn_withdrawal_verifier = wvk,
      gn_state_signer = from_seed E (from_u64 1), gn_clearance_signer = from_seed E (from_u64 2),
      gn_expiry = FIXTURE_EXPIRY, gn_vault = vault_felt\<rparr>"

lemma fixture_generator_simps [simp]:
  "gn_requests (fixture_generator E rpk rvk wpk wvk) = rpk" "gn_request_verifier (fixture_generator E rpk rvk wpk wvk) = rvk"
  "gn_withdrawals (fixture_generator E rpk rvk wpk wvk) = wpk"
  "gn_withdrawal_verifier (fixture_generator E rpk rvk wpk wvk) = wvk"
  "gn_state_signer (fixture_generator E rpk rvk wpk wvk) = from_seed E (from_u64 1)"
  "gn_clearance_signer (fixture_generator E rpk rvk wpk wvk) = from_seed E (from_u64 2)"
  "gn_expiry (fixture_generator E rpk rvk wpk wvk) = FIXTURE_EXPIRY" "gn_vault (fixture_generator E rpk rvk wpk wvk) = vault_felt"
  by (simp_all add: fixture_generator_def)

lemma load_generator_done:
  assumes "setup_done (xe_setup env) directory disk rpk rvk wpk wvk"
  shows "load_generator env (\<lambda>_. False) directory disk = Inr (fixture_generator (xe_curve env) rpk rvk wpk wvk)"
  using assms by (simp add: load_generator_def setup_done_def vault_value fixture_generator_def Let_def)

lemma generator_leaf_fixture [simp]:
  "generator_leaf P (fixture_generator E rpk rvk wpk wvk) note = fixture_leaf P DEPOSIT FIXTURE_EXPIRY note"
  by (simp add: generator_leaf_def fixture_leaf_def fixture_generator_def)

definition request_fixture_ok :: "precompiles \<Rightarrow> SolVk \<Rightarrow> VaultFixture \<Rightarrow> felt \<Rightarrow> felt \<Rightarrow> bool" where
  "request_fixture_ok pc vk fx root nul \<longleftrightarrow> (\<exists>words bytes.
     vx_inputs_abi fx = prefixed_hex (concat (map as_bytes words)) \<and> vx_proof_hex fx = prefixed_hex bytes \<and>
     request_calldata pc vk words bytes root nul)"

definition withdrawal_fixture_ok ::
    "precompiles \<Rightarrow> SolVk \<Rightarrow> VaultFixture \<Rightarrow> felt \<Rightarrow> felt \<Rightarrow> u128 \<Rightarrow> bool \<Rightarrow> bool" where
  "withdrawal_fixture_ok pc vk fx root nul balance clearance \<longleftrightarrow> (\<exists>words bytes.
     vx_inputs_abi fx = prefixed_hex (concat (map as_bytes words)) \<and> vx_proof_hex fx = prefixed_hex bytes \<and>
     withdrawal_calldata pc vk words bytes root nul balance clearance)"

lemma fixture_okI:
  "request_calldata pc vk words bytes root nul \<Longrightarrow> request_fixture_ok pc vk
    \<lparr>vx_inputs_abi = prefixed_hex (concat (map as_bytes words)), vx_proof_hex = prefixed_hex bytes\<rparr> root nul"
  "withdrawal_calldata pc vk words bytes root nul balance clearance \<Longrightarrow> withdrawal_fixture_ok pc vk
    \<lparr>vx_inputs_abi = prefixed_hex (concat (map as_bytes words)), vx_proof_hex = prefixed_hex bytes\<rparr> root nul
    balance clearance"
  unfolding request_fixture_ok_def withdrawal_fixture_ok_def by force+

lemma generator_request_accepted:
  assumes laws: "example_laws env pc" and setup_run: "se_request_setup (xe_setup env) c = Some (rpk, rvk)"
    and note_ok: "fixture_note_ok (xe_curve env) (xe_poseidon env) vault_felt DEPOSIT FIXTURE_EXPIRY note"
    and "length siblings = MERKLE_DEPTH" "100000 \<le> fn_balance note"
  shows "\<exists>fx. generator_request env (fixture_generator (xe_curve env) rpk rvk wpk wvk) n note siblings = Inr fx \<and>
    request_fixture_ok pc (sol_vk_of (se_bn254 (xe_setup env)) rvk) fx
      (merkle_root (xe_poseidon env) (fn_id note) (fixture_leaf (xe_poseidon env) DEPOSIT FIXTURE_EXPIRY note) siblings)
      (nullifier (xe_poseidon env) (fn_secret note) (fn_anchor note))"
proof -
  let ?E = "xe_curve env" and ?P = "xe_poseidon env" and ?leaf = "fixture_leaf (xe_poseidon env) DEPOSIT FIXTURE_EXPIRY note"
  define com where "com = compact_balance_commitment ?E (fn_balance note) (add_blindings (fn_blinding note) (from_u64 9)) ?leaf"
  have rerand: "compact_rerandomize ?E (compact_balance_commitment ?E (fn_balance note) (fn_blinding note) ?leaf)
      (from_u64 9) = Inr com"
    using compact_rerandomize_commitment [OF example_laws_curve(1) [OF laws]] by (simp add: com_def)
  have "TIMESTAMP \<le> FIXTURE_EXPIRY" by (simp add: TIMESTAMP_def expiry_value)
  from fixture_request_accepted [OF laws setup_run note_ok refl assms(4,5) this vault_address(1) com_def refl refl,
      of n "from_u64 99"]
  show ?thesis
    by (auto simp: generator_request_def Let_def rerand vault_fixture_def note_request_def note_request_data_def
        fixture_state_def fixture_config_def wallet_cap_def bail_if_def intro!: fixture_okI)
qed

lemma generator_withdrawal_accepted:
  assumes laws: "example_laws env pc" and setup_run: "se_withdrawal_setup (xe_setup env) c = Some (wpk, wvk)"
    and note_ok: "fixture_note_ok (xe_curve env) (xe_poseidon env) vault_felt DEPOSIT FIXTURE_EXPIRY note"
    and "length siblings = MERKLE_DEPTH"
  shows "\<exists>fx. generator_withdrawal env (fixture_generator (xe_curve env) rpk rvk wpk wvk) n note siblings clearance = Inr fx \<and>
    withdrawal_fixture_ok pc (sol_vk_of (se_bn254 (xe_setup env)) wvk) fx
      (merkle_root (xe_poseidon env) (fn_id note) (fixture_leaf (xe_poseidon env) DEPOSIT FIXTURE_EXPIRY note) siblings)
      (nullifier (xe_poseidon env) (fn_secret note) (fn_anchor note)) (fn_balance note) clearance"
proof -
  let ?E = "xe_curve env" and ?P = "xe_poseidon env"
  define csig where "csig = (if clearance
    then Some (compact_sign ?E ?P (from_seed ?E (from_u64 2)) (xe_nonce env n)
      (clearance_message ?P 2 31337 vault_felt (nullifier ?P (fn_secret note) (fn_anchor note)))) else None)"
  have "case csig of None \<Rightarrow> \<not> clearance | Some sig \<Rightarrow> (\<exists>nonce. sig =
      compact_sign ?E ?P (from_seed ?E (from_u64 2)) nonce (clearance_message ?P 2 31337 vault_felt
          (nullifier ?P (fn_secret note) (fn_anchor note))))"
    by (auto simp: csig_def)
  from fixture_withdrawal_accepted [OF laws setup_run note_ok refl assms(4) this vault_address(1) refl refl,
      of n 0 FIXTURE_DESTINATION]
  show ?thesis
    by (auto simp: generator_withdrawal_def Let_def vault_fixture_def note_withdrawal_def note_withdrawal_data_def
        fixture_state_def fixture_config_def csig_def bail_if_def intro!: fixture_okI)
qed

section \<open>The trees of the vault's fixtures\<close>

text \<open>The paths the program writes down are those of the tree with no other note, and with one other note
  at index 0 or 1.\<close>

lemma length_empty_path: "length (take MERKLE_DEPTH (zero_hashes P)) = 32"
  using zero_loop [of 32 P] by (simp add: zero_hashes_eq compute_zero_hashes_def MERKLE_DEPTH_def Let_def)

lemma empty_path: "take MERKLE_DEPTH (zero_hashes P) = spec_siblings P (\<lambda>_. 0) i"
  using length_empty_path [of P]
  by (intro nth_equalityI) (auto simp: spec_siblings_def zero_hashes_eq MERKLE_DEPTH_def intro!: compute_zero_hashes_nth)

lemma neighbour_path:
  assumes "i = 0 \<and> j = 1 \<or> i = 1 \<and> j = 0"
  shows "(take MERKLE_DEPTH (zero_hashes P))[0 := v] = spec_siblings P ((\<lambda>_. 0)(j := v)) i"
proof (rule nth_equalityI)
  fix l assume l: "l < length ((take MERKLE_DEPTH (zero_hashes P))[0 := v])"
  then have l32: "l < 32" by (simp add: MERKLE_DEPTH_def)
  have "sibling_index (unat i div 2 ^ l) < 2 ^ (32 - l)"
    using l32 path_index_less [of l i] by (intro sibling_index_less) auto
  moreover have "sibling_index (unat i div 2 ^ l) \<noteq> unat j div 2 ^ l" if "l \<noteq> 0"
    using assms one_less_power [of "2 :: nat" l] that by (auto simp: sibling_index_def)
  ultimately show "(take MERKLE_DEPTH (zero_hashes P))[0 := v] ! l = spec_siblings P ((\<lambda>_. 0)(j := v)) i ! l"
    using assms l l32 spec_node_upd [of l _ j P "\<lambda>_. 0" v]
    by (cases "l = 0") (auto simp: empty_path [of P i] spec_siblings_def sibling_index_def)
qed (use length_empty_path [of P] in \<open>simp add: spec_siblings_def\<close>)

lemma spec_path_root: "merkle_root P i v (spec_siblings P L i) = spec_root P (L(i := v))"
  using merkle_root_eq_compute_root [of "spec_siblings P L i" P i v]
  by (simp add: compute_root_spec) (simp add: spec_siblings_def MERKLE_DEPTH_def)

lemma fixture_roots:
  "merkle_root P i v (take MERKLE_DEPTH (zero_hashes P)) = spec_root P ((\<lambda>_. 0)(i := v))"
  "i = 0 \<and> j = 1 \<or> i = 1 \<and> j = 0 \<Longrightarrow>
     merkle_root P i v ((take MERKLE_DEPTH (zero_hashes P))[0 := u]) = spec_root P ((\<lambda>_. 0)(j := u, i := v))"
  unfolding empty_path [of P i] spec_path_root by (rule refl) (simp add: neighbour_path spec_path_root flip: empty_path)

lemma indexed_root:
  "service_get_root (replay P es (TreeMirror_new P))
     = spec_root P (\<lambda>i. fst (fold (note_step P) (filter (\<lambda>e. ev_note_id e = i) es) (0, None)))"
proof -
  let ?m = "replay P es (TreeMirror_new P)"
  have "get_leaf (tree ?m) i = fst (fold (note_step P) (filter (\<lambda>e. ev_note_id e = i) es) (0, None))" for i
    using arg_cong [OF note_view_replay [OF mirror_inv_new, of P es i], of fst]
    by (simp add: note_view_def mirror_get_leaf_def) (simp add: TreeMirror_new_def new_leaf)
  then have "get_leaf (tree ?m) = (\<lambda>i. fst (fold (note_step P) (filter (\<lambda>e. ev_note_id e = i) es) (0, None)))" by blast
  then show ?thesis
    using tree_root_spec mirror_inv_replay [OF mirror_inv_new, of P es]
    by (simp add: service_get_root_def mirror_root_def mirror_inv_def)
qed

section \<open>The programs\<close>

definition fixture_note_sf :: FixtureNote where
  "fixture_note_sf = \<lparr>fn_id = 0, fn_secret = from_u64 42, fn_balance = 1000000, fn_blinding = from_u64 7,
     fn_anchor = ONE, fn_signature = None\<rparr>"

lemma small_felts: "canonical (from_u64 n)" "from_u64 42 \<noteq> 0" "from_u64 43 \<noteq> 0" "canonical ONE"
  using unat_from_u64 [of n] unat_from_u64 [of 42] unat_from_u64 [of 43] unsigned_less [of n, where 'a = nat]
  by (auto simp: canonical_def field_modulus_def ONE_def)

lemma fixture_notes_ok:
  "fixture_note_ok E P vault_felt DEPOSIT FIXTURE_EXPIRY fixture_note_b"
  "xe_curve env = E \<Longrightarrow> xe_poseidon env = P \<Longrightarrow>
     fixture_note_ok E P vault_felt DEPOSIT FIXTURE_EXPIRY (fixture_note_a env (fixture_generator E rpk rvk wpk wvk))"
  "fixture_note_ok E P (from_u64 0x1234) 1000000 4000000000 fixture_note_sf"
  by (auto simp: fixture_note_ok_def fixture_note_b_def fixture_note_a_def fixture_note_sf_def small_felts vault_address(2)
      fixture_commitment_def DEPOSIT_def Let_def fixture_leaf_def)

lemma fixture_note_a_simps [simp]:
  "fn_id (fixture_note_a env gen) = 0" "fn_secret (fixture_note_a env gen) = from_u64 42"
  "fn_balance (fixture_note_a env gen) = 900000" "fn_anchor (fixture_note_a env gen) = from_u64 12345"
  by (simp_all add: fixture_note_a_def Let_def)

lemma fixture_note_b_simps [simp]:
  "fn_id fixture_note_b = 1" "fn_secret fixture_note_b = from_u64 43" "fn_balance fixture_note_b = DEPOSIT"
  "fn_anchor fixture_note_b = ONE"
  by (simp_all add: fixture_note_b_def)

lemma fixture_leaf_events:
  "fixture_leaf P DEPOSIT FIXTURE_EXPIRY (fixture_note_a env gen)
     = compute_note_leaf P 0 (registration_commitment P (from_u64 42)) DEPOSIT FIXTURE_EXPIRY"
  "fixture_leaf P DEPOSIT FIXTURE_EXPIRY fixture_note_b
     = compute_note_leaf P 1 (registration_commitment P (from_u64 43)) DEPOSIT FIXTURE_EXPIRY"
  by (simp_all add: fixture_leaf_def note_leaf_def compute_note_leaf_def)

lemma fixture_tree:
  assumes "deposit_a = NoteDeposited 0 (registration_commitment P (from_u64 42)) DEPOSIT FIXTURE_EXPIRY root_a"
    "deposit_b = NoteDeposited 1 (registration_commitment P (from_u64 43)) DEPOSIT FIXTURE_EXPIRY root_b"
    "close_b = MutualClose 1 closed_nullifier closed_balance"
    and root: "root = (\<lambda>es. service_get_root (replay P es (TreeMirror_new P)))"
    and leaves: "A = fixture_leaf P DEPOSIT FIXTURE_EXPIRY (fixture_note_a env gen)"
      "B = fixture_leaf P DEPOSIT FIXTURE_EXPIRY fixture_note_b"
    and zs: "zs = take MERKLE_DEPTH (zero_hashes P)"
  shows "merkle_root P 0 A zs = root [deposit_a]" "root [deposit_a] = root [deposit_a, deposit_b, close_b]"
    "merkle_root P 0 A (zs[0 := B]) = root [deposit_a, deposit_b]"
    "merkle_root P 1 B (zs[0 := A]) = root [deposit_a, deposit_b]"
    "length zs = MERKLE_DEPTH" "length (zs[0 := v]) = MERKLE_DEPTH"
proof -
  have "(\<lambda>_. 0)(1 := v, 0 := u) = (\<lambda>_ :: u32. 0)(0 := u, 1 := v)" for u v :: felt by (rule fun_upd_twist) simp
  then show "merkle_root P 0 A zs = root [deposit_a]" "root [deposit_a] = root [deposit_a, deposit_b, close_b]"
    "merkle_root P 0 A (zs[0 := B]) = root [deposit_a, deposit_b]"
    "merkle_root P 1 B (zs[0 := A]) = root [deposit_a, deposit_b]"
    unfolding root indexed_root assms(1-3) leaves fixture_leaf_events zs
    by (simp_all add: fixture_roots) (auto intro!: arg_cong [where f = "spec_root P"])
qed (use length_empty_path [of P] in \<open>simp_all add: zs MERKLE_DEPTH_def\<close>)

text \<open>\<open>setup.rs\<close> writes nothing when the directory exists, and is the setup command otherwise.\<close>

lemma setup_main_eq:
  "setup_main se io exists (Some directory) disk =
     (if exists directory then (disk, Inl (EnsureFailed ''refusing to overwrite an existing setup directory''))
      else apsnd (map_err SetupFailure) (run_setup se io directory disk))"
  by (simp add: setup_main_def st_then_def bail_if_def split: prod.split)

lemma setup_main_done:
  assumes "setup_codec_ok se" "setup_main se io exists (Some directory) disk0 = (disk, Inr ())"
  obtains k rpk rvk wpk wvk where "se_request_setup se (request_template (se_curve se) k) = Some (rpk, rvk)"
    "se_withdrawal_setup se (withdrawal_template k) = Some (wpk, wvk)" "setup_done se directory disk rpk rvk wpk wvk"
proof -
  have "run_setup se io directory disk0 = (disk, Inr ())"
    using assms(2) by (cases "run_setup se io directory disk0") (auto simp: setup_main_eq map_err_def split: if_splits sum.splits)
  then show ?thesis using that run_setup_Inr [OF assms(1)] by blast
qed

text \<open>Claim C24. The fixtures of the vault's challenge test: on a directory that \<open>setup.rs\<close> filled, the
  program succeeds, and the contract compiled from the verifier source in that directory accepts all five
  printed calls. The roots they carry are those of the indexer after the deposit of note A, after the deposit
  of note B as well, and after the mutual close of note B; the requests and the escapes of note A have the
  same nullifier, so each request challenges the escapes; and only the close of note B has clearance.\<close>

theorem vault_fixtures_accepted:
  assumes laws: "example_laws env pc" and setup_run: "setup_codec_ok (xe_setup env)"
      "setup_main (xe_setup env) io exists (Some directory) disk0 = (disk, Inr ())"
    and P: "P = xe_poseidon env"
    and events: "deposit_a = NoteDeposited 0 (registration_commitment P (from_u64 42)) DEPOSIT FIXTURE_EXPIRY root_a"
      "deposit_b = NoteDeposited 1 (registration_commitment P (from_u64 43)) DEPOSIT FIXTURE_EXPIRY root_b"
      "close_b = MutualClose 1 closed_nullifier closed_balance"
    and root: "root = (\<lambda>es. service_get_root (replay P es (TreeMirror_new P)))"
    and nul: "nul_a = nullifier P (from_u64 42) (from_u64 12345)" "nul_b = nullifier P (from_u64 43) ONE"
  shows "\<exists>fx request_source withdrawal_source rvk wvk.
    vault_challenge_main env (\<lambda>_. False) (Some directory) disk = Inr fx \<and>
    disk (directory @ [SOLIDITY_VERIFIER_FILE]) = Some (se_verifier_text (xe_setup env) request_source withdrawal_source) \<and>
    compile_vk request_source = Some rvk \<and> compile_vk withdrawal_source = Some wvk \<and>
    request_fixture_ok pc rvk (vx_request_before_deposit fx) (root [deposit_a]) nul_a \<and>
    request_fixture_ok pc rvk (vx_request_before_close fx) (root [deposit_a, deposit_b]) nul_a \<and>
    withdrawal_fixture_ok pc wvk (vx_escape_after_deposit fx) (root [deposit_a, deposit_b]) nul_a 900000 False \<and>
    withdrawal_fixture_ok pc wvk (vx_escape_after_close fx) (root [deposit_a, deposit_b, close_b]) nul_a 900000 False \<and>
    withdrawal_fixture_ok pc wvk (vx_close_b fx) (root [deposit_a, deposit_b]) nul_b DEPOSIT True"
proof -
  obtain k rpk rvk wpk wvk where keys: "se_request_setup (xe_setup env) (request_template (xe_curve env) k) = Some (rpk, rvk)"
      "se_withdrawal_setup (xe_setup env) (withdrawal_template k) = Some (wpk, wvk)"
    and files: "setup_done (xe_setup env) directory disk rpk rvk wpk wvk"
    using setup_main_done [OF setup_run] by blast
  let ?gen = "fixture_generator (xe_curve env) rpk rvk wpk wvk" and ?empty = "take MERKLE_DEPTH (zero_hashes P)"
  let ?A = "fixture_leaf P DEPOSIT FIXTURE_EXPIRY (fixture_note_a env ?gen)" and ?a = "fixture_note_a env ?gen"
    and ?B = "fixture_leaf P DEPOSIT FIXTURE_EXPIRY fixture_note_b"
  note tree = fixture_tree [where env = env and gen = ?gen, OF events root refl refl refl]
  let ?rvk = "sol_vk_of (se_bn254 (xe_setup env)) rvk" and ?wvk = "sol_vk_of (se_bn254 (xe_setup env)) wvk"
  note note_a = fixture_notes_ok(2) [of env _ P rpk rvk wpk wvk, OF refl P [symmetric], unfolded P]
  note request = generator_request_accepted [where wpk = wpk and wvk = wvk, OF laws keys(1) note_a, folded P]
  note withdrawal = generator_withdrawal_accepted [where rpk = rpk and rvk = rvk, OF laws keys(2), folded P]
  obtain f1 f2 f3 f4 f5 where
    "generator_request env ?gen 0 ?a ?empty = Inr f1" "generator_request env ?gen 1 ?a (?empty[0 := ?B]) = Inr f2"
    "generator_withdrawal env ?gen 0 ?a (?empty[0 := ?B]) False = Inr f3" "generator_withdrawal env ?gen 1 ?a ?empty False = Inr f4"
    "generator_withdrawal env ?gen 2 fixture_note_b (?empty[0 := ?A]) True = Inr f5"
    and ok: "request_fixture_ok pc ?rvk f1 (root [deposit_a]) nul_a"
    "request_fixture_ok pc ?rvk f2 (root [deposit_a, deposit_b]) nul_a"
    "withdrawal_fixture_ok pc ?wvk f3 (root [deposit_a, deposit_b]) nul_a 900000 False"
    "withdrawal_fixture_ok pc ?wvk f4 (root [deposit_a, deposit_b, close_b]) nul_a 900000 False"
    "withdrawal_fixture_ok pc ?wvk f5 (root [deposit_a, deposit_b]) nul_b DEPOSIT True"
    using request [OF tree(5), of 0] request [OF tree(6) [of ?B], of 1]
      withdrawal [OF note_a [folded P] tree(6) [of ?B], of 0 False] withdrawal [OF note_a [folded P] tree(5), of 1 False]
      withdrawal [OF fixture_notes_ok(1) tree(6) [of ?A], of 2 True]
    by (auto simp: tree nul)
  then have "vault_challenge_main env (\<lambda>_. False) (Some directory) disk = Inr
      \<lparr>vx_circuit_id = CIRCUIT_ID,
       vx_note_a_registration = prefixed_hex (as_bytes (registration_commitment P (fn_secret ?a))),
       vx_note_b_registration = prefixed_hex (as_bytes (registration_commitment P (fn_secret fixture_note_b))),
       vx_request_before_deposit = f1, vx_request_before_close = f2, vx_escape_after_deposit = f3,
       vx_escape_after_close = f4, vx_close_b = f5\<rparr>"
    by (simp add: vault_challenge_main_def load_generator_done [OF files] Let_def P)
  then show ?thesis
    using ok files compile_vk_functions unfolding setup_done_def by fastforce
qed

definition toy_examples :: "(jub_group, 3, 3, 3, u8) example_env" where
  "toy_examples = \<lparr>xe_setup = toy_setup 7, xe_codec = toy_codec, xe_prove_request = (\<lambda>_ _ _ _. Some toy_proof),
     xe_prove_withdrawal = (\<lambda>_ _ _ _. Some toy_proof),
     xe_verify = (\<lambda>vk xs pf. if length xs + 1 = length (vk_gamma_abc_g1 vk) then Some (groth16_accepts toy_bn254 vk xs pf) else None),
     xe_nonce = (\<lambda>_. 5)\<rparr>"

lemma toy_examples_laws: "example_laws toy_examples toy_precompiles"
proof -
  have "request_keys_complete (toy_setup 7) toy_codec (\<lambda>_. 0) (\<lambda>_ _ _. Some toy_proof)"
    "withdrawal_keys_complete (toy_setup 7) toy_codec (\<lambda>_. 0) (\<lambda>_ _ _. Some toy_proof)"
    using toy_proof_valid toy_proof_accepted
    by (simp_all add: request_keys_complete_def withdrawal_keys_complete_def toy_setup_def) (simp_all add: toy_key_def)
  then show ?thesis
    using jub_curve_wire_ok toy_codec_ok toy_bn254_ok toy_precompiles_ok
    by (simp add: example_laws_def toy_examples_def groth16_law_def) (simp add: toy_setup_def poseidon_ok_def field_modulus_def)
qed

lemma toy_setup_main:
  obtains disk where "setup_main (toy_setup 7) no_setup_faults (\<lambda>_. False) (Some [''setup'']) Map.empty = (disk, Inr ())"
  using that run_setup_succeeds [OF _ toy_setup_ok(2), of 7 "[''setup'']" Map.empty] jub_curve_wire_ok
  by (cases "run_setup (toy_setup 7) no_setup_faults [''setup''] Map.empty")
    (auto simp: setup_main_eq map_err_def toy_setup_def)

theorem vault_fixtures_accepted_witness:
  "\<exists>disk fx rvk wvk. setup_main (toy_setup 7) no_setup_faults (\<lambda>_. False) (Some [''setup'']) Map.empty = (disk, Inr ()) \<and>
     vault_challenge_main toy_examples (\<lambda>_. False) (Some [''setup'']) disk = Inr fx \<and>
     request_fixture_ok toy_precompiles rvk (vx_request_before_deposit fx) 0 0 \<and>
     withdrawal_fixture_ok toy_precompiles wvk (vx_escape_after_close fx) 0 0 900000 False \<and>
     withdrawal_fixture_ok toy_precompiles wvk (vx_close_b fx) 0 0 1000000 True"
proof -
  let ?P = "\<lambda>_. 0"
  obtain disk where run: "setup_main (toy_setup 7) no_setup_faults (\<lambda>_. False) (Some [''setup'']) Map.empty = (disk, Inr ())"
    by (rule toy_setup_main)
  have toy: "xe_setup toy_examples = toy_setup 7" "xe_poseidon toy_examples = ?P"
    by (simp_all add: toy_examples_def toy_setup_def)
  have "spec_node ?P L (Suc l) n = 0" for L l n by (simp add: merkle_node_def zero_poseidon)
  from this [of _ 31 0] have "spec_node ?P L 32 0 = 0" for L by simp
  then have zero: "nullifier ?P s a = 0" "service_get_root (replay ?P es (TreeMirror_new ?P)) = 0" for s a es
    unfolding indexed_root by (simp_all add: nullifier_def zero_poseidon spec_root_def)
  show ?thesis
    using vault_fixtures_accepted [OF toy_examples_laws _ _ toy(2) [symmetric] refl refl refl refl refl refl,
        unfolded toy(1) zero DEPOSIT_def, OF toy_setup_ok(1) run] run by blast
qed

text \<open>The statements of \<open>solidity_fixture.rs\<close> are those of a wallet that holds the program's note.\<close>

lemma fixture_note_sf_simps [simp]:
  "fn_id fixture_note_sf = 0" "fn_secret fixture_note_sf = from_u64 42" "fn_balance fixture_note_sf = 1000000"
  "fn_blinding fixture_note_sf = from_u64 7" "fn_anchor fixture_note_sf = ONE" "fn_signature fixture_note_sf = None"
  "fixture_leaf P 1000000 4000000000 fixture_note_sf = sf_leaf P"
  by (simp_all add: fixture_note_sf_def fixture_leaf_def sf_leaf_def)

abbreviation sf_state :: "('e::ab_group_add, 'g, 'h, 't, 'k) example_env \<Rightarrow> NoteState" where
  "sf_state env \<equiv> fixture_state (xe_curve env) (xe_poseidon env) (from_u64 0x1234) 1000000 4000000000 fixture_note_sf"

abbreviation sf_config :: "('e::ab_group_add, 'g, 'h, 't, 'k) example_env \<Rightarrow> ClientConfig" where
  "sf_config env \<equiv> fixture_config (xe_curve env) (from_u64 0x1234) 500000"

lemma sf_statements:
  assumes "P = xe_poseidon env" "root = merkle_root P 0 (sf_leaf P) (sf_siblings P)"
  shows "note_request P (sf_config env) (sf_state env) root 2000000000 (from_u64 99) com = sf_request_public env com"
    "note_request_data (sf_state env) (from_u64 7) (from_u64 9) (from_u64 99) (sf_siblings P) = sf_request_witness P"
    "note_withdrawal P (sf_config env) (sf_state env) root FIXTURE_DESTINATION False
       = sf_withdrawal_public env (destination_field FIXTURE_DESTINATION)"
    "note_withdrawal_data (sf_state env) (from_u64 7) (sf_siblings P) None = sf_withdrawal_witness P"
  by (simp_all add: assms note_request_def note_request_data_def note_withdrawal_def note_withdrawal_data_def Let_def
      sf_request_public_def sf_withdrawal_public_def sf_request_witness_def sf_withdrawal_witness_def fixture_state_def
      fixture_config_def wallet_cap_def)

lemma sf_tree:
  "merkle_root P 0 (sf_leaf P) (sf_siblings P) = service_get_root (replay P
     [NoteDeposited 0 (registration_commitment P (from_u64 42)) 1000000 4000000000 new_root] (TreeMirror_new P))"
  "length (sf_siblings P) = MERKLE_DEPTH"
  using length_empty_path [of P]
  by (auto simp: sf_leaf_def compute_note_leaf_def indexed_root sf_siblings_def fixture_roots MERKLE_DEPTH_def [symmetric]
      simp del: replay_simps length_take intro!: arg_cong [where f = "spec_root P"])

lemma destination_read:
  "try_from_bytes_be (replicate 12 0 @ addr_bytes d) = Inr (destination_field d)"
proof -
  have "be_value (replicate 12 0 @ addr_bytes d) < field_modulus"
    using unsigned_less [of d, where 'a = nat] by (simp add: be_value_append addr_bytes_def be_value_digits_id field_modulus_def)
  then show ?thesis by (simp add: try_from_bytes_be_eq destination_field_def addr_bytes_def)
qed

text \<open>The fixtures of the verifier contract: on a directory that \<open>setup.rs\<close> filled, the program
  succeeds, and the contract compiled from the verifier source in that directory accepts the printed request
  and the printed withdrawal, which have the same root, the indexer's after the deposit of the program's
  note alone, and the same nullifier.\<close>

lemma solidity_fixtures_accepted:
  assumes laws: "example_laws env pc" and setup_run: "setup_codec_ok (xe_setup env)"
      "setup_main (xe_setup env) io exists (Some directory) disk0 = (disk, Inr ())"
    and P: "P = xe_poseidon env"
    and root: "root = service_get_root (replay P
      [NoteDeposited 0 (registration_commitment P (from_u64 42)) 1000000 4000000000 new_root] (TreeMirror_new P))"
    and nul: "nul = nullifier P (from_u64 42) ONE"
  shows "\<exists>fx request_source withdrawal_source rvk wvk request_bytes withdrawal_bytes.
    solidity_fixture_main env (\<lambda>_. False) (Some directory) disk = Inr fx \<and>
    disk (directory @ [SOLIDITY_VERIFIER_FILE]) = Some (se_verifier_text (xe_setup env) request_source withdrawal_source) \<and>
    compile_vk request_source = Some rvk \<and> compile_vk withdrawal_source = Some wvk \<and>
    sx_proof_hex (sx_request fx) = prefixed_hex request_bytes \<and>
    request_calldata pc rvk (r2_to_field_elements (sx_public_inputs (sx_request fx))) request_bytes root nul \<and>
    sx_proof_hex (sx_withdrawal fx) = prefixed_hex withdrawal_bytes \<and>
    withdrawal_calldata pc wvk (w2_to_field_elements (sx_public_inputs (sx_withdrawal fx))) withdrawal_bytes root nul
      1000000 False"
proof -
  let ?E = "xe_curve env" and ?se = "xe_setup env" and ?K = "xe_codec env"
  obtain k rpk rvk wpk wvk where keys: "se_request_setup ?se (request_template ?E k) = Some (rpk, rvk)"
      "se_withdrawal_setup ?se (withdrawal_template k) = Some (wpk, wvk)"
    and files: "setup_done ?se directory disk rpk rvk wpk wvk"
    using setup_main_done [OF setup_run] by blast
  let ?com = "compact_balance_commitment ?E 1000000 (add_blindings (from_u64 7) (from_u64 9)) (sf_leaf P)"
  let ?request = "sf_request_public env ?com"
    and ?withdrawal = "sf_withdrawal_public env (destination_field FIXTURE_DESTINATION)"
  have com: "compact_rerandomize ?E (compact_balance_commitment ?E 1000000 (from_u64 7) (sf_leaf P)) (from_u64 9) = Inr ?com"
    by (rule compact_rerandomize_commitment [OF example_laws_curve(1) [OF laws]])
  have addr: "felt_to_address (from_u64 0x1234) = Some 0x1234" by (simp add: felt_to_address_eq_Some unat_from_u64)
  have root': "merkle_root P 0 (sf_leaf P) (sf_siblings P) = root" unfolding root by (rule sf_tree(1))
  note statements = sf_statements [OF P root' [symmetric], folded P]
  note fixture = fixture_notes_ok(3) [where E = ?E and P = P, unfolded P]
  obtain rw rb where request: "request_prove ?E P ?K (xe_prove_request env 0 rpk) ?request (sf_request_witness P) = Inr rw"
      "request_verify ?E ?K (xe_verify env rvk) ?request rw = Inr True" "b64_decode ?K (gw_proof rw) = Some rb"
      "request_calldata pc (sol_vk_of (se_bn254 ?se) rvk) (r2_to_field_elements ?request) rb root nul"
    using fixture_request_accepted [where n = 0 and cap = 500000 and now = 2000000000, OF laws keys(1) fixture refl
        sf_tree(2) [of P] _ _ addr refl refl refl, of "from_u64 99" "from_u64 9", folded P]
    by (auto simp: root' nul statements)
  obtain ww wb where withdrawal:
      "withdrawal_prove ?E P ?K (xe_prove_withdrawal env 0 wpk) ?withdrawal (sf_withdrawal_witness P) = Inr ww"
      "withdrawal_verify ?E ?K (xe_verify env wvk) ?withdrawal ww = Inr True" "b64_decode ?K (gw_proof ww) = Some wb"
      "withdrawal_calldata pc (sol_vk_of (se_bn254 ?se) wvk) (w2_to_field_elements ?withdrawal) wb root nul 1000000 False"
    using fixture_withdrawal_accepted [where n = 0 and cap = 500000 and csig = None and clearance = False,
        OF laws keys(2) fixture refl sf_tree(2) [of P] _ addr refl refl, of FIXTURE_DESTINATION, folded P]
    by (auto simp: root' nul statements)
  have "solidity_fixture_main env (\<lambda>_. False) (Some directory) disk = Inr
      \<lparr>sx_request = \<lparr>sx_public_inputs = ?request, sx_proof_hex = prefixed_hex rb\<rparr>,
       sx_withdrawal = \<lparr>sx_public_inputs = ?withdrawal, sx_proof_hex = prefixed_hex wb\<rparr>\<rparr>"
    using files request withdrawal com
    by (simp add: solidity_fixture_main_def Let_def setup_done_def bail_if_def proof_hex_def destination_read flip: P)
  then show ?thesis
    using request(4) withdrawal(4) files compile_vk_functions unfolding setup_done_def by fastforce
qed

end
