(* ===== verification/Bench_Properties.thy ===== *)
theory Bench_Properties
  imports Bench Fixture_Properties
begin

text \<open>
  The benchmark works: a distribution reports samples it was given, in order; and with keys from a setup
  directory every case runs to its end, without a panic, and reports as many samples as it was asked for.
\<close>

section \<open>Distributions\<close>

lemma Distribution_new_None: "Distribution_new F samples = None \<longleftrightarrow> samples = []"
  using length_sort [of "\<lambda>x. x" samples] by (auto simp: Distribution_new_def Let_def simp del: length_sort)

text \<open>The reported bounds hold and the quantiles are samples, whatever the floating point operations do.\<close>

lemma distribution_ordered:
  assumes "Distribution_new F samples = Some d"
  shows "samples_ms d = samples" "min_ms d \<in> set samples" "p95_ms d \<in> set samples" "max_ms d \<in> set samples"
    "x \<in> set samples \<Longrightarrow> min_ms d \<le> x \<and> x \<le> max_ms d"
    "odd (length samples) \<Longrightarrow> median_ms d \<in> set samples"
proof -
  let ?s = "sort samples" and ?n = "length samples"
  have d: "samples_ms d = samples" "min_ms d = ?s ! 0" "p95_ms d = ?s ! p95_index F ?n" "max_ms d = ?s ! (?n - 1)"
    "odd ?n \<Longrightarrow> median_ms d = ?s ! (?n div 2)" and n: "?n \<noteq> 0"
    using assms by (auto simp: Distribution_new_def Let_def odd_iff_mod_2_eq_one split: if_splits)
  have mem: "i < ?n \<Longrightarrow> ?s ! i \<in> set samples" for i using nth_mem [of i ?s] by simp
  show "samples_ms d = samples" by (rule d)
  show "min_ms d \<in> set samples" "p95_ms d \<in> set samples" "max_ms d \<in> set samples"
    unfolding d(2-4) using n by (auto intro!: mem simp: p95_index_def min_less_iff_disj)
  show "odd ?n \<Longrightarrow> median_ms d \<in> set samples" using d(5) n by (auto intro!: mem)
  show "min_ms d \<le> x \<and> x \<le> max_ms d" if "x \<in> set samples"
  proof -
    have "x \<in> set ?s" using that by simp
    then obtain i where i: "i < ?n" "x = ?s ! i" unfolding in_set_conv_nth by auto
    then show ?thesis using sorted_nth_mono [of ?s 0 i] sorted_nth_mono [of ?s i "?n - 1"] by (simp add: d)
  qed
qed

text \<open>Where the product with 0.95 and its rounding are exact, at least 95 of a hundred samples are no longer
  than the reported quantile.\<close>

lemma p95_covers:
  assumes "Distribution_new F samples = Some d"
    and "fo_as_usize F (fo_ceil F (fo_mul F (fo_of_usize F (length samples)) (fo_95_percent F))) = (19 * length samples + 19) div 20"
  shows "19 * length samples \<le> 20 * length (filter (\<lambda>x. x \<le> p95_ms d) samples)"
proof -
  let ?s = "sort samples" and ?n = "length samples"
  let ?k = "p95_index F ?n"
  have n: "?n \<noteq> 0" and p95: "p95_ms d = ?s ! ?k" using assms(1) by (auto simp: Distribution_new_def Let_def split: if_splits)
  have q: "1 \<le> (19 * m + 19) div 20" "(19 * m + 19) div 20 \<le> m" "19 * m \<le> 20 * ((19 * m + 19) div 20)"
    if "m \<noteq> 0" for m :: nat
    using that by linarith+
  have Suc_k: "Suc ?k = (19 * ?n + 19) div 20" using q(1,2) [OF n] by (simp add: p95_index_def assms(2) min_absorb1)
  have k: "?k < ?n" "19 * ?n \<le> 20 * Suc ?k"
    using q(2) [OF n] Suc_k by linarith (unfold Suc_k, rule q(3) [OF n])
  have "\<forall>x \<in> set (take (Suc ?k) ?s). x \<le> p95_ms d"
    using k sorted_nth_mono [of ?s _ ?k] by (auto simp: in_set_conv_nth p95)
  then have "Suc ?k \<le> length (filter (\<lambda>x. x \<le> p95_ms d) ?s)"
    using k length_filter_le [of "\<lambda>x. x \<le> p95_ms d" "drop (Suc ?k) ?s"]
      arg_cong [OF filter_append [of "\<lambda>x. x \<le> p95_ms d" "take (Suc ?k) ?s" "drop (Suc ?k) ?s"], of length]
    by (simp del: length_filter_le)
  moreover have "length (filter (\<lambda>x. x \<le> p95_ms d) ?s) = length (filter (\<lambda>x. x \<le> p95_ms d) samples)"
    by (metis filter_sort length_sort)
  ultimately show ?thesis by (intro order_trans [OF k(2)] mult_le_mono2) simp
qed


section \<open>Arguments\<close>

lemma usize_step_digit:
  assumes "d < 10" "v * 10 + d < 2 ^ 64"
  shows "usize_step (Some v) (char_of (48 + d)) = Some (v * 10 + d)" "char_of (48 + d) \<noteq> CHR ''+''"
proof -
  have "of_char (char_of (48 + d) :: char) = 48 + d" using assms(1) by simp
  then show "usize_step (Some v) (char_of (48 + d)) = Some (v * 10 + d)" using assms by (simp add: usize_step_def)
  show "char_of (48 + d) \<noteq> CHR ''+''" using assms(1) by (auto dest!: arg_cong [where f = "of_char :: char \<Rightarrow> nat"])
qed

lemma usize_decimal:
  assumes "n < 2 ^ 64"
  shows "usize_parse (decimal n) = Some n"
proof -
  have "foldl usize_step (Some 0) (decimal n) = Some n \<and> decimal n \<noteq> [] \<and> hd (decimal n) \<noteq> CHR ''+''"
    using assms
  proof (induction n rule: decimal.induct)
    case (1 n)
    show ?case
    proof (cases "n < 10")
      case True
      then show ?thesis using usize_step_digit [of n 0] by (simp add: decimal.simps [of n])
    next
      case False
      have ih: "foldl usize_step (Some 0) (decimal (n div 10)) = Some (n div 10)" "decimal (n div 10) \<noteq> []"
        "hd (decimal (n div 10)) \<noteq> CHR ''+''"
        using 1 False by auto
      then show ?thesis using False 1(2) usize_step_digit(1) [of "n mod 10" "n div 10"] by (simp add: decimal.simps [of n])
    qed
  qed
  then show ?thesis by (cases "decimal n") (auto simp: usize_parse_def)
qed


section \<open>Loops\<close>

lemma timed_load_loop_same:
  "(\<And>j. load j = Inr x) \<Longrightarrow>
     timed_load_loop load elapsed i k loaded samples = Inr (if k = 0 then loaded else Some x, samples @ map elapsed [i..<i + k])"
  by (induction k arbitrary: i loaded samples) (auto simp: upt_conv_Cons simp del: upt_Suc)

lemma timed_load_same:
  "(\<And>j. load j = Inr x) \<Longrightarrow> 0 < k \<Longrightarrow> timed_load k load elapsed = Inr (x, map elapsed [0..<k])"
  by (simp add: timed_load_def timed_load_loop_same [where x = x])

lemma prove_loop_done:
  "(\<And>j. prove j = Inr (p j)) \<Longrightarrow>
     prove_loop prove elapsed i k proofs ms = Inr (proofs @ map p [i..<i + k], ms @ map elapsed [i..<i + k])"
  by (induction k arbitrary: i proofs ms) (auto simp: upt_conv_Cons simp del: upt_Suc)

lemma verify_loop_done:
  "(\<And>q. q \<in> set proofs \<Longrightarrow> verify q = Inr True) \<Longrightarrow>
     verify_loop verify elapsed message i proofs ms = Inr (ms @ map elapsed [i..<i + length proofs])"
  by (induction proofs arbitrary: i ms) (auto simp: upt_conv_Cons bail_if_def simp del: upt_Suc)

lemma warmup_loop_done:
  "(\<And>j. prove j = Inr (p j)) \<Longrightarrow> (\<And>j. verify (p j) = Inr True) \<Longrightarrow> warmup_loop prove verify message i k = Inr ()"
  by (induction k arbitrary: i) (auto simp: bail_if_def)

section \<open>Statements of the benchmark\<close>

text \<open>The circuit the program builds for itself is the one the prover builds from the same data.\<close>

lemma bench_point_Inr: "point_from_wire E \<lparr>cp_x = x, cp_y = y\<rparr> = Inr p \<Longrightarrow> bench_point E x y = Inr p"
  by (auto simp: point_from_wire_def bench_point_def bail_if_def Let_def split: if_splits)

lemma bench_signature_Inr:
  "signature_from_wire E (unwrap_or SchnorrSignature_IDENTITY sig) = Inr sg \<Longrightarrow> bench_signature E sig = Inr sg"
  by (auto simp: signature_from_wire_def bench_signature_def Let_def res dest!: bench_point_Inr)

lemma request_circuit_proved:
  assumes "request_prove E P K prover pub wit = Inr wire"
  shows "\<exists>p w. request_circuit E pub wit = Inr (p, w) \<and> request_constraints E P p (request_assignment p w)"
  using assms
  by (auto simp: request_prove_def request_public_from_wire_def request_circuit_def Let_def res
      dest!: bench_point_Inr bench_signature_Inr split: if_splits)

lemma withdrawal_circuit_proved:
  assumes "withdrawal_prove E P K prover pub wit = Inr wire"
  shows "\<exists>p w. withdrawal_circuit E (destination_field (w2_destination pub)) pub wit = Inr (p, w) \<and>
    withdrawal_constraints E P p (withdrawal_assignment p w)"
  using assms
  by (auto simp: withdrawal_prove_def withdrawal_public_from_wire_def withdrawal_circuit_def Let_def res
      dest!: bench_point_Inr bench_signature_Inr split: if_splits)

text \<open>The note of a case.\<close>

definition bench_note :: "('e::ab_group_add, 'g, 'h, 't, 'k) example_env \<Rightarrow> bool \<Rightarrow> FixtureNote" where
  "bench_note env genesis =
     (if genesis then fixture_note_sf
      else let com = compact_balance_commitment (xe_curve env) 900000 (from_u64 7) (sf_leaf (xe_poseidon env)) in
        \<lparr>fn_id = 0, fn_secret = from_u64 42, fn_balance = 900000, fn_blinding = from_u64 7, fn_anchor = from_u64 12345,
         fn_signature = Some (compact_sign (xe_curve env) (xe_poseidon env) (from_seed (xe_curve env) (from_u64 1))
           (xe_nonce env 0) (state_message (xe_poseidon env) 2 31337 (from_u64 0x1234) (cp_x com) (cp_y com)
             (from_u64 12345)))\<rparr>)"

lemma bench_note_simps [simp]:
  "fn_id (bench_note env genesis) = 0" "fn_secret (bench_note env genesis) = from_u64 42"
  "fn_blinding (bench_note env genesis) = from_u64 7"
  "fn_balance (bench_note env genesis) = (if genesis then 1000000 else 900000)"
  "fixture_leaf P 1000000 4000000000 (bench_note env genesis) = sf_leaf P"
  by (simp_all add: bench_note_def Let_def fixture_leaf_def sf_leaf_def)

lemma bench_note_ok:
  "fixture_note_ok (xe_curve env) (xe_poseidon env) (from_u64 0x1234) 1000000 4000000000 (bench_note env genesis)"
proof (cases genesis)
  case True
  then show ?thesis using fixture_notes_ok(3) by (simp add: bench_note_def)
next
  case False
  then show ?thesis
    by (auto simp: fixture_note_ok_def fixture_commitment_def fixture_leaf_def bench_note_def sf_leaf_def small_felts Let_def)
qed

abbreviation bench_state :: "('e::ab_group_add, 'g, 'h, 't, 'k) example_env \<Rightarrow> bool \<Rightarrow> NoteState" where
  "bench_state env genesis \<equiv>
     fixture_state (xe_curve env) (xe_poseidon env) (from_u64 0x1234) 1000000 4000000000 (bench_note env genesis)"

abbreviation bench_root :: "('e::ab_group_add, 'g, 'h, 't, 'k) example_env \<Rightarrow> felt" where
  "bench_root env \<equiv> merkle_root (xe_poseidon env) 0 (sf_leaf (xe_poseidon env)) (sf_siblings (xe_poseidon env))"

definition bench_commitment :: "('e::ab_group_add, 'g, 'h, 't, 'k) example_env \<Rightarrow> bool \<Rightarrow> CurvePointWire" where
  "bench_commitment env genesis = compact_balance_commitment (xe_curve env) (if genesis then 1000000 else 900000)
     (add_blindings (from_u64 7) (from_u64 9)) (sf_leaf (xe_poseidon env))"

abbreviation bench_request_public where
  "bench_request_public env genesis \<equiv> note_request (xe_poseidon env) (sf_config env) (bench_state env genesis)
     (bench_root env) 2000000000 (from_u64 99) (bench_commitment env genesis)"

abbreviation bench_request_data where
  "bench_request_data env genesis \<equiv> note_request_data (bench_state env genesis) (from_u64 7) (from_u64 9) (from_u64 99)
     (sf_siblings (xe_poseidon env))"

lemma request_fixture_statement:
  assumes "edwards_wire_ok (xe_curve env)"
  shows "request_fixture env genesis =
    and_then (request_circuit (xe_curve env) (bench_request_public env genesis) (bench_request_data env genesis)) (\<lambda>circuit.
    Inr \<lparr>rf_public = bench_request_public env genesis, rf_witness = bench_request_data env genesis, rf_circuit = circuit\<rparr>)"
proof -
  have com: "compact_rerandomize (xe_curve env) (cf_commitment (CommonFixture_new env genesis)) (from_u64 9)
      = Inr (bench_commitment env genesis)"
    using compact_rerandomize_commitment [OF assms]
    by (simp add: CommonFixture_new_def Let_def bench_commitment_def sf_leaf_def)
  show ?thesis
    unfolding request_fixture_def com Let_def
    by (simp add: CommonFixture_new_def note_request_def note_request_data_def fixture_state_def fixture_config_def
        wallet_cap_def bench_note_def fixture_note_sf_def sf_leaf_def sf_siblings_def Let_def)
qed

abbreviation bench_clearance where
  "bench_clearance env genesis mutual \<equiv>
     (if mutual then Some (compact_sign (xe_curve env) (xe_poseidon env) (from_seed (xe_curve env) (from_u64 2)) (xe_nonce env 1)
        (clearance_message (xe_poseidon env) 2 31337 (from_u64 0x1234)
           (nullifier (xe_poseidon env) (from_u64 42) (fn_anchor (bench_note env genesis)))))
      else None)"

abbreviation bench_withdrawal_public where
  "bench_withdrawal_public env genesis mutual \<equiv> note_withdrawal (xe_poseidon env) (sf_config env) (bench_state env genesis)
     (bench_root env) FIXTURE_DESTINATION mutual"

abbreviation bench_withdrawal_data where
  "bench_withdrawal_data env genesis mutual \<equiv> note_withdrawal_data (bench_state env genesis) (from_u64 7)
     (sf_siblings (xe_poseidon env)) (bench_clearance env genesis mutual)"

lemma withdrawal_fixture_statement:
  "withdrawal_fixture env genesis mutual =
    and_then (withdrawal_circuit (xe_curve env) (destination_field FIXTURE_DESTINATION)
      (bench_withdrawal_public env genesis mutual) (bench_withdrawal_data env genesis mutual)) (\<lambda>circuit.
    Inr \<lparr>wf_public = bench_withdrawal_public env genesis mutual, wf_witness = bench_withdrawal_data env genesis mutual,
      wf_circuit = circuit\<rparr>)"
  by (simp add: withdrawal_fixture_def destination_read CommonFixture_new_def note_withdrawal_def note_withdrawal_data_def
      fixture_state_def fixture_config_def bench_note_def fixture_note_sf_def sf_leaf_def sf_siblings_def Let_def)

text \<open>Both statements hold, whatever the library's prover does with them.\<close>

lemma bench_statements_hold:
  assumes E: "edwards_wire_ok (xe_curve env)" and P: "poseidon_ok (xe_poseidon env)"
  shows "\<exists>p w. request_fixture env genesis = Inr \<lparr>rf_public = bench_request_public env genesis,
        rf_witness = bench_request_data env genesis, rf_circuit = (p, w)\<rparr> \<and>
      request_constraints (xe_curve env) (xe_poseidon env) p (request_assignment p w)"
    "\<exists>p w. withdrawal_fixture env genesis mutual = Inr \<lparr>wf_public = bench_withdrawal_public env genesis mutual,
        wf_witness = bench_withdrawal_data env genesis mutual, wf_circuit = (p, w)\<rparr> \<and>
      withdrawal_constraints (xe_curve env) (xe_poseidon env) p (withdrawal_assignment p w)"
proof -
  let ?E = "xe_curve env" and ?P = "xe_poseidon env" and ?s = "bench_state env genesis"
  let ?client = "fixture_client ?E ?P (xe_codec env)"
  have env: "env_ok ?client" "keys_ok ?client (sf_config env)"
    using fixture_client_ok [OF E P] fixture_keys_ok [OF E] by blast+
  have good: "note_inv ?client (sf_config env) ?s" "note_opens ?client ?s (from_u64 7)"
    using fixture_note_inv [OF E bench_note_ok] fixture_note_opens [OF bench_note_ok [of env genesis]] by simp_all
  have member: "note_member (ce_poseidon ?client) ?s (bench_root env) (sf_siblings ?P)"
    using sf_tree(2) [of ?P] by (simp add: note_member_def) (simp add: fixture_state_def Let_def)
  have fields: "ns_current_balance ?s = (if genesis then 1000000 else 900000)" "ns_expiry_ts ?s = 4000000000"
    "ns_protocol_version ?s = 2" "ns_chain_id ?s = 31337" "ns_contract_address ?s = from_u64 0x1234"
    "ns_secret_s ?s = from_u64 42" "ns_current_anchor ?s = fn_anchor (bench_note env genesis)"
    by (simp_all add: fixture_state_def Let_def)
  have cap: "500000 \<le> (if genesis then 1000000 else 900000 :: u128)" by simp
  obtain wire where "request_prove ?E ?P (xe_codec env) (\<lambda>_ _. Some toy_proof) (bench_request_public env genesis)
      (bench_request_data env genesis) = Inr wire"
    using note_request_proved [where K = "xe_codec env" and ctx = "from_u64 99" and rho = "from_u64 9"
        and com = "bench_commitment env genesis" and prover = "\<lambda>_ _. Some toy_proof", OF env good member, of 2000000000] cap
    by (auto simp: fields bench_commitment_def)
  then show "\<exists>p w. request_fixture env genesis = Inr \<lparr>rf_public = bench_request_public env genesis,
        rf_witness = bench_request_data env genesis, rf_circuit = (p, w)\<rparr> \<and>
      request_constraints ?E ?P p (request_assignment p w)"
    using request_circuit_proved by (fastforce simp: request_fixture_statement [OF E])
  have "case bench_clearance env genesis mutual of None \<Rightarrow> \<not> mutual | Some sig \<Rightarrow>
      compact_verify_signature ?E ?P (cc_clearance_signing_key (sf_config env))
        (clearance_message ?P (ns_protocol_version ?s) (ns_chain_id ?s) (ns_contract_address ?s)
           (nullifier ?P (ns_secret_s ?s) (ns_current_anchor ?s))) sig = Inr True"
    using compact_signature_verifies [OF E] by (simp add: fields) (simp add: fixture_config_def)
  then obtain wire where "withdrawal_prove ?E ?P (xe_codec env) (\<lambda>_ _. Some toy_proof)
      (bench_withdrawal_public env genesis mutual) (bench_withdrawal_data env genesis mutual) = Inr wire"
    using note_withdrawal_proved [where K = "xe_codec env" and dest = FIXTURE_DESTINATION and prover = "\<lambda>_ _. Some toy_proof"
        and csig = "bench_clearance env genesis mutual" and has_clearance = mutual, OF env good member]
    unfolding fixture_client_simps by blast
  then show "\<exists>p w. withdrawal_fixture env genesis mutual = Inr \<lparr>wf_public = bench_withdrawal_public env genesis mutual,
        wf_witness = bench_withdrawal_data env genesis mutual, wf_circuit = (p, w)\<rparr> \<and>
      withdrawal_constraints ?E ?P p (withdrawal_assignment p w)"
    using withdrawal_circuit_proved by (fastforce simp: withdrawal_fixture_statement note_withdrawal_def Let_def)
qed

section \<open>No panic\<close>

text \<open>The lengths of the samples, whatever fails.\<close>

lemma timed_load_loop_length:
  "timed_load_loop load elapsed i k loaded samples = Inr (x, ms) \<Longrightarrow> length ms = length samples + k"
  by (induction k arbitrary: i loaded samples) (auto simp: res)

lemma timed_load_length: "timed_load k load elapsed = Inr (x, ms) \<Longrightarrow> length ms = k"
  by (auto simp: timed_load_def res split: prod.splits dest: timed_load_loop_length)

lemma prove_loop_length:
  "prove_loop prove elapsed i k proofs ms = Inr (ps, ms') \<Longrightarrow> length ps = length proofs + k \<and> length ms' = length ms + k"
  by (induction k arbitrary: i proofs ms) (auto simp: res)

lemma verify_loop_length:
  "verify_loop verify elapsed message i proofs ms = Inr ms' \<Longrightarrow> length ms' = length ms + length proofs"
  by (induction proofs arbitrary: i ms) (auto simp: res)

definition no_panic :: "example_error + 'a \<Rightarrow> bool" where
  "no_panic m \<longleftrightarrow> m \<noteq> Inl AssertPanicked"

lemma no_panic_simps [simp]:
  "no_panic (Inr x)" "no_panic (and_then m f) \<longleftrightarrow> no_panic m \<and> (\<forall>x. m = Inr x \<longrightarrow> no_panic (f x))"
  "no_panic (map_err SetupFailure r)" "no_panic (map_err ProofFailure q)"
  "no_panic (bail_if c e) \<longleftrightarrow> \<not> c \<or> e \<noteq> AssertPanicked" "no_panic (ok_or e v) \<longleftrightarrow> v \<noteq> None \<or> e \<noteq> AssertPanicked"
  "no_panic (Inl e) \<longleftrightarrow> e \<noteq> AssertPanicked"
  by (cases m; cases r; cases q; cases v; simp add: no_panic_def bail_if_def)+

lemma timed_load_panic: "(\<And>j. no_panic (load j)) \<Longrightarrow> no_panic (timed_load k load elapsed)"
proof -
  assume load: "\<And>j. no_panic (load j)"
  have "no_panic (timed_load_loop load elapsed i k loaded samples)" for i loaded samples
    by (induction k arbitrary: i loaded samples) (simp_all add: load)
  then show ?thesis by (simp add: timed_load_def split: prod.split)
qed

lemma loops_panic:
  assumes "\<And>j. no_panic (prove j)" "\<And>q. no_panic (verify q)"
  shows "no_panic (warmup_loop prove verify message i k)" "no_panic (prove_loop prove elapsed i k proofs ms)"
    "no_panic (verify_loop verify elapsed message i proofs ms)"
proof -
  show "no_panic (warmup_loop prove verify message i k)" by (induction k arbitrary: i) (simp_all add: assms)
  show "no_panic (prove_loop prove elapsed i k proofs ms)" by (induction k arbitrary: i proofs ms) (simp_all add: assms)
  show "no_panic (verify_loop verify elapsed message i proofs ms)"
    by (induction proofs arbitrary: i ms) (simp_all add: assms)
qed

lemma bench_run_panic:
  assumes counts: "no_panic (bt_counts T)" and loads: "\<And>i. no_panic (bt_load_prover T i)" "\<And>i. no_panic (bt_load_verifier T i)"
    and runs: "\<And>k i. no_panic (bt_prove T k i)" "\<And>v q. no_panic (bt_verify T v q)"
    and pos: "0 < iterations" "0 < load_iterations"
  shows "no_panic (bench_run env T directory disk case_name iterations warmup_iterations load_iterations)"
proof -
  have first: "proofs \<noteq> [] \<Longrightarrow> \<exists>y. (case proofs of [] \<Rightarrow> None | p # _ \<Rightarrow> Some (gw_proof p)) = Some y" for proofs
    by (cases proofs) auto
  show ?thesis
    unfolding bench_run_def decoded_proof_len_def file_len_def
    using counts loops_panic [OF runs] timed_load_panic [OF loads(1)] timed_load_panic [OF loads(2)] pos
    by (auto simp: Distribution_new_None split: prod.split intro!: first
        dest: timed_load_length prove_loop_length verify_loop_length)
qed

lemma bench_request_panic:
  assumes "edwards_wire_ok (xe_curve (bm_examples env))" "poseidon_ok (xe_poseidon (bm_examples env))"
    "0 < iterations" "0 < load_iterations"
  shows "no_panic (bench_request env disk directory case_name iterations warmup_iterations load_iterations)"
  using bench_statements_hold(1) [OF assms(1,2), of "case_name = RequestGenesis"] assms(3,4)
  by (auto simp: bench_request_def Let_def constraint_counts_def intro!: bench_run_panic)

lemma bench_withdrawal_panic:
  assumes "edwards_wire_ok (xe_curve (bm_examples env))" "poseidon_ok (xe_poseidon (bm_examples env))"
    "0 < iterations" "0 < load_iterations"
  shows "no_panic (bench_withdrawal env disk directory case_name iterations warmup_iterations load_iterations)"
  using bench_statements_hold(2) [OF assms(1,2), of "case_name \<in> {WithdrawalGenesisEscape, WithdrawalGenesisMutual}"
      "case_name \<in> {WithdrawalGenesisMutual, WithdrawalStateMutual}"] assms(3,4)
  unfolding bench_withdrawal_def Let_def
  by (auto simp del: insert_iff singleton_iff simp: constraint_counts_def intro!: bench_run_panic)

lemma parse_positive_Inr: "parse_positive name s = Inr n \<Longrightarrow> 0 < n"
  by (auto simp: parse_positive_def res)

text \<open>The benchmark never panics: for all arguments, every content of the disk and every failure of the
  file system, the prover, the verifier and the synthesis, it ends with a result or an error of its own. The points
  it builds without checks are on the curve, it takes the first of a non-empty list of proofs, and every
  distribution has a sample.\<close>

lemma bench_never_panics:
  assumes "edwards_wire_ok (xe_curve (bm_examples env))" "poseidon_ok (xe_poseidon (bm_examples env))"
  shows "bench_main env arguments disk \<noteq> Inl AssertPanicked"
proof -
  have "no_panic (parse_positive name s)" for name s by (simp add: parse_positive_def)
  then have "no_panic (bench_main env arguments disk)"
    by (auto simp: bench_main_def BenchCase_parse_def intro!: bench_request_panic [OF assms] bench_withdrawal_panic [OF assms]
        dest: parse_positive_Inr)
  then show ?thesis by (simp add: no_panic_def)
qed

section \<open>Complete runs\<close>

text \<open>What a complete run reports: the distributions of exactly the measured times.\<close>

definition bench_report ::
    "('e, 'g, 'h, 't, 'k, 'x::linorder) bench_env \<Rightarrow> BenchCase \<Rightarrow> nat \<Rightarrow> nat \<Rightarrow> 'x BenchResult \<Rightarrow> bool" where
  "bench_report env case_name iterations load_iterations res \<longleftrightarrow>
    br_case res = case_name \<and> br_iterations res = iterations \<and> br_proof_bytes res = 256 \<and>
    Distribution_new (bm_floats env) (map (elapsed_ms env LoadProver) [0..<load_iterations]) = Some (br_prover_load res) \<and>
    Distribution_new (bm_floats env) (map (elapsed_ms env LoadVerifier) [0..<load_iterations]) = Some (br_verifier_load res) \<and>
    Distribution_new (bm_floats env) (map (elapsed_ms env Proving) [0..<iterations]) = Some (br_prove res) \<and>
    Distribution_new (bm_floats env) (map (elapsed_ms env Verifying) [0..<iterations]) = Some (br_verify res)"

lemma bench_run_done:
  assumes counts: "bt_counts T = Inr (c, v, w)"
    and loads: "\<And>i. bt_load_prover T i = Inr pk" "\<And>i. bt_load_verifier T i = Inr vk"
    and runs: "\<And>i. \<exists>wire bytes. bt_prove T pk i = Inr wire \<and> bt_verify T vk wire = Inr True \<and>
      b64_decode (xe_codec (bm_examples env)) (gw_proof wire) = Some bytes \<and> length bytes = 256"
    and files: "disk (directory @ [bt_proving_key T]) \<noteq> None" "disk (directory @ [bt_verifying_key T]) \<noteq> None"
      "\<And>f. \<not> bm_metadata_fault env f"
    and pos: "0 < iterations" "0 < load_iterations"
  shows "\<exists>res. bench_run env T directory disk case_name iterations warmup_iterations load_iterations = Inr res \<and>
    bench_report env case_name iterations load_iterations res"
proof -
  obtain p bytes where p: "bt_prove T pk i = Inr (p i)" "bt_verify T vk (p i) = Inr True"
    "b64_decode (xe_codec (bm_examples env)) (gw_proof (p i)) = Some (bytes i)" "length (bytes i) = 256" for i
    using runs by metis
  have dist: "\<exists>d. Distribution_new (bm_floats env) (map f [0..<k]) = Some d" if "0 < k" for f and k :: nat
    using Distribution_new_None [of "bm_floats env" "map f [0..<k]"] that by auto
  obtain d1 d2 d3 d4 where d:
    "Distribution_new (bm_floats env) (map (elapsed_ms env LoadProver) [0..<load_iterations]) = Some d1"
    "Distribution_new (bm_floats env) (map (elapsed_ms env LoadVerifier) [0..<load_iterations]) = Some d2"
    "Distribution_new (bm_floats env) (map (elapsed_ms env Proving) [0..<iterations]) = Some d3"
    "Distribution_new (bm_floats env) (map (elapsed_ms env Verifying) [0..<iterations]) = Some d4"
    using dist pos by metis
  have warm: "warmup_loop (bt_prove T pk) (bt_verify T vk) message i k = Inr ()" for message i k
    by (rule warmup_loop_done) (rule p)+
  have proofs: "prove_loop (\<lambda>i. bt_prove T pk (warmup_iterations + i)) (elapsed_ms env Proving) 0 iterations [] []
      = Inr (map (\<lambda>i. p (warmup_iterations + i)) [0..<iterations], map (elapsed_ms env Proving) [0..<iterations])"
    by (simp add: p(1) prove_loop_done [where p = "\<lambda>i. p (warmup_iterations + i)"])
  have verified: "verify_loop (bt_verify T vk) (elapsed_ms env Verifying) (bt_message T) 0
      (map (\<lambda>i. p (warmup_iterations + i)) [0..<iterations]) [] = Inr (map (elapsed_ms env Verifying) [0..<iterations])"
    using verify_loop_done [of "map (\<lambda>i. p (warmup_iterations + i)) [0..<iterations]" "bt_verify T vk" _ _ 0 "[]"] p(2) by auto
  have first: "(case map (\<lambda>i. p (warmup_iterations + i)) [0..<iterations] of [] \<Rightarrow> None | q # _ \<Rightarrow> Some (gw_proof q))
      = Some (gw_proof (p warmup_iterations))"
    using pos(1) by (simp add: upt_conv_Cons)
  show ?thesis
    using files pos d
    by (auto simp: bench_run_def bench_report_def counts timed_load_same [OF loads(1)] timed_load_same [OF loads(2)] proofs verified first
        warm decoded_proof_len_def p(3,4) file_len_def bail_if_def)
qed

text \<open>A proof the contract accepts has 256 bytes.\<close>

lemma calldata_length:
  "request_calldata pc vk words bytes root nul \<Longrightarrow> length bytes = 256"
  "withdrawal_calldata pc vk words bytes root nul balance clearance \<Longrightarrow> length bytes = 256"
  by (auto simp: request_calldata_def withdrawal_calldata_def assertValidRequest_def assertValidWithdrawal_def
      sol_assert_def sol_decodeProof_def split: if_splits)

lemma bench_request_runs:
  assumes laws: "example_laws env pc" and setup_run: "se_request_setup (xe_setup env) k = Some (pk, vk)"
  shows "\<exists>wire bytes. request_prove (xe_curve env) (xe_poseidon env) (xe_codec env) (xe_prove_request env i pk)
      (bench_request_public env genesis) (bench_request_data env genesis) = Inr wire \<and>
    request_verify (xe_curve env) (xe_codec env) (xe_verify env vk) (bench_request_public env genesis) wire = Inr True \<and>
    b64_decode (xe_codec env) (gw_proof wire) = Some bytes \<and> length bytes = 256"
proof -
  have addr: "felt_to_address (from_u64 0x1234) = Some 0x1234" by (simp add: felt_to_address_eq_Some unat_from_u64)
  have bal: "(500000 :: u128) \<le> fn_balance (bench_note env genesis)" by simp
  have now: "(2000000000 :: u64) \<le> 4000000000" by simp
  have com: "bench_commitment env genesis = compact_balance_commitment (xe_curve env) (fn_balance (bench_note env genesis))
      (add_blindings (fn_blinding (bench_note env genesis)) (from_u64 9))
      (fixture_leaf (xe_poseidon env) 1000000 4000000000 (bench_note env genesis))"
    by (simp add: bench_commitment_def)
  show ?thesis
    using fixture_request_accepted [where n = i and ctx = "from_u64 99", OF laws setup_run bench_note_ok refl sf_tree(2) bal now
        addr com refl refl, unfolded bench_note_simps] calldata_length(1) by blast
qed

lemma bench_withdrawal_runs:
  assumes laws: "example_laws env pc" and setup_run: "se_withdrawal_setup (xe_setup env) k = Some (pk, vk)"
  shows "\<exists>wire bytes. withdrawal_prove (xe_curve env) (xe_poseidon env) (xe_codec env) (xe_prove_withdrawal env i pk)
      (bench_withdrawal_public env genesis mutual) (bench_withdrawal_data env genesis mutual) = Inr wire \<and>
    withdrawal_verify (xe_curve env) (xe_codec env) (xe_verify env vk) (bench_withdrawal_public env genesis mutual) wire
      = Inr True \<and>
    b64_decode (xe_codec env) (gw_proof wire) = Some bytes \<and> length bytes = 256"
proof -
  have addr: "felt_to_address (from_u64 0x1234) = Some 0x1234" by (simp add: felt_to_address_eq_Some unat_from_u64)
  have clear: "case bench_clearance env genesis mutual of None \<Rightarrow> \<not> mutual | Some sig \<Rightarrow> (\<exists>nonce. sig =
      compact_sign (xe_curve env) (xe_poseidon env) (from_seed (xe_curve env) (from_u64 2)) nonce
        (clearance_message (xe_poseidon env) 2 31337 (from_u64 0x1234)
          (nullifier (xe_poseidon env) (fn_secret (bench_note env genesis)) (fn_anchor (bench_note env genesis)))))"
    by auto
  show ?thesis
    using fixture_withdrawal_accepted [where n = i and cap = 500000 and dest = FIXTURE_DESTINATION, OF laws setup_run
        bench_note_ok refl sf_tree(2) clear addr refl refl, unfolded bench_note_simps] calldata_length(2) by blast
qed

lemma bench_request_done:
  assumes laws: "example_laws (bm_examples env) pc" and setup_run: "se_request_setup (xe_setup (bm_examples env)) k = Some (pk, vk)"
    and files: "setup_done (xe_setup (bm_examples env)) directory disk pk vk wpk wvk"
      "disk (directory @ [''request.pk'']) \<noteq> None" "disk (directory @ [''request.vk'']) \<noteq> None"
    and ok: "\<forall>phase i. \<not> bm_load_fault env phase i" "\<forall>f. \<not> bm_metadata_fault env f" "\<forall>p w. bm_request_counts env p w \<noteq> None"
    and "0 < iterations"
  shows "\<exists>res. bench_request env disk directory case_name iterations warmup iterations = Inr res \<and>
    bench_report env case_name iterations iterations res"
proof -
  let ?xe = "bm_examples env" and ?genesis = "case_name = RequestGenesis"
  obtain p w where fx: "request_fixture ?xe ?genesis = Inr \<lparr>rf_public = bench_request_public ?xe ?genesis,
      rf_witness = bench_request_data ?xe ?genesis, rf_circuit = (p, w)\<rparr>"
    and sat: "request_constraints (xe_curve ?xe) (xe_poseidon ?xe) p (request_assignment p w)"
    using bench_statements_hold(1) [OF example_laws_curve [OF laws]] by blast
  obtain a b c where counts: "bm_request_counts env p w = Some (a, b, c)" using ok(3) by (metis not_None_eq prod_cases3)
  show ?thesis
    unfolding bench_request_def Let_def fx and_then_simps RequestFixture.simps prod.case
    by (rule bench_run_done [where pk = pk and vk = vk])
      (use bench_request_runs [OF laws setup_run] files ok assms(9) sat counts in
        \<open>auto simp: constraint_counts_def bail_if_def setup_done_def\<close>)
qed

lemma bench_withdrawal_done:
  assumes laws: "example_laws (bm_examples env) pc" and setup_run: "se_withdrawal_setup (xe_setup (bm_examples env)) k = Some (pk, vk)"
    and files: "setup_done (xe_setup (bm_examples env)) directory disk rpk rvk pk vk"
      "disk (directory @ [''withdrawal.pk'']) \<noteq> None" "disk (directory @ [''withdrawal.vk'']) \<noteq> None"
    and ok: "\<forall>phase i. \<not> bm_load_fault env phase i" "\<forall>f. \<not> bm_metadata_fault env f" "\<forall>p w. bm_withdrawal_counts env p w \<noteq> None"
    and "0 < iterations"
  shows "\<exists>res. bench_withdrawal env disk directory case_name iterations warmup iterations = Inr res \<and>
    bench_report env case_name iterations iterations res"
proof -
  let ?xe = "bm_examples env"
  define genesis where "genesis = (case_name \<in> {WithdrawalGenesisEscape, WithdrawalGenesisMutual})"
  define mutual where "mutual = (case_name \<in> {WithdrawalGenesisMutual, WithdrawalStateMutual})"
  obtain p w where fx: "withdrawal_fixture ?xe genesis mutual = Inr \<lparr>wf_public = bench_withdrawal_public ?xe genesis mutual,
      wf_witness = bench_withdrawal_data ?xe genesis mutual, wf_circuit = (p, w)\<rparr>"
    and sat: "withdrawal_constraints (xe_curve ?xe) (xe_poseidon ?xe) p (withdrawal_assignment p w)"
    using bench_statements_hold(2) [OF example_laws_curve [OF laws]] by blast
  obtain a b c where counts: "bm_withdrawal_counts env p w = Some (a, b, c)" using ok(3) by (metis not_None_eq prod_cases3)
  show ?thesis
    unfolding bench_withdrawal_def Let_def genesis_def [symmetric] mutual_def [symmetric] fx and_then_simps
      WithdrawalFixture.simps prod.case
    by (rule bench_run_done [where pk = pk and vk = vk])
      (use bench_withdrawal_runs [OF laws setup_run] files ok assms(9) sat counts in
        \<open>auto simp: constraint_counts_def bail_if_def setup_done_def\<close>)
qed

text \<open>Claim C26. The benchmark completes: with keys from a directory that \<open>setup.rs\<close> filled and no failing read
  or synthesis, every case with a positive number of iterations runs to its end. It reports the case and the
  iterations it was asked for, the 256 bytes of a proof, and the distributions of exactly the measured times;
  so no statement, proof or verification of the program fails.\<close>

theorem bench_completes:
  assumes laws: "example_laws (bm_examples env) pc" and setup_run: "setup_codec_ok (xe_setup (bm_examples env))"
      "setup_main (xe_setup (bm_examples env)) io exists (Some (bm_path env directory)) disk0 = (disk, Inr ())"
    and ok: "\<forall>phase i. \<not> bm_load_fault env phase i" "\<forall>f. \<not> bm_metadata_fault env f"
      "\<forall>p w. bm_request_counts env p w \<noteq> None" "\<forall>p w. bm_withdrawal_counts env p w \<noteq> None"
    and arguments: "BenchCase_parse name = Inr case_name" "0 < iterations" "iterations < 2 ^ 64" "warmup < 2 ^ 64"
  shows "\<exists>res. bench_main env [program, directory, name, decimal iterations, decimal warmup] disk = Inr res \<and>
    bench_report env case_name iterations iterations res"
proof -
  let ?xe = "bm_examples env" and ?directory = "bm_path env directory"
  obtain k rpk rvk wpk wvk where keys: "se_request_setup (xe_setup ?xe) (request_template (xe_curve ?xe) k) = Some (rpk, rvk)"
      "se_withdrawal_setup (xe_setup ?xe) (withdrawal_template k) = Some (wpk, wvk)"
    and files: "setup_done (xe_setup ?xe) ?directory disk rpk rvk wpk wvk"
    by (rule setup_main_done [OF setup_run])
  have exists: "disk (?directory @ [name]) \<noteq> None" if "name \<in> {''request.pk'', ''request.vk'', ''withdrawal.pk'', ''withdrawal.vk''}" for name
    using files that by (auto simp: setup_done_def request_prover_load_def withdrawal_prover_load_def request_verifier_load_def
        withdrawal_verifier_load_def read_compressed_def setup_files res split: if_splits)
  have main: "bench_main env [program, directory, name, decimal iterations, decimal warmup] disk =
      (if is_request case_name then bench_request else bench_withdrawal) env disk ?directory case_name iterations warmup iterations"
    using arguments by (simp add: bench_main_def parse_positive_def usize_decimal bail_if_def)
  show ?thesis
    unfolding main
    using bench_request_done [OF laws keys(1) files exists exists ok(1-3) arguments(2)]
      bench_withdrawal_done [OF laws keys(2) files exists exists ok(1,2,4) arguments(2)] by simp
qed

section \<open>A concrete benchmark\<close>

text \<open>Times in whole seconds; 0.95 is 19 twentieths.\<close>

definition toy_bench :: "(jub_group, 3, 3, 3, u8, nat) bench_env" where
  "toy_bench = \<lparr>bm_examples = toy_examples,
     bm_floats = \<lparr>fo_add = (+), fo_mul = (\<lambda>x y. (x * y + 19) div 20), fo_div = (div), fo_ceil = id, fo_of_usize = id,
       fo_as_usize = id, fo_two = 2, fo_thousand = 20000, fo_95_percent = 19, fo_sum_start = 0\<rparr>,
     bm_path = (\<lambda>s. [s]), bm_elapsed = (\<lambda>_ i. i), bm_load_fault = (\<lambda>_ _. False), bm_metadata_fault = (\<lambda>_. False),
     bm_request_counts = (\<lambda>_ _. Some (3, 13, 5)), bm_withdrawal_counts = (\<lambda>_ _. Some (3, 15, 5)),
     bm_rayon_threads = None\<rparr>"

lemma toy_bench_simps [simp]:
  "bm_examples toy_bench = toy_examples" "bm_path toy_bench s = [s]" "bm_load_fault toy_bench phase i = False"
  "bm_metadata_fault toy_bench f = False" "bm_request_counts toy_bench p w = Some (3, 13, 5)"
  "bm_withdrawal_counts toy_bench q u = Some (3, 15, 5)"
  by (simp_all add: toy_bench_def)

theorem bench_completes_witness:
  "\<exists>disk res. setup_main (toy_setup 7) no_setup_faults (\<lambda>_. False) (Some [''setup'']) Map.empty = (disk, Inr ()) \<and>
     bench_main toy_bench [''proof_bench'', ''setup'', ''withdrawal_state_mutual'', decimal 20, decimal 2] disk = Inr res \<and>
     bench_report toy_bench WithdrawalStateMutual 20 20 res"
proof -
  obtain disk where run: "setup_main (toy_setup 7) no_setup_faults (\<lambda>_. False) (Some [''setup'']) Map.empty = (disk, Inr ())"
    by (rule toy_setup_main)
  have toy: "xe_setup toy_examples = toy_setup 7" by (simp add: toy_examples_def)
  show ?thesis
    using bench_completes [of toy_bench toy_precompiles no_setup_faults "\<lambda>_. False" "''setup''" Map.empty disk
        "''withdrawal_state_mutual''" WithdrawalStateMutual 20 2 "''proof_bench''"] toy_examples_laws toy_setup_ok(1) run
    by (simp add: toy BenchCase_parse_def)
qed

end
