(* ===== verification/Browser_Properties.thy ===== *)
theory Browser_Properties
  imports Browser Wallet_Properties
begin

text \<open>
  The browser wallet refines the native one: each of its operations computes what the native operation
  computes on the corresponding note, up to differences the properties name, so results carry over. Tree paths and
  destination addresses are treated first; the properties come last.
\<close>

section \<open>Correspondence with the native wallet\<close>

definition native_state :: "BrowserNoteState \<Rightarrow> NoteState" where
  "native_state s =
     \<lparr>ns_protocol_version = bs_protocol_version s, ns_chain_id = bs_chain_id s,
      ns_contract_address = bs_contract_address s, ns_note_id = bs_note_id s, ns_secret_s = bs_secret_s s,
      ns_deposit_amount = bs_deposit_amount s, ns_expiry_ts = bs_expiry_ts s,
      ns_current_balance = bs_current_balance s, ns_balance_blinding = bs_balance_blinding s,
      ns_current_commitment_x = bs_current_commitment_x s, ns_current_commitment_y = bs_current_commitment_y s,
      ns_current_anchor = bs_current_anchor s, ns_is_genesis = bs_is_genesis s,
      ns_state_signature = bs_state_signature s\<rparr>"

definition native_config :: "BrowserWalletConfig \<Rightarrow> ClientConfig" where
  "native_config c =
     \<lparr>cc_protocol_version = bc_protocol_version c, cc_chain_id = bc_chain_id c,
      cc_contract_address = bc_contract_address c, cc_request_charge_cap = bc_request_charge_cap c,
      cc_policy_charge_cap = bc_policy_charge_cap c, cc_policy_enabled = bc_policy_enabled c,
      cc_server_url = [], cc_state_dir = [], cc_trusted_epoch_roots = [], cc_proof_mode = Groth16 [],
      cc_state_signing_key = bc_state_signing_key c, cc_clearance_signing_key = bc_clearance_signing_key c\<rparr>"

definition native_env ::
    "('e RequestPublic \<Rightarrow> 'e RequestWitness \<Rightarrow> Groth16Proof option) option \<Rightarrow>
     ('e WithdrawalPublic \<Rightarrow> 'e WithdrawalWitness \<Rightarrow> Groth16Proof option) option \<Rightarrow> 'd client_json \<Rightarrow>
     'e browser_env \<Rightarrow> ('e, 'd) client_env" where
  "native_env rp wp J env =
     \<lparr>ce_curve = be_curve env, ce_poseidon = be_poseidon env, ce_keccak = be_keccak env, ce_codec = be_codec env,
      ce_json = J, ce_request_prover = (\<lambda>_. rp), ce_withdrawal_prover = (\<lambda>_. wp)\<rparr>"

definition native_wallet :: "BrowserWalletConfig \<Rightarrow> BrowserNoteState \<Rightarrow> Wallet" where
  "native_wallet config s =
     \<lparr>w_config = native_config config, w_state = Some (native_state s), w_state_path = [], w_journal_path = []\<rparr>"

lemma native_view_simps [simp]:
  "ns_protocol_version (native_state s) = bs_protocol_version s" "ns_chain_id (native_state s) = bs_chain_id s"
  "ns_contract_address (native_state s) = bs_contract_address s" "ns_note_id (native_state s) = bs_note_id s"
  "ns_secret_s (native_state s) = bs_secret_s s" "ns_deposit_amount (native_state s) = bs_deposit_amount s"
  "ns_expiry_ts (native_state s) = bs_expiry_ts s" "ns_current_balance (native_state s) = bs_current_balance s"
  "ns_balance_blinding (native_state s) = bs_balance_blinding s"
  "ns_current_commitment_x (native_state s) = bs_current_commitment_x s"
  "ns_current_commitment_y (native_state s) = bs_current_commitment_y s"
  "ns_current_anchor (native_state s) = bs_current_anchor s" "ns_is_genesis (native_state s) = bs_is_genesis s"
  "ns_state_signature (native_state s) = bs_state_signature s"
  "w_state (native_wallet config s) = Some (native_state s)" "w_config (native_wallet config s) = native_config config"
  "ce_curve (native_env rp wp J env) = be_curve env" "ce_poseidon (native_env rp wp J env) = be_poseidon env"
  "ce_keccak (native_env rp wp J env) = be_keccak env" "ce_codec (native_env rp wp J env) = be_codec env"
  "ce_request_prover (native_env rp wp J env) dir = rp" "ce_withdrawal_prover (native_env rp wp J env) dir = wp"
  "cc_state_signing_key (native_config c) = bc_state_signing_key c"
  "cc_clearance_signing_key (native_config c) = bc_clearance_signing_key c"
  "cc_policy_enabled (native_config c) = bc_policy_enabled c"
  "cc_request_charge_cap (native_config c) = bc_request_charge_cap c"
  "cc_policy_charge_cap (native_config c) = bc_policy_charge_cap c"
  by (simp_all add: native_state_def native_wallet_def native_env_def native_config_def)

lemma native_leaf [simp]: "state_note_leaf P (native_state s) = browser_note_leaf P s"
  by (simp add: state_note_leaf_def browser_note_leaf_def)

text \<open>Only success is compared: the two wallets report errors in their own types and orders.\<close>

lemma res_ok_chain:
  "res_ok (and_then m f) = Option.bind (res_ok m) (\<lambda>x. res_ok (f x))" "res_ok (map_err g m) = res_ok m"
  "res_ok (ok_or e x) = x" "res_ok (bail_if c e) = (if c then None else Some ())"
  "res_ok (Inl e) = None" "res_ok (Inr y) = Some y"
proof -
  show "res_ok (and_then m f) = Option.bind (res_ok m) (\<lambda>x. res_ok (f x))" "res_ok (map_err g m) = res_ok m"
    by (cases m; simp)+
  show "res_ok (ok_or e x) = x" by (cases x) simp_all
qed (simp_all add: bail_if_def)

lemma native_checks:
  "res_ok (browser_parse_scalar v) = res_ok (from_hex v)" "res_ok (parse_scalar v) = res_ok (from_hex v)"
  "res_ok (browser_siblings_array ss) = (if length ss = MERKLE_DEPTH then Some ss else None)"
  "res_ok (siblings_array ss) = (if length ss = MERKLE_DEPTH then Some ss else None)"
  "res_ok (browser_ensure_stored_commitment s c) = res_ok (ensure_stored_commitment (native_state s) c)"
  by (simp_all add: browser_parse_scalar_def parse_scalar_def browser_siblings_array_def siblings_array_def
      browser_ensure_stored_commitment_def ensure_stored_commitment_def res_ok_chain)

text \<open>What the native wallet draws and reads from its clock comes with the arguments.\<close>

definition args_draws :: "felt \<Rightarrow> PrepareRequestArgs \<Rightarrow> request_draws" where
  "args_draws rho args =
     \<lparr>dr_now = pra_request_time args, dr_now_journal = 0, dr_uuid = pra_client_request_id args, dr_rerandomization = rho\<rparr>"

lemma browser_prepare_native:
  assumes "validate_state config s = Inr ()" "\<not> trim_is_empty (pra_client_request_id args)"
    and "canonical_payload_hash (be_keccak env) (as_bytes_str (pra_payload args)) = Some h"
  shows "map_option prq_request (res_ok (prepare_request_with_prover env rho config s args prover)) =
    map_option fst (res_ok (build_request (native_env (Some prover) wp J env) (args_draws rho args) (pra_payload args) h
      (pra_active_root args) (pra_merkle_siblings args) (native_wallet config s)))"
  using assms
  by (simp add: prepare_request_with_prover_def build_request_def Let_def native_checks args_draws_def
      solvency_bound_def bail_if_def res_ok_chain split: Option.bind_split)

lemma browser_complete_native:
  assumes "validate_state config s = Inr ()" "bj_exists j" "browser_parse_scalar (bs_balance_blinding s) = Inr b"
    and "r2_solvency_bound (aq2_public_inputs (bj_prepared_request j)) = wallet_cap (native_config config)"
  shows "map_option native_state (res_ok (complete_response env config \<lparr>cra_state = s, cra_journal = j, cra_response = resp\<rparr>)) =
    res_ok (and_then (ensure_stored_commitment (native_state s)
        (compact_balance_commitment (be_curve env) (bs_current_balance s) b (browser_note_leaf (be_poseidon env) s))) (\<lambda>_.
      and_then (map_err (\<lambda>e. VerificationFailed (CompactFailure e)) (compact_rerandomize (be_curve env)
        (compact_balance_commitment (be_curve env) (bs_current_balance s) b (browser_note_leaf (be_poseidon env) s))
        (bj_user_rerandomization j))) (\<lambda>anonymous.
      response_next_state (native_env rp wp J env) resp (bj_client_request_id j) (bj_nullifier j) anonymous
        (bj_user_rerandomization j) (native_wallet config s))))"
proof -
  let ?current = "compact_balance_commitment (be_curve env) (bs_current_balance s) b (browser_note_leaf (be_poseidon env) s)"
  have hex: "from_hex (bs_balance_blinding s) = Inr b" using assms(3) by (simp add: browser_parse_scalar_def)
  have upd: "native_state (s\<lparr>bs_current_balance := v, bs_balance_blinding := bl, bs_current_commitment_x := x,
      bs_current_commitment_y := y, bs_current_anchor := a, bs_is_genesis := g, bs_state_signature := sg\<rparr>) =
    (native_state s)\<lparr>ns_current_balance := v, ns_balance_blinding := bl, ns_current_commitment_x := x,
      ns_current_commitment_y := y, ns_current_anchor := a, ns_is_genesis := g, ns_state_signature := sg\<rparr>"
    for v bl x y a g sg by (simp add: native_state_def)
  show ?thesis
  proof (cases "res_ok (ensure_stored_commitment (native_state s) ?current)")
    case stored: (Some u)
    show ?thesis
    proof (cases "res_ok (compact_rerandomize (be_curve env) ?current (bj_user_rerandomization j))")
      case (Some anon)
      with stored hex assms show ?thesis
        by (simp add: complete_response_def response_next_state_def Let_def native_checks wallet_cap_def res_ok_chain upd checked_sub_def
            split: Option.bind_split)
    qed (use stored hex assms in \<open>simp add: complete_response_def Let_def native_checks res_ok_chain split: Option.bind_split\<close>)
  qed (use hex assms in \<open>simp add: complete_response_def Let_def native_checks res_ok_chain split: Option.bind_split\<close>)
qed

lemma browser_withdrawal_native:
  assumes "validate_state config s = Inr ()" "parse_address (pwa_destination args) = Inr dest"
    and "decode_compressed (be_withdrawal_key env) key = Inr prover" "pwa_mode args = ''escape''" "pwa_clearance args = None"
  shows "map_option (\<lambda>plan. (wpl_public_inputs plan, wpl_proof plan)) (res_ok (prepare_withdrawal env config s args key)) =
    res_ok (withdrawal_escape_hatch (native_env rp (Some prover) J env) dest (pwa_active_root args)
      (pwa_merkle_siblings args) (native_wallet config s))"
  using assms
  by (simp add: prepare_withdrawal_def withdrawal_escape_hatch_def build_withdrawal_def withdrawal_clearance_def
      withdrawal_nullifier_def Let_def native_checks bail_if_def res_ok_chain split: Option.bind_split)

section \<open>Invariant\<close>

text \<open>The native environment with documents as JSON.\<close>

abbreviation doc_env :: "'e browser_env \<Rightarrow> ('e, wallet_doc) client_env" where
  "doc_env env \<equiv> native_env None None doc_json env"

definition browser_env_ok :: "'e::ab_group_add browser_env \<Rightarrow> bool" where
  "browser_env_ok env \<longleftrightarrow> edwards_wire_ok (be_curve env) \<and> poseidon_ok (be_poseidon env) \<and> keccak_ok (be_keccak env)"

definition browser_note_inv :: "'e::ab_group_add browser_env \<Rightarrow> BrowserWalletConfig \<Rightarrow> BrowserNoteState \<Rightarrow> bool" where
  "browser_note_inv env config s \<longleftrightarrow> note_inv (doc_env env) (native_config config) (native_state s)"

lemma native_env_ok: "browser_env_ok env \<Longrightarrow> env_ok (native_env rp wp doc_json env)"
  by (auto simp: browser_env_ok_def env_ok_def state_encodable_def journal_encodable_def doc_json_def native_env_def
      split: wallet_doc.splits if_splits)

lemma note_inv_native_env:
  "note_inv (native_env rp wp J env) config s \<longleftrightarrow> note_inv (native_env rp' wp' J' env) config s"
  by (simp add: note_inv_def note_opens_def note_signed_def)

lemma browser_deposit_inv:
  assumes "browser_env_ok env" "canonical (cda_secret args)" "canonical blinding" "canonical (bc_contract_address config)"
    and "browser_confirm_deposit env blinding config args = Inr s"
  shows "browser_note_inv env config s \<and> bs_current_balance s = cda_amount args"
proof -
  let ?com = "compact_balance_commitment (be_curve env) (cda_amount args) blinding
      (note_leaf (be_poseidon env) (cda_note_id args) (registration_commitment (be_poseidon env) (cda_secret args))
        (cda_amount args) (cda_expiry_ts args))"
  have nz: "cda_secret args \<noteq> 0"
    using assms(5) by (auto simp: browser_confirm_deposit_def validate_state_identity_def res bail_if_def split: if_splits)
  have "native_state s = new_from_deposit (bc_protocol_version config) (bc_chain_id config) (bc_contract_address config)
      (cda_note_id args) (cda_secret args) (cda_amount args) (cda_expiry_ts args) (to_hex blinding) (cp_x ?com) (cp_y ?com)"
    using assms(5) by (auto simp: browser_confirm_deposit_def Let_def res native_state_def new_from_deposit_def)
  moreover have "bs_current_balance s = cda_amount args"
    using assms(5) by (auto simp: browser_confirm_deposit_def Let_def res)
  ultimately show ?thesis
    using genesis_note_inv [OF native_env_ok [OF assms(1)] assms(2) nz assms(3,4)]
    by (simp add: browser_note_inv_def)
qed

text \<open>The browser takes its cap from the journaled request, so its completion is the native one of a
  configuration with that cap.\<close>

definition capped :: "BrowserWalletConfig \<Rightarrow> BrowserJournal \<Rightarrow> BrowserWalletConfig" where
  "capped config j = config\<lparr>bc_policy_enabled := False,
     bc_request_charge_cap := r2_solvency_bound (aq2_public_inputs (bj_prepared_request j))\<rparr>"

definition native_journal :: "BrowserJournal \<Rightarrow> PendingRequestJournal" where
  "native_journal j = \<lparr>pj_exists = bj_exists j, pj_client_request_id = bj_client_request_id j,
     pj_nullifier = bj_nullifier j, pj_payload_hash = bj_payload_hash j,
     pj_user_rerandomization = bj_user_rerandomization j, pj_created_at_ms = bj_created_at_ms j,
     pj_prepared_request = Some (bj_prepared_request j)\<rparr>"

lemma browser_complete_accept:
  assumes "complete_response env config \<lparr>cra_state = s, cra_journal = j, cra_response = resp\<rparr> = Inr s'"
  shows "note_accept (doc_env env, native_config (capped config j)) (native_journal j, resp) (native_state s) = Inr (native_state s')"
proof -
  have ok: "validate_state config s = Inr ()" "bj_exists j" and "\<exists>b. browser_parse_scalar (bs_balance_blinding s) = Inr b"
    using assms by (auto simp: complete_response_def Let_def res bail_if_def split: if_splits)
  then obtain b where b: "browser_parse_scalar (bs_balance_blinding s) = Inr b" by blast
  have v: "validate_state (capped config j) s = Inr ()"
    using ok(1) by (simp add: validate_state_def validate_state_identity_def capped_def)
  have same: "complete_response env (capped config j) \<lparr>cra_state = s, cra_journal = j, cra_response = resp\<rparr> = Inr s'"
    using assms v ok(1) by (simp add: complete_response_def Let_def) (simp add: capped_def)
  have cap: "r2_solvency_bound (aq2_public_inputs (bj_prepared_request j)) = wallet_cap (native_config (capped config j))"
    by (simp add: wallet_cap_def capped_def)
  have w: "native_wallet (capped config j) s = \<lparr>w_config = native_config (capped config j),
      w_state = Some (native_state s), w_state_path = [], w_journal_path = []\<rparr>" by (simp add: native_wallet_def)
  have "parse_scalar (bs_balance_blinding s) = Inr b" using b by (simp add: browser_parse_scalar_def parse_scalar_def)
  then have "res_ok (note_accept (doc_env env, native_config (capped config j)) (native_journal j, resp) (native_state s))
      = Some (native_state s')"
    using browser_complete_native [OF v ok(2) b cap, of env resp None None doc_json] same
    by (simp add: note_accept_def native_journal_def Let_def flip: w)
  then show ?thesis by simp
qed

interpretation bl: note_ledger "\<lambda>(env, config) s. browser_env_ok env \<and> browser_note_inv env config s"
  "\<lambda>s. unat (bs_current_balance s)" "\<lambda>(j, resp). unat (rr2_charge_applied resp)"
  "\<lambda>_ (j, resp). response_canonical resp"
  "\<lambda>(env, config) (j, resp) s. complete_response env config \<lparr>cra_state = s, cra_journal = j, cra_response = resp\<rparr>"
proof (unfold_locales, goal_cases)
  case (1 c r s s')
  obtain env config j resp where c: "c = (env, config)" "r = (j, resp)" by (cases c; cases r) blast
  have ignore_cap: "note_inv e (native_config (capped config j)) n \<longleftrightarrow> note_inv e (native_config config) n"
    for e :: "('a, wallet_doc) client_env" and n
    by (simp add: note_inv_def note_signed_def) (simp add: capped_def)
  have step: "note_accept (doc_env env, native_config (capped config j)) (native_journal j, resp) (native_state s) = Inr (native_state s')"
    using 1(3) browser_complete_accept by (simp add: c)
  have "env_ok (doc_env env)" "note_inv (doc_env env) (native_config (capped config j)) (native_state s)"
    using 1(2) native_env_ok [of env None None] by (simp_all add: c browser_note_inv_def ignore_cap)
  then show ?case
    using nl.accept_keeps [of "(native_journal j, resp)" "(doc_env env, native_config (capped config j))" "native_state s" "native_state s'"]
      1(1,2) step by (simp add: c browser_note_inv_def ignore_cap)
qed

section \<open>Snapshots\<close>

lemma snapshot_tree:
  fixes P :: poseidon
  assumes "length ls \<le> 2 ^ 32"
  defines "t \<equiv> fold (\<lambda>(index, leaf) tree. set_leaf P tree (of_nat index) leaf) (List.enumerate 0 ls) (MerkleTree_new P)"
  shows "merkle_inv P t \<and> get_leaf t = (\<lambda>i. if unat i < length ls then ls ! unat i else 0)"
  using assms(1) unfolding t_def
proof (induction ls rule: rev_induct)
  case Nil
  then show ?case using merkle_inv_new [of P] new_leaf [of P] by (auto simp: fun_eq_iff)
next
  case (snoc v ls)
  let ?t = "fold (\<lambda>(index, leaf) tree. set_leaf P tree (of_nat index) leaf) (List.enumerate 0 ls) (MerkleTree_new P)"
  have IH: "merkle_inv P ?t" "get_leaf ?t = (\<lambda>i. if unat i < length ls then ls ! unat i else 0)" using snoc by simp_all
  have len: "unat (of_nat (length ls) :: u32) = length ls" using snoc.prems by (simp add: unat_of_nat_u32)
  then have "(i :: u32) = of_nat (length ls) \<longleftrightarrow> unat i = length ls" for i by (metis word_unat_eq_iff)
  then show ?case using IH
    by (auto simp: enumerate_append_eq merkle_inv_set_leaf get_leaf_set_leaf fun_eq_iff nth_append less_Suc_eq)
qed

definition snapshot_leaves :: "TreeSnapshot \<Rightarrow> u32 \<Rightarrow> felt" where
  "snapshot_leaves snapshot i = (if unat i < length (ts_leaves snapshot) then ts_leaves snapshot ! unat i else 0)"

lemma tree_path_Inr:
  assumes "tree_path P snapshot note_id existing = Inr path"
  shows "btp_active_root path = ts_root snapshot" "btp_note_id path = note_id"
    "btp_siblings path = spec_siblings P (snapshot_leaves snapshot) note_id"
    "ts_root snapshot = spec_root P (snapshot_leaves snapshot)"
    "if existing then unat note_id < length (ts_leaves snapshot) else unat note_id = length (ts_leaves snapshot)"
proof -
  let ?t = "fold (\<lambda>(index, leaf) tree. set_leaf P tree (of_nat index) leaf)
             (List.enumerate 0 (ts_leaves snapshot)) (MerkleTree_new P)"
  have path: "length (ts_leaves snapshot) = unat (ts_next_note_id snapshot)" "tree_root ?t = ts_root snapshot"
    "path = \<lparr>btp_active_root = ts_root snapshot, btp_note_id = note_id, btp_siblings = get_siblings ?t note_id\<rparr>"
    "if existing then note_id < ts_next_note_id snapshot else note_id = ts_next_note_id snapshot"
    using assms by (auto simp: tree_path_def Let_def res bail_if_def not_le split: if_splits)
  have "length (ts_leaves snapshot) \<le> 2 ^ 32" using path(1) unat_u32_less [of "ts_next_note_id snapshot"] by simp
  from snapshot_tree [OF this, of P]
  have t: "merkle_inv P ?t" "get_leaf ?t = snapshot_leaves snapshot" by (simp_all add: fun_eq_iff snapshot_leaves_def)
  show "btp_active_root path = ts_root snapshot" "btp_note_id path = note_id"
    "btp_siblings path = spec_siblings P (snapshot_leaves snapshot) note_id"
    "ts_root snapshot = spec_root P (snapshot_leaves snapshot)"
    "if existing then unat note_id < length (ts_leaves snapshot) else unat note_id = length (ts_leaves snapshot)"
    using path get_siblings_spec [OF t(1)] tree_root_spec [OF t(1)] by (auto simp: t(2) word_less_nat_alt)
qed


section \<open>Addresses\<close>

lemma hex_char_ascii:
  assumes "n < 16"
  shows "(of_char (hex_char n) :: nat) < 128"
  using hex_char_facts(1) [OF assms] by (auto simp: hex_digit_def Let_def split: if_splits)

lemma byte_hex_pair: "utf8_pair (byte_hex b)"
  using hex_char_ascii nibbles_less [of b] by (simp add: utf8_pair_def byte_hex_def)

lemma parse_hex_bytes:
  assumes "length bs = 20"
  shows "try_map (\<lambda>chunk. if \<not> utf8_pair chunk then Inl AddressNotUtf8
      else ok_or AddressNotHex (from_str_radix16 chunk)) (chunks 2 20 (concat (map byte_hex bs))) = Inr bs"
proof -
  have "chunks 2 (length (map byte_hex bs)) (concat (map byte_hex bs)) = map byte_hex bs"
    by (rule chunks_concat) auto
  then have "chunks 2 20 (concat (map byte_hex bs)) = map byte_hex bs" using assms by simp
  moreover have "try_map (\<lambda>chunk. if \<not> utf8_pair chunk then Inl AddressNotUtf8
      else ok_or AddressNotHex (from_str_radix16 chunk)) (map byte_hex bs) = Inr bs"
    by (induction bs) (simp_all add: byte_hex_pair from_str_radix16_byte_hex)
  ultimately show ?thesis by simp
qed

lemma be_value_addr_bytes: "(of_nat (be_value (addr_bytes a)) :: address) = a"
  using unsigned_less [of a, where ?'a = nat] by (simp add: addr_bytes_def be_value_digits)

lemma hex_no_prefix: "strip_prefix ''0x'' (concat (map byte_hex bs)) = None"
proof -
  have "lower_hex (concat (map byte_hex bs))" by (rule concat_byte_hex_lower)
  then have "CHR ''x'' \<notin> set (concat (map byte_hex bs))" using hex_char_facts(4) unfolding lower_hex_def by metis
  then have "take 2 (concat (map byte_hex bs)) \<noteq> ''0x''"
    by (metis in_set_takeD list.set_intros(1) list.set_intros(2))
  then show ?thesis by (simp add: strip_prefix_def numeral_2_eq_2)
qed

lemma parse_address_hex:
  "parse_address (''0x'' @ concat (map byte_hex (addr_bytes a))) = Inr a"
  "parse_address (concat (map byte_hex (addr_bytes a))) = Inr a"
proof -
  have "strip_prefix ''0x'' (''0x'' @ concat (map byte_hex (addr_bytes a))) = Some (concat (map byte_hex (addr_bytes a)))"
    by (simp add: strip_prefix_def)
  moreover have "length (addr_bytes a) = 20" by (simp add: addr_bytes_def)
  ultimately show "parse_address (''0x'' @ concat (map byte_hex (addr_bytes a))) = Inr a"
    "parse_address (concat (map byte_hex (addr_bytes a))) = Inr a"
    using parse_hex_bytes [of "addr_bytes a"] hex_no_prefix [of "addr_bytes a"]
    by (simp_all add: parse_address_def bail_if_def unwrap_or_def be_value_addr_bytes del: append.simps)
qed


section \<open>A concrete browser wallet\<close>

definition toy_browser :: "jub_group browser_env" where
  "toy_browser = \<lparr>be_curve = jub_curve, be_poseidon = (\<lambda>_. 0), be_keccak = (\<lambda>_. replicate 32 0),
     be_codec = ce_codec toy_client, be_request_key = (\<lambda>bs. Some (\<lambda>_ _. Some toy_proof, bs)),
     be_withdrawal_key = (\<lambda>bs. Some (\<lambda>_ _. Some toy_proof, bs))\<rparr>"

definition toy_browser_config :: BrowserWalletConfig where
  "toy_browser_config = \<lparr>bc_protocol_version = 2, bc_chain_id = 1, bc_contract_address = 99,
     bc_request_charge_cap = 10, bc_policy_charge_cap = 10, bc_policy_enabled = False,
     bc_state_signing_key = cc_state_signing_key toy_config, bc_clearance_signing_key = cc_clearance_signing_key toy_config\<rparr>"

definition toy_deposit_args :: ConfirmDepositArgs where
  "toy_deposit_args = \<lparr>cda_secret = 42, cda_note_id = 0, cda_amount = 100, cda_expiry_ts = 1000\<rparr>"

definition toy_snapshot :: TreeSnapshot where
  "toy_snapshot = \<lparr>ts_root = tree_root (set_leaf (\<lambda>_. 0) (MerkleTree_new (\<lambda>_. 0)) 0 0), ts_next_note_id = 1, ts_leaves = [0]\<rparr>"

lemma toy_browser_ok: "browser_env_ok toy_browser"
  using jub_curve_wire_ok by (simp add: browser_env_ok_def toy_browser_def poseidon_ok_def keccak_ok_def field_modulus_def)

lemma toy_browser_note:
  obtains s where "browser_confirm_deposit toy_browser 4 toy_browser_config toy_deposit_args = Inr s"
    "validate_state toy_browser_config s = Inr ()" "browser_note_inv toy_browser toy_browser_config s"
    "bs_current_balance s = 100" "bs_note_id s = 0" "browser_note_leaf (be_poseidon toy_browser) s = 0"
proof -
  obtain s where s: "browser_confirm_deposit toy_browser 4 toy_browser_config toy_deposit_args = Inr s"
    "validate_state toy_browser_config s = Inr ()" "bs_note_id s = 0"
    by (simp add: browser_confirm_deposit_def validate_state_identity_def validate_state_def bail_if_def Let_def
        toy_browser_config_def toy_deposit_args_def)
  moreover have "browser_note_leaf (be_poseidon toy_browser) s = 0"
    by (simp add: browser_note_leaf_def toy_browser_def note_leaf_def zero_poseidon)
  moreover have "browser_note_inv toy_browser toy_browser_config s \<and> bs_current_balance s = 100"
    using browser_deposit_inv [OF toy_browser_ok _ _ _ s(1)]
    by (simp add: toy_deposit_args_def toy_browser_config_def canonical_def field_modulus_def)
  ultimately show ?thesis using that by blast
qed

lemma toy_key: "decode_compressed (be_withdrawal_key toy_browser) KEY_HEADER = Inr (\<lambda>_ _. Some toy_proof)"
  by (simp add: decode_compressed_def strip_prefix_def toy_browser_def bail_if_def)


section \<open>Building requests and withdrawals\<close>

text \<open>The keys of a configuration are points, and those of the state signatures are reduced.\<close>

definition browser_config_ok :: "'e browser_env \<Rightarrow> BrowserWalletConfig \<Rightarrow> bool" where
  "browser_config_ok env config \<longleftrightarrow> canonical (bc_contract_address config) \<and>
     canonical (cp_x (bc_state_signing_key config)) \<and> canonical (cp_y (bc_state_signing_key config)) \<and>
     (\<exists>k. point_from_wire (be_curve env) (bc_state_signing_key config) = Inr k) \<and>
     (\<exists>k. point_from_wire (be_curve env) (bc_clearance_signing_key config) = Inr k)"

lemma browser_config_native:
  "browser_config_ok env config \<Longrightarrow> config_ok (native_env rp wp J env) (native_config config)"
  by (auto simp: browser_config_ok_def config_ok_def keys_ok_def native_config_def)

text \<open>A note with the invariant whose leaf is in the tree can be spent: by a request if it can pay the cap and
  has not expired, and always by an escape withdrawal.\<close>

lemma browser_request_provable:
  assumes "browser_env_ok env" "validate_state config s = Inr ()" "browser_note_inv env config s" "browser_config_ok env config"
    and member: "note_member (be_poseidon env) (native_state s) (pra_active_root args) (pra_merkle_siblings args)"
    and prover: "\<forall>p w. request_constraints (be_curve env) (be_poseidon env) p (request_assignment p w) \<longrightarrow> prover p w \<noteq> None"
    and "\<not> trim_is_empty (pra_client_request_id args)"
    and hash: "canonical_payload_hash (be_keccak env) (as_bytes_str (pra_payload args)) = Some h"
      "canonical_request_context (be_keccak env) (pra_client_request_id args) h = Some ctx"
    and funds: "wallet_cap (native_config config) \<le> bs_current_balance s" "pra_request_time args \<le> bs_expiry_ts s"
  obtains prepared where "prepare_request_with_prover env rho config s args prover = Inr prepared"
proof -
  let ?env = "native_env (Some prover) None doc_json env" and ?w = "native_wallet config s"
  have "note_inv ?env (w_config ?w) (native_state s)"
    using assms(3) note_inv_native_env [of "Some prover" None doc_json env "native_config config" "native_state s" None None doc_json]
    by (simp add: browser_note_inv_def)
  moreover have "request_prover_complete ?env (w_config ?w)" using prover by (simp add: request_prover_complete_def)
  ultimately obtain r j where "build_request ?env (args_draws rho args) (pra_payload args) h (pra_active_root args)
      (pra_merkle_siblings args) ?w = Inr (r, j)"
    using request_buildable [where env = ?env and w = ?w and s = "native_state s" and root = "pra_active_root args"
        and siblings = "pra_merkle_siblings args" and dr = "args_draws rho args" and payload = "pra_payload args" and h = h and ctx = ctx] native_env_ok [OF assms(1)]
      browser_config_native [OF assms(4), of "Some prover" None doc_json] member hash funds by (auto simp: args_draws_def)
  then show ?thesis
    using that browser_prepare_native [OF assms(2,7) hash(1), of rho prover None doc_json]
    by (cases "prepare_request_with_prover env rho config s args prover") auto
qed

lemma browser_escape_provable:
  assumes "browser_env_ok env" "validate_state config s = Inr ()" "browser_note_inv env config s"
    and "point_from_wire (be_curve env) (bc_state_signing_key config) = Inr k"
    and "point_from_wire (be_curve env) (bc_clearance_signing_key config) = Inr ck"
    and member: "note_member (be_poseidon env) (native_state s) root siblings"
    and "decode_compressed (be_withdrawal_key env) key = Inr prover"
    and prover: "\<forall>p w. withdrawal_constraints (be_curve env) (be_poseidon env) p (withdrawal_assignment p w) \<longrightarrow> prover p w \<noteq> None"
    and "parse_address destination = Inr dest"
  shows "\<exists>plan. prepare_withdrawal env config s
      \<lparr>pwa_mode = ''escape'', pwa_destination = destination, pwa_active_root = root,
       pwa_merkle_siblings = siblings, pwa_clearance = None\<rparr> key = Inr plan \<and>
    w2_final_balance (wpl_public_inputs plan) = bs_current_balance s \<and>
    w2_destination (wpl_public_inputs plan) = dest \<and> w2_active_root (wpl_public_inputs plan) = root"
proof -
  let ?env = "native_env None (Some prover) doc_json env" and ?w = "native_wallet config s"
  let ?args = "\<lparr>pwa_mode = ''escape'', pwa_destination = destination, pwa_active_root = root,
       pwa_merkle_siblings = siblings, pwa_clearance = None\<rparr>"
  have keys: "keys_ok ?env (native_config config)" using assms(4,5) by (simp add: keys_ok_def)
  have complete: "withdrawal_prover_complete ?env (native_config config)" using prover by (simp add: withdrawal_prover_complete_def)
  obtain pub pf where exit: "build_withdrawal ?env dest root siblings False None ?w = Inr (pub, pf)"
    "w2_final_balance pub = bs_current_balance s" "w2_destination pub = dest"
    using withdrawal_provable [where env = ?env and w = ?w and s = "native_state s" and root = root and siblings = siblings
        and csig = None and has_clearance = False and dest = dest]
      assms(3) note_inv_native_env [of None "Some prover" doc_json env "native_config config" "native_state s" None None doc_json]
      native_env_ok [OF assms(1), of None "Some prover"] keys complete member by (auto simp: browser_note_inv_def)
  have root: "w2_active_root pub = root" using exit(1) by (auto simp: build_withdrawal_def Let_def res)
  have "map_option (\<lambda>plan. (wpl_public_inputs plan, wpl_proof plan)) (res_ok (prepare_withdrawal env config s ?args key)) = Some (pub, pf)"
    using browser_withdrawal_native [OF assms(2) _ assms(7), of ?args dest None doc_json] assms(9) exit(1)
    by (simp add: withdrawal_escape_hatch_def)
  then show ?thesis using exit(2,3) root by auto
qed

section \<open>The native wallet at work\<close>

text \<open>The native wallet on the note of a snapshot, with its files.\<close>

definition native_at :: "BrowserWalletConfig \<Rightarrow> BrowserNoteState \<Rightarrow> path \<Rightarrow> path \<Rightarrow> Wallet" where
  "native_at config s state_path journal_path =
     (native_wallet config s)\<lparr>w_state_path := state_path, w_journal_path := journal_path\<rparr>"

lemma native_at_simps [simp]:
  "w_config (native_at config s sp jp) = native_config config" "w_state (native_at config s sp jp) = Some (native_state s)"
  "w_state_path (native_at config s sp jp) = sp" "w_journal_path (native_at config s sp jp) = jp"
  by (simp_all add: native_at_def)

text \<open>Serialising a note or a journal does not fail.\<close>

definition documents_total :: "'d client_json \<Rightarrow> bool" where
  "documents_total J \<longleftrightarrow> (\<forall>n. state_to_json J n \<noteq> None) \<and> (\<forall>j. journal_to_json J j \<noteq> None)"

lemma build_request_native:
  assumes "validate_state config s = Inr ()" "\<not> trim_is_empty (pra_client_request_id args)"
    and "canonical_payload_hash (be_keccak env) (as_bytes_str (pra_payload args)) = Some h"
    and "pra_created_at_ms args = now_ms t"
  shows "map_option (\<lambda>p. (prq_request p, native_journal (prq_journal p)))
      (res_ok (prepare_request_with_prover env rho config s args prover)) =
    res_ok (build_request (native_env (Some prover) wp J env) ((args_draws rho args)\<lparr>dr_now_journal := t\<rparr>)
      (pra_payload args) h (pra_active_root args) (pra_merkle_siblings args) (native_at config s sp jp))"
  using assms
  by (simp add: prepare_request_with_prover_def build_request_def Let_def native_checks args_draws_def
      solvency_bound_def bail_if_def res_ok_chain native_journal_def split: Option.bind_split)

lemma journal_write_works:
  assumes "documents_total J" "p \<noteq> with_extension p ''tmp''"
  shows "\<exists>disk'. journal_write J no_faults p j disk = (disk', Inr ()) \<and> disk' p = journal_to_json J j"
proof -
  obtain d where d: "journal_to_json J j = Some d" using assms(1) by (auto simp: documents_total_def)
  have "snd (replace_file no_faults p d disk) = Inr ()" by (rule replace_works)
  then have "fst (replace_file no_faults p d disk) p = Some d"
    using replace_cases [OF assms(2), of no_faults d disk] by fastforce
  then show ?thesis using d replace_works [of p d disk]
    by (cases "replace_file no_faults p d disk") (simp add: journal_write_def)
qed

text \<open>Without disk failures the native completion is the note's acceptance.\<close>

lemma complete_pending_works:
  assumes "documents_total (ce_json env)" "w_state w = Some s"
    and "journal_read (ce_json env) no_faults (w_journal_path w) disk = Inr (Some j)"
  shows "(case complete_pending_response env no_faults resp w disk of
      ((w', _), Inr _) \<Rightarrow> w_state w' | (_, Inl _) \<Rightarrow> None) =
    res_ok (note_accept (env, w_config w) (j, resp) s)"
proof -
  have cong: "response_next_state env resp rid nul anon rho w = response_next_state env resp rid nul anon rho
      \<lparr>w_config = w_config w, w_state = Some s, w_state_path = [], w_journal_path = []\<rparr>" for rid nul anon rho
    by (rule response_next_state_cong) (simp_all add: assms(2))
  show ?thesis
  proof (cases "note_accept (env, w_config w) (j, resp) s")
    case (Inl e)
    have "snd (complete_pending_response env no_faults resp w disk) \<noteq> Inr ()"
      using complete_note_accept [of env no_faults resp w disk] Inl assms(2,3)
      by (cases "complete_pending_response env no_faults resp w disk") force
    then show ?thesis using Inl
      by (cases "complete_pending_response env no_faults resp w disk";
          cases "snd (complete_pending_response env no_faults resp w disk)") auto
  next
    case (Inr nxt)
    then obtain anon where "pending_context env no_faults w disk = Inr (j, anon)"
      and nxt: "response_next_state env resp (pj_client_request_id j) (pj_nullifier j) anon (pj_user_rerandomization j) w = Inr nxt"
      using assms(2,3) by (auto simp: note_accept_def pending_context_def res Let_def cong)
    moreover obtain d where "state_to_json (ce_json env) nxt = Some d" using assms(1) by (auto simp: documents_total_def)
    then obtain disk1 where "state_save (ce_json env) no_faults (w_state_path w) nxt disk = (disk1, Inr ())"
      using replace_works [of "w_state_path w" d disk] by (cases "replace_file no_faults (w_state_path w) d disk") (simp add: state_save_def)
    moreover have "\<exists>disk2. journal_clear no_faults (w_journal_path w) disk1 = (disk2, Inr ())"
      by (simp add: journal_clear_def remove_file_def) (simp add: no_faults_def)
    then obtain disk2 where "journal_clear no_faults (w_journal_path w) disk1 = (disk2, Inr ())" by blast
    ultimately show ?thesis using Inr by (simp add: complete_pending_response_def apply_response_def)
  qed
qed

text \<open>The configured cap matters only in its comparison with the charge.\<close>

lemma note_accept_cap:
  assumes "rr2_charge_applied resp \<le> wallet_cap (native_config config)"
    and "rr2_charge_applied resp \<le> r2_solvency_bound (aq2_public_inputs (bj_prepared_request j))"
  shows "note_accept (env, native_config (capped config j)) (nj, resp) n = note_accept (env, native_config config) (nj, resp) n"
proof -
  have cap: "\<not> wallet_cap (native_config config) < rr2_charge_applied resp"
    "\<not> r2_solvency_bound (aq2_public_inputs (bj_prepared_request j)) < rr2_charge_applied resp"
    using assms by (simp_all add: not_less)
  show ?thesis using cap
    by (simp add: note_accept_def response_next_state_def Let_def wallet_cap_def) (simp add: capped_def Let_def)
qed

lemma browser_complete_capped:
  assumes "validate_state config s = Inr ()" "bj_exists j"
  shows "map_option native_state (res_ok (complete_response env config \<lparr>cra_state = s, cra_journal = j, cra_response = resp\<rparr>)) =
    res_ok (note_accept (native_env rp wp J env, native_config (capped config j)) (native_journal j, resp) (native_state s))"
proof (cases "from_hex (bs_balance_blinding s)")
  case (Inl e)
  then have "parse_scalar (bs_balance_blinding s) \<noteq> Inr b" "browser_parse_scalar (bs_balance_blinding s) \<noteq> Inr b" for b
    by (simp_all add: parse_scalar_def browser_parse_scalar_def)
  then have "\<nexists>n. note_accept (native_env rp wp J env, native_config (capped config j)) (native_journal j, resp) (native_state s) = Inr n"
    "\<nexists>n. complete_response env config \<lparr>cra_state = s, cra_journal = j, cra_response = resp\<rparr> = Inr n"
    by (auto simp: note_accept_def complete_response_def res Let_def)
  then show ?thesis by (metis obj_sumE option.map_disc_iff res_ok_chain(5))
next
  case (Inr b)
  then have b: "browser_parse_scalar (bs_balance_blinding s) = Inr b" "parse_scalar (bs_balance_blinding s) = Inr b"
    by (simp_all add: browser_parse_scalar_def parse_scalar_def)
  have v: "validate_state (capped config j) s = Inr ()"
    using assms(1) by (simp add: validate_state_def validate_state_identity_def capped_def)
  have same: "complete_response env (capped config j) a = complete_response env config a" if "cra_state a = s" for a
    using v assms(1) that by (simp add: complete_response_def Let_def) (simp add: capped_def)
  have cap: "r2_solvency_bound (aq2_public_inputs (bj_prepared_request j)) = wallet_cap (native_config (capped config j))"
    by (simp add: wallet_cap_def capped_def)
  have w: "native_wallet (capped config j) s = \<lparr>w_config = native_config (capped config j),
      w_state = Some (native_state s), w_state_path = [], w_journal_path = []\<rparr>" by (simp add: native_wallet_def)
  show ?thesis
    using browser_complete_native [OF v assms(2) b(1) cap, of env resp rp wp J] same b(2)
    by (simp add: note_accept_def native_journal_def Let_def flip: w)
qed

text \<open>A browser note of the example deposit at the native example's index, and what the witnesses need of it.\<close>

lemma toy_shared_note:
  obtains s where "browser_confirm_deposit toy_browser 4 toy_browser_config (toy_deposit_args\<lparr>cda_note_id := 7\<rparr>) = Inr s"
    "validate_state toy_browser_config s = Inr ()" "browser_note_inv toy_browser toy_browser_config s"
    "native_state s = toy_note" "note_member (be_poseidon toy_browser) (native_state s) 0 (replicate 32 0)"
proof -
  have leaf: "note_leaf (\<lambda>_. 0) i r a e = 0" for i r a e by (simp add: note_leaf_def zero_poseidon)
  obtain s where s: "browser_confirm_deposit toy_browser 4 toy_browser_config (toy_deposit_args\<lparr>cda_note_id := 7\<rparr>) = Inr s"
    "validate_state toy_browser_config s = Inr ()" "native_state s = toy_note"
    by (simp add: browser_confirm_deposit_def validate_state_identity_def validate_state_def bail_if_def Let_def
        toy_browser_config_def toy_deposit_args_def)
      (simp add: native_state_def toy_note_def new_from_deposit_def toy_browser_def leaf)
  moreover have "browser_note_inv toy_browser toy_browser_config s"
    using browser_deposit_inv [OF toy_browser_ok _ _ _ s(1)]
    by (simp add: toy_deposit_args_def toy_browser_config_def canonical_def field_modulus_def)
  moreover have "note_member (be_poseidon toy_browser) (native_state s) 0 (replicate 32 0)"
    using toy_member s(3) by (simp add: toy_browser_def toy_client_def)
  ultimately show ?thesis using that by blast
qed

lemma toy_accepts:
  assumes "pj_client_request_id j = ''id''" "pj_nullifier j = 0" "pj_user_rerandomization j = 6"
  shows "note_accept (toy_client, toy_config) (j, toy_response) toy_note = Inr toy_next_note"
proof -
  have w: "\<lparr>w_config = toy_config, w_state = Some toy_note, w_state_path = p, w_journal_path = q\<rparr>
      = toy_wallet\<lparr>w_state_path := p, w_journal_path := q\<rparr>" for p q by (simp add: toy_wallet_def)
  have "response_next_state toy_client toy_response ''id'' 0
      (compact_balance_commitment jub_curve 100 (add_blindings 4 6) 0) 6 (toy_wallet\<lparr>w_state_path := p, w_journal_path := q\<rparr>)
    = Inr toy_next_note" for p q
    using toy_next by (simp add: response_next_state_def)
  then show ?thesis
    using toy_opens note_opens_stored [OF toy_opens] compact_rerandomize_commitment [OF jub_curve_wire_ok, of 100 4 0 6]
      toy_request_hyps(2) assms
    by (simp add: note_accept_def note_opens_def w Let_def)
      (simp add: toy_client_def state_note_leaf_def note_leaf_def zero_poseidon)
qed

lemma toy_browser_accepts:
  "note_accept (native_env rp wp J toy_browser, native_config toy_browser_config) = note_accept (toy_client, toy_config)"
  by (intro ext) (simp add: note_accept_def response_next_state_def toy_browser_def toy_client_def native_env_def
      native_config_def toy_browser_config_def toy_config_def split: prod.split)

definition toy_journal :: BrowserJournal where
  "toy_journal = \<lparr>bj_exists = True, bj_client_request_id = ''id'', bj_nullifier = 0, bj_payload_hash = 0,
     bj_user_rerandomization = 6, bj_created_at_ms = 0,
     bj_prepared_request = undefined\<lparr>aq2_public_inputs := undefined\<lparr>r2_solvency_bound := 10\<rparr>\<rparr>\<rparr>"

lemma toy_browser_completes:
  assumes "validate_state toy_browser_config s = Inr ()" "native_state s = toy_note"
  shows "\<exists>s'. complete_response toy_browser toy_browser_config
      \<lparr>cra_state = s, cra_journal = toy_journal, cra_response = toy_response\<rparr> = Inr s' \<and> native_state s' = toy_next_note"
proof -
  have j: "bj_exists toy_journal" "rr2_charge_applied toy_response \<le> wallet_cap (native_config toy_browser_config)"
      "rr2_charge_applied toy_response \<le> r2_solvency_bound (aq2_public_inputs (bj_prepared_request toy_journal))"
    by (simp_all add: toy_journal_def wallet_cap_def toy_browser_config_def toy_response_def)
  have "note_accept (toy_client, toy_config) (native_journal toy_journal, toy_response) toy_note = Inr toy_next_note"
    by (rule toy_accepts) (simp_all add: native_journal_def toy_journal_def)
  then show ?thesis
    using browser_complete_capped [OF assms(1) j(1), of toy_browser toy_response None None doc_json]
      note_accept_cap [OF j(2,3), of "native_env None None doc_json toy_browser" "native_journal toy_journal" toy_note]
    by (auto simp: assms(2) toy_browser_accepts)
qed

definition toy_clearance :: ClearanceResponseV2 where
  "toy_clearance = \<lparr>cr2_status = ''ok'', cr2_withdrawal_nullifier = 0,
     cr2_signature = compact_sign jub_curve (\<lambda>_. 0) (from_seed jub_curve 6) 9 (clearance_message (\<lambda>_. 0) 2 1 99 0)\<rparr>"

section \<open>Properties\<close>

text \<open>Claim C21. The browser wallet prepares the requests the native wallet prepares. On a validated
  snapshot of the same note and configuration, with the same identifier, draw and clock, the payload's own
  hash, and a native wallet whose disk does not fail: when the native wallet has no pending request, the browser's preparation fails
  exactly when \<open>prepare_request\<close> does, and otherwise both return the same request and the native wallet has
  written to its journal file exactly the journal the browser returns to its caller. A native wallet with a
  pending request refuses instead; the browser wallet keeps no journal and leaves that to its caller.\<close>

theorem browser_prepares_like_native:
  fixes J :: "'d client_json"
  assumes "validate_state config s = Inr ()" "\<not> trim_is_empty (pra_client_request_id args)"
    and "canonical_payload_hash (be_keccak env) (as_bytes_str (pra_payload args)) = Some h"
    and "pra_created_at_ms args = now_ms t" "documents_total J" "jp \<noteq> with_extension jp ''tmp''"
  shows "case prepare_request (native_env (Some prover) wp J env) no_faults ((args_draws rho args)\<lparr>dr_now_journal := t\<rparr>)
        (pra_payload args) h (pra_active_root args) (pra_merkle_siblings args) (native_at config s sp jp) disk of
      (disk', Inr request) \<Rightarrow> (\<exists>p. prepare_request_with_prover env rho config s args prover = Inr p \<and>
        request = prq_request p \<and> disk' jp = journal_to_json J (native_journal (prq_journal p)))
    | (disk', Inl e) \<Rightarrow> disk' = disk \<and>
        (if has_pending_request (native_env (Some prover) wp J env) no_faults (native_at config s sp jp) disk
         then e = PendingRequest else \<exists>e'. prepare_request_with_prover env rho config s args prover = Inl e')"
proof -
  let ?E = "native_env (Some prover) wp J env" and ?w = "native_at config s sp jp"
  let ?build = "build_request ?E ((args_draws rho args)\<lparr>dr_now_journal := t\<rparr>) (pra_payload args) h
      (pra_active_root args) (pra_merkle_siblings args) ?w"
  note same = build_request_native [OF assms(1-4), of rho prover wp J sp jp]
  have J: "ce_json ?E = J" by (simp add: native_env_def)
  show ?thesis
  proof (cases "has_pending_request ?E no_faults ?w disk")
    case True
    then show ?thesis by (simp add: prepare_request_def)
  next
    case False
    show ?thesis
    proof (cases ?build)
      case (Inl e)
      then have "\<exists>e'. prepare_request_with_prover env rho config s args prover = Inl e'"
        using same by (cases "prepare_request_with_prover env rho config s args prover") simp_all
      then show ?thesis using False Inl by (simp add: prepare_request_def)
    next
      case (Inr rj)
      then obtain p where p: "prepare_request_with_prover env rho config s args prover = Inr p"
        "rj = (prq_request p, native_journal (prq_journal p))"
        using same by (cases "prepare_request_with_prover env rho config s args prover") simp_all
      obtain disk' where "journal_write J no_faults jp (native_journal (prq_journal p)) disk = (disk', Inr ())"
        "disk' jp = journal_to_json J (native_journal (prq_journal p))"
        using journal_write_works [OF assms(5,6)] by blast
      then show ?thesis using False Inr p by (simp add: prepare_request_def J)
    qed
  qed
qed

theorem browser_prepares_like_native_witness:
  "\<exists>s p disk'. browser_confirm_deposit toy_browser 4 toy_browser_config (toy_deposit_args\<lparr>cda_note_id := 7\<rparr>) = Inr s \<and>
    prepare_request_with_prover toy_browser 6 toy_browser_config s
      \<lparr>pra_payload = ''p'', pra_active_root = 0, pra_merkle_siblings = replicate 32 0, pra_client_request_id = ''id'',
       pra_request_time = 500, pra_created_at_ms = 500000\<rparr> (\<lambda>_ _. Some toy_proof) = Inr p \<and>
    prepare_request (native_env (Some (\<lambda>_ _. Some toy_proof)) None doc_json toy_browser) no_faults toy_draws ''p'' 0 0
      (replicate 32 0) (native_at toy_browser_config s [''s''] [''j'']) Map.empty = (disk', Inr (prq_request p)) \<and>
    disk' [''j''] = Some (DocJournal (native_journal (prq_journal p)))"
proof -
  obtain s where s: "browser_confirm_deposit toy_browser 4 toy_browser_config (toy_deposit_args\<lparr>cda_note_id := 7\<rparr>) = Inr s"
    "validate_state toy_browser_config s = Inr ()" "browser_note_inv toy_browser toy_browser_config s"
    "native_state s = toy_note" "note_member (be_poseidon toy_browser) (native_state s) 0 (replicate 32 0)"
    by (rule toy_shared_note)
  let ?args = "\<lparr>pra_payload = ''p'', pra_active_root = 0, pra_merkle_siblings = replicate 32 0, pra_client_request_id = ''id'',
       pra_request_time = 500, pra_created_at_ms = 500000\<rparr> :: PrepareRequestArgs"
  let ?prover = "\<lambda>_ _. Some toy_proof" and ?w = "native_at toy_browser_config s [''s''] [''j'']"
  let ?E = "native_env (Some ?prover) None doc_json toy_browser"
  have args: "\<not> trim_is_empty (pra_client_request_id ?args)"
    "canonical_payload_hash (be_keccak toy_browser) (as_bytes_str (pra_payload ?args)) = Some 0"
    "canonical_request_context (be_keccak toy_browser) (pra_client_request_id ?args) 0 = Some 0"
    "pra_created_at_ms ?args = now_ms 500" "documents_total doc_json" "[''j''] \<noteq> with_extension [''j''] ''tmp''"
    "(args_draws 6 ?args)\<lparr>dr_now_journal := 500\<rparr> = toy_draws"
    by (simp_all add: trim_is_empty_def toy_browser_def canonical_payload_hash_def canonical_request_context_def zero_hash
        now_ms_def documents_total_def doc_json_def with_extension_def file_stem_def args_draws_def toy_draws_def)
  have config: "browser_config_ok toy_browser toy_browser_config"
    using toy_config_ok by (auto simp: browser_config_ok_def config_ok_def keys_ok_def toy_browser_def toy_browser_config_def
        toy_client_def canonical_def field_modulus_def)
  have funds: "wallet_cap (native_config toy_browser_config) \<le> bs_current_balance s" "pra_request_time ?args \<le> bs_expiry_ts s"
    using toy_request_hyps(2,3) s(4) native_view_simps(7,8) [of s]
    by (simp_all add: wallet_cap_def toy_browser_config_def)
  obtain p where p: "prepare_request_with_prover toy_browser 6 toy_browser_config s ?args ?prover = Inr p"
  proof (rule browser_request_provable [OF toy_browser_ok s(2,3) config _ _ args(1-3) funds])
    show "note_member (be_poseidon toy_browser) (native_state s) (pra_active_root ?args) (pra_merkle_siblings ?args)"
      using s(5) by simp
    show "\<forall>p w. request_constraints (be_curve toy_browser) (be_poseidon toy_browser) p (request_assignment p w) \<longrightarrow>
        ?prover p w \<noteq> None" by blast
  qed
  have pending: "\<not> has_pending_request ?E no_faults ?w Map.empty" by (simp add: has_pending_request_def journal_read_def)
  from browser_prepares_like_native [where prover = ?prover and wp = None and rho = 6 and sp = "[''s'']" and disk = Map.empty,
      OF s(2) args(1,2,4,5,6)]
  obtain disk' where "prepare_request ?E no_faults toy_draws ''p'' 0 0 (replicate 32 0) ?w Map.empty = (disk', Inr (prq_request p))"
    "disk' [''j''] = Some (DocJournal (native_journal (prq_journal p)))"
    using p pending unfolding args(7)
    by (auto simp: doc_json_def split: prod.splits sum.splits)
  then show ?thesis using s(1) p by blast
qed

text \<open>Claim C8. The browser wallet completes responses as the native wallet does. On a validated snapshot of the
  same note and configuration, with the same journal pending on a native disk that does not fail: for every
  response whose charge is within the native wallet's configured cap and within the bound of the journaled
  request, the browser gives a next note exactly when \<open>complete_pending_response\<close> succeeds, and it is the note
  the native wallet then holds. The caps are where they differ: the browser refuses a charge above the
  journaled bound, the native wallet one above its configured cap.\<close>

theorem browser_completes_like_native:
  fixes J :: "'d client_json" and env :: "'e::ab_group_add browser_env" and rp wp
  defines "E \<equiv> native_env rp wp J env"
  assumes "validate_state config s = Inr ()" "bj_exists j" "documents_total J"
    and "journal_read J no_faults jp disk = Inr (Some (native_journal j))"
  shows "(rr2_charge_applied resp \<le> wallet_cap (native_config config) \<and>
        rr2_charge_applied resp \<le> r2_solvency_bound (aq2_public_inputs (bj_prepared_request j)) \<longrightarrow>
      map_option native_state (res_ok (complete_response env config \<lparr>cra_state = s, cra_journal = j, cra_response = resp\<rparr>)) =
      (case complete_pending_response E no_faults resp (native_at config s sp jp) disk of
         ((w, _), Inr _) \<Rightarrow> w_state w | (_, Inl _) \<Rightarrow> None)) \<and>
    (r2_solvency_bound (aq2_public_inputs (bj_prepared_request j)) < rr2_charge_applied resp \<longrightarrow>
      (\<exists>e. complete_response env config \<lparr>cra_state = s, cra_journal = j, cra_response = resp\<rparr> = Inl e)) \<and>
    (wallet_cap (native_config config) < rr2_charge_applied resp \<longrightarrow>
      (\<exists>e. snd (complete_pending_response E no_faults resp (native_at config s sp jp) disk) = Inl e))"
proof (intro conjI impI)
  let ?bound = "r2_solvency_bound (aq2_public_inputs (bj_prepared_request j))"
  have J: "documents_total (ce_json E)" "journal_read (ce_json E) no_faults (w_journal_path (native_at config s sp jp)) disk
      = Inr (Some (native_journal j))"
    using assms(4,5) by (simp_all add: E_def native_env_def)
  note native = complete_pending_works [OF J(1) _ J(2), of "native_state s" resp]
  show "map_option native_state (res_ok (complete_response env config \<lparr>cra_state = s, cra_journal = j, cra_response = resp\<rparr>)) =
      (case complete_pending_response E no_faults resp (native_at config s sp jp) disk of
         ((w, _), Inr _) \<Rightarrow> w_state w | (_, Inl _) \<Rightarrow> None)"
    if "rr2_charge_applied resp \<le> wallet_cap (native_config config) \<and> rr2_charge_applied resp \<le> ?bound"
    using browser_complete_capped [OF assms(2,3), of env resp rp wp J] native that
      note_accept_cap [of resp config j E "native_journal j" "native_state s"] by (simp add: E_def)
  show "\<exists>e. complete_response env config \<lparr>cra_state = s, cra_journal = j, cra_response = resp\<rparr> = Inl e"
    if "?bound < rr2_charge_applied resp"
  proof (rule ccontr)
    assume "\<nexists>e. complete_response env config \<lparr>cra_state = s, cra_journal = j, cra_response = resp\<rparr> = Inl e"
    then obtain s' where "complete_response env config \<lparr>cra_state = s, cra_journal = j, cra_response = resp\<rparr> = Inr s'"
      by (metis obj_sumE)
    then show False using that by (auto simp: complete_response_def Let_def res bail_if_def split: if_splits)
  qed
  show "\<exists>e. snd (complete_pending_response E no_faults resp (native_at config s sp jp) disk) = Inl e"
    if "wallet_cap (native_config config) < rr2_charge_applied resp"
  proof (rule ccontr)
    assume "\<nexists>e. snd (complete_pending_response E no_faults resp (native_at config s sp jp) disk) = Inl e"
    then obtain w' disk' where "complete_pending_response E no_faults resp (native_at config s sp jp) disk = ((w', disk'), Inr ())"
      by (cases "complete_pending_response E no_faults resp (native_at config s sp jp) disk") (metis obj_sumE old.unit.exhaust prod.exhaust snd_conv)
    from complete_note_accept [OF this] show False using that
      by (auto simp: note_accept_def response_next_state_def wallet_cap_def Let_def res bail_if_def split: if_splits)
  qed
qed

theorem browser_completes_like_native_witness:
  "\<exists>s s'. browser_confirm_deposit toy_browser 4 toy_browser_config (toy_deposit_args\<lparr>cda_note_id := 7\<rparr>) = Inr s \<and>
    complete_response toy_browser toy_browser_config \<lparr>cra_state = s, cra_journal = toy_journal, cra_response = toy_response\<rparr> = Inr s' \<and>
    native_state s' = toy_next_note \<and>
    (case complete_pending_response (native_env None None doc_json toy_browser) no_faults toy_response
        (native_at toy_browser_config s [''s''] [''j'']) [[''j''] \<mapsto> DocJournal (native_journal toy_journal)] of
       ((w, _), Inr _) \<Rightarrow> w_state w | (_, Inl _) \<Rightarrow> None) = Some toy_next_note"
proof -
  obtain s where s: "browser_confirm_deposit toy_browser 4 toy_browser_config (toy_deposit_args\<lparr>cda_note_id := 7\<rparr>) = Inr s"
    "validate_state toy_browser_config s = Inr ()" "native_state s = toy_note"
    by (rule toy_shared_note)
  let ?E = "native_env None None doc_json toy_browser" and ?w = "native_at toy_browser_config s [''s''] [''j'']"
  let ?disk = "[[''j''] \<mapsto> DocJournal (native_journal toy_journal)] :: wallet_doc disk"
  have docs: "documents_total doc_json" "journal_read doc_json no_faults [''j''] ?disk = Inr (Some (native_journal toy_journal))"
    by (simp_all add: documents_total_def journal_read_def read_to_string_def native_journal_def toy_journal_def)
      (simp_all add: doc_json_def no_faults_def)
  have "note_accept (?E, native_config toy_browser_config) (native_journal toy_journal, toy_response) toy_note = Inr toy_next_note"
    unfolding toy_browser_accepts by (rule toy_accepts) (simp_all add: native_journal_def toy_journal_def)
  moreover have "ce_json ?E = doc_json" by (simp add: native_env_def)
  ultimately have native: "(case complete_pending_response ?E no_faults toy_response ?w ?disk of
       ((w, _), Inr _) \<Rightarrow> w_state w | (_, Inl _) \<Rightarrow> None) = Some toy_next_note"
    using complete_pending_works [of ?E ?w toy_note ?disk "native_journal toy_journal" toy_response] docs s(3) by simp
  have "bj_exists toy_journal" "rr2_charge_applied toy_response \<le> wallet_cap (native_config toy_browser_config) \<and>
      rr2_charge_applied toy_response \<le> r2_solvency_bound (aq2_public_inputs (bj_prepared_request toy_journal))"
    by (simp_all add: toy_journal_def wallet_cap_def toy_browser_config_def toy_response_def)
  then have "map_option native_state (res_ok (complete_response toy_browser toy_browser_config
      \<lparr>cra_state = s, cra_journal = toy_journal, cra_response = toy_response\<rparr>)) = Some toy_next_note"
    using browser_completes_like_native [OF s(2) _ docs, of toy_response toy_browser None None "[''s'']"] native by simp
  then show ?thesis using s(1) native by auto
qed

text \<open>Claim C15. The browser wallet's withdrawals are the native ones. On a validated snapshot of the same note and
  configuration, with a proving key that reads and a destination that parses: the escape plan exists exactly
  when \<open>withdrawal_escape_hatch\<close> succeeds, with the same public inputs and proof; the mutual plan for a
  clearance is the one \<open>withdrawal_mutual_close\<close> makes when the server answers with that clearance, except that
  the browser also refuses a clearance naming another nullifier, which the native wallet does not compare.\<close>

theorem browser_withdraws_like_native:
  fixes J :: "'d client_json" and env :: "'e::ab_group_add browser_env" and rp prover config s
  defines "E \<equiv> native_env rp (Some prover) J env"
    and "plan \<equiv> (\<lambda>mode destination root siblings clearance key.
      map_option (\<lambda>plan. (wpl_public_inputs plan, wpl_proof plan)) (res_ok (prepare_withdrawal env config s
        \<lparr>pwa_mode = mode, pwa_destination = destination, pwa_active_root = root, pwa_merkle_siblings = siblings,
         pwa_clearance = clearance\<rparr> key)))"
  assumes "validate_state config s = Inr ()" "parse_address destination = Inr dest"
    and "decode_compressed (be_withdrawal_key env) key = Inr prover"
    and "request_clearance E server (nullifier (be_poseidon env) (bs_secret_s s) (bs_current_anchor s))
      (native_at config s sp jp) = Inr c"
  shows "plan ''escape'' destination root siblings None key =
      res_ok (withdrawal_escape_hatch E dest root siblings (native_at config s sp jp)) \<and>
    plan ''mutual'' destination root siblings (Some c) key =
      (if cr2_withdrawal_nullifier c = nullifier (be_poseidon env) (bs_secret_s s) (bs_current_anchor s)
       then res_ok (withdrawal_mutual_close E server dest root siblings (native_at config s sp jp)) else None)"
proof
  note defs = prepare_withdrawal_def build_withdrawal_def withdrawal_clearance_def
      withdrawal_nullifier_def Let_def native_checks bail_if_def res_ok_chain
  show "plan ''escape'' destination root siblings None key =
      res_ok (withdrawal_escape_hatch E dest root siblings (native_at config s sp jp))"
    using assms(3-5) by (simp add: plan_def E_def withdrawal_escape_hatch_def defs split: Option.bind_split)
  show "plan ''mutual'' destination root siblings (Some c) key =
      (if cr2_withdrawal_nullifier c = nullifier (be_poseidon env) (bs_secret_s s) (bs_current_anchor s)
       then res_ok (withdrawal_mutual_close E server dest root siblings (native_at config s sp jp)) else None)"
    using assms(3-6) by (simp add: plan_def E_def withdrawal_mutual_close_def defs split: Option.bind_split)
qed

theorem browser_withdraws_like_native_witness:
  "\<exists>s pub pf pub' pf'. browser_confirm_deposit toy_browser 4 toy_browser_config (toy_deposit_args\<lparr>cda_note_id := 7\<rparr>) = Inr s \<and>
    map_option (\<lambda>plan. (wpl_public_inputs plan, wpl_proof plan)) (res_ok (prepare_withdrawal toy_browser toy_browser_config s
      \<lparr>pwa_mode = ''escape'', pwa_destination = ''0x'' @ concat (map byte_hex (addr_bytes 8)), pwa_active_root = 0,
       pwa_merkle_siblings = replicate 32 0, pwa_clearance = None\<rparr> KEY_HEADER)) = Some (pub, pf) \<and>
    map_option (\<lambda>plan. (wpl_public_inputs plan, wpl_proof plan)) (res_ok (prepare_withdrawal toy_browser toy_browser_config s
      \<lparr>pwa_mode = ''mutual'', pwa_destination = ''0x'' @ concat (map byte_hex (addr_bytes 8)), pwa_active_root = 0,
       pwa_merkle_siblings = replicate 32 0, pwa_clearance = Some toy_clearance\<rparr> KEY_HEADER)) = Some (pub', pf') \<and>
    w2_final_balance pub = 100 \<and> w2_final_balance pub' = 100 \<and> w2_has_clearance pub'"
proof -
  obtain s where s: "browser_confirm_deposit toy_browser 4 toy_browser_config (toy_deposit_args\<lparr>cda_note_id := 7\<rparr>) = Inr s"
    "validate_state toy_browser_config s = Inr ()" "browser_note_inv toy_browser toy_browser_config s"
    "native_state s = toy_note" "note_member (be_poseidon toy_browser) (native_state s) 0 (replicate 32 0)"
    by (rule toy_shared_note)
  let ?J = "doc_json\<lparr>clearance_from_json := \<lambda>_. Some toy_clearance\<rparr>" and ?server = "\<lambda>_ _. Reply 200 (DocState toy_note)"
  let ?E = "native_env None (Some (\<lambda>_ _. Some toy_proof)) ?J toy_browser" and ?w = "native_at toy_browser_config s [''s''] [''j'']"
  have bal: "bs_current_balance s = 100" "bs_protocol_version s = 2" "bs_chain_id s = 1" "bs_contract_address s = 99"
    using s(4) native_view_simps(1-3,8) [of s] by (simp_all add: toy_note_def new_from_deposit_def)
  have nul: "nullifier (be_poseidon toy_browser) a b = 0" for a b by (simp add: nullifier_def toy_browser_def zero_poseidon)
  have answer: "request_clearance ?E ?server (nullifier (be_poseidon toy_browser) (bs_secret_s s) (bs_current_anchor s)) ?w
      = Inr toy_clearance"
    by (simp add: request_clearance_def http_text_def is_success_def bail_if_def native_env_def)
  have valid: "compact_verify_signature (be_curve toy_browser) (be_poseidon toy_browser) (bc_clearance_signing_key toy_browser_config)
      (clearance_message (be_poseidon toy_browser) 2 1 99 0) (cr2_signature toy_clearance) = Inr True"
    using compact_signature_verifies [OF jub_curve_wire_ok]
    by (simp add: toy_browser_def toy_browser_config_def toy_config_def toy_clearance_def)
  have E: "env_ok ?E" "keys_ok ?E (w_config ?w)" "withdrawal_prover_complete ?E (w_config ?w)"
      "note_inv ?E (w_config ?w) (native_state s)"
    using native_env_ok [OF toy_browser_ok, of None "Some (\<lambda>_ _. Some toy_proof)"] toy_config_ok s(3)
      note_inv_native_env [of None "Some (\<lambda>_ _. Some toy_proof)" ?J toy_browser _ _ None None doc_json]
    by (simp_all add: env_ok_def native_env_def state_encodable_def journal_encodable_def withdrawal_prover_complete_def
        config_ok_def keys_ok_def toy_client_def toy_browser_def toy_browser_config_def browser_note_inv_def)
  note build = withdrawal_provable [OF E(1-3) _ E(4), of 0 "replicate 32 0"]
  obtain pub pf where escape: "withdrawal_escape_hatch ?E 8 0 (replicate 32 0) ?w = Inr (pub, pf)" "w2_final_balance pub = 100"
    using build [where csig = None and has_clearance = False and dest = 8] s(5) bal(1)
    by (auto simp: withdrawal_escape_hatch_def)
  obtain pub' pf' where mutual: "withdrawal_mutual_close ?E ?server 8 0 (replicate 32 0) ?w = Inr (pub', pf')"
      "w2_final_balance pub' = 100" "w2_has_clearance pub'"
    using build [where csig = "Some (cr2_signature toy_clearance)" and has_clearance = True and dest = 8] s(5) bal valid answer nul
    by (auto simp: withdrawal_mutual_close_def bail_if_def)
  have "cr2_withdrawal_nullifier toy_clearance = 0" by (simp add: toy_clearance_def)
  then show ?thesis
    using browser_withdraws_like_native [OF s(2) parse_address_hex(1) toy_key answer, of 8 0 "replicate 32 0"] s(1) escape mutual nul
    by (auto simp: res_ok_chain(6))
qed

text \<open>A path the browser derives from a snapshot is a path of that snapshot: it is only returned when
  the advertised root is the root of the listed leaves, it has the tree's depth, it opens the listed leaf (or
  the empty one at the next index), and replacing that leaf by any value along the path gives the root of the
  changed tree.\<close>

lemma tree_path_verified:
  assumes "tree_path P snapshot note_id existing = Inr path"
  shows "btp_active_root path = spec_root P (snapshot_leaves snapshot) \<and> length (btp_siblings path) = MERKLE_DEPTH \<and>
    verify_membership P (btp_active_root path) note_id
      (if existing then ts_leaves snapshot ! unat note_id else 0) (btp_siblings path) \<and>
    compute_root P note_id v (btp_siblings path) = spec_root P ((snapshot_leaves snapshot)(note_id := v))"
proof -
  note path = tree_path_Inr [OF assms]
  have leaf: "(if existing then ts_leaves snapshot ! unat note_id else 0) = snapshot_leaves snapshot note_id"
    using path(5) by (auto simp: snapshot_leaves_def split: if_splits)
  have "(snapshot_leaves snapshot)(note_id := snapshot_leaves snapshot note_id) = snapshot_leaves snapshot" by simp
  then show ?thesis unfolding leaf verify_membership_def path(1,3,4) compute_root_spec
    by (simp add: spec_siblings_def MERKLE_DEPTH_def)
qed

text \<open>Claim C22. From an indexer snapshot to an exit: a browser note with the invariant whose leaf the snapshot
  lists at its index, with the path derived from that snapshot and a proving key that reads, gives an escape
  withdrawal of the whole balance to the parsed destination.\<close>

theorem browser_exit_from_snapshot:
  assumes "browser_env_ok env" "validate_state config s = Inr ()" "browser_note_inv env config s"
    and "point_from_wire (be_curve env) (bc_state_signing_key config) = Inr k"
    and "point_from_wire (be_curve env) (bc_clearance_signing_key config) = Inr ck"
    and "tree_path (be_poseidon env) snapshot (bs_note_id s) True = Inr path"
    and "ts_leaves snapshot ! unat (bs_note_id s) = browser_note_leaf (be_poseidon env) s"
    and "decode_compressed (be_withdrawal_key env) key = Inr prover"
    and "\<forall>p w. withdrawal_constraints (be_curve env) (be_poseidon env) p (withdrawal_assignment p w) \<longrightarrow> prover p w \<noteq> None"
    and "parse_address destination = Inr dest"
  shows "\<exists>plan. prepare_withdrawal env config s
      \<lparr>pwa_mode = ''escape'', pwa_destination = destination, pwa_active_root = btp_active_root path,
       pwa_merkle_siblings = btp_siblings path, pwa_clearance = None\<rparr> key = Inr plan \<and>
    w2_final_balance (wpl_public_inputs plan) = bs_current_balance s \<and>
    w2_destination (wpl_public_inputs plan) = dest \<and> w2_active_root (wpl_public_inputs plan) = ts_root snapshot"
proof -
  note path = tree_path_Inr [OF assms(6)]
  have "snapshot_leaves snapshot (bs_note_id s) = browser_note_leaf (be_poseidon env) s"
    using path(5) assms(7) by (simp add: snapshot_leaves_def)
  then have upd: "(snapshot_leaves snapshot)(bs_note_id s := browser_note_leaf (be_poseidon env) s) = snapshot_leaves snapshot"
    by (simp add: fun_upd_idem)
  have "length (btp_siblings path) = MERKLE_DEPTH" by (simp add: path(3) spec_siblings_def MERKLE_DEPTH_def)
  moreover from this have "merkle_root (be_poseidon env) (bs_note_id s) (browser_note_leaf (be_poseidon env) s) (btp_siblings path)
      = compute_root (be_poseidon env) (bs_note_id s) (browser_note_leaf (be_poseidon env) s) (btp_siblings path)"
    using merkle_root_eq_compute_root by blast
  ultimately have "note_member (be_poseidon env) (native_state s) (btp_active_root path) (btp_siblings path)"
    by (simp add: note_member_def path(1,3,4) compute_root_spec upd)
  from browser_escape_provable [OF assms(1-5) this assms(8-10)] show ?thesis by (simp add: path(1))
qed

theorem browser_exit_from_snapshot_witness:
  "\<exists>s path plan. tree_path (\<lambda>_. 0) toy_snapshot 0 True = Inr path \<and>
     prepare_withdrawal toy_browser toy_browser_config s
      \<lparr>pwa_mode = ''escape'', pwa_destination = ''0x'' @ concat (map byte_hex (addr_bytes 8)),
       pwa_active_root = btp_active_root path, pwa_merkle_siblings = btp_siblings path, pwa_clearance = None\<rparr> KEY_HEADER = Inr plan \<and>
     w2_final_balance (wpl_public_inputs plan) = 100 \<and> w2_destination (wpl_public_inputs plan) = 8"
proof -
  obtain s where s: "validate_state toy_browser_config s = Inr ()" "browser_note_inv toy_browser toy_browser_config s"
    "bs_current_balance s = 100" "bs_note_id s = 0" "browser_note_leaf (be_poseidon toy_browser) s = 0"
    by (rule toy_browser_note)
  have path: "tree_path (be_poseidon toy_browser) toy_snapshot (bs_note_id s) True = Inr
      \<lparr>btp_active_root = ts_root toy_snapshot, btp_note_id = 0,
       btp_siblings = get_siblings (set_leaf (\<lambda>_. 0) (MerkleTree_new (\<lambda>_. 0)) 0 0) 0\<rparr>"
    by (simp add: tree_path_def toy_snapshot_def toy_browser_def bail_if_def Let_def s(4))
  obtain k ck where "point_from_wire (be_curve toy_browser) (bc_state_signing_key toy_browser_config) = Inr k"
    "point_from_wire (be_curve toy_browser) (bc_clearance_signing_key toy_browser_config) = Inr ck"
    using toy_config_ok by (auto simp: config_ok_def keys_ok_def toy_browser_def toy_browser_config_def toy_client_def)
  from browser_exit_from_snapshot [OF toy_browser_ok s(1,2) this path _ toy_key _ parse_address_hex(1) [of 8]] s path
  show ?thesis by (auto simp: toy_snapshot_def toy_browser_def)
qed

text \<open>Claim C20. No sequence of responses, honest or not, takes more than the deposit: after a deposit and any
  responses the browser wallet completed one after the other, the charges and the remaining balance add up to
  the deposited amount, and the note still has the invariant that lets it be withdrawn. The same holds of the
  native wallet's notes.\<close>

theorem total_charges_bounded:
  assumes "browser_env_ok env" "canonical (cda_secret args)" "canonical blinding" "canonical (bc_contract_address config)"
    and "browser_confirm_deposit env blinding config args = Inr s"
    and "\<forall>(j, resp) \<in> set rs. response_canonical resp"
    and "run_all (\<lambda>(j, resp) s. complete_response env config \<lparr>cra_state = s, cra_journal = j, cra_response = resp\<rparr>) rs s = Inr s'"
    and "env_ok nenv" "note_inv nenv nconfig n" "\<forall>(j, resp) \<in> set nrs. response_canonical resp"
    and "run_all (note_accept (nenv, nconfig)) nrs n = Inr n'"
  shows "unat (bs_current_balance s') + (\<Sum>(j, resp) \<leftarrow> rs. unat (rr2_charge_applied resp)) = unat (cda_amount args) \<and>
    browser_note_inv env config s' \<and>
    unat (ns_current_balance n') + (\<Sum>(j, resp) \<leftarrow> nrs. unat (rr2_charge_applied resp)) = unat (ns_current_balance n) \<and>
    note_inv nenv nconfig n'"
proof -
  have "browser_note_inv env config s" "bs_current_balance s = cda_amount args"
    using browser_deposit_inv [OF assms(1-5)] by simp_all
  moreover have "\<forall>r \<in> set rs. case r of (j, resp) \<Rightarrow> response_canonical resp" "\<forall>r \<in> set nrs. case r of (j, resp) \<Rightarrow> response_canonical resp"
    using assms(6,10) by blast+
  ultimately show ?thesis
    using bl.run_keeps [of rs "(env, config)" s s'] nl.run_keeps [of nrs "(nenv, nconfig)" n n'] assms(1,7,8,9,11) by simp
qed

theorem total_charges_bounded_witness:
  "\<exists>s s' n. browser_confirm_deposit toy_browser 4 toy_browser_config (toy_deposit_args\<lparr>cda_note_id := 7\<rparr>) = Inr s \<and>
     complete_response toy_browser toy_browser_config \<lparr>cra_state = s, cra_journal = toy_journal, cra_response = toy_response\<rparr> = Inr s' \<and>
     unat (bs_current_balance s') + 7 = 100 \<and>
     note_accept (toy_client, toy_config) (native_journal toy_journal, toy_response) toy_note = Inr n \<and>
     unat (ns_current_balance n) + 7 = 100"
proof -
  let ?j = "native_journal toy_journal"
  obtain s where s: "browser_confirm_deposit toy_browser 4 toy_browser_config (toy_deposit_args\<lparr>cda_note_id := 7\<rparr>) = Inr s"
    "validate_state toy_browser_config s = Inr ()" "native_state s = toy_note"
    by (rule toy_shared_note)
  obtain s' where s': "complete_response toy_browser toy_browser_config
      \<lparr>cra_state = s, cra_journal = toy_journal, cra_response = toy_response\<rparr> = Inr s'"
    using toy_browser_completes [OF s(2,3)] by blast
  have note_ok: "note_inv toy_client toy_config toy_note"
    using wallet_inv_reachable [OF toy_client_ok toy_config_ok toy_reachable] toy_request_hyps(1) by (simp add: wallet_inv_def)
  have n: "note_accept (toy_client, toy_config) (?j, toy_response) toy_note = Inr toy_next_note"
    by (rule toy_accepts) (simp_all add: native_journal_def toy_journal_def)
  have "unat (bs_current_balance s') + 7 = 100 \<and> unat (ns_current_balance toy_next_note) + 7 = 100"
    using total_charges_bounded [OF toy_browser_ok _ _ _ s(1), of "[(toy_journal, toy_response)]" s' toy_client toy_config
        toy_note "[(?j, toy_response)]" toy_next_note]
      toy_client_ok note_ok toy_response_canonical s' n toy_request_hyps(2)
    by (simp add: toy_deposit_args_def toy_browser_config_def canonical_def field_modulus_def toy_response_def)
  then show ?thesis using s(1) s' n by blast
qed

text \<open>Claim C39. Destination addresses: the lower-case hexadecimal form of every address, with or without prefix,
  parses to that address. The parser is looser than its test suggests: each byte may also be a plus sign and
  one digit.\<close>

theorem address_round_trip:
  "parse_address (''0x'' @ concat (map byte_hex (addr_bytes a))) = Inr a \<and>
   parse_address (concat (map byte_hex (addr_bytes a))) = Inr a \<and>
   parse_address (concat (replicate 20 ''+1'')) = Inr (of_nat (be_value (replicate 20 1)))"
proof -
  have "chunks 2 (length (replicate 20 ''+1'')) (concat (replicate 20 ''+1'')) = replicate 20 ''+1''"
    by (rule chunks_concat) auto
  then have "chunks 2 20 (concat (replicate 20 ''+1'')) = replicate 20 ''+1''" by (simp only: length_replicate)
  moreover have "(if \<not> utf8_pair ''+1'' then Inl AddressNotUtf8 else ok_or AddressNotHex (from_str_radix16 ''+1'')) = Inr 1"
    by (simp add: utf8_pair_def from_str_radix16_def hex_digit_def)
  then have "try_map (\<lambda>chunk. if \<not> utf8_pair chunk then Inl AddressNotUtf8
      else ok_or AddressNotHex (from_str_radix16 chunk)) (replicate n ''+1'') = Inr (replicate n 1)" for n
    by (induction n) simp_all
  moreover have "strip_prefix ''0x'' (concat (replicate 20 ''+1'')) = None" "length (concat (replicate 20 ''+1'')) = 40"
    by (simp_all add: strip_prefix_def numeral_eq_Suc)
  ultimately have "parse_address (concat (replicate 20 ''+1'')) = Inr (of_nat (be_value (replicate 20 1)))"
    by (simp only: parse_address_def bail_if_def unwrap_or_def Let_def and_then_simps option.case simp_thms if_False)
  then show ?thesis using parse_address_hex by blast
qed

text \<open>Claim C40. Both deposit generators end with the first nonzero draw and never return the secret zero; they
  only keep drawing while the random field elements are zero.\<close>

theorem deposit_params_terminate:
  "(\<exists>secret reg. generate_deposit_params P draws = Some (secret, reg)) = (\<exists>d \<in> set draws. d \<noteq> 0) \<and>
   generate_deposit_params P draws = map_option (\<lambda>s. (s, registration_commitment P s)) (List.find (\<lambda>d. d \<noteq> 0) draws) \<and>
   browser_generate_deposit_params P draws =
     map_option (\<lambda>(s, reg). \<lparr>dep_secret = s, dep_registration_commitment = reg\<rparr>) (generate_deposit_params P draws)"
proof -
  have first: "generate_deposit_params P draws
      = map_option (\<lambda>s. (s, registration_commitment P s)) (List.find (\<lambda>d. d \<noteq> 0) draws)"
    by (induction draws) simp_all
  have "List.find (\<lambda>d. d \<noteq> 0) draws = None \<longleftrightarrow> \<not> (\<exists>d \<in> set draws. d \<noteq> 0)" by (auto simp: find_None_iff)
  then have "(\<exists>secret reg. generate_deposit_params P draws = Some (secret, reg)) = (\<exists>d \<in> set draws. d \<noteq> 0)"
    unfolding first by (cases "List.find (\<lambda>d. d \<noteq> 0) draws") auto
  moreover have "browser_generate_deposit_params P draws =
     map_option (\<lambda>(s, reg). \<lparr>dep_secret = s, dep_registration_commitment = reg\<rparr>) (generate_deposit_params P draws)"
    by (induction draws) simp_all
  ultimately show ?thesis using first by blast
qed

end
