(* ===== verification/Wasm_Roundtrip.thy ===== *)
theory Wasm_Roundtrip
  imports Fixture_Properties Browser_Properties
begin

text \<open>
  The check of the browser bundle (\<open>zkapi-proof/examples/wasm_roundtrip.rs\<close>): it gives a script that runs the
  shipped WebAssembly wallet a deposit, a request and a withdrawal, and verifies natively the two proofs the
  script prints. The script is not in the repository: the child process is a parameter. What is
  proved is that the check passes when the script does what the browser wallet does with the same keys.
\<close>

section \<open>Model\<close>

text \<open>The JSON object the program writes to the script, as the wallet reads its parts.\<close>

record wasm_fixture =
  wx_config :: BrowserWalletConfig
  wx_deposit :: ConfirmDepositArgs
  wx_request :: PrepareRequestArgs
  wx_withdrawal :: PrepareWithdrawalArgs

text \<open>The child: \<open>wc_run\<close> has the outcome of running \<open>node\<close> on the arguments and the written object, the exit
  status and the output, unless starting, writing or waiting fails. The rest reads its output as JSON.\<close>

record 'j wasm_child =
  wc_run :: "string list \<Rightarrow> wasm_fixture \<Rightarrow> (bool \<times> u8 list) option"
  wc_json :: "u8 list \<Rightarrow> 'j option"
  wc_request_inputs :: "'j \<Rightarrow> RequestPublicInputsV2 option"
  wc_request_proof :: "'j \<Rightarrow> Groth16ProofWire option"
  wc_withdrawal_inputs :: "'j \<Rightarrow> WithdrawalPublicInputsV2 option"
  wc_withdrawal_proof :: "'j \<Rightarrow> Groth16ProofWire option"

definition roundtrip_leaf :: "poseidon \<Rightarrow> felt" where
  "roundtrip_leaf P = note_leaf P 0 (registration_commitment P (from_u64 42)) 1000000 4000000000"

definition roundtrip_fixture :: "('e::ab_group_add, 'g, 'h, 't, 'k) example_env \<Rightarrow> wasm_fixture" where
  "roundtrip_fixture env =
     (let E = xe_curve env; P = xe_poseidon env; secret = from_u64 42; expiry = 4000000000;
          siblings = take MERKLE_DEPTH (zero_hashes P); root = merkle_root P 0 (roundtrip_leaf P) siblings in
      \<lparr>wx_config =
         \<lparr>bc_protocol_version = 2, bc_chain_id = 31337, bc_contract_address = from_u64 0x1234,
          bc_request_charge_cap = 500000, bc_policy_charge_cap = 500000, bc_policy_enabled = False,
          bc_state_signing_key = signer_public_key E (from_seed E ONE),
          bc_clearance_signing_key = signer_public_key E (from_seed E (from_u64 2))\<rparr>,
       wx_deposit = \<lparr>cda_secret = secret, cda_note_id = 0, cda_amount = 1000000, cda_expiry_ts = expiry\<rparr>,
       wx_request =
         \<lparr>pra_payload = ''browser artifact test'', pra_active_root = root, pra_merkle_siblings = siblings,
          pra_client_request_id = ''wasm-roundtrip'', pra_request_time = 2000000000, pra_created_at_ms = 2000000000000\<rparr>,
       wx_withdrawal =
         \<lparr>pwa_mode = ''escape'', pwa_destination = ''0x1111111111111111111111111111111111111111'',
          pwa_active_root = root, pwa_merkle_siblings = siblings, pwa_clearance = None\<rparr>\<rparr>)"

text \<open>\<open>directory\<close> is the repository's \<open>setup/v2\<close>, and \<open>fault n\<close> a failure of the n-th file read.\<close>

definition wasm_roundtrip_main ::
    "('e::ab_group_add, 'g, 'h, 't, 'k) example_env \<Rightarrow> 'j wasm_child \<Rightarrow> (nat \<Rightarrow> bool) \<Rightarrow> path \<Rightarrow> string list \<Rightarrow> u8 list disk \<Rightarrow>
     example_error + unit" where
  "wasm_roundtrip_main env child fault directory arguments disk =
     (let E = xe_curve env; K = xe_codec env; se = xe_setup env; fixture = roundtrip_fixture env in
      and_then (bail_if (length arguments \<noteq> 3) Usage) (\<lambda>_.
      and_then (ok_or ChildFailed (wc_run child (tl arguments) fixture)) (\<lambda>(success, stdout).
      and_then (bail_if (\<not> success) (EnsureFailed ''WASM prover failed'')) (\<lambda>_.
      and_then (ok_or DecodeFailed (wc_json child stdout)) (\<lambda>proofs.
      and_then (map_err SetupFailure (request_verifier_load se (fault 0) directory disk)) (\<lambda>request_vk.
      and_then (ok_or DecodeFailed (wc_request_inputs child proofs)) (\<lambda>request_inputs.
      and_then (ok_or DecodeFailed (wc_request_proof child proofs)) (\<lambda>request_proof.
      and_then (map_err ProofFailure (request_verify E K (xe_verify env request_vk) request_inputs request_proof)) (\<lambda>ok.
      and_then (bail_if (\<not> ok) (EnsureFailed ''WASM request proof invalid'')) (\<lambda>_.
      and_then (map_err SetupFailure (withdrawal_verifier_load se (fault 1) directory disk)) (\<lambda>withdrawal_vk.
      and_then (ok_or DecodeFailed (wc_withdrawal_inputs child proofs)) (\<lambda>withdrawal_inputs.
      and_then (ok_or DecodeFailed (wc_withdrawal_proof child proofs)) (\<lambda>withdrawal_proof.
      and_then (map_err ProofFailure (withdrawal_verify E K (xe_verify env withdrawal_vk) withdrawal_inputs
        withdrawal_proof)) (\<lambda>ok.
      bail_if (\<not> ok) (EnsureFailed ''WASM withdrawal proof invalid'')))))))))))))))"

section \<open>What the browser wallet prints\<close>

lemma prepared_request_proved:
  assumes "prepare_request_with_prover env rho config s args prover = Inr prepared"
  obtains wit where "request_prove (be_curve env) (be_poseidon env) (be_codec env) prover
    (aq2_public_inputs (prq_request prepared)) wit = Inr (aq2_proof (prq_request prepared))"
  using assms by (auto simp: prepare_request_with_prover_def Let_def res)

lemma planned_withdrawal_proved:
  assumes "prepare_withdrawal env config s args key = Inr plan" "decode_compressed (be_withdrawal_key env) key = Inr prover"
  obtains wit where "withdrawal_prove (be_curve env) (be_poseidon env) (be_codec env) prover
    (wpl_public_inputs plan) wit = Inr (wpl_proof plan)"
  using assms by (auto simp: prepare_withdrawal_def Let_def res)

lemma chunks_numeral: "chunks n (numeral k) xs = take n xs # chunks n (pred_numeral k) (drop n xs)"
  by (simp add: numeral_eq_Suc)

lemma roundtrip_destination: "\<exists>dest. parse_address ''0x1111111111111111111111111111111111111111'' = Inr dest"
  by (simp add: parse_address_def strip_prefix_def chunks_numeral utf8_pair_def from_str_radix16_def hex_digit_def bail_if_def)

lemma roundtrip_contract_address: "from_hex ''0x1234'' = Inr (from_u64 0x1234)"
proof -
  have "from_hex (''0x'' @ concat [''12'', ''34'']) = try_from_bytes_be (replicate (32 - length [''12'', ''34'']) 0 @ [0x12, 0x34])"
    by (rule from_hex_digit_pairs)
      (simp_all add: continuation_def from_str_radix16_def hex_digit_def strip_prefix_def)
  also have "\<dots> = Inr (from_u64 0x1234)"
    by (simp add: try_from_bytes_be_eq be_value_append be_value_Cons felt_of_bytes_def field_modulus_def word_unat_eq_iff unat_from_u64)
  finally show ?thesis by simp
qed

text \<open>The note the script deposits.\<close>

lemma roundtrip_note:
  assumes env: "browser_env_ok benv" "be_curve benv = xe_curve env" "be_poseidon benv = xe_poseidon env"
    and "canonical blinding" and fx: "fx = roundtrip_fixture env"
  obtains s where "browser_confirm_deposit benv blinding (wx_config fx) (wx_deposit fx) = Inr s"
    "validate_state (wx_config fx) s = Inr ()" "browser_note_inv benv (wx_config fx) s" "browser_config_ok benv (wx_config fx)"
    "bs_current_balance s = 1000000" "bs_expiry_ts s = 4000000000"
    "note_member (be_poseidon benv) (native_state s) (pra_active_root (wx_request fx)) (pra_merkle_siblings (wx_request fx))"
proof -
  have E: "edwards_wire_ok (xe_curve env)" using env(1,2) by (simp add: browser_env_ok_def)
  have fields: "bc_contract_address (wx_config fx) = from_u64 0x1234" "cda_secret (wx_deposit fx) = from_u64 42"
    "cda_amount (wx_deposit fx) = 1000000" "bc_protocol_version (wx_config fx) = 2"
    by (simp_all add: fx roundtrip_fixture_def Let_def)
  have "\<not> is_zero (from_u64 0x1234)" "\<not> is_zero (from_u64 42)"
    using unat_from_u64 [of "0x1234"] unat_from_u64 [of 42] by (auto simp: is_zero_iff)
  then obtain s where s: "browser_confirm_deposit benv blinding (wx_config fx) (wx_deposit fx) = Inr s"
    and valid: "validate_state (wx_config fx) s = Inr ()"
    by (auto simp: browser_confirm_deposit_def validate_state_def validate_state_identity_def bail_if_def fields Let_def)
  have inv: "browser_note_inv benv (wx_config fx) s" "bs_current_balance s = 1000000"
    using browser_deposit_inv [OF env(1) _ assms(4) _ s] by (simp_all add: fields small_felts)
  have state: "bs_note_id s = 0" "bs_secret_s s = from_u64 42" "bs_deposit_amount s = 1000000" "bs_expiry_ts s = 4000000000"
    using s by (auto simp: browser_confirm_deposit_def res Let_def fx roundtrip_fixture_def)
  then have "browser_note_leaf (be_poseidon benv) s = roundtrip_leaf (xe_poseidon env)"
    by (simp add: browser_note_leaf_def roundtrip_leaf_def env(3))
  then have member: "note_member (be_poseidon benv) (native_state s) (pra_active_root (wx_request fx)) (pra_merkle_siblings (wx_request fx))"
    using length_empty_path [of "xe_poseidon env"] state
    by (simp add: note_member_def env(3) fx roundtrip_fixture_def MERKLE_DEPTH_def Let_def)
  have "browser_config_ok benv (wx_config fx)"
    using signer_key [OF E] by (simp add: browser_config_ok_def fx roundtrip_fixture_def env(2) small_felts Let_def)
  from that [OF s valid inv(1) this inv(2) state(4) member] show ?thesis .
qed

text \<open>Both proofs of the browser wallet pass the native verifier of the same setup.\<close>

lemma bundle_request_verifies:
  assumes laws: "example_laws env pc" "se_request_setup (xe_setup env) c = Some (pk, vk)"
    and env: "browser_env_ok benv" "be_curve benv = xe_curve env" "be_poseidon benv = xe_poseidon env" "be_codec benv = xe_codec env"
    and draws: "canonical blinding"
      "canonical_payload_hash (be_keccak benv) (as_bytes_str ''browser artifact test'') = Some h"
      "canonical_request_context (be_keccak benv) ''wasm-roundtrip'' h = Some ctx"
    and fx: "fx = roundtrip_fixture env" and s: "browser_confirm_deposit benv blinding (wx_config fx) (wx_deposit fx) = Inr s"
  obtains prepared where
    "prepare_request_with_prover benv rho (wx_config fx) s (wx_request fx) (xe_prove_request env i pk) = Inr prepared"
    "request_verify (xe_curve env) (xe_codec env) (xe_verify env vk) (aq2_public_inputs (prq_request prepared))
       (aq2_proof (prq_request prepared)) = Inr True"
proof -
  let ?E = "xe_curve env" and ?P = "xe_poseidon env" and ?K = "xe_codec env"
  have lib: "request_keys_complete (xe_setup env) ?K ?P (xe_prove_request env i)" "codec_ok ?K"
    "groth16_law (se_bn254 (xe_setup env)) vk (xe_verify env vk)"
    using laws(1) by (simp_all add: example_laws_def)
  have prover: "\<forall>p w. request_constraints ?E ?P p (request_assignment p w) \<longrightarrow> xe_prove_request env i pk p w \<noteq> None"
    using lib(1) laws(2) unfolding request_keys_complete_def by fastforce
  obtain sp: "validate_state (wx_config fx) s = Inr ()" "browser_note_inv benv (wx_config fx) s" "browser_config_ok benv (wx_config fx)"
    and balance: "bs_current_balance s = 1000000" "bs_expiry_ts s = 4000000000"
    and member: "note_member (be_poseidon benv) (native_state s) (pra_active_root (wx_request fx)) (pra_merkle_siblings (wx_request fx))"
    using roundtrip_note [OF env(1-3) draws(1) fx] s by (metis sum.inject(2))
  have request: "pra_payload (wx_request fx) = ''browser artifact test''" "pra_client_request_id (wx_request fx) = ''wasm-roundtrip''"
    "pra_request_time (wx_request fx) = 2000000000" "wallet_cap (native_config (wx_config fx)) = 500000"
    by (simp_all add: fx roundtrip_fixture_def Let_def wallet_cap_def)
  obtain prepared where prepared: "prepare_request_with_prover benv rho (wx_config fx) s (wx_request fx) (xe_prove_request env i pk) = Inr prepared"
    using browser_request_provable [OF env(1) sp member, of "xe_prove_request env i pk" h ctx rho] prover draws(2,3)
    by (auto simp: request env(2,3) balance trim_is_empty_def)
  obtain wit where "request_prove ?E ?P ?K (xe_prove_request env i pk) (aq2_public_inputs (prq_request prepared)) wit
      = Inr (aq2_proof (prq_request prepared))"
    by (rule prepared_request_proved [OF prepared, unfolded env(2-4)])
  then show ?thesis using that [OF prepared] by (rule proved_request [OF lib(2,1) laws(2) lib(3)])
qed

lemma bundle_withdrawal_verifies:
  assumes laws: "example_laws env pc" "se_withdrawal_setup (xe_setup env) c = Some (pk, vk)"
    and env: "browser_env_ok benv" "be_curve benv = xe_curve env" "be_poseidon benv = xe_poseidon env" "be_codec benv = xe_codec env"
    and "canonical blinding" and key: "decode_compressed (be_withdrawal_key benv) key = Inr (xe_prove_withdrawal env j pk)"
    and fx: "fx = roundtrip_fixture env" and s: "browser_confirm_deposit benv blinding (wx_config fx) (wx_deposit fx) = Inr s"
  obtains plan where "prepare_withdrawal benv (wx_config fx) s (wx_withdrawal fx) key = Inr plan"
    "withdrawal_verify (xe_curve env) (xe_codec env) (xe_verify env vk) (wpl_public_inputs plan) (wpl_proof plan) = Inr True"
proof -
  let ?E = "xe_curve env" and ?P = "xe_poseidon env" and ?K = "xe_codec env"
  have lib: "withdrawal_keys_complete (xe_setup env) ?K ?P (xe_prove_withdrawal env j)" "codec_ok ?K"
    "groth16_law (se_bn254 (xe_setup env)) vk (xe_verify env vk)"
    using laws(1) by (simp_all add: example_laws_def)
  have prover: "\<forall>p w. withdrawal_constraints ?E ?P p (withdrawal_assignment p w) \<longrightarrow> xe_prove_withdrawal env j pk p w \<noteq> None"
    using lib(1) laws(2) unfolding withdrawal_keys_complete_def by fastforce
  obtain sp: "validate_state (wx_config fx) s = Inr ()" "browser_note_inv benv (wx_config fx) s" "browser_config_ok benv (wx_config fx)"
    and member: "note_member (be_poseidon benv) (native_state s) (pra_active_root (wx_request fx)) (pra_merkle_siblings (wx_request fx))"
    using roundtrip_note [OF env(1-3) assms(7) fx] s by (metis sum.inject(2))
  obtain dest where dest: "parse_address ''0x1111111111111111111111111111111111111111'' = Inr dest"
    using roundtrip_destination by blast
  have args: "wx_withdrawal fx = \<lparr>pwa_mode = ''escape'', pwa_destination = ''0x1111111111111111111111111111111111111111'',
      pwa_active_root = pra_active_root (wx_request fx), pwa_merkle_siblings = pra_merkle_siblings (wx_request fx),
      pwa_clearance = None\<rparr>"
    by (simp add: fx roundtrip_fixture_def Let_def)
  obtain sk ck where points: "point_from_wire (be_curve benv) (bc_state_signing_key (wx_config fx)) = Inr sk"
    "point_from_wire (be_curve benv) (bc_clearance_signing_key (wx_config fx)) = Inr ck"
    using sp(3) by (auto simp: browser_config_ok_def)
  obtain plan where plan: "prepare_withdrawal benv (wx_config fx) s (wx_withdrawal fx) key = Inr plan"
    using browser_escape_provable [OF env(1) sp(1,2) points member key _ dest] prover unfolding args env(2,3) by blast
  obtain wit where "withdrawal_prove ?E ?P ?K (xe_prove_withdrawal env j pk) (wpl_public_inputs plan) wit = Inr (wpl_proof plan)"
    by (rule planned_withdrawal_proved [OF plan key, unfolded env(2-4)])
  then show ?thesis using that [OF plan] by (rule proved_withdrawal [OF lib(2,1) laws(2) lib(3)])
qed

text \<open>Claim C23. The browser bundle verifies natively: with keys from a directory that \<open>setup.rs\<close> filled, if the
  script confirms the deposit, prepares the request and prepares the escape withdrawal as the browser wallet does
  and prints what they return, then none of the three fails, and the check ends with success: the native
  verifiers, loaded from the directory, accept both proofs.\<close>

theorem browser_bundle_verifies:
  assumes laws: "example_laws env pc" and setup_run: "setup_codec_ok (xe_setup env)"
      "setup_main (xe_setup env) io exists (Some directory) disk0 = (disk, Inr ())"
    and env: "browser_env_ok benv" "be_curve benv = xe_curve env" "be_poseidon benv = xe_poseidon env" "be_codec benv = xe_codec env"
    and draws: "canonical blinding"
      "canonical_payload_hash (be_keccak benv) (as_bytes_str ''browser artifact test'') = Some h"
      "canonical_request_context (be_keccak benv) ''wasm-roundtrip'' h = Some ctx"
    and shipped: "request_prover_load (xe_setup env) False directory disk = Inr rpk"
      "withdrawal_prover_load (xe_setup env) False directory disk = Inr wpk"
      "decode_compressed (be_withdrawal_key benv) key = Inr (xe_prove_withdrawal env j wpk)"
    and fx: "fx = roundtrip_fixture env"
    and script: "\<forall>s prepared plan. browser_confirm_deposit benv blinding (wx_config fx) (wx_deposit fx) = Inr s \<longrightarrow>
      prepare_request_with_prover benv rho (wx_config fx) s (wx_request fx) (xe_prove_request env i rpk) = Inr prepared \<longrightarrow>
      prepare_withdrawal benv (wx_config fx) s (wx_withdrawal fx) key = Inr plan \<longrightarrow>
      (\<exists>out json. wc_run child [prover_script, sdk] fx = Some (True, out) \<and> wc_json child out = Some json \<and>
         wc_request_inputs child json = Some (aq2_public_inputs (prq_request prepared)) \<and>
         wc_request_proof child json = Some (aq2_proof (prq_request prepared)) \<and>
         wc_withdrawal_inputs child json = Some (wpl_public_inputs plan) \<and>
         wc_withdrawal_proof child json = Some (wpl_proof plan))"
  shows "wasm_roundtrip_main env child (\<lambda>_. False) directory [program, prover_script, sdk] disk = Inr ()"
proof -
  obtain k rpk' rvk wpk' wvk where "se_request_setup (xe_setup env) (request_template (xe_curve env) k) = Some (rpk', rvk)"
      "se_withdrawal_setup (xe_setup env) (withdrawal_template k) = Some (wpk', wvk)"
    and files: "setup_done (xe_setup env) directory disk rpk' rvk wpk' wvk"
    by (rule setup_main_done [OF setup_run])
  then have keys: "se_request_setup (xe_setup env) (request_template (xe_curve env) k) = Some (rpk, rvk)"
      "se_withdrawal_setup (xe_setup env) (withdrawal_template k) = Some (wpk, wvk)"
    using shipped(1,2) by (simp_all add: setup_done_def)
  obtain s where s: "browser_confirm_deposit benv blinding (wx_config fx) (wx_deposit fx) = Inr s"
    by (rule roundtrip_note [OF env(1-3) draws(1) fx])
  obtain prepared where request:
    "prepare_request_with_prover benv rho (wx_config fx) s (wx_request fx) (xe_prove_request env i rpk) = Inr prepared"
    "request_verify (xe_curve env) (xe_codec env) (xe_verify env rvk) (aq2_public_inputs (prq_request prepared))
       (aq2_proof (prq_request prepared)) = Inr True"
    by (rule bundle_request_verifies [OF laws keys(1) env draws fx s])
  obtain plan where withdrawal: "prepare_withdrawal benv (wx_config fx) s (wx_withdrawal fx) key = Inr plan"
    "withdrawal_verify (xe_curve env) (xe_codec env) (xe_verify env wvk) (wpl_public_inputs plan) (wpl_proof plan) = Inr True"
    by (rule bundle_withdrawal_verifies [OF laws keys(2) env draws(1) shipped(3) fx s])
  obtain out json where "wc_run child [prover_script, sdk] fx = Some (True, out)" "wc_json child out = Some json"
    "wc_request_inputs child json = Some (aq2_public_inputs (prq_request prepared))"
    "wc_request_proof child json = Some (aq2_proof (prq_request prepared))"
    "wc_withdrawal_inputs child json = Some (wpl_public_inputs plan)" "wc_withdrawal_proof child json = Some (wpl_proof plan)"
    using script s request(1) withdrawal(1) by blast
  then show ?thesis
    using files request(2) withdrawal(2) by (simp add: wasm_roundtrip_main_def Let_def setup_done_def bail_if_def flip: fx)
qed

text \<open>A child that runs the browser wallet of the model.\<close>

definition toy_bundle :: "jub_group browser_env" where
  "toy_bundle = \<lparr>be_curve = jub_curve, be_poseidon = (\<lambda>_. 0), be_keccak = (\<lambda>_. replicate 32 0), be_codec = toy_codec,
     be_request_key = (\<lambda>bs. Some (\<lambda>_ _. Some toy_proof, bs)), be_withdrawal_key = (\<lambda>bs. Some (\<lambda>_ _. Some toy_proof, bs))\<rparr>"

definition toy_child :: "(PreparedRequest \<times> WithdrawalPlan) wasm_child" where
  "toy_child = \<lparr>wc_run = (\<lambda>_ _. Some (True, [])),
     wc_json = (\<lambda>_. res_ok (and_then (browser_confirm_deposit toy_bundle 4 (wx_config (roundtrip_fixture toy_examples))
         (wx_deposit (roundtrip_fixture toy_examples))) (\<lambda>s.
       and_then (prepare_request_with_prover toy_bundle 6 (wx_config (roundtrip_fixture toy_examples)) s
         (wx_request (roundtrip_fixture toy_examples)) (\<lambda>_ _. Some toy_proof)) (\<lambda>prepared.
       and_then (prepare_withdrawal toy_bundle (wx_config (roundtrip_fixture toy_examples)) s
         (wx_withdrawal (roundtrip_fixture toy_examples)) KEY_HEADER) (\<lambda>plan. Inr (prepared, plan)))))),
     wc_request_inputs = (\<lambda>j. Some (aq2_public_inputs (prq_request (fst j)))),
     wc_request_proof = (\<lambda>j. Some (aq2_proof (prq_request (fst j)))),
     wc_withdrawal_inputs = (\<lambda>j. Some (wpl_public_inputs (snd j))), wc_withdrawal_proof = (\<lambda>j. Some (wpl_proof (snd j)))\<rparr>"

theorem browser_bundle_verifies_witness:
  "\<exists>disk. setup_main (toy_setup 7) no_setup_faults (\<lambda>_. False) (Some [''setup'']) Map.empty = (disk, Inr ()) \<and>
     wasm_roundtrip_main toy_examples toy_child (\<lambda>_. False) [''setup''] [''wasm_roundtrip'', ''prove.mjs'', ''sdk''] disk = Inr ()"
proof -
  obtain disk where run: "setup_main (toy_setup 7) no_setup_faults (\<lambda>_. False) (Some [''setup'']) Map.empty = (disk, Inr ())"
    by (rule toy_setup_main)
  have toy: "xe_setup toy_examples = toy_setup 7" "xe_curve toy_examples = jub_curve" "xe_poseidon toy_examples = (\<lambda>_. 0)"
    "xe_codec toy_examples = toy_codec" "xe_prove_request toy_examples i pk = (\<lambda>_ _. Some toy_proof)"
    "xe_prove_withdrawal toy_examples i pk = (\<lambda>_ _. Some toy_proof)" "se_curve (toy_setup 7) = jub_curve"
    "se_poseidon (toy_setup 7) = (\<lambda>_. 0)" for i pk
    by (simp_all add: toy_examples_def toy_setup_def)
  have bundle_ok: "browser_env_ok toy_bundle" "be_curve toy_bundle = jub_curve" "be_poseidon toy_bundle = (\<lambda>_. 0)"
    "be_codec toy_bundle = toy_codec" "be_keccak toy_bundle = (\<lambda>_. replicate 32 0)"
    "decode_compressed (be_withdrawal_key toy_bundle) KEY_HEADER = Inr (\<lambda>_ _. Some toy_proof)"
    using jub_curve_wire_ok
    by (simp_all add: browser_env_ok_def toy_bundle_def poseidon_ok_def keccak_ok_def field_modulus_def decode_compressed_def
        strip_prefix_def bail_if_def)
  have hash: "canonical_payload_hash (\<lambda>_. replicate 32 0) bs = Some 0"
    "canonical_request_context (\<lambda>_. replicate 32 0) id h = Some 0" for bs id h
    by (simp_all add: canonical_payload_hash_def canonical_request_context_def zero_hash)
  obtain k rpk rvk wpk wvk where "setup_done (toy_setup 7) [''setup''] disk rpk rvk wpk wvk"
    by (rule setup_main_done [OF toy_setup_ok(1) run])
  then have load: "request_prover_load (xe_setup toy_examples) False [''setup''] disk = Inr rpk"
    "withdrawal_prover_load (xe_setup toy_examples) False [''setup''] disk = Inr wpk"
    by (simp_all add: setup_done_def toy)
  have "wasm_roundtrip_main toy_examples toy_child (\<lambda>_. False) [''setup''] [''wasm_roundtrip'', ''prove.mjs'', ''sdk''] disk = Inr ()"
    by (rule browser_bundle_verifies [OF toy_examples_laws _ _ bundle_ok(1) _ _ _ _ _ _ load _ refl,
          where blinding = 4 and rho = 6 and key = KEY_HEADER and h = 0 and ctx = 0 and i = 0 and j = 0])
      (use run toy_setup_ok(1) in \<open>simp_all add: toy bundle_ok hash toy_child_def res_ok_chain canonical_small\<close>)
  then show ?thesis using run by blast
qed

end
