(* ===== verification/Spec2Isabelle.thy ===== *)
theory Spec2Isabelle
  imports Legacy_Properties Cli Browser_Wasm Bench_Properties Wasm_Roundtrip Server_Properties Browser_Properties
begin

text \<open>
  \<^bold>\<open>Verification of zkAPI\<close>

  zkAPI lets a user pay for API requests from a private prepaid note. The user deposits funds in a
  vault contract; the deposit becomes a leaf of a Merkle tree that an indexer mirrors from contract
  events. For each request the wallet proves in zero knowledge that it knows an unexpired note with
  enough balance, reveals a nullifier of its current state and a rerandomised balance commitment, and
  journals the request. The server checks the proof, reserves the nullifier, executes the request,
  charges at most a cap, updates the commitment homomorphically, signs the next state and stores the
  transcript; the wallet verifies the reply and moves to the next state. At any time the wallet can
  withdraw, with the server's clearance or through a challengeable escape hatch; the server challenges
  withdrawals of spent states with stored transcripts.

  \<^bold>\<open>Theories and sources\<close> (paths below \<open>src/rust/crates\<close>)

  \<^item> \<open>Prelude\<close>: machine integers, \<open>Result\<close> and \<open>Option\<close> combinators, big-endian bytes, chunks.
  \<^item> \<open>Felt\<close>, \<open>Types\<close>, \<open>Inputs\<close>, \<open>Wire\<close> (\<open>zkapi-types\<close>): 256-bit field elements with their hex,
    integer, address and Boolean encodings; protocol constants, domain tags and signature shapes; the
    public inputs of both protocol versions and the Keccak hashes with their rejection loop; the
    messages of the HTTP interface.
  \<^item> \<open>Core_V2\<close>, \<open>Merkle\<close> (\<open>zkapi-core\<close>): every protocol hash of both versions; the sparse tree.
  \<^item> \<open>Indexer\<close> (\<open>zkapi-indexer\<close>): contract events, the tree mirror, the query service.
  \<^item> \<open>Pedersen\<close>, \<open>Xmss\<close> (\<open>zkapi-crypto\<close>): version 1 commitments, one-time and Merkle signatures.
  \<^item> \<open>Server_Store\<close>, \<open>Signer\<close>, \<open>Processor\<close> (\<open>zkapi-server\<close>: \<open>nullifier_store.rs\<close>, \<open>signer.rs\<close>,
    \<open>processor.rs\<close>, \<open>provider.rs\<close>, \<open>config.rs\<close>, \<open>error.rs\<close>, \<open>watcher.rs\<close> and the error mapping of
    \<open>routes.rs\<close>): the SQLite table as a list of rows, the two key pairs with durable leaf counters and
    their lock, and request, clearance, recovery and challenge handling.
  \<^item> \<open>Server_Safety\<close>, \<open>Server_Properties\<close>: the interleaving of any number of requests, clearances,
    faults and restarts as a step relation with its invariant, and the server's properties.
  \<^item> \<open>Server_App\<close> (constructors, \<open>routes.rs\<close>): opening the database, start-up, the router and its
    handlers, and whole sessions of HTTP requests with restarts.
  \<^item> \<open>Groth16\<close>, \<open>Compact\<close> (\<open>zkapi-proof\<close>: \<open>groth16.rs\<close>, \<open>compact.rs\<close>): native hashes, Baby-JubJub
    commitments, Schnorr signatures, the constraints of the request and the withdrawal circuit; points,
    scalars, signatures, public inputs, proofs and key files on the wire; provers and verifiers.
  \<^item> \<open>Solidity_Poseidon\<close>, \<open>Solidity_Verifier\<close>, \<open>Setup\<close> (the second half of \<open>compact.rs\<close>): the hash
    library and the verifier contract the setup command writes, function by function on 256-bit words;
    the command itself, its manifest, and the loading of its files; \<open>Contract\<close>: a proof made with the
    keys of a setup is accepted natively and by the generated contract.
  \<^item> \<open>Fixtures\<close>, \<open>Fixture_Properties\<close>, \<open>Bench\<close>, \<open>Bench_Properties\<close>, \<open>Wasm_Roundtrip\<close>
    (\<open>zkapi-proof/examples\<close>): the programs that create a setup directory, print fixtures for the tests of
    the contracts, measure proofs, and check the browser bundle. Their notes are instances of the wallet's.
  \<^item> \<open>Client_Store\<close>, \<open>Wallet_V2\<close>, \<open>Wallet_Safety\<close>, \<open>Wallet_Properties\<close> (\<open>zkapi-client\<close>:
    \<open>error.rs\<close>, \<open>config.rs\<close>, \<open>journal.rs\<close>, \<open>note_state.rs\<close>, \<open>wallet_v2.rs\<close>): the note state and
    the journal on a disk that may fail, every wallet operation, the wallet's invariant over all
    operations, failures and restarts, and its properties.
  \<^item> \<open>Legacy_Wallet\<close>, \<open>Legacy_Properties\<close> (\<open>zkapi-client/src/wallet.rs\<close>): the version 1 wallet and its
    exchange with the version 1 server. The file is in the tree but not among the crate's modules, and it uses
    note fields and a directory of the configuration that \<open>note_state.rs\<close> and \<open>config.rs\<close> do not declare; the
    records \<open>LegacyNoteState\<close> and \<open>LegacyWallet\<close> follow its uses.
  \<^item> \<open>Browser\<close>, \<open>Browser_Properties\<close> (\<open>zkapi-browser\<close>): the browser wallet's pure operations and
    their correspondence with the native wallet; \<open>Browser_Wasm\<close>: the functions exported to JavaScript.
  \<^item> \<open>Cli\<close> (\<open>zkapi-cli\<close>): every command with its output.
  \<^item> This theory: the property that spans setup, indexer, tree, circuits, wallet and contract.

  \<^bold>\<open>How the code is modelled\<close>

  Structs are records, enums datatypes, integers words of their width, fallible functions sums with the
  error on the left; a panic is the error \<open>Panicked\<close> or \<open>ClientPanicked\<close>, or \<open>None\<close>. State is passed
  explicitly: the server's table, signer and root; the wallet in memory beside the disk. A step that
  the code runs under one lock or one SQL statement is one function; what may interleave is a
  separate step of \<open>job_step\<close>. Database and disk faults, clock readings, random draws, identifiers and
  replies of the other side are arguments, so the properties quantify over all of them.

  \<^bold>\<open>Parameters and their laws.\<close> Code outside the repository is a parameter: Keccak-256
  (\<open>keccak_ok\<close>: 32 bytes), Poseidon over the scalar field (\<open>poseidon_ok\<close>: a field element) and over the
  Starknet field (\<open>stark_ok\<close>), the STARK curve (\<open>curve_ok\<close>: an abelian group of the documented order),
  Baby-JubJub (\<open>edwards_ok\<close>, \<open>edwards_wire_ok\<close>: group order, coordinates, subgroup), Base64
  (\<open>codec_ok\<close>), JSON (encoding canonical values and reading them back; \<open>web_ok\<close>: a decoded field
  element is canonical), the API provider, the Poseidon constants (\<open>finder_ok\<close>: their number and range),
  the pairing groups and the precompiled contracts (\<open>bn254_ok\<close>, \<open>precompiles_ok\<close>: the documented
  arithmetic and refusals), the encoding of keys (\<open>setup_codec_ok\<close>), and the Groth16 prover and verifier
  (\<open>groth16_law\<close>: the documented pairing check; \<open>request_keys_complete\<close>, \<open>withdrawal_keys_complete\<close>: a proof
  of a satisfied circuit passes it; \<open>example_laws\<close> collects these for the programs of the examples). \<open>legacy_trusts\<close> says that a version 1 wallet is configured for its server. No collision resistance is assumed: where it matters the statement
  names the two colliding inputs. Every property with such a hypothesis has a witness at a concrete
  instance; \<open>scalar_group\<close> and \<open>jub_group\<close> are the concrete curve groups.

  \<^bold>\<open>Interfaces.\<close> \<open>codec\<close> and \<open>canonical_codec\<close> (encodings), \<open>authenticated_store\<close> and
  \<open>appendable_store\<close> (the tree, used by the indexer), \<open>homomorphic_commitment\<close> (both commitment
  schemes), \<open>leaf_allocator\<close> (one-time keys, in memory and durable), \<open>nullifier_registry\<close> (the table),
  \<open>durable_file\<close> (the state file and the journal) and \<open>note_ledger\<close> (both wallets), each interpreted on
  the model's own definitions.

  \<^bold>\<open>What is shown\<close>

  \<^item> Exit and balance: a reachable wallet can always withdraw its whole balance (C1, C22), and the
    contract that setup generated accepts the proof it makes from the indexer's path (C9); responses take
    at most the cap and exactly their charge (C5), and all charges together never exceed the deposit
    (C20); requests can be prepared and are durable (C14); every reachable note is well formed (C17).
  \<^item> Server: replies to one nullifier agree in every interleaving (C2), a served request is charged and
    signed correctly (C3), one-time keys are never reused across crashes and restarts (C4), what a retry
    gets (C6), also over HTTP after a restart (C7), challenges and clearance (C31, C32), the sequential
    handler as one schedule of its phases (lemma \<open>process_request_reachable\<close>), stored transcripts and
    recovery (lemmas \<open>transcript_round_trip\<close>, \<open>recovery_returns_reply\<close>).
  \<^item> The browser wallet prepares, completes and withdraws as the native wallet does (C21, C8, C15), with
    the differences the statements name. The version 1 wallet, whose file is unused, accepts what the server
    answers or recovers it (lemma \<open>legacy_exchange_completes\<close>).
  \<^item> Proofs: both circuits accept exactly their statements (C10, C11), the generated contract and the
    native verifier decide alike (C12), the generated hash library computes the native hash and the
    indexer's roots (C13, C18), nullifiers bind (C28), setup and the loaders fit (C30), the hashes of the
    crates agree (lemmas \<open>core_hashes_agree\<close>, \<open>core_config_same\<close>), and the version 1 generators are points
    of their curve (lemma \<open>generators_on_curve\<close>).
  \<^item> The programs around the prover: the native verifiers accept what the browser wallet proves (C23), the
    contract accepts the fixtures of the vault's challenge, for the indexer's roots (C24), and those of the
    verifier's test (lemma \<open>solidity_fixtures_accepted\<close>); the benchmark completes in every case (C26) and
    never panics (lemma \<open>bench_never_panics\<close>), and its distributions bound and cover the samples (lemmas
    \<open>distribution_ordered\<close>, \<open>p95_covers\<close>).
  \<^item> Data structures and encodings: tree refinement and uniqueness of openings (C16, C19), indexer (C29),
    XMSS and Pedersen (C25, C27), request contexts (C33), addresses (C39), termination of the deposit
    loop (C40). Paths, one-time signatures, field elements, proofs and key files have their round trips
    as lemmas: \<open>siblings_verify\<close>, \<open>tree_path_verified\<close>, \<open>challenge_restores_root\<close>,
    \<open>wots_correct_and_no_dominance\<close>, \<open>signer_signatures_verify\<close>, \<open>felt_hex_round_trip\<close>,
    \<open>public_inputs_injective\<close>, \<open>proof_wire_round_trip\<close>, \<open>key_file_round_trip\<close>,
    \<open>withdrawal_verifiers_agree\<close>.
  \<^item> Defects stated as theorems: C34 to C38; the lemmas \<open>stored_charge_overflow\<close> and
    \<open>next_note_id_stuck\<close>.

  \<^bold>\<open>Bounds and fuel.\<close> No fuel is used: the rejection loop of the Keccak hashes ends with its 32-bit
  counter, the generator search runs over all counters, tree loops over the 32 levels, and the deposit
  loop over the list of random draws, where it is shown that one nonzero draw ends it. Indices, counters
  and charges stay words, so wrap-around is part of the model. The server stores a 128-bit charge in a signed
  64-bit column and does not bound its cap: replies agree up to \<open>stored_reply\<close>, and identically where the
  statement names a cap below \<open>2 ^ 63\<close>. XMSS trees have a height below 32.

  \<^bold>\<open>Simplified\<close>: the provider is a function of request id, payload and hash, so one that answers a repeated
  call differently is not expressed; the subgroup check that the circuit library adds for the point of a
  signature is not written out among the constraints (points read from the wire are checked).

  \<^bold>\<open>Not modelled\<close>: argument parsing of the command line and logging, the development-only proof mode of
  the version 1 wallet, the fixed wording of the generated Solidity files (their functions are modelled, the
  text around the literals is a function of them), the hand-written Solidity contracts and the Cairo
  programs. Floating-point numbers, which occur in the benchmark and in the OpenRouter lease messages, are a
  type with unspecified operations. File permissions and directories matter only through the failures they
  cause.
\<close>

section \<open>From the indexer to the vault\<close>

text \<open>The root and the path an indexer serves let a reachable wallet build its escape withdrawal.\<close>

lemma indexed_note_can_be_withdrawn:
  assumes "env_ok env" "config_ok env config" "withdrawal_prover_complete env config"
    and "wallet_reachable env config (w, disk)" "w_state w = Some s"
    and "es = before @ NoteDeposited (ns_note_id s) (registration_commitment (ce_poseidon env) (ns_secret_s s))
        (ns_deposit_amount s) (ns_expiry_ts s) new_root # after"
    and "\<forall>e \<in> set after. ev_note_id e \<noteq> ns_note_id s"
    and "m = replay (ce_poseidon env) es (TreeMirror_new (ce_poseidon env))"
  shows "\<exists>pub pf. withdrawal_escape_hatch env dest (service_get_root m) (service_get_note_path m (ns_note_id s)) w
      = Inr (pub, pf) \<and> w2_final_balance pub = ns_current_balance s \<and> w2_destination pub = dest"
proof -
  let ?P = "ce_poseidon env" and ?i = "ns_note_id s"
  have inv: "mirror_inv ?P m" unfolding assms(8) by (rule mirror_inv_replay [OF mirror_inv_new])
  have "filter (\<lambda>e. ev_note_id e = ?i) after = []" using assms(7) by (simp add: filter_empty_conv)
  then have "note_view m ?i = (state_note_leaf ?P s, Some (state_note_leaf ?P s))"
    unfolding assms(6,8) note_view_replay [OF mirror_inv_new]
    by (simp add: compute_note_leaf_def state_note_leaf_def)
  then have leaf: "get_leaf (tree m) ?i = state_note_leaf ?P s" by (simp add: note_view_def mirror_get_leaf_def)
  have len: "length (get_siblings (tree m) ?i) = MERKLE_DEPTH" by (simp add: MERKLE_DEPTH_def)
  have "compute_root ?P ?i (get_leaf (tree m) ?i) (get_siblings (tree m) ?i) = tree_root (tree m)"
    using mt.member inv by (simp add: mirror_inv_def)
  then have member: "note_member ?P s (service_get_root m) (service_get_note_path m ?i)"
    using merkle_root_eq_compute_root [OF len, of ?P ?i "state_note_leaf ?P s"] len
    by (simp add: note_member_def service_get_root_def service_get_note_path_def mirror_root_def get_path_def leaf)
  note winv = wallet_inv_reachable [OF assms(1,2,4)]
  have cfg: "w_config w = config" "note_inv env (w_config w) s" using winv assms(5) by (simp_all add: wallet_inv_def)
  have "keys_ok env (w_config w)" using assms(2) by (simp add: config_ok_def cfg(1))
  from withdrawal_provable [OF assms(1) this assms(3) [folded cfg(1)] assms(5) cfg(2) member, where csig = None and has_clearance = False and dest = dest]
  show ?thesis by (auto simp: withdrawal_escape_hatch_def)
qed

text \<open>Where the proof of a built withdrawal comes from, and the public inputs the contract is shown.\<close>

lemma built_withdrawal:
  assumes "build_withdrawal env dest root siblings clearance csig w = Inr (pub, wire)" "w_state w = Some s"
  shows "\<exists>prover p wit pf. ce_withdrawal_prover env (setup_dir (w_config w)) = Some prover \<and>
      withdrawal_public_from_wire (ce_curve env) pub = Inr p \<and>
      withdrawal_constraints (ce_curve env) (ce_poseidon env) p (withdrawal_assignment p wit) \<and>
      prover p wit = Some pf \<and> wire = proof_to_wire (ce_codec env) pf"
    and "w2_contract_address pub = ns_contract_address s" "w2_active_root pub = root"
    "w2_state_signing_key_x pub = cp_x (cc_state_signing_key (w_config w))"
    "w2_state_signing_key_y pub = cp_y (cc_state_signing_key (w_config w))"
    "w2_clearance_signing_key_x pub = cp_x (cc_clearance_signing_key (w_config w))"
    "w2_clearance_signing_key_y pub = cp_y (cc_clearance_signing_key (w_config w))"
    "w2_withdrawal_nullifier pub = nullifier (ce_poseidon env) (ns_secret_s s) (ns_current_anchor s)"
    "w2_withdrawal_tag pub = withdrawal_tag (ce_poseidon env)
       (nullifier (ce_poseidon env) (ns_secret_s s) (ns_current_anchor s)) (destination_field dest)
       (ns_current_balance s) clearance"
  using assms by (auto simp: build_withdrawal_def destination_field_def Let_def res dest!: withdrawal_prove_InrD)

lemma canonical_served_root:
  assumes "poseidon_ok P" "mirror_inv P m"
  shows "canonical (service_get_root m)"
proof -
  have "canonical (spec_node P L (Suc l) n)" for L l n
    using canonical_hash_domain [OF assms(1)] by (simp add: merkle_node_def)
  from this [of _ 31 0] have "canonical (spec_root P L)" for L by (simp add: spec_root_def del: spec_node.simps)
  then show ?thesis using assms(2) by (simp add: service_get_root_def mirror_root_def mirror_inv_def tree_root_spec)
qed

text \<open>The public values of a withdrawal the wallet builds are reduced.\<close>

lemma built_values_canonical:
  assumes "build_withdrawal env dest root siblings clearance csig w = Inr (pub, wire)" "w_state w = Some s"
    and "poseidon_ok (ce_poseidon env)" "canonical root"
    and "canonical (cp_x (cc_state_signing_key (w_config w)))" "canonical (cp_y (cc_state_signing_key (w_config w)))"
    and "canonical (cp_x (cc_clearance_signing_key (w_config w)))" "canonical (cp_y (cc_clearance_signing_key (w_config w)))"
    and "sol_withdrawal_inputs pub = Some inputs"
  shows "\<forall>v \<in> set (sol_withdrawal_values inputs). canonical v"
  using assms(4-9) built_withdrawal(2-) [OF assms(1,2)] canonical_hash_domain [OF assms(3)]
  by (auto simp: sol_withdrawal_inputs_def sol_withdrawal_values_def canonical_ucast nullifier_def withdrawal_tag_def
      canonical_small)

text \<open>Claim C9. The exit through every component: a directory filled by the setup command, the contract
  compiled from the verifier source in it, a wallet that loads its prover from it, and an indexer that has
  replayed a history with the deposit of the wallet's note and no later event of that note. Whatever the
  server and the disk did before, the wallet builds the escape withdrawal of its whole balance from the root
  and path the indexer serves, and the contract's verifier accepts its proof.\<close>

theorem escape_withdrawal_accepted_by_contract:
  assumes "env_ok env" "config_ok env config" "wallet_reachable env config (w, disk)" "w_state w = Some s"
    and setup_run: "setup_codec_ok se" "run_setup se io directory disk0 = (setup_disk, Inr ())"
      "se_curve se = ce_curve env" "withdrawal_keys_complete se (ce_codec env) (ce_poseidon env) prove"
      "ce_withdrawal_prover env (setup_dir config) = map_option prove (res_ok (withdrawal_prover_load se False directory setup_disk))"
    and chain: "codec_ok (ce_codec env)" "bn254_ok (ce_codec env) (se_bn254 se)"
      "precompiles_ok (ce_codec env) (se_bn254 se) pc"
    and keys: "canonical (cp_x (cc_clearance_signing_key config))" "canonical (cp_y (cc_clearance_signing_key config))"
    and "felt_to_address (ns_contract_address s) = Some contract"
    and history: "es = before @ NoteDeposited (ns_note_id s) (registration_commitment (ce_poseidon env) (ns_secret_s s))
        (ns_deposit_amount s) (ns_expiry_ts s) new_root # after" "\<forall>e \<in> set after. ev_note_id e \<noteq> ns_note_id s"
      "m = replay (ce_poseidon env) es (TreeMirror_new (ce_poseidon env))"
  shows "\<exists>pub wire request_source withdrawal_source vk inputs bytes.
    withdrawal_escape_hatch env dest (service_get_root m) (service_get_note_path m (ns_note_id s)) w = Inr (pub, wire) \<and>
    w2_final_balance pub = ns_current_balance s \<and> w2_destination pub = dest \<and>
    setup_disk (directory @ [SOLIDITY_VERIFIER_FILE]) = Some (se_verifier_text se request_source withdrawal_source) \<and>
    compile_vk withdrawal_source = Some vk \<and> sol_withdrawal_inputs pub = Some inputs \<and>
    b64_decode (ce_codec env) (gw_proof wire) = Some bytes \<and>
    assertValidWithdrawal pc vk inputs bytes = Some ()"
proof -
  let ?E = "ce_curve env" and ?K = "ce_codec env" and ?P = "ce_poseidon env" and ?B = "se_bn254 se"
  obtain k rpk rvk wpk wvk where gen: "se_withdrawal_setup se (withdrawal_template k) = Some (wpk, wvk)"
    and files: "setup_done se directory setup_disk rpk rvk wpk wvk"
    using run_setup_Inr [OF setup_run(1,2)] by blast
  then have prover: "ce_withdrawal_prover env (setup_dir config) = Some (prove wpk)"
    using setup_run(5) by (simp add: setup_done_def)
  have ic: "length (vk_gamma_abc_g1 wvk) = 15"
    and complete: "withdrawal_constraints ?E ?P p (withdrawal_assignment p wit) \<Longrightarrow> \<exists>pf. prove wpk p wit = Some pf \<and>
        proof_valid ?K pf \<and> groth16_accepts ?B wvk (wp_to_field_elements ?E p) pf" for p wit
    using setup_run(4) gen unfolding withdrawal_keys_complete_def setup_run(3) by blast+
  have "withdrawal_prover_complete env config"
    unfolding withdrawal_prover_complete_def using prover complete by fastforce
  from indexed_note_can_be_withdrawn [OF assms(1,2) this assms(3,4) history]
  obtain pub wire where built: "withdrawal_escape_hatch env dest (service_get_root m) (service_get_note_path m (ns_note_id s)) w = Inr (pub, wire)"
    and pub: "w2_final_balance pub = ns_current_balance s" "w2_destination pub = dest" by blast
  have cfg: "w_config w = config" using wallet_inv_reachable [OF assms(1-3)] by (simp add: wallet_inv_def)
  note build = built [unfolded withdrawal_escape_hatch_def] assms(4)
  obtain p wit pf where p: "withdrawal_public_from_wire ?E pub = Inr p"
    and "withdrawal_constraints ?E ?P p (withdrawal_assignment p wit)" "prove wpk p wit = Some pf"
    and wire: "wire = proof_to_wire ?K pf"
    using built_withdrawal(1) [OF build] prover by (auto simp: cfg)
  then have pf: "proof_valid ?K pf" "groth16_accepts ?B wvk (wp_to_field_elements ?E p) pf" using complete by force+
  obtain inputs where inputs: "sol_withdrawal_inputs pub = Some inputs"
    using assms(15) built_withdrawal(2) [OF build] by (simp add: sol_withdrawal_inputs_def)
  have root: "canonical (service_get_root m)"
    using canonical_served_root mirror_inv_replay [OF mirror_inv_new] assms(1) history(3) by (auto simp: env_ok_def)
  have P: "poseidon_ok ?P" and E: "edwards_wire_ok ?E" using assms(1) by (simp_all add: env_ok_def)
  have "\<forall>v \<in> set (sol_withdrawal_values inputs). canonical v"
    using built_values_canonical [OF build P root _ _ _ _ inputs] assms(2) keys by (simp add: cfg config_ok_def)
  from accepted_proof_asserted [OF E chain(2,3,1) ic p inputs this pf]
  show ?thesis
    using built pub inputs files wire_proof_bytes(1) [OF chain(1) pf(1)] compile_vk_functions [of ?B wvk]
    unfolding wire setup_done_def by blast
qed

theorem escape_withdrawal_accepted_by_contract_witness:
  "\<exists>setup_disk pub wire vk inputs bytes. let m = replay (\<lambda>_. 0)
       [NoteDeposited 3 5 6 7 0, NoteDeposited 7 0 100 1000 0, ExpiredClaimed 3 6 0] (TreeMirror_new (\<lambda>_. 0)) in
     run_setup (toy_setup 7) no_setup_faults [''setup''] Map.empty = (setup_disk, Inr ()) \<and>
     withdrawal_escape_hatch toy_client 8 (service_get_root m) (service_get_note_path m 7) toy_wallet = Inr (pub, wire) \<and>
     w2_final_balance pub = 100 \<and> sol_withdrawal_inputs pub = Some inputs \<and>
     b64_decode toy_codec (gw_proof wire) = Some bytes \<and> assertValidWithdrawal toy_precompiles vk inputs bytes = Some ()"
proof -
  obtain setup_disk where run: "run_setup (toy_setup 7) no_setup_faults [''setup''] Map.empty = (setup_disk, Inr ())"
    using run_setup_succeeds [OF _ toy_setup_ok(2), of 7 "[''setup'']" Map.empty] jub_curve_wire_ok
    by (cases "run_setup (toy_setup 7) no_setup_faults [''setup''] Map.empty") (simp add: toy_setup_def)
  have env: "ce_poseidon toy_client = (\<lambda>_. 0)" "ce_curve toy_client = jub_curve" "ce_codec toy_client = toy_codec"
    by (simp_all add: toy_client_def)
  have s: "ns_note_id toy_note = 7" "ns_deposit_amount toy_note = 100" "ns_expiry_ts toy_note = 1000"
    "registration_commitment (\<lambda>_. 0) (ns_secret_s toy_note) = 0" "ns_contract_address toy_note = 99"
    by (simp_all add: toy_note_def new_from_deposit_def registration_commitment_def zero_poseidon)
  have se: "se_curve (toy_setup 7) = ce_curve toy_client" "se_bn254 (toy_setup 7) = toy_bn254"
    by (simp_all add: toy_setup_def env)
  have complete: "withdrawal_keys_complete (toy_setup 7) (ce_codec toy_client) (ce_poseidon toy_client) (\<lambda>_ _ _. Some toy_proof)"
    using toy_proof_valid toy_proof_accepted
    by (simp add: withdrawal_keys_complete_def toy_setup_def env) (simp add: toy_key_def)
  have prover: "ce_withdrawal_prover toy_client (setup_dir toy_config)
      = map_option (\<lambda>_ _ _. Some toy_proof) (res_ok (withdrawal_prover_load (toy_setup 7) False [''setup''] setup_disk))"
    using run_setup_Inr [OF toy_setup_ok(1) run] by (auto simp: setup_done_def toy_client_def)
  have keys: "canonical (cp_x (cc_clearance_signing_key toy_config))" "canonical (cp_y (cc_clearance_signing_key toy_config))"
    using edwards_wire_okD(2,3) [OF jub_curve_wire_ok]
    by (simp_all add: toy_config_def signer_public_key_def point_to_wire_def canonical_def unat_field_to_felt)
  have addr: "felt_to_address (ns_contract_address toy_note) = Some 99" by (simp add: s felt_to_address_eq_Some)
  show ?thesis
    using escape_withdrawal_accepted_by_contract [OF toy_client_ok toy_config_ok toy_reachable toy_request_hyps(1)
        toy_setup_ok(1) run se(1) complete prover _ _ _ keys addr _ _ refl,
        of toy_precompiles _ "[NoteDeposited 3 5 6 7 0]" 0 "[ExpiredClaimed 3 6 0]"]
      toy_codec_ok toy_bn254_ok toy_precompiles_ok run toy_request_hyps(2)
    by (simp add: Let_def env s se(2)) metis
qed

end
